(* ===== verification/Prelude.thy ===== *)
theory Prelude
  imports Main "HOL-Library.AList" "HOL-Library.Sublist" "HOL-Library.Char_ord"
    "HOL-Library.List_Lexorder" "HOL-Library.Product_Lexorder" "HOL-Library.Code_Target_Nat"
begin

text \<open>
  The prelude of the development: the Go values every component uses, and the lemmas on them.

  \<^item> A Go map is a \<open>gomap\<close>: an association list with distinct keys. Lookup is \<open>map_of\<close>,
    assignment is \<open>AList.update\<close> (in place for a key that is present, at the end otherwise),
    \<open>delete\<close> is \<open>AList.delete\<close>, and a \<open>range\<close> loop runs over the list. Go leaves the order of
    iteration open; the list's order is one such order, and where a result could depend on it
    the components prove that it does not. A map that may be \<open>nil\<close> is a \<open>gomap option\<close>.
  \<^item> Go's error returns are sums: \<open>Inl e\<close> is a non-nil error, \<open>Inr v\<close> a result.
  \<^item> Strings are lists of characters; the helpers are those of Go's \<open>strings\<close> and \<open>strconv\<close>
    packages that the sources call.
\<close>

named_theorems gomap_simps \<open>lookups, keys and counts after map assignments and deletions\<close>
named_theorems str_simps \<open>prefixes, suffixes, splitting and decimal text\<close>

section \<open>Go maps\<close>

type_synonym ('k, 'v) gomap = "('k \<times> 'v) list"

abbreviation keys :: "('k, 'v) gomap \<Rightarrow> 'k list" where
  "keys m \<equiv> map fst m"

text \<open>\<open>m[k]\<close> on a key that is absent gives the zero value \<open>d\<close> of the element type.\<close>

definition getz :: "'v \<Rightarrow> ('k, 'v) gomap \<Rightarrow> 'k \<Rightarrow> 'v" where
  "getz d m k = (case map_of m k of None \<Rightarrow> d | Some v \<Rightarrow> v)"

text \<open>Reading a map that may be \<open>nil\<close>: a \<open>nil\<close> map reads as an empty one.\<close>

definition mof :: "('k, 'v) gomap option \<Rightarrow> ('k, 'v) gomap" where
  "mof m = (case m of None \<Rightarrow> [] | Some m' \<Rightarrow> m')"

lemma mof_simps [simp]: "mof None = []" "mof (Some m) = m"
  by (simp_all add: mof_def)

lemma getz_simps [gomap_simps]:
  "map_of m k = None \<Longrightarrow> getz d m k = d"
  "map_of m k = Some v \<Longrightarrow> getz d m k = v"
  by (simp_all add: getz_def)

lemma map_of_update [simp, gomap_simps]: "map_of (AList.update k v m) = (map_of m)(k \<mapsto> v)"
  by (rule update_conv')

lemma map_of_delete [simp, gomap_simps]: "map_of (AList.delete k m) = (map_of m)(k := None)"
  by (rule delete_conv')

lemma getz_update [gomap_simps]: "getz d (AList.update k v m) k' = (if k' = k then v else getz d m k')"
  by (simp add: getz_def)

lemma keys_update [gomap_simps]:
  "keys (AList.update k v m) = (if k \<in> set (keys m) then keys m else keys m @ [k])"
  by (induction m) auto

lemma set_keys_update: "set (keys (AList.update k v m)) = insert k (set (keys m))"
  by (auto simp: keys_update)

lemma fst_set_update: "fst ` set (AList.update k v m) = insert k (fst ` set m)"
  using set_keys_update [of k v m] by simp

lemma keys_delete [gomap_simps]: "keys (AList.delete k m) = filter (\<lambda>k'. k' \<noteq> k) (keys m)"
  by (induction m) (auto simp: AList.delete_eq)

lemma distinct_keys_update: "distinct (keys m) \<Longrightarrow> distinct (keys (AList.update k v m))"
  by (auto simp: keys_update)

lemma length_update_le: "length (AList.update k v m) \<le> Suc (length m)"
  by (induction m) auto

lemma distinct_keys_delete: "distinct (keys m) \<Longrightarrow> distinct (keys (AList.delete k m))"
  by (simp add: keys_delete)

lemma map_of_in_keys: "map_of m k = Some v \<Longrightarrow> k \<in> set (keys m)"
  by (metis map_of_SomeD imageI fst_conv set_map)

lemma in_keys_map_of: "k \<in> set (keys m) \<Longrightarrow> \<exists>v. map_of m k = Some v"
  by (metis map_of_eq_None_iff not_None_eq set_map)

lemma map_of_None_keys: "map_of m k = None \<longleftrightarrow> k \<notin> set (keys m)"
  by (simp add: map_of_eq_None_iff)

lemmas gomap_keys = distinct_keys_update distinct_keys_delete map_of_in_keys

text \<open>The number of \<open>true\<close> entries of a boolean map.\<close>

definition count_true :: "('k, bool) gomap \<Rightarrow> nat" where
  "count_true m = length (filter snd m)"

lemma count_true_simps [simp]:
  "count_true [] = 0"
  "count_true (p # m) = (if snd p then Suc (count_true m) else count_true m)"
  by (simp_all add: count_true_def)

lemma count_true_update:
  assumes "distinct (keys m)" and "map_of m k = Some b"
  shows "count_true (AList.update k b' m) + of_bool b = count_true m + of_bool b'"
  using assms
proof (induction m)
  case Nil
  then show ?case by simp
next
  case (Cons p m)
  obtain j c where p: "p = (j, c)" by (cases p)
  show ?case
  proof (cases "j = k")
    case True
    with Cons.prems p show ?thesis by (auto simp: count_true_def)
  next
    case False
    with Cons.prems p have "distinct (keys m)" "map_of m k = Some b" by auto
    from Cons.IH [OF this] False p show ?thesis by auto
  qed
qed

lemma count_true_split: "count_true m + length (filter (\<lambda>p. \<not> snd p) m) = length m"
  unfolding count_true_def by (rule sum_length_filter_compl)

lemma length_update: "k \<in> set (keys m) \<Longrightarrow> length (AList.update k v m) = length m"
  by (metis keys_update length_map)

lemma update_fresh: "k \<notin> set (keys m) \<Longrightarrow> AList.update k v m = m @ [(k, v)]"
  by (induction m) auto

section \<open>Strings\<close>

text \<open>\<open>strings.HasPrefix\<close> and \<open>strings.HasSuffix\<close> are the library's \<open>prefix\<close> and \<open>suffix\<close>.\<close>

definition TrimPrefix :: "string \<Rightarrow> string \<Rightarrow> string" where
  "TrimPrefix s p = (if prefix p s then drop (length p) s else s)"

definition TrimSuffix :: "string \<Rightarrow> string \<Rightarrow> string" where
  "TrimSuffix s q = (if suffix q s then take (length s - length q) s else s)"

lemma TrimPrefix_append [simp, str_simps]: "TrimPrefix (p @ s) p = s"
  by (simp add: TrimPrefix_def)

lemma TrimSuffix_append [simp, str_simps]: "TrimSuffix (s @ q) q = s"
  by (simp add: TrimSuffix_def suffix_def)

lemma suffix_append_self [simp, str_simps]: "suffix q (s @ q)"
  by (simp add: suffix_def)

text \<open>\<open>strings.Join\<close>.\<close>

fun join :: "string \<Rightarrow> string list \<Rightarrow> string" where
  "join sep [] = []"
| "join sep [x] = x"
| "join sep (x # y # xs) = x @ sep @ join sep (y # xs)"

lemma join_Cons: "xs \<noteq> [] \<Longrightarrow> join sep (x # xs) = x @ sep @ join sep xs"
  by (cases xs) auto

text \<open>\<open>strings.Split\<close> at a one-character separator: always at least one part.\<close>

fun split_on :: "char \<Rightarrow> string \<Rightarrow> string list" where
  "split_on c [] = [[]]"
| "split_on c (x # xs) =
     (if x = c then [] # split_on c xs
      else case split_on c xs of [] \<Rightarrow> [[x]] | p # ps \<Rightarrow> (x # p) # ps)"

lemma split_on_nonempty [simp]: "split_on c s \<noteq> []"
  by (induction s) (auto split: list.splits)

lemma split_on_no_sep: "c \<notin> set s \<Longrightarrow> split_on c s = [s]"
  by (induction s) auto

lemma split_on_append: "c \<notin> set s \<Longrightarrow> split_on c (s @ c # t) = s # split_on c t"
  by (induction s) auto

lemma split_on_join:
  "xs \<noteq> [] \<Longrightarrow> \<forall>x \<in> set xs. c \<notin> set x \<Longrightarrow> split_on c (join [c] xs) = xs"
proof (induction "[c]" xs rule: join.induct)
  case (2 x)
  then show ?case by (simp add: split_on_no_sep)
next
  case (3 x y xs)
  then show ?case by (simp add: split_on_append)
qed simp

lemma join_head: "join sep ((a # x) # xs) = a # join sep (x # xs)"
  by (cases xs) auto

lemma split_on_parts: "join [c] (split_on c s) = s"
  by (induction s) (auto simp: join_Cons join_head split: list.splits)

section \<open>Numbers as text\<close>

definition digit_char :: "nat \<Rightarrow> char" where
  "digit_char n = (if n < 10 then char_of (48 + n) else char_of (87 + n))"

definition is_digit :: "char \<Rightarrow> bool" where
  "is_digit c = (let k = (of_char c :: nat) in 48 \<le> k \<and> k \<le> 57)"

definition is_hex :: "char \<Rightarrow> bool" where
  "is_hex c = (let k = (of_char c :: nat) in
     (48 \<le> k \<and> k \<le> 57) \<or> (97 \<le> k \<and> k \<le> 102) \<or> (65 \<le> k \<and> k \<le> 70))"

definition digit_val :: "char \<Rightarrow> nat" where
  "digit_val c = (let k = (of_char c :: nat) in
     if k \<le> 57 then k - 48 else if 97 \<le> k then k - 87 else k - 55)"

text \<open>\<open>strconv.Itoa\<close> on a natural number (base 10) and netip's lower-case hexadecimal (base 16).\<close>

function to_base :: "nat \<Rightarrow> nat \<Rightarrow> string" where
  "to_base b n = (if b < 2 \<or> n < b then [digit_char n]
                  else to_base b (n div b) @ [digit_char (n mod b)])"
  by pat_completeness auto
termination
  by (relation "measure snd") auto

declare to_base.simps [simp del]

definition val_base :: "nat \<Rightarrow> string \<Rightarrow> nat" where
  "val_base b s = foldl (\<lambda>a c. a * b + digit_val c) 0 s"

lemma digit_val_digit_char [simp]: "n < 16 \<Longrightarrow> digit_val (digit_char n) = n"
  by (auto simp: digit_val_def digit_char_def Let_def of_char_of)

lemma is_digit_digit_char [simp]: "n < 10 \<Longrightarrow> is_digit (digit_char n)"
  by (auto simp: is_digit_def digit_char_def Let_def of_char_of)

lemma is_hex_digit_char [simp]: "n < 16 \<Longrightarrow> is_hex (digit_char n)"
  by (auto simp: is_hex_def digit_char_def Let_def of_char_of)

lemma digit_char_eq_zero: "n < 16 \<Longrightarrow> digit_char n = CHR ''0'' \<longleftrightarrow> n = 0"
proof -
  assume "n < 16"
  then have "digit_val (digit_char n) = n" by simp
  moreover have "digit_val (CHR ''0'') = 0" by (simp add: digit_val_def)
  moreover have "digit_char 0 = CHR ''0''" by (simp add: digit_char_def char_of_eq_iff)
  ultimately show ?thesis by metis
qed

lemma to_base_ne [simp]: "to_base b n \<noteq> []"
  by (subst to_base.simps) simp

lemma val_to_base: "2 \<le> b \<Longrightarrow> b \<le> 16 \<Longrightarrow> val_base b (to_base b n) = n"
proof (induction b n rule: to_base.induct)
  case (1 b n)
  show ?case
  proof (cases "n < b")
    case True
    then show ?thesis using "1.prems" by (simp add: to_base.simps [of b n] val_base_def)
  next
    case False
    with 1 have "val_base b (to_base b (n div b)) = n div b" by auto
    moreover have "n mod b < 16" using "1.prems" mod_less_divisor [of b n] by linarith
    ultimately show ?thesis using False "1.prems"
      by (simp add: to_base.simps [of b n] val_base_def)
  qed
qed

lemma to_base_digits: "2 \<le> b \<Longrightarrow> b \<le> 16 \<Longrightarrow> c \<in> set (to_base b n) \<Longrightarrow> \<exists>d < b. c = digit_char d"
proof (induction b n rule: to_base.induct)
  case (1 b n)
  show ?case
  proof (cases "n < b")
    case True
    then show ?thesis using "1.prems" by (auto simp: to_base.simps [of b n])
  next
    case False
    have m: "n mod b < b" using "1.prems"(1) by simp
    from False "1.prems" consider "c \<in> set (to_base b (n div b))" | "c = digit_char (n mod b)"
      by (auto simp: to_base.simps [of b n])
    then show ?thesis
    proof cases
      case 1
      with "1.IH" "1.prems" False show ?thesis by simp
    next
      case 2
      with m show ?thesis by blast
    qed
  qed
qed

lemma to_base_length: "2 \<le> b \<Longrightarrow> n < b ^ k \<Longrightarrow> 0 < k \<Longrightarrow> length (to_base b n) \<le> k"
proof (induction k arbitrary: n)
  case (Suc k)
  show ?case
  proof (cases "n < b")
    case True
    then show ?thesis by (subst to_base.simps) simp
  next
    case False
    with Suc.prems have k: "0 < k" by (cases k) auto
    have "n div b < b ^ k"
      using Suc.prems by (simp add: less_mult_imp_div_less mult.commute)
    from Suc.IH [OF Suc.prems(1) this k] False Suc.prems(1) show ?thesis
      by (subst to_base.simps) simp
  qed
qed simp

lemma hd_to_base_zero: "2 \<le> b \<Longrightarrow> b \<le> 16 \<Longrightarrow> hd (to_base b n) = CHR ''0'' \<Longrightarrow> n = 0"
proof (induction b n rule: to_base.induct)
  case (1 b n)
  show ?case
  proof (cases "n < b")
    case True
    then show ?thesis using "1.prems" digit_char_eq_zero [of n]
      by (simp add: to_base.simps [of b n])
  next
    case False
    with 1 have "n div b = 0" by (simp add: to_base.simps [of b n])
    with False "1.prems"(1) show ?thesis by (auto simp: div_eq_0_iff)
  qed
qed

abbreviation dec :: "nat \<Rightarrow> string" where
  "dec \<equiv> to_base 10"

abbreviation hex :: "nat \<Rightarrow> string" where
  "hex \<equiv> to_base 16"

lemma dec_is_digit [str_simps]: "c \<in> set (dec n) \<Longrightarrow> is_digit c"
  using to_base_digits [of 10 c n] by auto

lemma hex_is_hex: "c \<in> set (hex n) \<Longrightarrow> is_hex c"
  using to_base_digits [of 16 c n] by auto

lemma dec_inject [simp, str_simps]: "dec m = dec n \<longleftrightarrow> m = n"
proof
  assume "dec m = dec n"
  then have "val_base 10 (dec m) = val_base 10 (dec n)" by simp
  then show "m = n" by (simp add: val_to_base)
qed simp

lemma dec_no_leading_zero: "hd (dec n) = CHR ''0'' \<Longrightarrow> dec n = ''0''"
  using hd_to_base_zero [of 10 n] by (simp add: to_base.simps [of 10 0] digit_char_def char_of_eq_iff)

lemma not_digit_chars [simp]:
  "\<not> is_digit (CHR ''.'')" "\<not> is_digit (CHR '':'')" "\<not> is_digit (CHR ''-'')"
  "\<not> is_hex (CHR '':'')" "\<not> is_hex (CHR ''.'')" "\<not> is_hex (CHR ''%'')"
  by (simp_all add: is_digit_def is_hex_def)

text \<open>The first part of a string up to a separator, when the part is followed by it or ends.\<close>

lemma takeWhile_all: "\<forall>c \<in> set s. P c \<Longrightarrow> \<not> P x \<Longrightarrow> takeWhile P (s @ x # t) = s"
  by (induction s) auto

lemma dropWhile_all: "\<forall>c \<in> set s. P c \<Longrightarrow> \<not> P x \<Longrightarrow> dropWhile P (s @ x # t) = x # t"
  by (induction s) auto

end
