(* ===== verification/Netip.thy ===== *)
theory Netip
  imports Prelude
begin

text \<open>
  The part of Go's \<open>net/netip\<close> and \<open>net\<close> packages that the sources call: addresses, prefixes,
  their text forms, ordering, successor and predecessor, and the older \<open>net.IP\<close> and
  \<open>net.IPNet\<close> views of them.

  An address is a 128-bit value kept as a natural number, with the wrap-around of
  \<open>Next\<close> written out, and a zone tag, as in \<open>netip.Addr\<close>: \<open>Z0\<close> is the invalid address,
  \<open>Z4\<close> an IPv4 address (whose value is its IPv4-mapped form) and \<open>Z6 z\<close> an IPv6 address with
  zone \<open>z\<close> (empty for none). The main result is \<open>ParseAddr_String\<close>: the text of every
  address a subnet can hold parses back to that address, so that text keys name addresses
  uniquely. The rest relates \<open>Contains\<close> to the ordering of addresses.
\<close>

named_theorems netip_simps \<open>values, families and order of addresses\<close>

section \<open>Addresses\<close>

datatype zone = Z0 | Z4 | Z6 string

datatype addr = Addr (aval: nat) (azone: zone)

abbreviation v4base :: nat where
  "v4base \<equiv> 0xffff00000000"

abbreviation top128 :: nat where
  "top128 \<equiv> 0x100000000000000000000000000000000"

definition AddrFrom4 :: "nat \<Rightarrow> addr" where
  "AddrFrom4 n = Addr (v4base + n) Z4"

definition AddrFrom16 :: "nat \<Rightarrow> addr" where
  "AddrFrom16 n = Addr n (Z6 [])"

definition Is4 :: "addr \<Rightarrow> bool" where
  "Is4 a = (azone a = Z4)"

fun Is6 :: "addr \<Rightarrow> bool" where
  "Is6 (Addr v (Z6 z)) = True"
| "Is6 _ = False"

fun zone_of :: "addr \<Rightarrow> string" where
  "zone_of (Addr v (Z6 z)) = z"
| "zone_of _ = []"

fun BitLen :: "addr \<Rightarrow> nat" where
  "BitLen (Addr v Z0) = 0"
| "BitLen (Addr v Z4) = 32"
| "BitLen (Addr v (Z6 z)) = 128"

definition mapped :: "nat \<Rightarrow> bool" where
  "mapped v = (v div 0x100000000 = 0xffff)"

definition Is4In6 :: "addr \<Rightarrow> bool" where
  "Is4In6 a = (Is6 a \<and> mapped (aval a))"

definition Unmap :: "addr \<Rightarrow> addr" where
  "Unmap a = (if Is4In6 a then Addr (aval a) Z4 else a)"

text \<open>\<open>Compare\<close> orders by family, then value, then zone.\<close>

definition addr_key :: "addr \<Rightarrow> nat \<times> nat \<times> string" where
  "addr_key a = (BitLen a, aval a, zone_of a)"

definition addr_less :: "addr \<Rightarrow> addr \<Rightarrow> bool" where
  "addr_less a b = (addr_key a < addr_key b)"

definition Next :: "addr \<Rightarrow> addr" where
  "Next a =
     (let v = (aval a + 1) mod top128 in
      if Is4 a then if v mod 0x100000000 = 0 then Addr 0 Z0 else Addr v Z4
      else if v = 0 then Addr 0 Z0 else Addr v (azone a))"

definition Prev :: "addr \<Rightarrow> addr" where
  "Prev a =
     (if Is4 a then if aval a mod 0x100000000 = 0 then Addr 0 Z0 else Addr (aval a - 1) Z4
      else if aval a = 0 then Addr 0 Z0 else Addr (aval a - 1) (azone a))"

section \<open>Text forms\<close>

text \<open>The \<open>n\<close> lowest digits of a value in base \<open>b\<close>, most significant first.\<close>

fun to_digits :: "nat \<Rightarrow> nat \<Rightarrow> nat \<Rightarrow> nat list" where
  "to_digits b 0 v = []"
| "to_digits b (Suc n) v = to_digits b n (v div b) @ [v mod b]"

definition of_digits :: "nat \<Rightarrow> nat list \<Rightarrow> nat" where
  "of_digits b ds = foldl (\<lambda>a d. a * b + d) 0 ds"

definition octets :: "nat \<Rightarrow> nat list" where
  "octets v = to_digits 256 4 v"

definition string4 :: "nat \<Rightarrow> string" where
  "string4 v = join ''.'' (map dec (octets v))"

definition groups :: "nat \<Rightarrow> nat list" where
  "groups v = to_digits 65536 8 v"

text \<open>The leftmost longest run of at least two zero groups, as start and end positions.\<close>

definition zero_run :: "nat list \<Rightarrow> nat \<Rightarrow> nat" where
  "zero_run gs i = length (takeWhile (\<lambda>g. g = 0) (drop i gs))"

definition longer_run :: "nat list \<Rightarrow> (nat \<times> nat) option \<Rightarrow> nat \<Rightarrow> (nat \<times> nat) option" where
  "longer_run gs best i =
     (let l = zero_run gs i;
          cur = (case best of None \<Rightarrow> 0 | Some (s, e) \<Rightarrow> e - s)
      in if 2 \<le> l \<and> cur < l then Some (i, i + l) else best)"

definition best_run :: "nat list \<Rightarrow> (nat \<times> nat) option" where
  "best_run gs = foldl (longer_run gs) None [0, 1, 2, 3, 4, 5, 6, 7]"

definition string6 :: "nat \<Rightarrow> string" where
  "string6 v =
     (let gs = groups v in
      case best_run gs of
        None \<Rightarrow> join '':'' (map hex gs)
      | Some (s, e) \<Rightarrow> join '':'' (map hex (take s gs)) @ ''::'' @ join '':'' (map hex (drop e gs)))"

definition zone_suffix :: "string \<Rightarrow> string" where
  "zone_suffix z = (if z = [] then [] else CHR ''%'' # z)"

fun addr_string :: "addr \<Rightarrow> string" where
  "addr_string (Addr v Z0) = ''invalid IP''"
| "addr_string (Addr v Z4) = string4 (v mod 0x100000000)"
| "addr_string (Addr v (Z6 z)) =
     (if mapped v then ''::ffff:'' @ string4 (v mod 0x100000000) else string6 v) @ zone_suffix z"

section \<open>Parsing\<close>

definition parse_octet :: "string \<Rightarrow> nat option" where
  "parse_octet s =
     (if s = [] \<or> \<not> list_all is_digit s \<or> (1 < length s \<and> hd s = CHR ''0'') \<or> 255 < val_base 10 s
      then None else Some (val_base 10 s))"

definition parseIPv4Fields :: "string \<Rightarrow> nat option" where
  "parseIPv4Fields s =
     (case map parse_octet (split_on (CHR ''.'') s) of
        [Some a, Some b, Some c, Some d] \<Rightarrow> Some (of_digits 256 [a, b, c, d])
      | _ \<Rightarrow> None)"

text \<open>
  The loop of netip's \<open>parseIPv6\<close>: \<open>k\<close> counts the 16-bit groups that may still follow,
  \<open>acc\<close> are the groups read so far and \<open>ell\<close> is the position of the \<open>::\<close> seen so far.
  The result is the unread text with the groups and the ellipsis.
\<close>

fun v6_loop ::
  "nat \<Rightarrow> string \<Rightarrow> nat list \<Rightarrow> nat option \<Rightarrow> (string \<times> nat list \<times> nat option) option" where
  "v6_loop 0 s acc ell = Some (s, acc, ell)"
| "v6_loop (Suc k) s acc ell =
     (let h = takeWhile is_hex s; rest = dropWhile is_hex s in
      if h = [] \<or> 4 < length h then None
      else case rest of
        [] \<Rightarrow> Some ([], acc @ [val_base 16 h], ell)
      | c # t \<Rightarrow>
          if c = CHR ''.'' then
            if (ell = None \<and> length acc \<noteq> 6) \<or> 6 < length acc then None
            else (case parseIPv4Fields s of
                    None \<Rightarrow> None
                  | Some w \<Rightarrow> Some ([], acc @ [w div 65536, w mod 65536], ell))
          else if c \<noteq> CHR '':'' then None
          else case t of
            [] \<Rightarrow> None
          | d # u \<Rightarrow>
              if d = CHR '':'' then
                if ell \<noteq> None then None
                else if u = [] then Some ([], acc @ [val_base 16 h], Some (Suc (length acc)))
                else v6_loop k u (acc @ [val_base 16 h]) (Some (Suc (length acc)))
              else v6_loop k (d # u) (acc @ [val_base 16 h]) ell)"

declare v6_loop.simps(2) [simp del]

definition v6_finish :: "string \<Rightarrow> string \<times> nat list \<times> nat option \<Rightarrow> addr option" where
  "v6_finish z r =
     (case r of (rest, gs, ell) \<Rightarrow>
        if rest \<noteq> [] then None
        else if length gs < 8 then
          (case ell of
             None \<Rightarrow> None
           | Some e \<Rightarrow> Some (Addr (of_digits 65536 (take e gs @ replicate (8 - length gs) 0 @ drop e gs)) (Z6 z)))
        else if ell \<noteq> None then None
        else Some (Addr (of_digits 65536 gs) (Z6 z)))"

definition parseIPv6 :: "string \<Rightarrow> addr option" where
  "parseIPv6 s =
     (let body = takeWhile (\<lambda>c. c \<noteq> CHR ''%'') s;
          zpart = dropWhile (\<lambda>c. c \<noteq> CHR ''%'') s;
          z = drop 1 zpart
      in if zpart \<noteq> [] \<and> z = [] then None
         else if prefix ''::'' body then
           (if length body = 2 then Some (Addr 0 (Z6 z))
            else Option.bind (v6_loop 8 (drop 2 body) [] (Some 0)) (v6_finish z))
         else Option.bind (v6_loop 8 body [] None) (v6_finish z))"

definition addr_sep :: "char \<Rightarrow> bool" where
  "addr_sep c = (c = CHR ''.'' \<or> c = CHR '':'' \<or> c = CHR ''%'')"

definition ParseAddr :: "string \<Rightarrow> addr option" where
  "ParseAddr s =
     (case find addr_sep s of
        None \<Rightarrow> None
      | Some c \<Rightarrow>
          if c = CHR ''.'' then map_option AddrFrom4 (parseIPv4Fields s)
          else if c = CHR '':'' then parseIPv6 s
          else None)"

section \<open>Prefixes\<close>

datatype netprefix = Prefix (pip: addr) (pbits: nat)

definition parse_bits :: "string \<Rightarrow> nat option" where
  "parse_bits s =
     (if s = [] \<or> \<not> list_all is_digit s \<or> (1 < length s \<and> hd s = CHR ''0'') then None
      else Some (val_base 10 s))"

definition ParsePrefix :: "string \<Rightarrow> netprefix option" where
  "ParsePrefix s =
     (if CHR ''/'' \<notin> set s then None
      else let bs = rev (takeWhile (\<lambda>c. c \<noteq> CHR ''/'') (rev s));
               as = take (length s - length bs - 1) s
           in case ParseAddr as of
                None \<Rightarrow> None
              | Some ip \<Rightarrow>
                  if zone_of ip \<noteq> [] then None
                  else case parse_bits bs of
                    None \<Rightarrow> None
                  | Some n \<Rightarrow> if (if Is6 ip then 128 else 32) < n then None else Some (Prefix ip n))"

definition prefix_string :: "netprefix \<Rightarrow> string" where
  "prefix_string p = addr_string (pip p) @ ''/'' @ dec (pbits p)"

definition Contains :: "netprefix \<Rightarrow> addr \<Rightarrow> bool" where
  "Contains p ip =
     (zone_of ip = [] \<and> BitLen (pip p) \<noteq> 0 \<and> BitLen ip = BitLen (pip p) \<and>
      aval ip div 2 ^ (BitLen ip - pbits p) = aval (pip p) div 2 ^ (BitLen ip - pbits p))"

section \<open>The older net package\<close>

text \<open>
  A \<open>net.IP\<close> is 4 or 16 bytes long; \<open>nil\<close> is the \<open>None\<close> of an \<open>netIP option\<close>.
  \<open>net.ParseIP\<close> gives the 16-byte form of either family.
\<close>

datatype netIP = IP4 nat | IP16 nat

fun to16 :: "netIP \<Rightarrow> nat" where
  "to16 (IP4 n) = v4base + n"
| "to16 (IP16 n) = n"

fun To4 :: "netIP \<Rightarrow> nat option" where
  "To4 (IP4 n) = Some n"
| "To4 (IP16 n) = (if mapped n then Some (n mod 0x100000000) else None)"

definition ip_equal :: "netIP \<Rightarrow> netIP \<Rightarrow> bool" where
  "ip_equal x y = (to16 x = to16 y)"

definition ParseIP :: "string \<Rightarrow> netIP option" where
  "ParseIP s =
     (case ParseAddr s of
        None \<Rightarrow> None
      | Some a \<Rightarrow> if zone_of a \<noteq> [] then None else Some (IP16 (aval a)))"

definition ip_string :: "netIP \<Rightarrow> string" where
  "ip_string ip = (case To4 ip of Some n \<Rightarrow> string4 n | None \<Rightarrow> addr_string (AddrFrom16 (to16 ip)))"

definition AddrFromSlice :: "netIP option \<Rightarrow> addr" where
  "AddrFromSlice s = (case s of None \<Rightarrow> Addr 0 Z0 | Some (IP4 n) \<Rightarrow> AddrFrom4 n | Some (IP16 n) \<Rightarrow> AddrFrom16 n)"

definition AsSlice :: "addr \<Rightarrow> netIP" where
  "AsSlice a = (if Is4 a then IP4 (aval a mod 0x100000000) else IP16 (aval a))"

text \<open>An \<open>IPNet\<close>: the masked address, the number of one bits and the byte length of its mask.\<close>

datatype ipnet = IPNet (nip: netIP) (nones: nat) (nmlen: nat)

definition ParseCIDR :: "string \<Rightarrow> ipnet option" where
  "ParseCIDR s =
     (if CHR ''/'' \<notin> set s then None
      else let as = takeWhile (\<lambda>c. c \<noteq> CHR ''/'') s;
               ms = drop (Suc (length as)) s
           in case ParseAddr as of
                None \<Rightarrow> None
              | Some a \<Rightarrow>
                  if zone_of a \<noteq> [] \<or> ms = [] \<or> \<not> list_all is_digit ms \<or> BitLen a < val_base 10 ms then None
                  else let n = val_base 10 ms; h = BitLen a - n; v = aval a
                       in Some (if Is4 a then IPNet (IP4 (v mod 0x100000000 div 2 ^ h * 2 ^ h)) n 4
                                else IPNet (IP16 (v div 2 ^ h * 2 ^ h)) n 16))"

definition ipnet_contains :: "ipnet \<Rightarrow> netIP \<Rightarrow> bool" where
  "ipnet_contains nt ip =
     (case To4 (nip nt) of
        Some nn \<Rightarrow>
          (let h = 32 - (if nmlen nt = 16 then nones nt - 96 else nones nt) in
           case To4 ip of None \<Rightarrow> False | Some v \<Rightarrow> nn div 2 ^ h = v div 2 ^ h)
      | None \<Rightarrow>
          nmlen nt = 16 \<and> To4 ip = None \<and>
          to16 (nip nt) div 2 ^ (128 - nones nt) = to16 ip div 2 ^ (128 - nones nt))"

section \<open>Octets and groups\<close>

lemma of_digits_simps [simp]:
  "of_digits b [] = 0" "of_digits b (ds @ [d]) = of_digits b ds * b + d"
  by (simp_all add: of_digits_def)

lemma of_digits_zeros: "of_digits b (replicate n 0) = 0"
  by (induction n) (simp_all add: of_digits_def)

lemma of_to_digits: "of_digits b (to_digits b n v) = v mod b ^ n"
  by (induction n arbitrary: v) (simp_all add: mod_mult2_eq mult.commute)

lemma length_to_digits [simp]: "length (to_digits b n v) = n"
  by (induction n arbitrary: v) simp_all

lemma to_digits_bound: "0 < b \<Longrightarrow> d \<in> set (to_digits b n v) \<Longrightarrow> d < b"
  by (induction n arbitrary: v) auto

lemma octets_value: "w < 0x100000000 \<Longrightarrow> of_digits 256 (octets w) = w"
  by (simp add: octets_def of_to_digits)

lemma octets_bound: "n \<in> set (octets w) \<Longrightarrow> n < 256"
  using to_digits_bound [of 256] by (simp add: octets_def)

lemma length_4: "length xs = 4 \<Longrightarrow> \<exists>a b c d. xs = [a, b, c, d]"
  by (auto simp: length_Suc_conv numeral_eq_Suc)

lemma length_8: "length xs = 8 \<Longrightarrow> \<exists>a b ys. xs = a # b # ys"
  by (auto simp: length_Suc_conv numeral_eq_Suc)

lemma octets_list: obtains a b c d where "octets w = [a, b, c, d]"
  using length_4 [of "octets w"] by (auto simp: octets_def)

lemma groups_bound: "n \<in> set (groups v) \<Longrightarrow> n < 65536"
  using to_digits_bound [of 65536] by (simp add: groups_def)

lemma length_groups [simp]: "length (groups v) = 8"
  by (simp add: groups_def)

lemma of_groups_groups: "v < top128 \<Longrightarrow> of_digits 65536 (groups v) = v"
  by (simp add: groups_def of_to_digits)

section \<open>The text of an address parses back\<close>

lemma parse_octet_dec: "n < 256 \<Longrightarrow> parse_octet (dec n) = Some n"
proof -
  assume "n < 256"
  moreover have "list_all is_digit (dec n)" by (auto simp: list_all_iff dec_is_digit)
  moreover have "hd (dec n) = CHR ''0'' \<Longrightarrow> \<not> 1 < length (dec n)" by (simp add: dec_no_leading_zero)
  ultimately show ?thesis by (auto simp: parse_octet_def val_to_base)
qed

lemma dot_notin_dec: "CHR ''.'' \<notin> set (dec n)"
  using dec_is_digit by force

lemma parse_fields_octets:
  "map parse_octet (split_on (CHR ''.'') s) = map Some [a, b, c, d] \<Longrightarrow>
   parseIPv4Fields s = Some (of_digits 256 [a, b, c, d])"
  by (simp add: parseIPv4Fields_def)

lemma parseIPv4Fields_string4: "w < 0x100000000 \<Longrightarrow> parseIPv4Fields (string4 w) = Some w"
proof -
  assume w: "w < 0x100000000"
  have "split_on (CHR ''.'') (string4 w) = map dec (octets w)"
    unfolding string4_def by (rule split_on_join) (auto simp: dot_notin_dec intro: octets_list [of w])
  moreover have "map parse_octet (map dec (octets w)) = map Some (octets w)"
    using octets_bound parse_octet_dec by auto
  moreover obtain a b c d where abcd: "octets w = [a, b, c, d]" by (rule octets_list)
  ultimately have "parseIPv4Fields (string4 w) = Some (of_digits 256 (octets w))"
    using parse_fields_octets [of "string4 w" a b c d] by (simp only: abcd)
  then show ?thesis by (simp only: octets_value [OF w])
qed

lemma find_first_special:
  assumes "\<And>c. c \<in> set s \<Longrightarrow> P c \<Longrightarrow> c = x" and "x \<in> set s" and "P x"
  shows "find P s = Some x"
  using assms
proof (induction s)
  case (Cons y s)
  show ?case
  proof (cases "P y")
    case True
    with Cons.prems(1) [of y] show ?thesis by simp
  next
    case False
    have "find P s = Some x"
    proof (rule Cons.IH)
      show "c = x" if "c \<in> set s" "P c" for c using Cons.prems(1) [of c] that by simp
      show "x \<in> set s" using Cons.prems(2,3) False by auto
      show "P x" by (rule Cons.prems(3))
    qed
    with False show ?thesis by simp
  qed
qed simp

lemma in_join: "c \<in> set (join sep xs) \<Longrightarrow> c \<in> set sep \<or> (\<exists>x \<in> set xs. c \<in> set x)"
proof (induction sep xs rule: join.induct)
  case (3 sep x y xs)
  then show ?case by (metis Un_iff join.simps(3) list.set_intros(1,2) set_append)
qed auto

lemma digit_not_sep: "is_digit c \<Longrightarrow> \<not> addr_sep c"
  by (auto simp: addr_sep_def is_digit_def)

lemma hex_not_sep: "is_hex c \<Longrightarrow> \<not> addr_sep c"
  by (auto simp: addr_sep_def is_hex_def)

lemma ParseAddr_string4: "w < 0x100000000 \<Longrightarrow> ParseAddr (string4 w) = Some (AddrFrom4 w)"
proof -
  assume w: "w < 0x100000000"
  have "c = CHR ''.''" if "c \<in> set (string4 w)" "addr_sep c" for c
    using in_join [of c "''.''" "map dec (octets w)"] that dec_is_digit [of c] digit_not_sep [of c]
    by (auto simp: string4_def)
  moreover have "CHR ''.'' \<in> set (string4 w)"
    by (rule octets_list [of w]) (simp add: string4_def)
  ultimately have "find addr_sep (string4 w) = Some (CHR ''.'')"
    by (intro find_first_special) (auto simp: addr_sep_def)
  then show ?thesis by (simp add: ParseAddr_def parseIPv4Fields_string4 [OF w])
qed

lemma hex_group:
  assumes "g < 65536"
  shows "val_base 16 (hex g) = g" "length (hex g) \<le> 4" "\<forall>c \<in> set (hex g). is_hex c"
  using assms to_base_length [of 16 g 4] by (auto simp: val_to_base hex_is_hex)

lemma takeWhile_hex:
  "takeWhile is_hex (hex g) = hex g" "takeWhile is_hex (hex g @ CHR '':'' # t) = hex g"
  using takeWhile_all [of "hex g" is_hex "CHR '':''" t] by (auto simp: hex_is_hex takeWhile_eq_all_conv)

lemma dropWhile_hex:
  "dropWhile is_hex (hex g) = []" "dropWhile is_hex (hex g @ CHR '':'' # t) = CHR '':'' # t"
  using dropWhile_all [of "hex g" is_hex "CHR '':''" t] by (auto simp: hex_is_hex)

lemma v6_loop_last: "g < 65536 \<Longrightarrow> v6_loop (Suc k) (hex g) acc ell = Some ([], acc @ [g], ell)"
  using hex_group(1,2) [of g] by (simp add: v6_loop.simps(2) takeWhile_hex dropWhile_hex)

lemma v6_loop_colon:
  "g < 65536 \<Longrightarrow> d \<noteq> CHR '':'' \<Longrightarrow>
   v6_loop (Suc k) (hex g @ CHR '':'' # d # u) acc ell = v6_loop k (d # u) (acc @ [g]) ell"
  using hex_group(1,2) [of g]
  by (simp add: v6_loop.simps(2) [of k "hex g @ t" for t] takeWhile_hex dropWhile_hex)

lemma v6_loop_ellipsis:
  "g < 65536 \<Longrightarrow>
   v6_loop (Suc k) (hex g @ ''::'' @ u) acc None =
     (if u = [] then Some ([], acc @ [g], Some (Suc (length acc)))
      else v6_loop k u (acc @ [g]) (Some (Suc (length acc))))"
  using hex_group(1,2) [of g]
  by (simp add: v6_loop.simps(2) [of k "hex g @ t" for t] takeWhile_hex dropWhile_hex)

abbreviation hextext :: "nat list \<Rightarrow> string" where
  "hextext gs \<equiv> join '':'' (map hex gs)"

lemma hextext_hd:
  assumes "gs \<noteq> []"
  obtains d u where "hextext gs = d # u" and "is_hex d"
proof -
  obtain g gs' where gs: "gs = g # gs'" using assms by (cases gs) auto
  obtain d u where h: "hex g = d # u" using to_base_ne [of 16 g] by (cases "hex g") auto
  then have "is_hex d" using hex_is_hex [of d g] by simp
  moreover have "\<exists>u'. hextext gs = d # u'"
    using gs h by (cases gs') auto
  ultimately show ?thesis using that by blast
qed

lemma v6_loop_groups:
  "gs \<noteq> [] \<Longrightarrow> length gs \<le> k \<Longrightarrow> \<forall>g \<in> set gs. g < 65536 \<Longrightarrow>
   v6_loop k (hextext gs) acc ell = Some ([], acc @ gs, ell)"
proof (induction gs arbitrary: k acc)
  case (Cons g gs)
  then obtain k' where k: "k = Suc k'" by (cases k) auto
  show ?case
  proof (cases "gs = []")
    case True
    with Cons.prems k show ?thesis by (simp add: v6_loop_last)
  next
    case False
    then obtain d u where du: "hextext gs = d # u" "is_hex d" by (rule hextext_hd)
    then have "d \<noteq> CHR '':''" by auto
    with False Cons.prems k du have "v6_loop k (hextext (g # gs)) acc ell = v6_loop k' (hextext gs) (acc @ [g]) ell"
      by (simp add: join_Cons v6_loop_colon)
    with Cons False k show ?thesis by simp
  qed
qed simp

lemma v6_loop_groups_ellipsis:
  "gs \<noteq> [] \<Longrightarrow> length gs \<le> k \<Longrightarrow> \<forall>g \<in> set gs. g < 65536 \<Longrightarrow>
   v6_loop k (hextext gs @ ''::'' @ u) acc None =
     (if u = [] then Some ([], acc @ gs, Some (length acc + length gs))
      else v6_loop (k - length gs) u (acc @ gs) (Some (length acc + length gs)))"
proof (induction gs arbitrary: k acc)
  case (Cons g gs)
  then obtain k' where k: "k = Suc k'" by (cases k) auto
  show ?case
  proof (cases "gs = []")
    case True
    with Cons.prems k show ?thesis using v6_loop_ellipsis [of g k' u acc] by simp
  next
    case False
    then obtain d v where du: "hextext gs = d # v" "is_hex d" by (rule hextext_hd)
    then have "d \<noteq> CHR '':''" by auto
    with False Cons.prems k du
    have "v6_loop k (hextext (g # gs) @ ''::'' @ u) acc None = v6_loop k' (hextext gs @ ''::'' @ u) (acc @ [g]) None"
      using v6_loop_colon [of g d k' "v @ ''::'' @ u" acc None] by (simp add: join_Cons)
    with Cons False k show ?thesis by simp
  qed
qed simp

text \<open>What the choice of the zero run guarantees.\<close>

definition run_ok :: "nat list \<Rightarrow> (nat \<times> nat) option \<Rightarrow> bool" where
  "run_ok gs r =
     (case r of None \<Rightarrow> True
      | Some (s, e) \<Rightarrow> s + 2 \<le> e \<and> e \<le> length gs \<and> gs = take s gs @ replicate (e - s) 0 @ drop e gs)"

lemma zero_run_ok: "2 \<le> zero_run gs i \<Longrightarrow> run_ok gs (Some (i, i + zero_run gs i))"
proof -
  let ?l = "zero_run gs i" and ?d = "drop i gs"
  assume two: "2 \<le> ?l"
  have le: "?l \<le> length ?d" unfolding zero_run_def by (rule length_takeWhile_le)
  have "takeWhile (\<lambda>g. g = 0) ?d = replicate ?l 0"
    unfolding zero_run_def by (rule replicate_eqI) (auto dest: set_takeWhileD)
  moreover have "dropWhile (\<lambda>g. g = 0) ?d = drop ?l ?d"
    by (simp add: zero_run_def dropWhile_eq_drop)
  ultimately have "?d = replicate ?l 0 @ drop ?l ?d" by (metis takeWhile_dropWhile_id)
  then have "gs = take i gs @ replicate ?l 0 @ drop (i + ?l) gs"
    by (metis append_take_drop_id drop_drop add.commute)
  with two le show ?thesis by (simp add: run_ok_def)
qed

lemma longer_run_ok: "run_ok gs r \<Longrightarrow> run_ok gs (longer_run gs r i)"
  using zero_run_ok by (simp add: longer_run_def Let_def)

lemma best_run_ok: "run_ok gs (best_run gs)"
proof -
  have "run_ok gs (foldl (longer_run gs) r is)" if "run_ok gs r" for r "is"
    using that by (induction "is" arbitrary: r) (auto simp: longer_run_ok)
  moreover have "run_ok gs None" by (simp add: run_ok_def)
  ultimately show ?thesis unfolding best_run_def by blast
qed

lemma run_of_text:
  assumes "best_run (groups v) = Some (s, e)"
  obtains "s + 2 \<le> e" "e \<le> 8"
    "groups v = take s (groups v) @ replicate (e - s) 0 @ drop e (groups v)"
  using best_run_ok [of "groups v"] assms by (auto simp: run_ok_def)

lemma string6_chars:
  "c \<in> set (string6 v) \<Longrightarrow> is_hex c \<or> c = CHR '':''"
proof -
  have "c \<in> set (hextext gs) \<Longrightarrow> is_hex c \<or> c = CHR '':''" for gs
    using in_join [of c "'':''" "map hex gs"] hex_is_hex by auto
  then show "c \<in> set (string6 v) \<Longrightarrow> is_hex c \<or> c = CHR '':''"
    by (auto simp: string6_def Let_def split: option.splits)
qed

lemma colon_in_string6: "CHR '':'' \<in> set (string6 v)"
  using length_8 [of "groups v"] by (auto simp: string6_def Let_def split: option.splits)

lemma ParseAddr_string6: "ParseAddr (string6 v) = parseIPv6 (string6 v)"
proof -
  have "find addr_sep (string6 v) = Some (CHR '':'')"
    using string6_chars hex_not_sep colon_in_string6
    by (intro find_first_special) (auto simp: addr_sep_def)
  then show ?thesis by (simp add: ParseAddr_def)
qed

lemma no_percent_string6:
  "takeWhile (\<lambda>c. c \<noteq> CHR ''%'') (string6 v) = string6 v"
  "dropWhile (\<lambda>c. c \<noteq> CHR ''%'') (string6 v) = []"
proof -
  have "\<forall>c \<in> set (string6 v). c \<noteq> CHR ''%''"
    using string6_chars [of _ v] by fastforce
  then show "takeWhile (\<lambda>c. c \<noteq> CHR ''%'') (string6 v) = string6 v"
    "dropWhile (\<lambda>c. c \<noteq> CHR ''%'') (string6 v) = []" by simp_all
qed

lemma parseIPv6_string6:
  "parseIPv6 (string6 v) =
     (if prefix ''::'' (string6 v) then
        (if length (string6 v) = 2 then Some (Addr 0 (Z6 []))
         else Option.bind (v6_loop 8 (drop 2 (string6 v)) [] (Some 0)) (v6_finish []))
      else Option.bind (v6_loop 8 (string6 v) [] None) (v6_finish []))"
  by (simp add: parseIPv6_def no_percent_string6)

lemma not_prefix_ellipsis: "gs \<noteq> [] \<Longrightarrow> \<not> prefix ''::'' (hextext gs @ t)"
  by (erule hextext_hd [of gs]) (auto simp: prefix_def)

lemma parseIPv6_no_run:
  assumes v: "v < top128" and none: "best_run (groups v) = None"
  shows "parseIPv6 (string6 v) = Some (AddrFrom16 v)"
proof -
  have s: "string6 v = hextext (groups v)" using none by (simp add: string6_def Let_def)
  have ne: "groups v \<noteq> []" using length_groups [of v] by (metis list.size(3) zero_neq_numeral)
  have "v6_loop 8 (string6 v) [] None = Some ([], groups v, None)"
    unfolding s using v6_loop_groups [OF ne, of 8 "[]" None] groups_bound by simp
  moreover have "\<not> prefix ''::'' (string6 v)"
    using not_prefix_ellipsis [OF ne, of "[]"] s by simp
  ultimately show ?thesis
    using v by (simp add: parseIPv6_string6 v6_finish_def of_groups_groups AddrFrom16_def)
qed

lemma v6_finish_run:
  assumes "v < top128" and "s + 2 \<le> e" "e \<le> 8"
    and gs: "groups v = take s (groups v) @ replicate (e - s) 0 @ drop e (groups v)"
  shows "v6_finish [] ([], take s (groups v) @ drop e (groups v), Some s) = Some (AddrFrom16 v)"
proof -
  let ?g = "take s (groups v) @ drop e (groups v)"
  have len: "length ?g = 8 - (e - s)" using assms(2,3) by auto
  have "take s ?g @ replicate (8 - length ?g) 0 @ drop s ?g = groups v"
    using assms(2,3) gs by (simp add: len)
  then show ?thesis using len assms(1,2,3)
    by (simp add: v6_finish_def of_groups_groups AddrFrom16_def)
qed

lemma parseIPv6_run:
  assumes v: "v < top128" and some: "best_run (groups v) = Some (s, e)"
  shows "parseIPv6 (string6 v) = Some (AddrFrom16 v)"
proof -
  obtain se: "s + 2 \<le> e" "e \<le> 8"
    and gs: "groups v = take s (groups v) @ replicate (e - s) 0 @ drop e (groups v)"
    using some by (rule run_of_text)
  let ?a = "take s (groups v)" and ?b = "drop e (groups v)"
  have str: "string6 v = hextext ?a @ ''::'' @ hextext ?b"
    using some by (simp add: string6_def Let_def)
  have bnd: "\<forall>g \<in> set ?a. g < 65536" "\<forall>g \<in> set ?b. g < 65536"
    using groups_bound set_take_subset [of s "groups v"] set_drop_subset [of e "groups v"] by blast+
  have fin: "v6_finish [] ([], ?a @ ?b, Some s) = Some (AddrFrom16 v)"
    by (rule v6_finish_run [OF v se gs])
  have la: "length ?a = s" and lb: "length ?b = 8 - e" using se by auto
  show ?thesis
  proof (cases "s = 0")
    case True
    then have body: "string6 v = CHR '':'' # CHR '':'' # hextext ?b" using str by simp
    show ?thesis
    proof (cases "?b = []")
      case True
      then have "Addr 0 (Z6 []) = AddrFrom16 v"
        using fin \<open>s = 0\<close> by (simp add: v6_finish_def of_digits_zeros)
      with True body parseIPv6_string6 [of v] show ?thesis by simp
    next
      case False
      then obtain d u where "hextext ?b = d # u" by (rule hextext_hd)
      moreover have "v6_loop 8 (hextext ?b) [] (Some 0) = Some ([], ?b, Some 0)"
        using v6_loop_groups [OF False, of 8 "[]" "Some 0"] lb bnd by simp
      ultimately show ?thesis using body fin True parseIPv6_string6 [of v] by simp
    qed
  next
    case False
    then have ne: "?a \<noteq> []" using la by (metis list.size(3))
    have "v6_loop 8 (string6 v) [] None = Some ([], ?a @ ?b, Some s)"
    proof (cases "?b = []")
      case True
      then show ?thesis
        using v6_loop_groups_ellipsis [OF ne, of 8 "[]" "[]"] la se bnd str by simp
    next
      case False
      then have hb: "hextext ?b \<noteq> []" by (rule hextext_hd) simp
      have "v6_loop (8 - s) (hextext ?b) ?a (Some s) = Some ([], ?a @ ?b, Some s)"
        using v6_loop_groups [OF False, of "8 - s" ?a "Some s"] lb se bnd by simp
      then show ?thesis
        using v6_loop_groups_ellipsis [OF ne, of 8 "hextext ?b" "[]"] la se bnd str hb by simp
    qed
    moreover have "\<not> prefix ''::'' (string6 v)"
      unfolding str by (rule not_prefix_ellipsis [OF ne])
    ultimately show ?thesis using fin by (simp add: parseIPv6_string6)
  qed
qed

lemma ParseAddr_String6: "v < top128 \<Longrightarrow> ParseAddr (string6 v) = Some (AddrFrom16 v)"
  by (cases "best_run (groups v)")
    (auto simp: ParseAddr_string6 parseIPv6_no_run parseIPv6_run)

text \<open>
  The key under which a subnet files the 16-byte address \<open>v\<close>: the text of its unmapped form.
\<close>

definition addr_of :: "nat \<Rightarrow> addr" where
  "addr_of v = Unmap (AddrFrom16 v)"

definition ipkey :: "nat \<Rightarrow> string" where
  "ipkey v = addr_string (addr_of v)"

lemma addr_of_eq: "addr_of v = Addr v (if mapped v then Z4 else Z6 [])"
  by (simp add: addr_of_def Unmap_def Is4In6_def AddrFrom16_def)

lemma mapped_value: "mapped v \<Longrightarrow> v4base + v mod 0x100000000 = v"
  using div_mult_mod_eq [of v "0x100000000"] by (simp add: mapped_def)

theorem ParseAddr_String: "v < top128 \<Longrightarrow> ParseAddr (ipkey v) = Some (addr_of v)"
proof (cases "mapped v")
  case True
  then show ?thesis
    using ParseAddr_string4 [of "v mod 0x100000000"] mapped_value [OF True]
    by (simp add: ipkey_def addr_of_eq AddrFrom4_def)
next
  case False
  assume "v < top128"
  with False show ?thesis
    using ParseAddr_String6 [of v] by (simp add: ipkey_def addr_of_eq zone_suffix_def AddrFrom16_def)
qed

lemma ipkey_inject: "u < top128 \<Longrightarrow> v < top128 \<Longrightarrow> ipkey u = ipkey v \<longleftrightarrow> u = v"
  by (metis ParseAddr_String addr.sel(1) addr_of_eq option.inject)

lemma ipkey_ne [simp]: "v < top128 \<Longrightarrow> ipkey v \<noteq> []"
  using ParseAddr_String [of v] by (auto simp: ParseAddr_def)

section \<open>Parsed values fit 128 bits\<close>

lemma of_digits_bound: "\<forall>d \<in> set ds. d < b \<Longrightarrow> of_digits b ds < b ^ length ds"
proof (induction ds rule: rev_induct)
  case (snoc d ds)
  then have "of_digits b ds + 1 \<le> b ^ length ds" and "d < b" by auto
  then have "of_digits b ds * b + d < (of_digits b ds + 1) * b" by simp
  also have "\<dots> \<le> b ^ length ds * b"
    using \<open>of_digits b ds + 1 \<le> b ^ length ds\<close> by (rule mult_right_mono) simp
  finally show ?case by (simp add: mult.commute)
qed simp

lemma val_base_of_digits: "val_base b s = of_digits b (map digit_val s)"
proof -
  have "foldl (\<lambda>a c. a * b + digit_val c) x s = foldl (\<lambda>a d. a * b + d) x (map digit_val s)" for x
    by (induction s arbitrary: x) simp_all
  then show ?thesis by (simp add: val_base_def of_digits_def)
qed

lemma digit_val_hex: "is_hex c \<Longrightarrow> digit_val c < 16"
  by (auto simp: is_hex_def digit_val_def Let_def)

lemma hex_text_bound:
  assumes "\<forall>c \<in> set h. is_hex c" and "length h \<le> 4"
  shows "val_base 16 h < 65536"
proof -
  have "val_base 16 h < 16 ^ length h"
    using of_digits_bound [of "map digit_val h" 16] assms(1) digit_val_hex by (simp add: val_base_of_digits)
  also have "\<dots> \<le> 16 ^ 4" using assms(2) by (rule power_increasing) simp
  finally show ?thesis by simp
qed

lemma parseIPv4Fields_bound: "parseIPv4Fields s = Some w \<Longrightarrow> w < 0x100000000"
proof -
  assume a: "parseIPv4Fields s = Some w"
  have "n < 256" if "parse_octet x = Some n" for x n
    using that by (auto simp: parse_octet_def split: if_splits)
  then obtain ds where ds: "w = of_digits 256 ds" "length ds = 4" "\<forall>d \<in> set ds. d < 256"
    using a by (force simp: parseIPv4Fields_def map_eq_Cons_conv split: list.splits option.splits)
  show ?thesis using of_digits_bound [OF ds(3)] ds(1,2) by simp
qed

definition groups_ok :: "nat list \<Rightarrow> bool" where
  "groups_ok gs \<longleftrightarrow> length gs \<le> 8 \<and> (\<forall>g \<in> set gs. g < 65536)"

lemma v6_loop_Suc_cases:
  assumes "v6_loop (Suc k) s acc ell = Some r"
  shows "(\<exists>g < 65536. (\<exists>ell'. r = ([], acc @ [g], ell')) \<or> (\<exists>u ell'. v6_loop k u (acc @ [g]) ell' = Some r)) \<or>
         (\<exists>w < 0x100000000. length acc \<le> 6 \<and> r = ([], acc @ [w div 65536, w mod 65536], ell))"
proof -
  define h where "h = takeWhile is_hex s"
  define t where "t = dropWhile is_hex s"
  have "\<forall>c \<in> set h. is_hex c" using set_takeWhileD [of _ is_hex s] by (simp add: h_def)
  then have h: "length h \<le> 4 \<Longrightarrow> val_base 16 h < 65536" using hex_text_bound by blast
  note eq = assms [unfolded v6_loop.simps(2) Let_def, folded h_def t_def]
  show ?thesis
    using eq h parseIPv4Fields_bound [of s]
    by (auto split: if_splits list.splits option.splits)
qed

lemma v6_loop_ok:
  "groups_ok acc \<Longrightarrow> length acc + k = 8 \<Longrightarrow> v6_loop k s acc ell = Some (rest, gs, ell') \<Longrightarrow> groups_ok gs"
proof (induction k arbitrary: s acc ell)
  case (Suc k)
  have ok: "groups_ok (acc @ [g])" "length (acc @ [g]) + k = 8" if "g < 65536" for g
    using Suc.prems(1,2) that by (auto simp: groups_ok_def)
  have ok2: "groups_ok (acc @ [w div 65536, w mod 65536])" if "w < 0x100000000" "length acc \<le> 6" for w
    using Suc.prems(1) that by (auto simp: groups_ok_def less_mult_imp_div_less)
  from v6_loop_Suc_cases [OF Suc.prems(3)] show ?case
    using ok ok2 Suc.IH by blast
qed simp

lemma of_digits_128: "\<forall>g \<in> set gs. g < 65536 \<Longrightarrow> length gs = 8 \<Longrightarrow> of_digits 65536 gs < top128"
  using of_digits_bound [of gs 65536] by simp

lemma v6_finish_bound: "groups_ok gs \<Longrightarrow> v6_finish z (rest, gs, ell) = Some a \<Longrightarrow> aval a < top128"
proof -
  assume ok: "groups_ok gs" and f: "v6_finish z (rest, gs, ell) = Some a"
  have "of_digits 65536 (take e gs @ replicate (8 - length gs) 0 @ drop e gs) < top128" for e
    using ok by (intro of_digits_128) (auto simp: groups_ok_def dest: in_set_takeD in_set_dropD)
  moreover have "of_digits 65536 gs < top128" if "\<not> length gs < 8"
    using ok that by (intro of_digits_128) (auto simp: groups_ok_def)
  ultimately show ?thesis using f by (auto simp: v6_finish_def split: if_splits option.splits)
qed

lemma parseIPv6_bound:
  assumes "parseIPv6 s = Some a"
  shows "aval a < top128"
proof -
  have "aval a < top128" if "Option.bind (v6_loop 8 t [] ell) (v6_finish z) = Some a" for t ell z
  proof -
    from that obtain rest gs ell' where l: "v6_loop 8 t [] ell = Some (rest, gs, ell')"
      and f: "v6_finish z (rest, gs, ell') = Some a"
      by (auto simp: bind_eq_Some_conv)
    from v6_loop_ok [OF _ _ l] have "groups_ok gs" by (simp add: groups_ok_def)
    then show ?thesis using f by (rule v6_finish_bound)
  qed
  then show ?thesis using assms by (auto simp: parseIPv6_def Let_def split: if_splits)
qed

lemma ParseAddr_bound: "ParseAddr s = Some a \<Longrightarrow> aval a < top128"
  using parseIPv6_bound parseIPv4Fields_bound [of s]
  by (auto simp: ParseAddr_def AddrFrom4_def split: option.splits if_splits)

section \<open>Successor, predecessor and order on 16-byte addresses\<close>

lemma addr_less_16 [netip_simps]: "addr_less (AddrFrom16 u) (AddrFrom16 v) \<longleftrightarrow> u < v"
  by (simp add: addr_less_def addr_key_def AddrFrom16_def less_prod_def)

lemma addr_less_Z0 [netip_simps]: "addr_less (Addr u Z0) (AddrFrom16 v)"
  by (simp add: addr_less_def addr_key_def AddrFrom16_def less_prod_def)

lemma Prev_16 [netip_simps]: "Prev (AddrFrom16 v) = (if v = 0 then Addr 0 Z0 else AddrFrom16 (v - 1))"
  by (simp add: Prev_def AddrFrom16_def Is4_def)

lemma Next_16 [netip_simps]:
  "v < top128 \<Longrightarrow> Next (AddrFrom16 v) = (if Suc v = top128 then Addr 0 Z0 else AddrFrom16 (Suc v))"
  by (simp add: Next_def AddrFrom16_def Is4_def Let_def)

lemma Z0_closed [netip_simps]:
  "azone a = Z0 \<Longrightarrow> azone (Next a) = Z0" "azone a = Z0 \<Longrightarrow> azone (Prev a) = Z0"
  by (auto simp: Next_def Prev_def Is4_def Let_def)

lemma AddrFromSlice_16 [netip_simps]: "AddrFromSlice (Some (IP16 n)) = AddrFrom16 n"
  by (simp add: AddrFromSlice_def)

lemma aval_bound: "ParseAddr s = Some a \<Longrightarrow> zone_of a = [] \<Longrightarrow> ParseIP s = Some (IP16 (aval a))"
  by (simp add: ParseIP_def)

lemma Contains_zone: "Contains p a \<Longrightarrow> zone_of a = []"
  by (simp add: Contains_def)

text \<open>A prefix holds an interval of values: what lies between two members is a member.\<close>

lemma Contains_between:
  assumes "Contains p (Addr u z)" "Contains p (Addr w z)" "u \<le> v" "v \<le> w"
  shows "Contains p (Addr v z)"
proof -
  have "v div d = u div d" if "u div d = w div d" for d
    using div_le_mono [OF assms(3), of d] div_le_mono [OF assms(4), of d] that by simp
  moreover have "BitLen (Addr u z) = BitLen (Addr v z)" "BitLen (Addr w z) = BitLen (Addr v z)"
    "zone_of (Addr v z) = zone_of (Addr u z)"
    by (cases z; simp)+
  ultimately show ?thesis using assms(1,2) by (auto simp: Contains_def)
qed

end
