(* ===== verification/Ipam.thy ===== *)
theory Ipam
  imports Netip
begin

text \<open>
  The IP address manager, \<open>pkg/ipam/ipam.go\<close>. An allocator maps network names to subnets; a
  subnet holds one boolean per address of its range (\<open>true\<close> for an allocated address) and the
  owner of each claim. Every exported method of the Go code holds the allocator's mutex from
  start to end, so each is one atomic function on the allocator here.

  \<open>buildSubnet\<close> fills the address map with a loop that does not end for one input (a range that
  ends at the highest IPv6 address), so it and its callers return an \<open>option\<close>: \<open>None\<close> is
  "does not return".
\<close>

section \<open>State and errors\<close>

record IPSubnet =
  s_cidr :: netprefix
  s_start :: "netIP option"
  s_end :: "netIP option"
  s_broadcast :: "netIP option"
  s_ips :: "(string, bool) gomap"
  s_owners :: "(string, string) gomap"

type_synonym IPAllocator = "(string, IPSubnet) gomap"

datatype ipam_error =
    InvalidPrefix string
  | InvalidAddr string
  | InvalidStart string
  | InvalidEnd string
  | RangeTooLarge string string int
  | StartOutside string string
  | EndOutside string string
  | EndBeforeStart string string
  | EndIsBroadcast string
  | NotInCidr string
  | EqualsBroadcast string
  | NotInRange string
  | ExcludeFailed string ipam_error
  | OwnerEmpty
  | NoNetwork string
  | AlreadyAllocated string
  | NotFoundInPool string string
  | NoneLeft string
  | ForeignClaim string string
  | GivenEmpty
  | NotAllocated string
  | NotFoundInNetwork string string

fun IsForeignClaim :: "ipam_error \<Rightarrow> bool" where
  "IsForeignClaim (ForeignClaim ip o') = True"
| "IsForeignClaim _ = False"

definition New :: IPAllocator where
  "New = []"

section \<open>Building a subnet\<close>

definition MaxSubnetRangeSize :: int where
  "MaxSubnetRangeSize = 65536"

definition ValidateRangeSize :: "string \<Rightarrow> string \<Rightarrow> ipam_error option" where
  "ValidateRangeSize start end' =
     (case ParseAddr start of
        None \<Rightarrow> Some (InvalidStart start)
      | Some startAddr \<Rightarrow>
          (case ParseAddr end' of
             None \<Rightarrow> Some (InvalidEnd end')
           | Some endAddr \<Rightarrow>
               (let size = int (aval endAddr) - int (aval startAddr) + 1 in
                if \<not> (- (2 ^ 63) \<le> size \<and> size < 2 ^ 63) \<or> size > MaxSubnetRangeSize
                then Some (RangeTooLarge start end' size) else None)))"

text \<open>The loop that pre-populates the address map, from \<open>ip\<close> up to \<open>endAddr\<close>.\<close>

partial_function (option) fill_ips :: "addr \<Rightarrow> addr \<Rightarrow> (string, bool) gomap \<Rightarrow> (string, bool) gomap option" where
  "fill_ips endAddr ip m =
     (if addr_less (Prev ip) endAddr
      then fill_ips endAddr (Next ip) (AList.update (addr_string (Unmap ip)) False m)
      else Some m)"

declare fill_ips.simps [code]

text \<open>The broadcast address of an IPv4 prefix, byte by byte \<open>subnetStart[i] | ^subnetMask[i]\<close>.\<close>

definition broadcast_of :: "netprefix \<Rightarrow> netIP option" where
  "broadcast_of p =
     (if Is4 (pip p)
      then let h = 32 - pbits p; v = aval (pip p) mod 0x100000000
           in Some (IP4 (v div 2 ^ h * 2 ^ h + (2 ^ h - 1)))
      else None)"

definition is_broadcast :: "netIP option \<Rightarrow> netIP \<Rightarrow> bool" where
  "is_broadcast b ip = (case b of None \<Rightarrow> False | Some b' \<Rightarrow> ip_equal b' ip)"

definition buildSubnet :: "string \<Rightarrow> string \<Rightarrow> string \<Rightarrow> (ipam_error + IPSubnet) option" where
  "buildSubnet subnet start end' =
     (let s_st = ParseIP start; s_en = ParseIP end' in
      case ParsePrefix subnet of
        None \<Rightarrow> Some (Inl (InvalidPrefix subnet))
      | Some ipnet \<Rightarrow>
      (case ParseAddr start of
        None \<Rightarrow> Some (Inl (InvalidAddr start))
      | Some startIP \<Rightarrow>
      if \<not> Contains ipnet startIP then Some (Inl (StartOutside start subnet)) else
      (case ParseAddr end' of
        None \<Rightarrow> Some (Inl (InvalidAddr end'))
      | Some endIP \<Rightarrow>
      if \<not> Contains ipnet endIP then Some (Inl (EndOutside end' subnet)) else
      let startAddr = AddrFromSlice s_st; endAddr = AddrFromSlice s_en in
      if addr_less endAddr startAddr then Some (Inl (EndBeforeStart end' start)) else
      let bcast = broadcast_of ipnet in
      if (case s_en of None \<Rightarrow> False | Some e \<Rightarrow> is_broadcast bcast e)
      then Some (Inl (EndIsBroadcast end')) else
      (case ValidateRangeSize start end' of
        Some err \<Rightarrow> Some (Inl err)
      | None \<Rightarrow>
          (case fill_ips endAddr startAddr [] of
             None \<Rightarrow> None
           | Some allocatedIPs \<Rightarrow>
               Some (Inr \<lparr>s_cidr = ipnet, s_start = s_st, s_end = s_en, s_broadcast = bcast,
                          s_ips = allocatedIPs, s_owners = []\<rparr>))))))"

definition markIPUsed :: "IPSubnet \<Rightarrow> string \<Rightarrow> ipam_error + IPSubnet" where
  "markIPUsed s ipStr =
     (case ParseAddr ipStr of
        None \<Rightarrow> Inl (InvalidAddr ipStr)
      | Some ip \<Rightarrow>
          if \<not> Contains (s_cidr s) ip then Inl (NotInCidr ipStr)
          else if is_broadcast (s_broadcast s) (AsSlice (Unmap ip)) then Inl (EqualsBroadcast ipStr)
          else case map_of (s_ips s) ipStr of
            Some _ \<Rightarrow> Inr (s\<lparr>s_ips := AList.update ipStr True (s_ips s)\<rparr>)
          | None \<Rightarrow> Inl (NotInRange ipStr))"

definition NewSubnet ::
  "IPAllocator \<Rightarrow> string \<Rightarrow> string \<Rightarrow> string \<Rightarrow> string \<Rightarrow> (IPAllocator \<times> ipam_error option) option" where
  "NewSubnet a name subnet start end' =
     (case buildSubnet subnet start end' of
        None \<Rightarrow> None
      | Some (Inl err) \<Rightarrow> Some (a, Some err)
      | Some (Inr s) \<Rightarrow> Some (AList.update name s a, None))"

text \<open>The three marking passes of \<open>RefreshSubnet\<close>: excludes, allocations, live owned claims.\<close>

fun mark_excludes :: "IPSubnet \<Rightarrow> string list \<Rightarrow> ipam_error + IPSubnet" where
  "mark_excludes s [] = Inr s"
| "mark_excludes s (ip # ips) =
     (case markIPUsed s ip of
        Inl err \<Rightarrow> Inl (ExcludeFailed ip err)
      | Inr s' \<Rightarrow> mark_excludes s' ips)"

fun mark_allocations :: "IPSubnet \<Rightarrow> string list \<Rightarrow> IPSubnet" where
  "mark_allocations s [] = s"
| "mark_allocations s (ip # ips) =
     (case markIPUsed s ip of
        Inl err \<Rightarrow> mark_allocations s ips
      | Inr s' \<Rightarrow> mark_allocations s' ips)"

fun carry_claims :: "IPSubnet \<Rightarrow> IPSubnet \<Rightarrow> (string, string) gomap \<Rightarrow> IPSubnet" where
  "carry_claims old s [] = s"
| "carry_claims old s ((ip, owner) # os) =
     (if owner = [] \<or> \<not> getz False (s_ips old) ip then carry_claims old s os
      else case markIPUsed s ip of
        Inl err \<Rightarrow> carry_claims old s os
      | Inr s' \<Rightarrow> carry_claims old (s'\<lparr>s_owners := AList.update ip owner (s_owners s')\<rparr>) os)"

definition RefreshSubnet ::
  "IPAllocator \<Rightarrow> string \<Rightarrow> string \<Rightarrow> string \<Rightarrow> string \<Rightarrow> string list \<Rightarrow> string list \<Rightarrow>
   (IPAllocator \<times> ipam_error option) option" where
  "RefreshSubnet a name subnet start end' excludes allocations =
     (case buildSubnet subnet start end' of
        None \<Rightarrow> None
      | Some (Inl err) \<Rightarrow> Some (a, Some err)
      | Some (Inr s) \<Rightarrow>
          (case mark_excludes s excludes of
             Inl err \<Rightarrow> Some (a, Some err)
           | Inr s1 \<Rightarrow>
               (let s2 = mark_allocations s1 allocations;
                    s3 = (case map_of a name of
                            None \<Rightarrow> s2
                          | Some old \<Rightarrow> carry_claims old s2 (s_owners old))
                in Some (AList.update name s3 a, None))))"

definition DeleteSubnet :: "IPAllocator \<Rightarrow> string \<Rightarrow> IPAllocator" where
  "DeleteSubnet a name = AList.delete name a"

section \<open>Allocation and release\<close>

definition set_claim :: "IPSubnet \<Rightarrow> string \<Rightarrow> string \<Rightarrow> IPSubnet" where
  "set_claim s ip owner =
     s\<lparr>s_ips := AList.update ip True (s_ips s), s_owners := AList.update ip owner (s_owners s)\<rparr>"

definition clear_claim :: "IPSubnet \<Rightarrow> string \<Rightarrow> IPSubnet" where
  "clear_claim s ip =
     s\<lparr>s_ips := AList.update ip False (s_ips s), s_owners := AList.delete ip (s_owners s)\<rparr>"

definition getIP :: "IPAllocator \<Rightarrow> string \<Rightarrow> string \<Rightarrow> string \<Rightarrow> IPAllocator \<times> (ipam_error + string)" where
  "getIP a name givenIP owner =
     (case map_of a name of
        None \<Rightarrow> (a, Inl (NoNetwork name))
      | Some s \<Rightarrow>
          if givenIP \<noteq> [] then
            (case ParseAddr givenIP of
               None \<Rightarrow> (a, Inl (InvalidAddr givenIP))
             | Some gIP \<Rightarrow>
                 if \<not> Contains (s_cidr s) gIP then (a, Inl (NotInCidr givenIP))
                 else if is_broadcast (s_broadcast s) (AsSlice (Unmap gIP)) then (a, Inl (EqualsBroadcast givenIP))
                 else case map_of (s_ips s) givenIP of
                   Some allocated \<Rightarrow>
                     if allocated then (a, Inl (AlreadyAllocated givenIP))
                     else (AList.update name (set_claim s givenIP owner) a, Inr givenIP)
                 | None \<Rightarrow> (a, Inl (NotFoundInPool givenIP name)))
          else
            (let addrs = sort_key addr_key (List.map_filter ParseAddr (keys (s_ips s))) in
             case find (\<lambda>ip. \<not> getz False (s_ips s) (addr_string ip)) addrs of
               Some ip \<Rightarrow> (AList.update name (set_claim s (addr_string ip) owner) a, Inr (addr_string ip))
             | None \<Rightarrow> (a, Inl (NoneLeft name))))"

definition GetIP :: "IPAllocator \<Rightarrow> string \<Rightarrow> string \<Rightarrow> IPAllocator \<times> (ipam_error + string)" where
  "GetIP a name givenIP = getIP a name givenIP []"

definition GetIPOwned ::
  "IPAllocator \<Rightarrow> string \<Rightarrow> string \<Rightarrow> string \<Rightarrow> IPAllocator \<times> (ipam_error + string)" where
  "GetIPOwned a name givenIP owner =
     (if owner = [] then (a, Inl OwnerEmpty)
      else if givenIP \<noteq> [] \<and>
              (case map_of a name of
                 None \<Rightarrow> False
               | Some s \<Rightarrow> getz False (s_ips s) givenIP \<and> getz [] (s_owners s) givenIP = owner)
      then (a, Inr givenIP)
      else getIP a name givenIP owner)"

definition releaseIP :: "IPAllocator \<Rightarrow> string \<Rightarrow> string \<Rightarrow> IPAllocator \<times> ipam_error option" where
  "releaseIP a name givenIP =
     (case map_of a name of
        None \<Rightarrow> (a, Some (NoNetwork name))
      | Some s \<Rightarrow>
          if givenIP = [] then (a, Some GivenEmpty)
          else case ParseAddr givenIP of
            None \<Rightarrow> (a, Some (InvalidAddr givenIP))
          | Some gIP \<Rightarrow>
              if \<not> Contains (s_cidr s) gIP then (a, Some (NotInCidr givenIP))
              else case map_of (s_ips s) givenIP of
                Some allocated \<Rightarrow>
                  if allocated then (AList.update name (clear_claim s givenIP) a, None)
                  else (a, Some (NotAllocated givenIP))
              | None \<Rightarrow> (a, Some (NotFoundInNetwork givenIP name)))"

definition ReleaseIP :: "IPAllocator \<Rightarrow> string \<Rightarrow> string \<Rightarrow> IPAllocator \<times> ipam_error option" where
  "ReleaseIP a name givenIP = releaseIP a name givenIP"

definition ReleaseIPOwned ::
  "IPAllocator \<Rightarrow> string \<Rightarrow> string \<Rightarrow> string \<Rightarrow> IPAllocator \<times> ipam_error option" where
  "ReleaseIPOwned a name givenIP owner =
     (if owner = [] then (a, Some OwnerEmpty)
      else case map_of a name of
        None \<Rightarrow> (a, Some (NoNetwork name))
      | Some s \<Rightarrow>
          if map_of (s_ips s) givenIP = Some True \<and> getz [] (s_owners s) givenIP \<noteq> owner
          then (a, Some (ForeignClaim givenIP (getz [] (s_owners s) givenIP)))
          else releaseIP a name givenIP)"

text \<open>The sweep over the owner map: frees and counts the claims of \<open>owner\<close>.\<close>

fun sweep_owner :: "IPSubnet \<Rightarrow> string \<Rightarrow> (string, string) gomap \<Rightarrow> IPSubnet \<times> nat" where
  "sweep_owner s owner [] = (s, 0)"
| "sweep_owner s owner ((ip, o') # os) =
     (if o' \<noteq> owner then sweep_owner s owner os
      else let freed = (map_of (s_ips s) ip = Some True);
               s1 = (if freed then s\<lparr>s_ips := AList.update ip False (s_ips s)\<rparr> else s);
               s2 = s1\<lparr>s_owners := AList.delete ip (s_owners s1)\<rparr>;
               (s3, n) = sweep_owner s2 owner os
           in (s3, n + of_bool freed))"

definition ReleaseAllByOwner :: "IPAllocator \<Rightarrow> string \<Rightarrow> string \<Rightarrow> IPAllocator \<times> nat" where
  "ReleaseAllByOwner a name owner =
     (if owner = [] then (a, 0)
      else case map_of a name of
        None \<Rightarrow> (a, 0)
      | Some s \<Rightarrow> (let (s', n) = sweep_owner s owner (s_owners s) in (AList.update name s' a, n)))"

section \<open>Usage\<close>

definition Used :: "IPAllocator \<Rightarrow> string \<Rightarrow> nat" where
  "Used a name =
     (case map_of a name of None \<Rightarrow> 0 | Some s \<Rightarrow> length (filter snd (s_ips s)))"

definition Available :: "IPAllocator \<Rightarrow> string \<Rightarrow> nat" where
  "Available a name =
     (case map_of a name of None \<Rightarrow> 0 | Some s \<Rightarrow> length (filter (\<lambda>p. \<not> snd p) (s_ips s)))"

record UsageData =
  u_CIDR :: string
  u_Start :: string
  u_End :: string
  u_Broadcast :: string
  u_Total :: nat
  u_Used :: nat
  u_Available :: int
  u_UsedIPs :: "string list"

definition netip_text :: "netIP option \<Rightarrow> string" where
  "netip_text ip = (case ip of None \<Rightarrow> ''<nil>'' | Some i \<Rightarrow> ip_string i)"

definition usage_of :: "IPSubnet \<Rightarrow> UsageData" where
  "usage_of s =
     (let used = map fst (filter snd (s_ips s)) in
      \<lparr>u_CIDR = prefix_string (s_cidr s), u_Start = netip_text (s_start s), u_End = netip_text (s_end s),
       u_Broadcast = (case s_broadcast s of None \<Rightarrow> [] | Some b \<Rightarrow> ip_string b),
       u_Total = length (s_ips s), u_Used = length used,
       u_Available = int (length (s_ips s)) - int (length used), u_UsedIPs = sort used\<rparr>)"

definition GetUsage :: "IPAllocator \<Rightarrow> (string, UsageData) gomap" where
  "GetUsage a = map (\<lambda>(n, s). (n, usage_of s)) a"

section \<open>Invariant\<close>

text \<open>
  A subnet's address keys are distinct canonical texts of addresses, and an owner is recorded
  only for an address that is allocated.
\<close>

definition subnet_inv :: "IPSubnet \<Rightarrow> bool" where
  "subnet_inv s \<longleftrightarrow>
     distinct (keys (s_ips s)) \<and> (\<forall>k \<in> set (keys (s_ips s)). \<exists>v < top128. k = ipkey v) \<and>
     distinct (keys (s_owners s)) \<and>
     (\<forall>k o'. map_of (s_owners s) k = Some o' \<longrightarrow> map_of (s_ips s) k = Some True)"

definition ipam_inv :: "IPAllocator \<Rightarrow> bool" where
  "ipam_inv a \<longleftrightarrow> distinct (keys a) \<and> (\<forall>n s. map_of a n = Some s \<longrightarrow> subnet_inv s)"

lemma subnet_invD:
  assumes "subnet_inv s"
  shows "distinct (keys (s_ips s))" "distinct (keys (s_owners s))"
    "map_of (s_ips s) k = Some b \<Longrightarrow> \<exists>v < top128. k = ipkey v"
    "map_of (s_owners s) k = Some o' \<Longrightarrow> map_of (s_ips s) k = Some True"
  using assms map_of_in_keys [of "s_ips s" k b] by (auto simp: subnet_inv_def)

lemma ipam_inv_subnet: "ipam_inv a \<Longrightarrow> map_of a n = Some s \<Longrightarrow> subnet_inv s"
  by (simp add: ipam_inv_def)

lemma ipam_inv_update: "ipam_inv a \<Longrightarrow> subnet_inv s \<Longrightarrow> ipam_inv (AList.update n s a)"
  by (auto simp: ipam_inv_def distinct_keys_update split: if_splits)

lemma ipam_inv_delete: "ipam_inv a \<Longrightarrow> ipam_inv (DeleteSubnet a n)"
  by (auto simp: ipam_inv_def DeleteSubnet_def distinct_keys_delete split: if_splits)

lemma ipam_inv_New [simp]: "ipam_inv New"
  by (simp add: ipam_inv_def New_def)

lemma subnet_inv_mark:
  "subnet_inv s \<Longrightarrow> map_of (s_ips s) k \<noteq> None \<Longrightarrow>
   subnet_inv (s\<lparr>s_ips := AList.update k True (s_ips s)\<rparr>)"
  by (auto simp: subnet_inv_def keys_update map_of_None_keys)

lemma subnet_inv_set_claim:
  "subnet_inv s \<Longrightarrow> map_of (s_ips s) k \<noteq> None \<Longrightarrow> subnet_inv (set_claim s k o')"
  by (auto simp: subnet_inv_def set_claim_def keys_update map_of_None_keys)

lemma subnet_inv_clear_claim:
  "subnet_inv s \<Longrightarrow> map_of (s_ips s) k \<noteq> None \<Longrightarrow> subnet_inv (clear_claim s k)"
  by (auto simp: subnet_inv_def clear_claim_def keys_update keys_delete map_of_None_keys)

section \<open>The address map of a new subnet\<close>

lemma fill_ips_steps:
  assumes "e < top128 - 1" and "v \<le> Suc e"
  shows "fill_ips (AddrFrom16 e) (AddrFrom16 v) m =
         Some (foldl (\<lambda>m u. AList.update (ipkey u) False m) m [v..<Suc e])"
  using assms(2)
proof (induction "Suc e - v" arbitrary: v m)
  case 0
  then have "v = Suc e" by simp
  then show ?case by (subst fill_ips.simps) (simp add: netip_simps)
next
  case (Suc n)
  then have v: "v < Suc e" by simp
  then have "fill_ips (AddrFrom16 e) (AddrFrom16 v) m =
             fill_ips (AddrFrom16 e) (AddrFrom16 (Suc v)) (AList.update (ipkey v) False m)"
    using assms(1) by (subst fill_ips.simps) (auto simp: netip_simps ipkey_def addr_of_def)
  moreover have "n = Suc e - Suc v" using Suc.hyps(2) by simp
  ultimately show ?case
    using Suc.hyps(1) [of "Suc v" "AList.update (ipkey v) False m"] v
    by (simp add: upt_conv_Cons del: upt_Suc)
qed

lemma fold_fresh_keys:
  "distinct (map f us) \<Longrightarrow> set (map f us) \<inter> set (keys m) = {} \<Longrightarrow>
   foldl (\<lambda>m u. AList.update (f u) b m) m us = m @ map (\<lambda>u. (f u, b)) us"
proof (induction us arbitrary: m)
  case (Cons u us)
  then have "AList.update (f u) b m = m @ [(f u, b)]" by (simp add: update_fresh)
  with Cons show ?case by auto
qed simp

lemma fill_ips_range:
  assumes "e < top128 - 1" and "v \<le> e"
  shows "fill_ips (AddrFrom16 e) (AddrFrom16 v) [] = Some (map (\<lambda>u. (ipkey u, False)) [v..<Suc e])"
proof -
  have "distinct (map ipkey [v..<Suc e])"
    using assms by (subst distinct_map) (auto simp: inj_on_def ipkey_inject simp del: upt_Suc)
  then show ?thesis using assms fill_ips_steps [of e v "[]"] by (simp add: fold_fresh_keys del: upt_Suc)
qed

text \<open>Once the successor of the highest address was taken, the loop never ends.\<close>

lemma fill_ips_Z0: "azone ip = Z0 \<Longrightarrow> fill_ips (AddrFrom16 e) ip m = None"
proof -
  have "azone ip = Z0 \<longrightarrow> endAddr = AddrFrom16 e \<longrightarrow> False"
    if "fill_ips endAddr ip m = Some r" for endAddr ip m r
  proof (rule fill_ips.raw_induct [where P = "\<lambda>endAddr ip m r. azone ip = Z0 \<longrightarrow> endAddr = AddrFrom16 e \<longrightarrow> False", OF _ that])
    fix f endAddr ip m r
    assume IH: "\<And>endAddr ip m r. f endAddr ip m = Some r \<Longrightarrow> azone ip = Z0 \<longrightarrow> endAddr = AddrFrom16 e \<longrightarrow> False"
      and eq: "(if addr_less (Prev ip) endAddr
                then f endAddr (Next ip) (AList.update (addr_string (Unmap ip)) False m) else Some m) = Some r"
    show "azone ip = Z0 \<longrightarrow> endAddr = AddrFrom16 e \<longrightarrow> False"
    proof (intro impI)
      assume z: "azone ip = Z0" and e: "endAddr = AddrFrom16 e"
      have "addr_less (Prev ip) endAddr"
        using Z0_closed(2) [OF z] e addr_less_Z0 by (cases "Prev ip") auto
      with eq have "f endAddr (Next ip) (AList.update (addr_string (Unmap ip)) False m) = Some r" by simp
      from IH [OF this] Z0_closed(1) [OF z] e show False by simp
    qed
  qed
  then show "azone ip = Z0 \<Longrightarrow> fill_ips (AddrFrom16 e) ip m = None"
    by (cases "fill_ips (AddrFrom16 e) ip m") auto
qed

lemma fill_ips_top: "v < top128 \<Longrightarrow> fill_ips (AddrFrom16 (top128 - 1)) (AddrFrom16 v) m = None"
proof (induction "top128 - v" arbitrary: v m)
  case (Suc n)
  have step: "fill_ips (AddrFrom16 (top128 - 1)) (AddrFrom16 v) m =
    fill_ips (AddrFrom16 (top128 - 1)) (Next (AddrFrom16 v)) (AList.update (addr_string (Unmap (AddrFrom16 v))) False m)"
    using Suc.prems by (subst fill_ips.simps) (auto simp: netip_simps)
  show ?case
  proof (cases "Suc v = top128")
    case True
    then have "Next (AddrFrom16 v) = Addr 0 Z0" using Suc.prems by (simp add: netip_simps)
    with step fill_ips_Z0 show ?thesis by simp
  next
    case False
    then have "Next (AddrFrom16 v) = AddrFrom16 (Suc v)" using Suc.prems by (simp add: netip_simps)
    with step Suc.hyps(1) [of "Suc v"] Suc.hyps(2) Suc.prems False show ?thesis by simp
  qed
qed simp

lemma ParseIP_Contains:
  "ParseAddr s = Some a \<Longrightarrow> Contains p a \<Longrightarrow> ParseIP s = Some (IP16 (aval a))"
  by (rule aval_bound) (auto dest: Contains_zone)

lemma ValidateRangeSize_None:
  "ParseAddr start = Some sa \<Longrightarrow> ParseAddr en = Some ea \<Longrightarrow> aval sa \<le> aval ea \<Longrightarrow>
   ValidateRangeSize start en = None \<longleftrightarrow> aval ea - aval sa < 65536"
  by (auto simp: ValidateRangeSize_def MaxSubnetRangeSize_def Let_def)

text \<open>The conditions under which \<open>buildSubnet\<close> reaches its loop.\<close>

definition build_checks :: "string \<Rightarrow> string \<Rightarrow> string \<Rightarrow> netprefix \<Rightarrow> addr \<Rightarrow> addr \<Rightarrow> bool" where
  "build_checks subnet start en p sa ea \<longleftrightarrow>
     ParsePrefix subnet = Some p \<and> ParseAddr start = Some sa \<and> ParseAddr en = Some ea \<and>
     Contains p sa \<and> Contains p ea \<and> aval sa \<le> aval ea \<and>
     \<not> is_broadcast (broadcast_of p) (IP16 (aval ea)) \<and> aval ea - aval sa < 65536"

lemma buildSubnet_eq:
  assumes "ParsePrefix subnet = Some p" "ParseAddr start = Some sa" "ParseAddr en = Some ea"
    "Contains p sa" "Contains p ea"
  shows "buildSubnet subnet start en =
     (if aval ea < aval sa then Some (Inl (EndBeforeStart en start))
      else if is_broadcast (broadcast_of p) (IP16 (aval ea)) then Some (Inl (EndIsBroadcast en))
      else case ValidateRangeSize start en of
        Some err \<Rightarrow> Some (Inl err)
      | None \<Rightarrow>
         (case fill_ips (AddrFrom16 (aval ea)) (AddrFrom16 (aval sa)) [] of
            None \<Rightarrow> None
          | Some m \<Rightarrow> Some (Inr \<lparr>s_cidr = p, s_start = Some (IP16 (aval sa)), s_end = Some (IP16 (aval ea)),
                       s_broadcast = broadcast_of p, s_ips = m, s_owners = []\<rparr>)))"
  using assms ParseIP_Contains [OF assms(2,4)] ParseIP_Contains [OF assms(3,5)]
  by (simp add: buildSubnet_def Let_def AddrFromSlice_16 addr_less_16 cong: option.case_cong)

lemma buildSubnet_checks:
  "build_checks subnet start en p sa ea \<Longrightarrow>
   buildSubnet subnet start en =
     (case fill_ips (AddrFrom16 (aval ea)) (AddrFrom16 (aval sa)) [] of
        None \<Rightarrow> None
      | Some m \<Rightarrow> Some (Inr \<lparr>s_cidr = p, s_start = Some (IP16 (aval sa)), s_end = Some (IP16 (aval ea)),
                   s_broadcast = broadcast_of p, s_ips = m, s_owners = []\<rparr>))"
  using ValidateRangeSize_None [of start sa en ea] buildSubnet_eq [of subnet p start sa en ea]
  by (simp add: build_checks_def not_less cong: option.case_cong)

lemma buildSubnet_early:
  "\<nexists>p sa ea. ParsePrefix subnet = Some p \<and> ParseAddr start = Some sa \<and> ParseAddr en = Some ea \<and>
     Contains p sa \<and> Contains p ea \<Longrightarrow> \<exists>err. buildSubnet subnet start en = Some (Inl err)"
  by (auto simp: buildSubnet_def Let_def split: option.split)

lemma buildSubnet_no_checks:
  assumes "\<nexists>p sa ea. build_checks subnet start en p sa ea"
  shows "\<exists>err. buildSubnet subnet start en = Some (Inl err)"
proof (cases "\<exists>p sa ea. ParsePrefix subnet = Some p \<and> ParseAddr start = Some sa \<and> ParseAddr en = Some ea \<and>
     Contains p sa \<and> Contains p ea")
  case True
  then obtain p sa ea where h: "ParsePrefix subnet = Some p" "ParseAddr start = Some sa"
    "ParseAddr en = Some ea" "Contains p sa" "Contains p ea" by blast
  with assms have no: "\<not> build_checks subnet start en p sa ea" by blast
  show ?thesis
    using no h ValidateRangeSize_None [OF h(2,3)]
    by (auto simp: buildSubnet_eq [OF h] build_checks_def not_less split: option.splits)
next
  case False
  then show ?thesis by (rule buildSubnet_early)
qed

definition built_subnet :: "netprefix \<Rightarrow> addr \<Rightarrow> addr \<Rightarrow> IPSubnet" where
  "built_subnet p sa ea =
     \<lparr>s_cidr = p, s_start = Some (IP16 (aval sa)), s_end = Some (IP16 (aval ea)),
      s_broadcast = broadcast_of p,
      s_ips = map (\<lambda>u. (ipkey u, False)) [aval sa..<Suc (aval ea)], s_owners = []\<rparr>"

lemma build_checks_bound:
  "build_checks subnet start en p sa ea \<Longrightarrow> aval ea < top128 \<and> aval sa \<le> aval ea"
  by (auto simp: build_checks_def dest: ParseAddr_bound)

lemma buildSubnet_built:
  "build_checks subnet start en p sa ea \<Longrightarrow>
   buildSubnet subnet start en =
     (if aval ea = top128 - 1 then None else Some (Inr (built_subnet p sa ea)))"
  using buildSubnet_checks [of subnet start en p sa ea] build_checks_bound [of subnet start en p sa ea]
    fill_ips_top [of "aval sa" "[]"] fill_ips_range [of "aval ea" "aval sa"]
  by (auto simp: built_subnet_def)

lemma buildSubnet_cases:
  obtains (err) err where "buildSubnet subnet start en = Some (Inl err)"
  | (loop) p sa ea where "build_checks subnet start en p sa ea" "aval ea = top128 - 1"
      "buildSubnet subnet start en = None"
  | (ok) p sa ea where "build_checks subnet start en p sa ea" "aval ea \<noteq> top128 - 1"
      "buildSubnet subnet start en = Some (Inr (built_subnet p sa ea))"
proof (cases "\<exists>p sa ea. build_checks subnet start en p sa ea")
  case True
  then obtain p sa ea where "build_checks subnet start en p sa ea" by blast
  with buildSubnet_built [OF this] that(2,3) show ?thesis by (cases "aval ea = top128 - 1") auto
next
  case False
  with buildSubnet_no_checks [of subnet start en] that(1) show ?thesis by blast
qed

lemma subnet_inv_built: "aval ea < top128 \<Longrightarrow> subnet_inv (built_subnet p sa ea)"
proof -
  assume e: "aval ea < top128"
  have "distinct (map ipkey [aval sa..<Suc (aval ea)])"
    using e by (subst distinct_map) (auto simp: inj_on_def ipkey_inject simp del: upt_Suc)
  moreover have "\<exists>v < top128. ipkey u = ipkey v" if "u < Suc (aval ea)" for u
    using that e by (intro exI [of _ u]) simp
  ultimately show ?thesis
    by (auto simp: subnet_inv_def built_subnet_def comp_def simp del: upt_Suc)
qed

section \<open>Claims\<close>

text \<open>The claim on an address: \<open>None\<close> when it is free or unknown, else its owner (empty for none).\<close>

definition claim :: "IPSubnet \<Rightarrow> string \<Rightarrow> string option" where
  "claim s ip = (if map_of (s_ips s) ip = Some True then Some (getz [] (s_owners s) ip) else None)"

definition claim_in :: "IPAllocator \<Rightarrow> string \<Rightarrow> string \<Rightarrow> string option" where
  "claim_in a name ip = (case map_of a name of None \<Rightarrow> None | Some s \<Rightarrow> claim s ip)"

text \<open>\<open>owner\<close> (a FloatingIP's namespace/name) holds the address \<open>ip\<close> of network \<open>name\<close>.\<close>

definition holds :: "IPAllocator \<Rightarrow> string \<Rightarrow> string \<Rightarrow> string \<Rightarrow> bool" where
  "holds a name ip owner \<longleftrightarrow> owner \<noteq> [] \<and> claim_in a name ip = Some owner"

lemma claim_set_claim:
  "claim (set_claim s k o') = (claim s)(k \<mapsto> o')"
  by (auto simp: claim_def set_claim_def getz_update)

lemma claim_clear_claim: "claim (clear_claim s k) = (claim s)(k := None)"
  by (auto simp: claim_def clear_claim_def getz_def)

lemma claim_in_update: "claim_in (AList.update n s a) m = (if m = n then claim s else claim_in a m)"
  by (auto simp: claim_in_def)

lemma claim_mark:
  "subnet_inv s \<Longrightarrow> claim (s\<lparr>s_ips := AList.update k True (s_ips s)\<rparr>) ip =
     (if ip = k \<and> claim s k = None then Some [] else claim s ip)"
  using subnet_invD(4) [of s k] by (cases "map_of (s_owners s) k") (auto simp: claim_def getz_def)

section \<open>Each operation, branch by branch\<close>

lemma find_sorted_least:
  "sorted (map f xs) \<Longrightarrow> find P xs = Some x \<Longrightarrow> y \<in> set xs \<Longrightarrow> P y \<Longrightarrow> f x \<le> f y"
  by (induction xs) (auto split: if_splits)

lemma find_sort_key:
  assumes "find P (sort_key f xs) = Some x"
  shows "x \<in> set xs" "P x" "y \<in> set xs \<Longrightarrow> P y \<Longrightarrow> f x \<le> f y"
proof -
  have "x \<in> set (sort_key f xs) \<and> P x"
    using assms by (simp add: find_Some_iff del: set_sort) (metis nth_mem length_sort)
  then show "x \<in> set xs" "P x" by simp_all
  show "y \<in> set xs \<Longrightarrow> P y \<Longrightarrow> f x \<le> f y"
    using find_sorted_least [OF sorted_sort_key assms] by simp
qed

lemma set_parsed_keys:
  assumes "subnet_inv s"
  shows "set (List.map_filter ParseAddr (keys (s_ips s))) =
         {addr_of v | v b. v < top128 \<and> map_of (s_ips s) (ipkey v) = Some b}"
proof -
  have "ip \<in> set (List.map_filter ParseAddr (keys (s_ips s))) \<longleftrightarrow>
        (\<exists>k \<in> set (keys (s_ips s)). ParseAddr k = Some ip)" for ip
    by (force simp: List.map_filter_def)
  moreover have "(\<exists>k \<in> set (keys (s_ips s)). ParseAddr k = Some ip) \<longleftrightarrow>
        (\<exists>v b. ip = addr_of v \<and> v < top128 \<and> map_of (s_ips s) (ipkey v) = Some b)" for ip
    using assms in_keys_map_of [of _ "s_ips s"] map_of_in_keys [of "s_ips s"] ParseAddr_String
    unfolding subnet_inv_def by (metis option.inject)
  ultimately show ?thesis by blast
qed

text \<open>The addresses of a subnet that are free.\<close>

definition free_in :: "IPSubnet \<Rightarrow> nat \<Rightarrow> bool" where
  "free_in s v \<longleftrightarrow> v < top128 \<and> map_of (s_ips s) (ipkey v) = Some False"

lemma getIP_any:
  assumes inv: "subnet_inv s" and s: "map_of a name = Some s"
  shows "(\<exists>v. free_in s v \<and> (\<forall>u. free_in s u \<longrightarrow> addr_key (addr_of v) \<le> addr_key (addr_of u)) \<and>
            getIP a name [] owner = (AList.update name (set_claim s (ipkey v) owner) a, Inr (ipkey v))) \<or>
         ((\<forall>u. \<not> free_in s u) \<and> getIP a name [] owner = (a, Inl (NoneLeft name)))"
proof -
  define P where "P = (\<lambda>ip. \<not> getz False (s_ips s) (addr_string ip))"
  define xs where "xs = List.map_filter ParseAddr (keys (s_ips s))"
  have P: "P (addr_of v) \<longleftrightarrow> map_of (s_ips s) (ipkey v) \<noteq> Some True" for v
    by (auto simp: P_def ipkey_def getz_def split: option.splits)
  have free: "free_in s u \<longleftrightarrow> u < top128 \<and> addr_of u \<in> set xs \<and> P (addr_of u)" for u
    using set_parsed_keys [OF inv] P
    by (auto simp: free_in_def xs_def addr_of_eq)
  have get: "getIP a name [] owner =
      (case find P (sort_key addr_key xs) of
         Some ip \<Rightarrow> (AList.update name (set_claim s (addr_string ip) owner) a, Inr (addr_string ip))
       | None \<Rightarrow> (a, Inl (NoneLeft name)))"
    using s by (simp add: getIP_def P_def xs_def Let_def)
  show ?thesis
  proof (cases "find P (sort_key addr_key xs)")
    case None
    then have "\<forall>u. \<not> free_in s u" using free by (simp add: find_None_iff)
    with None get show ?thesis by simp
  next
    case (Some ip)
    note f = find_sort_key [OF Some]
    obtain v where v: "ip = addr_of v" "v < top128"
      using f(1) set_parsed_keys [OF inv] by (auto simp: xs_def)
    then have "free_in s v" using f free by simp
    moreover have "addr_key (addr_of v) \<le> addr_key (addr_of u)" if "free_in s u" for u
      using f(3) [of "addr_of u"] that free v by simp
    ultimately show ?thesis using Some get v by (auto simp: ipkey_def)
  qed
qed

lemma getIP_outcome:
  assumes "ipam_inv a" and "getIP a name given owner = (a', r)"
  shows "(\<exists>e. r = Inl e \<and> a' = a) \<or>
         (\<exists>s k. r = Inr k \<and> map_of a name = Some s \<and> map_of (s_ips s) k = Some False \<and>
            (given \<noteq> [] \<longrightarrow> k = given) \<and> k \<noteq> [] \<and> a' = AList.update name (set_claim s k owner) a)"
proof (cases "map_of a name")
  case None
  with assms(2) show ?thesis by (auto simp: getIP_def)
next
  case (Some s)
  with assms(1) have inv: "subnet_inv s" by (rule ipam_inv_subnet)
  show ?thesis
  proof (cases "given = []")
    case True
    with getIP_any [OF inv Some, of owner] assms(2) Some show ?thesis
      by (auto simp: free_in_def)
  next
    case False
    with assms(2) Some show ?thesis
      by (auto simp: getIP_def split: option.splits if_splits)
  qed
qed

text \<open>What \<open>GetIPOwned\<close> can do: nothing (an error, or a re-claim), or one new claim.\<close>

lemma GetIPOwned_outcome:
  assumes "ipam_inv a" and "GetIPOwned a name given owner = (a', r)"
  obtains (error) e where "r = Inl e" "a' = a"
  | (reclaim) "r = Inr given" "a' = a" "given \<noteq> []" "holds a name given owner"
  | (fresh) s k where "r = Inr k" "owner \<noteq> []" "map_of a name = Some s" "map_of (s_ips s) k = Some False"
      "given \<noteq> [] \<longrightarrow> k = given" "k \<noteq> []" "a' = AList.update name (set_claim s k owner) a"
proof -
  let ?R = "given \<noteq> [] \<and> (\<exists>s. map_of a name = Some s \<and> getz False (s_ips s) given \<and>
              getz [] (s_owners s) given = owner)"
  show thesis
  proof (cases "owner = []")
    case True
    with assms(2) error show thesis by (auto simp: GetIPOwned_def)
  next
    case o: False
    show thesis
    proof (cases ?R)
      case True
      with o have "holds a name given owner"
        by (auto simp: holds_def claim_in_def claim_def getz_def split: option.splits)
      moreover have "a' = a" "r = Inr given" using assms(2) o True by (auto simp: GetIPOwned_def)
      ultimately show thesis using True reclaim by blast
    next
      case False
      with assms(2) o have "getIP a name given owner = (a', r)"
        by (cases "map_of a name") (auto simp: GetIPOwned_def)
      from getIP_outcome [OF assms(1) this] o error fresh show thesis by blast
    qed
  qed
qed

lemma releaseIP_outcome:
  assumes "releaseIP a name ip = (a', r)"
  shows "(r \<noteq> None \<and> a' = a) \<or>
         (r = None \<and> (\<exists>s. map_of a name = Some s \<and> map_of (s_ips s) ip = Some True \<and>
            a' = AList.update name (clear_claim s ip) a))"
  using assms by (auto simp: releaseIP_def split: option.splits if_splits)

lemma ReleaseIPOwned_outcome:
  assumes "ReleaseIPOwned a name ip owner = (a', r)"
  shows "(r \<noteq> None \<and> a' = a) \<or>
         (r = None \<and> holds a name ip owner \<and> (\<exists>s. map_of a name = Some s \<and> map_of (s_ips s) ip = Some True \<and>
            a' = AList.update name (clear_claim s ip) a))"
proof -
  consider "r \<noteq> None" "a' = a"
    | s where "owner \<noteq> []" "map_of a name = Some s"
      "\<not> (map_of (s_ips s) ip = Some True \<and> getz [] (s_owners s) ip \<noteq> owner)" "releaseIP a name ip = (a', r)"
    using assms by (auto simp: ReleaseIPOwned_def split: option.splits if_splits)
  then show ?thesis
  proof cases
    case 2
    then show ?thesis using releaseIP_outcome [OF 2(4)] by (auto simp: holds_def claim_in_def claim_def)
  qed simp
qed

end
