(* ===== verification/Ipam_Correct.thy ===== *)
theory Ipam_Correct
  imports Ipam
begin

text \<open>
  What the operations of the IP address manager do to the claims of a subnet: the sweep of an
  owner's claims, the marking passes, and the refresh of a subnet's range. The file ends with
  the properties of the allocator.
\<close>

section \<open>The sweep\<close>

lemma claim_owner:
  "subnet_inv s \<Longrightarrow> o' \<noteq> [] \<Longrightarrow> claim s ip = Some o' \<longleftrightarrow> map_of (s_owners s) ip = Some o'"
  using subnet_invD(4) [of s ip] by (auto simp: claim_def getz_def split: option.splits)

lemma sweep_owner_spec:
  assumes "subnet_inv s" and "distinct (keys os)"
    and "\<And>ip o'. map_of os ip = Some o' \<Longrightarrow> map_of (s_owners s) ip = Some o'"
    and "sweep_owner s owner os = (s', n)"
  shows "subnet_inv s' \<and> keys (s_ips s') = keys (s_ips s) \<and> s_cidr s' = s_cidr s \<and>
         s_broadcast s' = s_broadcast s \<and>
         claim s' = (\<lambda>ip. if map_of os ip = Some owner then None else claim s ip) \<and>
         n = length (filter (\<lambda>p. snd p = owner) os) \<and>
         count_true (s_ips s') + n = count_true (s_ips s)"
  using assms
proof (induction os arbitrary: s s' n)
  case Nil
  then show ?case by simp
next
  case (Cons p os)
  obtain ip o' where p: "p = (ip, o')" by (cases p)
  have fresh: "map_of os ip = None" using Cons.prems(2) p by (simp add: map_of_None_keys)
  have own: "map_of (s_owners s) ip = Some o'" using Cons.prems(3) [of ip o'] p by simp
  have rest: "map_of (s_owners s) k = Some oo" if "map_of os k = Some oo" for k oo
  proof -
    have "k \<noteq> ip" using that fresh by auto
    with Cons.prems(3) [of k oo] that p show ?thesis by simp
  qed
  show ?case
  proof (cases "o' = owner")
    case False
    then have "sweep_owner s owner os = (s', n)" using Cons.prems(4) p by simp
    moreover have "distinct (keys os)" using Cons.prems(2) by simp
    moreover have "(map_of (p # os) k = Some owner) = (map_of os k = Some owner)" for k
      using False p fresh by auto
    ultimately show ?thesis using Cons.IH [OF Cons.prems(1) _ rest, of s' n] False p by simp
  next
    case True
    have alloc: "map_of (s_ips s) ip = Some True" by (rule subnet_invD(4) [OF Cons.prems(1) own])
    define s2 where "s2 = clear_claim s ip"
    obtain m where m: "sweep_owner s2 owner os = (s', m)" and n: "n = Suc m"
      using Cons.prems(4) p True alloc by (auto simp: Let_def s2_def clear_claim_def split: prod.splits)
    have inv2: "subnet_inv s2" using Cons.prems(1) alloc by (simp add: s2_def subnet_inv_clear_claim)
    have rest2: "map_of (s_owners s2) k = Some oo" if "map_of os k = Some oo" for k oo
      using rest [OF that] that fresh by (auto simp: s2_def clear_claim_def)
    have ct: "count_true (s_ips s2) + 1 = count_true (s_ips s)"
      using count_true_update [OF subnet_invD(1) [OF Cons.prems(1)] alloc, of False]
      by (simp add: s2_def clear_claim_def)
    have ks: "keys (s_ips s2) = keys (s_ips s)"
      using map_of_in_keys [OF alloc] by (simp add: s2_def clear_claim_def keys_update)
    have "distinct (keys os)" using Cons.prems(2) by simp
    from Cons.IH [OF inv2 this rest2 m] ct ks n p True fresh show ?thesis
      by (auto simp: s2_def claim_clear_claim fun_eq_iff) (simp_all add: clear_claim_def)
  qed
qed

lemma ReleaseAllByOwner_spec:
  assumes inv: "ipam_inv a" and o: "owner \<noteq> []" and r: "ReleaseAllByOwner a name owner = (a', n)"
  shows "ipam_inv a'"
    "claim_in a' name = (\<lambda>ip. if claim_in a name ip = Some owner then None else claim_in a name ip)"
    "m \<noteq> name \<Longrightarrow> map_of a' m = map_of a m"
    "Used a' name + n = Used a name"
proof -
  have "ipam_inv a' \<and> (m \<noteq> name \<longrightarrow> map_of a' m = map_of a m) \<and> Used a' name + n = Used a name \<and>
    claim_in a' name = (\<lambda>ip. if claim_in a name ip = Some owner then None else claim_in a name ip)"
  proof (cases "map_of a name")
    case None
    with r o inv show ?thesis by (auto simp: ReleaseAllByOwner_def claim_in_def Used_def fun_eq_iff)
  next
    case (Some s)
    obtain s' where s': "sweep_owner s owner (s_owners s) = (s', n)" and a': "a' = AList.update name s' a"
      using r o Some by (auto simp: ReleaseAllByOwner_def split: prod.splits)
    have si: "subnet_inv s" using inv Some by (rule ipam_inv_subnet)
    note sp = sweep_owner_spec [OF si subnet_invD(2) [OF si] _ s']
    show ?thesis
      using sp claim_owner [OF si o] a' Some ipam_inv_update [OF inv, of s' name]
      by (auto simp: claim_in_def Used_def fun_eq_iff count_true_def [symmetric])
  qed
  then show "ipam_inv a'"
    "claim_in a' name = (\<lambda>ip. if claim_in a name ip = Some owner then None else claim_in a name ip)"
    "m \<noteq> name \<Longrightarrow> map_of a' m = map_of a m" "Used a' name + n = Used a name" by auto
qed

section \<open>Marking\<close>

text \<open>The addresses \<open>markIPUsed\<close> accepts; this depends only on the subnet's configuration.\<close>

definition markable :: "IPSubnet \<Rightarrow> string \<Rightarrow> bool" where
  "markable s ip \<longleftrightarrow>
     (case ParseAddr ip of
        None \<Rightarrow> False
      | Some a \<Rightarrow> Contains (s_cidr s) a \<and> \<not> is_broadcast (s_broadcast s) (AsSlice (Unmap a))) \<and>
     ip \<in> set (keys (s_ips s))"

definition same_net :: "IPSubnet \<Rightarrow> IPSubnet \<Rightarrow> bool" where
  "same_net s t \<longleftrightarrow> s_cidr s = s_cidr t \<and> s_start s = s_start t \<and> s_end s = s_end t \<and>
     s_broadcast s = s_broadcast t \<and> keys (s_ips s) = keys (s_ips t)"

lemma same_net_refl [simp]: "same_net s s"
  by (simp add: same_net_def)

lemma same_net_trans: "same_net s t \<Longrightarrow> same_net t u \<Longrightarrow> same_net s u"
  by (simp add: same_net_def)

lemma same_net_markable: "same_net s t \<Longrightarrow> markable s = markable t"
  unfolding same_net_def markable_def by presburger

lemma markIPUsed_eq:
  "markIPUsed s ip = (if markable s ip then Inr (s\<lparr>s_ips := AList.update ip True (s_ips s)\<rparr>)
                      else markIPUsed s ip)"
  "\<not> markable s ip \<Longrightarrow> \<exists>e. markIPUsed s ip = Inl e"
  by (auto simp: markIPUsed_def markable_def map_of_None_keys split: option.splits dest: map_of_in_keys)

lemma markIPUsed_Inr:
  "markIPUsed s ip = Inr s' \<longleftrightarrow> markable s ip \<and> s' = s\<lparr>s_ips := AList.update ip True (s_ips s)\<rparr>"
  using markIPUsed_eq(1) [of s ip] markIPUsed_eq(2) [of s ip] by (auto split: if_splits)

lemma mark_step:
  assumes "subnet_inv s" and "markable s ip" and "s' = s\<lparr>s_ips := AList.update ip True (s_ips s)\<rparr>"
  shows "subnet_inv s'" "same_net s s'"
    "claim s' = (\<lambda>k. if k = ip \<and> claim s ip = None then Some [] else claim s k)"
proof -
  have k: "ip \<in> set (keys (s_ips s))" using assms(2) by (simp add: markable_def)
  then have ne: "map_of (s_ips s) ip \<noteq> None" by (simp add: map_of_None_keys)
  show "subnet_inv s'" using subnet_inv_mark [OF assms(1) ne] assms(3) by simp
  show "same_net s s'" using assms(3) k by (simp add: same_net_def keys_update)
  show "claim s' = (\<lambda>k. if k = ip \<and> claim s ip = None then Some [] else claim s k)"
    using claim_mark [OF assms(1)] assms(3) by auto
qed

text \<open>The claims after a marking pass over \<open>ips\<close>.\<close>

definition marked :: "IPSubnet \<Rightarrow> string set \<Rightarrow> string \<Rightarrow> string option" where
  "marked s K ip = (if claim s ip = None \<and> ip \<in> K \<and> markable s ip then Some [] else claim s ip)"

lemma mark_allocations_spec:
  "subnet_inv s \<Longrightarrow> s' = mark_allocations s ips \<Longrightarrow>
   subnet_inv s' \<and> same_net s s' \<and> claim s' = marked s (set ips)"
proof (induction ips arbitrary: s)
  case Nil
  then show ?case by (auto simp: marked_def)
next
  case (Cons ip ips)
  show ?case
  proof (cases "markIPUsed s ip")
    case (Inl e)
    then have "\<not> markable s ip" using markIPUsed_Inr [of s ip "s\<lparr>s_ips := AList.update ip True (s_ips s)\<rparr>"] by auto
    then have "marked s (set ips) = marked s (set (ip # ips))" by (auto simp: marked_def fun_eq_iff)
    with Cons Inl show ?thesis by simp
  next
    case (Inr t)
    then have t: "markable s ip" "t = s\<lparr>s_ips := AList.update ip True (s_ips s)\<rparr>" by (simp_all add: markIPUsed_Inr)
    note st = mark_step [OF Cons.prems(1) t]
    have "marked t (set ips) = marked s (set (ip # ips))"
      using st(3) same_net_markable [OF st(2)] t(1) by (auto simp: marked_def fun_eq_iff)
    with Cons.IH [OF st(1)] Cons.prems Inr same_net_trans [OF st(2)] show ?thesis by auto
  qed
qed

lemma mark_excludes_spec:
  "subnet_inv s \<Longrightarrow> mark_excludes s ips = Inr s' \<Longrightarrow>
   subnet_inv s' \<and> same_net s s' \<and> claim s' = marked s (set ips) \<and> (\<forall>ip \<in> set ips. markable s ip)"
proof (induction ips arbitrary: s)
  case Nil
  then show ?case by (auto simp: marked_def)
next
  case (Cons ip ips)
  then obtain t where tm: "markIPUsed s ip = Inr t" and r: "mark_excludes t ips = Inr s'"
    by (auto split: sum.splits)
  then have t: "markable s ip" "t = s\<lparr>s_ips := AList.update ip True (s_ips s)\<rparr>" by (simp_all add: markIPUsed_Inr)
  note st = mark_step [OF Cons.prems(1) t]
  have "marked t (set ips) = marked s (set (ip # ips))"
    using st(3) same_net_markable [OF st(2)] t(1) by (auto simp: marked_def fun_eq_iff)
  with Cons.IH [OF st(1) r] same_net_trans [OF st(2)] same_net_markable [OF st(2)] t(1) show ?case by auto
qed

lemma mark_excludes_total:
  "subnet_inv s \<Longrightarrow> (\<exists>s'. mark_excludes s ips = Inr s') \<longleftrightarrow> (\<forall>ip \<in> set ips. markable s ip)"
proof (induction ips arbitrary: s)
  case (Cons ip ips)
  show ?case
  proof (cases "markable s ip")
    case True
    let ?t = "s\<lparr>s_ips := AList.update ip True (s_ips s)\<rparr>"
    have "markIPUsed s ip = Inr ?t" using True by (simp add: markIPUsed_Inr)
    with Cons.IH [OF mark_step(1) [OF Cons.prems True refl]] True
      same_net_markable [OF mark_step(2) [OF Cons.prems True refl]] show ?thesis by simp
  next
    case False
    with markIPUsed_eq(2) [OF this] show ?thesis by auto
  qed
qed simp

text \<open>The claims after the live owned claims \<open>os\<close> of the old subnet were carried over.\<close>

definition carried :: "IPSubnet \<Rightarrow> IPSubnet \<Rightarrow> (string, string) gomap \<Rightarrow> string \<Rightarrow> string option" where
  "carried old s os ip =
     (case map_of os ip of
        None \<Rightarrow> claim s ip
      | Some o' \<Rightarrow> if o' \<noteq> [] \<and> getz False (s_ips old) ip \<and> markable s ip then Some o' else claim s ip)"

lemma carry_claims_spec:
  "subnet_inv s \<Longrightarrow> distinct (keys os) \<Longrightarrow> s' = carry_claims old s os \<Longrightarrow>
   subnet_inv s' \<and> same_net s s' \<and> claim s' = carried old s os"
proof (induction os arbitrary: s)
  case Nil
  then show ?case by (auto simp: carried_def)
next
  case (Cons p os)
  obtain ip o' where p: "p = (ip, o')" by (cases p)
  have fresh: "map_of os ip = None" using Cons.prems(2) p by (simp add: map_of_None_keys)
  show ?case
  proof (cases "o' \<noteq> [] \<and> getz False (s_ips old) ip \<and> markable s ip")
    case False
    then have "carry_claims old s (p # os) = carry_claims old s os"
      using markIPUsed_eq(2) [of s ip] p by auto
    moreover have "carried old s os = carried old s (p # os)"
      using False fresh p by (auto simp: carried_def fun_eq_iff)
    ultimately show ?thesis using Cons by simp
  next
    case True
    define t where "t = set_claim s ip o'"
    have "markIPUsed s ip = Inr (s\<lparr>s_ips := AList.update ip True (s_ips s)\<rparr>)"
      using True by (simp add: markIPUsed_Inr)
    then have c: "carry_claims old s (p # os) = carry_claims old t os"
      using True p by (simp add: t_def set_claim_def)
    have k: "ip \<in> set (keys (s_ips s))" using True by (simp add: markable_def)
    then have "map_of (s_ips s) ip \<noteq> None" by (simp add: map_of_None_keys)
    from subnet_inv_set_claim [OF Cons.prems(1) this] have st: "subnet_inv t" "same_net s t"
      using k by (simp_all add: t_def same_net_def keys_update set_claim_def)
    have "carried old t os = carried old s (p # os)"
      using True fresh p same_net_markable [OF st(2)]
      by (auto simp: carried_def fun_eq_iff t_def claim_set_claim split: option.splits)
    with Cons.IH [OF st(1)] Cons.prems c same_net_trans [OF st(2)] show ?thesis by auto
  qed
qed

section \<open>Refreshing a subnet\<close>

text \<open>
  The claim on an address after a refresh: an owned claim survives, an address that is excluded
  or persisted in a status is marked without an owner, everything else is free; nothing
  outside the new range is in the map.
\<close>

definition refreshed ::
  "IPAllocator \<Rightarrow> string \<Rightarrow> IPSubnet \<Rightarrow> string set \<Rightarrow> string \<Rightarrow> string option" where
  "refreshed a name fresh K ip =
     (if \<not> markable fresh ip then None
      else case claim_in a name ip of
        Some o' \<Rightarrow> if o' \<noteq> [] then Some o' else if ip \<in> K then Some [] else None
      | None \<Rightarrow> if ip \<in> K then Some [] else None)"

lemma claim_built [simp]: "claim (built_subnet p sa ea) = Map.empty"
  by (auto simp: claim_def built_subnet_def fun_eq_iff simp del: upt_Suc dest!: map_of_SomeD)

lemma marked_twice:
  "same_net s t \<Longrightarrow> claim s = Map.empty \<Longrightarrow> claim t = marked s K \<Longrightarrow> marked t L = marked s (K \<union> L)"
  using same_net_markable [of s t] by (auto simp: marked_def fun_eq_iff)

lemma carried_refreshed:
  assumes old: "map_of a name = Some old" and inv: "subnet_inv old"
    and net: "same_net f s" and emp: "claim f = Map.empty" and s: "claim s = marked f K"
  shows "carried old s (s_owners old) = refreshed a name f K"
proof
  fix ip
  have m: "markable s = markable f" using same_net_markable [OF net] by simp
  show "carried old s (s_owners old) ip = refreshed a name f K ip"
  proof (cases "map_of (s_owners old) ip")
    case None
    then show ?thesis using old m emp s
      by (auto simp: carried_def refreshed_def claim_in_def claim_def [of old] marked_def getz_def)
  next
    case (Some o')
    then have "claim old ip = Some o'" using subnet_invD(4) [OF inv Some] by (simp add: claim_def getz_def)
    moreover have "getz False (s_ips old) ip" using subnet_invD(4) [OF inv Some] by (simp add: getz_def)
    ultimately show ?thesis using Some old m emp s
      by (auto simp: carried_def refreshed_def claim_in_def marked_def)
  qed
qed

lemma RefreshSubnet_ok:
  assumes inv: "ipam_inv a"
    and r: "RefreshSubnet a name subnet start en excl alloc = Some (a', None)"
  obtains p sa ea where "build_checks subnet start en p sa ea" "aval ea \<noteq> top128 - 1"
    "ipam_inv a'" "claim_in a' name = refreshed a name (built_subnet p sa ea) (set excl \<union> set alloc)"
    "\<forall>m. m \<noteq> name \<longrightarrow> map_of a' m = map_of a m" "\<forall>ip \<in> set excl. markable (built_subnet p sa ea) ip"
    "\<exists>s. map_of a' name = Some s \<and> same_net (built_subnet p sa ea) s"
proof (cases rule: buildSubnet_cases [of subnet start en])
  case (err e)
  with r show thesis by (simp add: RefreshSubnet_def)
next
  case (loop p sa ea)
  with r show thesis by (simp add: RefreshSubnet_def)
next
  case (ok p sa ea)
  let ?f = "built_subnet p sa ea"
  have fi: "subnet_inv ?f" using build_checks_bound [OF ok(1)] by (simp add: subnet_inv_built)
  obtain s1 where s1: "mark_excludes ?f excl = Inr s1"
    using r ok(3) by (auto simp: RefreshSubnet_def split: sum.splits)
  define s2 where "s2 = mark_allocations s1 alloc"
  define s3 where "s3 = (case map_of a name of None \<Rightarrow> s2 | Some old \<Rightarrow> carry_claims old s2 (s_owners old))"
  have a': "a' = AList.update name s3 a"
    using r ok(3) s1 by (simp add: RefreshSubnet_def s3_def Let_def flip: s2_def)
  note m1 = mark_excludes_spec [OF fi s1]
  have m2: "subnet_inv s2 \<and> same_net s1 s2 \<and> claim s2 = marked s1 (set alloc)"
    using mark_allocations_spec [of s1 s2 alloc] m1 s2_def by blast
  have net: "same_net ?f s2" using m1 m2 same_net_trans by blast
  have c2: "claim s2 = marked ?f (set excl \<union> set alloc)"
    using m1 m2 marked_twice [of ?f s1 "set excl" "set alloc"] by simp
  have s3: "subnet_inv s3 \<and> same_net ?f s3 \<and> claim s3 = refreshed a name ?f (set excl \<union> set alloc)"
  proof (cases "map_of a name")
    case None
    then have "s3 = s2" by (simp add: s3_def)
    moreover have "marked ?f K = refreshed a name ?f K" for K
      using None by (auto simp: refreshed_def claim_in_def marked_def fun_eq_iff)
    ultimately show ?thesis using m2 net c2 by simp
  next
    case (Some old)
    have oi: "subnet_inv old" using inv Some by (rule ipam_inv_subnet)
    have "s3 = carry_claims old s2 (s_owners old)" using Some by (simp add: s3_def)
    from carry_claims_spec [OF _ subnet_invD(2) [OF oi] this] m2 net same_net_trans
      carried_refreshed [OF Some oi net claim_built c2]
    show ?thesis by auto
  qed
  show thesis
    using that [OF ok(1,2)] s3 m1 a' ipam_inv_update [OF inv, of s3 name]
    by (auto simp: claim_in_update)
qed

lemma RefreshSubnet_error:
  "RefreshSubnet a name subnet start en excl alloc = Some (a', Some e) \<Longrightarrow> a' = a"
  by (auto simp: RefreshSubnet_def Let_def split: option.splits sum.splits)

end
