(* ===== verification/Claim_Store.thy ===== *)
theory Claim_Store
  imports Prelude
begin

text \<open>
  The contract between the address manager and the controllers that call it: a store of
  exclusive claims on resources. The controllers only rely on these laws: a grant goes to a
  resource that was free or already held by the same owner, a release needs the owner's own
  claim, a sweep takes away the claims of one owner in one scope, and an operation that returns
  an error changes nothing.
\<close>

text \<open>The requests the clients of a claim store make, each on behalf of one owner.\<close>

datatype ('q, 'k, 'n, 'o) claim_op =
    Acquire 'q 'o
  | Release 'k 'o
  | Sweep 'n 'o

fun op_owner :: "('q, 'k, 'n, 'o) claim_op \<Rightarrow> 'o" where
  "op_owner (Acquire q o') = o'"
| "op_owner (Release k o') = o'"
| "op_owner (Sweep n o') = o'"

locale claim_store =
  fixes inv :: "'s \<Rightarrow> bool"
    and holder :: "'s \<Rightarrow> 'k \<Rightarrow> 'o option"
    and acquire :: "'s \<Rightarrow> 'q \<Rightarrow> 'o \<Rightarrow> 's \<times> ('e + 'k)"
    and release :: "'s \<Rightarrow> 'k \<Rightarrow> 'o \<Rightarrow> 's \<times> 'e option"
    and sweep :: "'s \<Rightarrow> 'n \<Rightarrow> 'o \<Rightarrow> 's \<times> nat"
    and scope :: "'k \<Rightarrow> 'n"
    and nobody :: 'o
  assumes acquire_granted:
      "inv s \<Longrightarrow> acquire s q o' = (s', Inr k) \<Longrightarrow>
       inv s' \<and> (holder s k = None \<or> holder s k = Some o') \<and> holder s' = (holder s)(k \<mapsto> o')"
    and acquire_refused: "inv s \<Longrightarrow> acquire s q o' = (s', Inl e) \<Longrightarrow> s' = s"
    and release_done:
      "inv s \<Longrightarrow> release s k o' = (s', None) \<Longrightarrow>
       inv s' \<and> holder s k = Some o' \<and> holder s' = (holder s)(k := None)"
    and release_refused: "inv s \<Longrightarrow> release s k o' = (s', Some e) \<Longrightarrow> s' = s"
    and sweep_done:
      "inv s \<Longrightarrow> o' \<noteq> nobody \<Longrightarrow> sweep s n o' = (s', m) \<Longrightarrow>
       inv s' \<and> (\<forall>k. holder s' k =
         (if scope k = n \<and> holder s k = Some o' then None else holder s k))"
    and sweep_nobody: "inv s \<Longrightarrow> sweep s n nobody = (s, 0)"
begin

text \<open>One request, and a run of requests from any number of clients.\<close>

fun exec :: "('q, 'k, 'n, 'o) claim_op \<Rightarrow> 's \<Rightarrow> 's" where
  "exec (Acquire q o') s = fst (acquire s q o')"
| "exec (Release k o') s = fst (release s k o')"
| "exec (Sweep n o') s = fst (sweep s n o')"

definition run :: "('q, 'k, 'n, 'o) claim_op list \<Rightarrow> 's \<Rightarrow> 's" where
  "run = fold exec"

lemma acquire_frame:
  assumes "inv s" and "acquire s q o' = (s', r)"
  shows "inv s' \<and> (\<forall>k. holder s k = Some p \<longrightarrow> holder s' k = Some p)"
proof (cases r)
  case (Inl e)
  with assms acquire_refused show ?thesis by blast
next
  case (Inr k)
  with assms acquire_granted [of s q o' s' k] show ?thesis by auto
qed

lemma release_frame:
  assumes "inv s" and "release s k o' = (s', r)"
  shows "inv s' \<and> (p \<noteq> o' \<longrightarrow> (\<forall>j. holder s j = Some p \<longrightarrow> holder s' j = Some p))"
proof (cases r)
  case (Some e)
  with assms release_refused show ?thesis by blast
next
  case None
  with assms release_done [of s k o' s'] show ?thesis by auto
qed

lemma sweep_frame:
  assumes "inv s" and "sweep s n o' = (s', m)"
  shows "inv s' \<and> (p \<noteq> o' \<longrightarrow> (\<forall>j. holder s j = Some p \<longrightarrow> holder s' j = Some p))"
proof (cases "o' = nobody")
  case True
  with assms sweep_nobody [of s n] show ?thesis by simp
next
  case False
  with assms sweep_done [of s o' n s' m] show ?thesis by auto
qed

lemma exec_frame:
  "inv s \<Longrightarrow> inv (exec opn s) \<and> (op_owner opn \<noteq> p \<longrightarrow> holder s k = Some p \<longrightarrow> holder (exec opn s) k = Some p)"
proof (induction opn)
  case (Acquire q o')
  then show ?case using acquire_frame [OF Acquire, of q o' _ _ p] by (metis exec.simps(1) prod.collapse)
next
  case (Release j o')
  then show ?case using release_frame [OF Release, of j o' _ _ p] by (metis exec.simps(2) op_owner.simps(2) prod.collapse)
next
  case (Sweep n o')
  then show ?case using sweep_frame [OF Sweep, of n o' _ _ p] by (metis exec.simps(3) op_owner.simps(3) prod.collapse)
qed

text \<open>Requests of other owners, in any order and number, never take a claim away.\<close>

lemma run_keeps:
  "inv s \<Longrightarrow> holder s k = Some p \<Longrightarrow> \<forall>opn \<in> set ops. op_owner opn \<noteq> p \<Longrightarrow>
   inv (run ops s) \<and> holder (run ops s) k = Some p"
proof (induction ops arbitrary: s)
  case (Cons opn ops)
  with exec_frame [of s opn p k] show ?case by (simp add: run_def)
qed (simp add: run_def)

lemma run_inv: "inv s \<Longrightarrow> inv (run ops s)"
  by (induction ops arbitrary: s) (auto simp: run_def exec_frame)

text \<open>While a claim is held, no run of others' requests lets another owner acquire it.\<close>

lemma run_excludes:
  assumes "inv s" "holder s k = Some p" "\<forall>opn \<in> set ops. op_owner opn \<noteq> p"
    and "acquire (run ops s) q o' = (s', Inr k)"
  shows "o' = p"
  using run_keeps [OF assms(1-3)] acquire_granted [OF _ assms(4)] by auto

text \<open>A release after a grant gives the resource back: no claim is left on it.\<close>

lemma acquire_release:
  assumes "inv s" "acquire s q o' = (s1, Inr k)" "release s1 k o' = (s2, None)"
  shows "inv s2 \<and> holder s2 = (holder s)(k := None)"
  using acquire_granted [OF assms(1,2)] release_done [OF _ assms(3)] by auto

end

end
