(* ===== verification/Ipam_Ops.thy ===== *)
theory Ipam_Ops
  imports Ipam_Correct Claim_Store
begin

text \<open>
  The address manager as a whole: the calls a client can make, the allocators that are reachable
  by them, the contract of a claim store (interpreted on the allocator), the abstract pools the
  allocator refines, and the properties of the address manager.
\<close>

section \<open>Ranges of IPv4 prefixes\<close>

lemma parseIPv6_zone: "parseIPv6 s = Some a \<Longrightarrow> azone a \<noteq> Z4"
  by (auto simp: parseIPv6_def v6_finish_def Let_def bind_eq_Some_conv split: if_splits option.splits)

lemma ParseAddr_Z4: "ParseAddr s = Some a \<Longrightarrow> azone a = Z4 \<Longrightarrow> mapped (aval a)"
  using parseIPv6_zone [of s] parseIPv4Fields_bound [of s]
  by (auto simp: ParseAddr_def AddrFrom4_def mapped_def split: option.splits if_splits)

lemma Is6_zone: "Is6 a \<longleftrightarrow> (\<exists>z. azone a = Z6 z)"
  by (cases a; cases "azone a") auto

lemma ParsePrefix_Is4:
  "ParsePrefix s = Some p \<Longrightarrow> Is4 (pip p) \<Longrightarrow> mapped (aval (pip p)) \<and> azone (pip p) = Z4 \<and> pbits p \<le> 32"
  using ParseAddr_Z4
  by (auto simp: ParsePrefix_def Let_def Is4_def Is6_zone split: option.splits if_splits)

lemma Contains_Is4: "Contains p a \<Longrightarrow> Is4 (pip p) \<Longrightarrow> azone a = Z4"
  by (cases a; cases "azone a"; cases "pip p"; cases "azone (pip p)") (auto simp: Contains_def Is4_def)

lemma mapped_between: "mapped u \<Longrightarrow> mapped w \<Longrightarrow> u \<le> v \<Longrightarrow> v \<le> w \<Longrightarrow> mapped v"
  using div_le_mono [of u v "0x100000000"] div_le_mono [of v w "0x100000000"] by (simp add: mapped_def)

lemma mapped_div:
  assumes "mapped v" "h \<le> 32"
  shows "v div 2 ^ h = v4base div 2 ^ h + v mod 0x100000000 div 2 ^ h"
proof -
  have "(2::nat) ^ 32 dvd v4base" by (simp add: dvd_def)
  then have "(2::nat) ^ h dvd v4base" using le_imp_power_dvd [OF assms(2), of "2::nat"] dvd_trans by blast
  then have "(v4base + v mod 0x100000000) div 2 ^ h = v4base div 2 ^ h + v mod 0x100000000 div 2 ^ h"
    by (rule div_plus_div_distrib_dvd_left)
  then show ?thesis using mapped_value [OF assms(1)] by simp
qed

text \<open>No address of an IPv4 prefix lies above the prefix's broadcast address.\<close>

lemma below_broadcast:
  assumes p: "ParsePrefix subnet = Some p" and v: "Contains p (Addr v Z4)" and m: "mapped v"
    and b: "broadcast_of p = Some b"
  shows "v \<le> to16 b"
proof -
  have i4: "Is4 (pip p)" using b by (auto simp: broadcast_of_def split: if_splits)
  note pp = ParsePrefix_Is4 [OF p i4]
  define h where "h = 32 - pbits p"
  define w where "w = aval (pip p) mod 0x100000000"
  have h: "h \<le> 32" by (simp add: h_def)
  have "BitLen (Addr v Z4) = 32" by simp
  then have "v div 2 ^ h = aval (pip p) div 2 ^ h" using v by (simp add: Contains_def h_def)
  then have "v mod 0x100000000 div 2 ^ h = w div 2 ^ h"
    using mapped_div [OF m h] mapped_div [OF conjunct1 [OF pp] h] by (simp add: w_def)
  then have "v mod 0x100000000 < w div 2 ^ h * 2 ^ h + 2 ^ h"
    using dividend_less_div_times [of "2 ^ h" "v mod 0x100000000"] by (simp add: add.commute)
  moreover have "to16 b = v4base + (w div 2 ^ h * 2 ^ h + (2 ^ h - 1))"
    using b i4 by (auto simp: broadcast_of_def Let_def h_def w_def)
  ultimately show ?thesis using mapped_value [OF m] by linarith
qed

text \<open>Every address of a range that was built in an IPv4 prefix can be marked, claimed and released.\<close>

lemma built_markable:
  assumes c: "build_checks subnet start en p sa ea" and i4: "Is4 (pip p)" and v: "aval sa \<le> v" "v \<le> aval ea"
  shows "markable (built_subnet p sa ea) (ipkey v)"
proof -
  have sa: "ParseAddr start = Some sa" "Contains p sa" and ea: "ParseAddr en = Some ea" "Contains p ea"
    and p: "ParsePrefix subnet = Some p" and nb: "\<not> is_broadcast (broadcast_of p) (IP16 (aval ea))"
    using c by (simp_all add: build_checks_def)
  have z: "sa = Addr (aval sa) Z4" "ea = Addr (aval ea) Z4"
    using Contains_Is4 [OF sa(2) i4] Contains_Is4 [OF ea(2) i4] by (metis addr.collapse)+
  have me: "mapped (aval ea)" using ParseAddr_Z4 [OF ea(1)] z(2) by (metis addr.sel(2))
  then have m: "mapped v" using mapped_between [OF _ _ v] ParseAddr_Z4 [OF sa(1)] z(1) by (metis addr.sel(2))
  have cv: "Contains p (Addr v Z4)" using Contains_between [OF _ _ v] sa(2) ea(2) z by metis
  obtain b where b: "broadcast_of p = Some b" using i4 by (simp add: broadcast_of_def Let_def)
  have "aval ea < to16 b"
    using below_broadcast [OF p _ me b] ea(2) z(2) nb b by (fastforce simp: is_broadcast_def ip_equal_def)
  then have "v \<noteq> to16 b" using v by simp
  then have "\<not> is_broadcast (broadcast_of p) (AsSlice (Unmap (addr_of v)))"
    using m b mapped_value [OF m]
    by (auto simp: is_broadcast_def ip_equal_def AsSlice_def addr_of_eq Unmap_def Is4In6_def Is4_def)
  moreover have "ParseAddr (ipkey v) = Some (Addr v Z4)"
    using ParseAddr_String [of v] m v build_checks_bound [OF c] by (simp add: addr_of_eq)
  moreover have "ipkey v \<in> set (keys (s_ips (built_subnet p sa ea)))"
    using v by (auto simp: built_subnet_def simp del: upt_Suc)
  ultimately show ?thesis using cv m by (simp add: markable_def addr_of_eq, simp add: built_subnet_def)
qed

section \<open>Calls and reachable allocators\<close>

text \<open>The exported methods of an \<open>IPAllocator\<close> that change it, as data, and what a call leaves behind.\<close>

datatype ipam_call =
    CallNewSubnet string string string string
  | CallRefreshSubnet string string string string "string list" "string list"
  | CallDeleteSubnet string
  | CallGetIP string string
  | CallGetIPOwned string string string
  | CallReleaseIP string string
  | CallReleaseIPOwned string string string
  | CallReleaseAllByOwner string string

fun do_call :: "ipam_call \<Rightarrow> IPAllocator \<Rightarrow> IPAllocator option" where
  "do_call (CallNewSubnet n sub st en) a = map_option fst (NewSubnet a n sub st en)"
| "do_call (CallRefreshSubnet n sub st en ex al) a = map_option fst (RefreshSubnet a n sub st en ex al)"
| "do_call (CallDeleteSubnet n) a = Some (DeleteSubnet a n)"
| "do_call (CallGetIP n ip) a = Some (fst (GetIP a n ip))"
| "do_call (CallGetIPOwned n ip o') a = Some (fst (GetIPOwned a n ip o'))"
| "do_call (CallReleaseIP n ip) a = Some (fst (ReleaseIP a n ip))"
| "do_call (CallReleaseIPOwned n ip o') a = Some (fst (ReleaseIPOwned a n ip o'))"
| "do_call (CallReleaseAllByOwner n o') a = Some (fst (ReleaseAllByOwner a n o'))"

inductive ipam_reach :: "IPAllocator \<Rightarrow> bool" where
  start: "ipam_reach New"
| call: "ipam_reach a \<Longrightarrow> do_call c a = Some a' \<Longrightarrow> ipam_reach a'"

text \<open>The configuration of a subnet came out of \<open>buildSubnet\<close>: its keys are one contiguous range.\<close>

definition configured :: "IPSubnet \<Rightarrow> bool" where
  "configured s \<longleftrightarrow> (\<exists>subnet start en p sa ea.
     build_checks subnet start en p sa ea \<and> same_net (built_subnet p sa ea) s)"

definition ipam_ok :: "IPAllocator \<Rightarrow> bool" where
  "ipam_ok a \<longleftrightarrow> ipam_inv a \<and> (\<forall>n s. map_of a n = Some s \<longrightarrow> configured s)"

lemma ipam_ok_inv: "ipam_ok a \<Longrightarrow> ipam_inv a"
  by (simp add: ipam_ok_def)

lemma configured_same_net: "configured s \<Longrightarrow> same_net s t \<Longrightarrow> configured t"
  unfolding configured_def using same_net_trans by blast

lemma ipam_ok_update:
  "ipam_ok a \<Longrightarrow> subnet_inv s \<Longrightarrow> configured s \<Longrightarrow> ipam_ok (AList.update n s a)"
  by (auto simp: ipam_ok_def ipam_inv_update split: if_splits)

lemma same_net_claims:
  "map_of (s_ips s) k \<noteq> None \<Longrightarrow> same_net s (set_claim s k o') \<and> same_net s (clear_claim s k)"
  by (simp add: same_net_def set_claim_def clear_claim_def keys_update map_of_None_keys)

lemma ipam_ok_claims:
  assumes "ipam_ok a" "map_of a n = Some s" "map_of (s_ips s) k \<noteq> None"
  shows "ipam_ok (AList.update n (set_claim s k o') a)" "ipam_ok (AList.update n (clear_claim s k) a)"
proof -
  have s: "subnet_inv s" "configured s" using assms ipam_inv_subnet by (auto simp: ipam_ok_def)
  note c = configured_same_net [OF s(2)] same_net_claims [OF assms(3)]
  show "ipam_ok (AList.update n (set_claim s k o') a)"
    using ipam_ok_update [OF assms(1) subnet_inv_set_claim [OF s(1) assms(3)]] c by blast
  show "ipam_ok (AList.update n (clear_claim s k) a)"
    using ipam_ok_update [OF assms(1) subnet_inv_clear_claim [OF s(1) assms(3)]] c by blast
qed

lemma NewSubnet_ok: "ipam_ok a \<Longrightarrow> NewSubnet a n sub st en = Some (a', r) \<Longrightarrow> ipam_ok a'"
proof (cases rule: buildSubnet_cases [of sub st en])
  case (ok p sa ea)
  assume a: "ipam_ok a" "NewSubnet a n sub st en = Some (a', r)"
  have "configured (built_subnet p sa ea)" using ok(1) same_net_refl unfolding configured_def by blast
  moreover have "subnet_inv (built_subnet p sa ea)" using build_checks_bound [OF ok(1)] by (simp add: subnet_inv_built)
  ultimately show ?thesis using a ok(3) ipam_ok_update by (auto simp: NewSubnet_def)
qed (auto simp: NewSubnet_def)

lemma RefreshSubnet_keeps_ok:
  assumes a: "ipam_ok a" and r: "RefreshSubnet a n sub st en ex al = Some (a', r)"
  shows "ipam_ok a'"
proof (cases r)
  case (Some e)
  with r a show ?thesis by (auto dest: RefreshSubnet_error)
next
  case None
  with r have "RefreshSubnet a n sub st en ex al = Some (a', None)" by simp
  from RefreshSubnet_ok [OF ipam_ok_inv [OF a] this] obtain p sa ea s where
    "build_checks sub st en p sa ea" "ipam_inv a'" "\<forall>m. m \<noteq> n \<longrightarrow> map_of a' m = map_of a m"
    "map_of a' n = Some s" "same_net (built_subnet p sa ea) s" by metis
  with a show ?thesis unfolding ipam_ok_def configured_def by (metis option.inject)
qed

lemma getIP_ok: "ipam_ok a \<Longrightarrow> getIP a n ip o' = (a', r) \<Longrightarrow> ipam_ok a'"
  using getIP_outcome [of a n ip o' a' r] ipam_ok_claims(1) [of a n] by (auto simp: ipam_ok_inv)

lemma GetIPOwned_ok: "ipam_ok a \<Longrightarrow> GetIPOwned a n ip o' = (a', r) \<Longrightarrow> ipam_ok a'"
  by (rule GetIPOwned_outcome [of a n ip o' a' r]) (auto simp: ipam_ok_inv intro: ipam_ok_claims)

lemma releaseIP_ok: "ipam_ok a \<Longrightarrow> releaseIP a n ip = (a', r) \<Longrightarrow> ipam_ok a'"
  using releaseIP_outcome [of a n ip a' r] ipam_ok_claims(2) [of a n] by auto

lemma ReleaseIPOwned_ok: "ipam_ok a \<Longrightarrow> ReleaseIPOwned a n ip o' = (a', r) \<Longrightarrow> ipam_ok a'"
  using ReleaseIPOwned_outcome [of a n ip o' a' r] ipam_ok_claims(2) [of a n] by auto

lemma sweep_owner_range: "sweep_owner s owner os = (s', n) \<Longrightarrow> s_start s' = s_start s \<and> s_end s' = s_end s"
  by (induction s owner os arbitrary: n rule: sweep_owner.induct) (auto simp: Let_def split: if_splits prod.splits)

lemma ReleaseAllByOwner_ok:
  assumes a: "ipam_ok a" and r: "ReleaseAllByOwner a n o' = (a', m)"
  shows "ipam_ok a'"
proof (cases "o' = [] \<or> map_of a n = None")
  case True
  with a r show ?thesis by (auto simp: ReleaseAllByOwner_def split: if_splits option.splits)
next
  case False
  then obtain s where s: "map_of a n = Some s" by auto
  have si: "subnet_inv s" "configured s" using a s ipam_inv_subnet by (auto simp: ipam_ok_def)
  obtain s' where s': "sweep_owner s o' (s_owners s) = (s', m)" and a': "a' = AList.update n s' a"
    using r False s by (auto simp: ReleaseAllByOwner_def split: prod.splits)
  from sweep_owner_spec [OF si(1) subnet_invD(2) [OF si(1)] _ s'] have "subnet_inv s' \<and> same_net s s'"
    using sweep_owner_range [OF s'] by (simp add: same_net_def)
  with a' ipam_ok_update [OF a] configured_same_net [OF si(2)] show ?thesis by blast
qed

lemma do_call_ok: "ipam_ok a \<Longrightarrow> do_call c a = Some a' \<Longrightarrow> ipam_ok a'"
proof (induction c)
  case (CallDeleteSubnet n)
  then show ?case by (auto simp: ipam_ok_def ipam_inv_delete) (auto simp: DeleteSubnet_def split: if_splits)
qed (auto simp: GetIP_def ReleaseIP_def dest: NewSubnet_ok RefreshSubnet_keeps_ok getIP_ok GetIPOwned_ok
      releaseIP_ok ReleaseIPOwned_ok ReleaseAllByOwner_ok intro: prod.collapse [symmetric])

lemma ipam_reach_ok: "ipam_reach a \<Longrightarrow> ipam_ok a"
proof (induction rule: ipam_reach.induct)
  case start
  show ?case by (simp add: ipam_ok_def) (simp add: New_def)
qed (rule do_call_ok)

section \<open>The allocator is a claim store\<close>

definition ipam_holder :: "IPAllocator \<Rightarrow> string \<times> string \<Rightarrow> string option" where
  "ipam_holder a k = claim_in a (fst k) (snd k)"

definition ipam_acquire :: "IPAllocator \<Rightarrow> string \<times> string \<Rightarrow> string \<Rightarrow> IPAllocator \<times> (ipam_error + string \<times> string)" where
  "ipam_acquire a q o' =
     (case GetIPOwned a (fst q) (snd q) o' of
        (a', Inl e) \<Rightarrow> (a', Inl e)
      | (a', Inr ip) \<Rightarrow> (a', Inr (fst q, ip)))"

definition ipam_release :: "IPAllocator \<Rightarrow> string \<times> string \<Rightarrow> string \<Rightarrow> IPAllocator \<times> ipam_error option" where
  "ipam_release a k o' = ReleaseIPOwned a (fst k) (snd k) o'"

lemma ipam_holder_update:
  "ipam_holder (AList.update n s a) = (\<lambda>k. if fst k = n then claim s (snd k) else ipam_holder a k)"
  by (auto simp: ipam_holder_def claim_in_update fun_eq_iff)

lemma ipam_holder_claims:
  assumes "map_of a n = Some s"
  shows "ipam_holder (AList.update n (set_claim s ip o') a) = (ipam_holder a)((n, ip) \<mapsto> o')"
    "ipam_holder (AList.update n (clear_claim s ip) a) = (ipam_holder a)((n, ip) := None)"
  using assms
  by (auto simp: ipam_holder_update claim_set_claim claim_clear_claim ipam_holder_def claim_in_def fun_eq_iff)

lemma acquire_law:
  assumes a: "ipam_ok a" and g: "GetIPOwned a n g o' = (a', Inr ip)"
  shows "ipam_ok a' \<and> (claim_in a n ip = None \<or> claim_in a n ip = Some o') \<and>
    ipam_holder a' = (ipam_holder a)((n, ip) \<mapsto> o')"
proof (cases rule: GetIPOwned_outcome [OF ipam_ok_inv [OF a] g, case_names error reclaim fresh])
  case reclaim
  then have "claim_in a n ip = Some o'" by (simp add: holds_def)
  with reclaim a show ?thesis by (auto simp: ipam_holder_def fun_eq_iff)
next
  case (fresh s k)
  with GetIPOwned_ok [OF a g] ipam_holder_claims(1) [of a n s ip o'] show ?thesis
    by (simp add: claim_in_def claim_def)
qed simp

interpretation ipam: claim_store ipam_ok ipam_holder ipam_acquire ipam_release ReleaseAllByOwner fst "[]"
proof
  fix a q o' a' k assume "ipam_ok a" "ipam_acquire a q o' = (a', Inr k)"
  then show "ipam_ok a' \<and> (ipam_holder a k = None \<or> ipam_holder a k = Some o') \<and>
      ipam_holder a' = (ipam_holder a)(k \<mapsto> o')"
    using acquire_law [of a "fst q" "snd q" o' a']
    by (auto simp: ipam_acquire_def ipam_holder_def split: prod.splits sum.splits)
next
  fix a q o' a' e assume "ipam_ok a" "ipam_acquire a q o' = (a', Inl e)"
  then show "a' = a"
    by (auto simp: ipam_acquire_def ipam_ok_inv split: prod.splits sum.splits elim: GetIPOwned_outcome [OF ipam_ok_inv])
next
  fix a k o' a' assume a: "ipam_ok a" "ipam_release a k o' = (a', None)"
  then have "ipam_ok a'" by (auto simp: ipam_release_def dest: ReleaseIPOwned_ok)
  with a show "ipam_ok a' \<and> ipam_holder a k = Some o' \<and> ipam_holder a' = (ipam_holder a)(k := None)"
    using ReleaseIPOwned_outcome [of a "fst k" "snd k" o' a' None] ipam_holder_claims(2) [of a "fst k" _ "snd k"]
    by (auto simp: ipam_release_def ipam_holder_def holds_def)
next
  fix a k o' a' e assume "ipam_ok a" "ipam_release a k o' = (a', Some e)"
  then show "a' = a" using ReleaseIPOwned_outcome by (fastforce simp: ipam_release_def)
next
  fix a o' n a' m assume a: "ipam_ok a" "o' \<noteq> []" "ReleaseAllByOwner a n o' = (a', m)"
  note r = ReleaseAllByOwner_spec [OF ipam_ok_inv [OF a(1)] a(2,3)]
  have "claim_in a' n' = claim_in a n'" if "n' \<noteq> n" for n'
    using r(3) [OF that] by (simp add: claim_in_def fun_eq_iff)
  then have "claim_in a' n' = (\<lambda>ip. if n' = n \<and> claim_in a n' ip = Some o' then None else claim_in a n' ip)" for n'
    using r(2) by (cases "n' = n") auto
  with ReleaseAllByOwner_ok [OF a(1,3)]
  show "ipam_ok a' \<and> (\<forall>k. ipam_holder a' k = (if fst k = n \<and> ipam_holder a k = Some o' then None else ipam_holder a k))"
    by (auto simp: ipam_holder_def)
next
  fix a n show "ReleaseAllByOwner a n [] = (a, 0)" by (simp add: ReleaseAllByOwner_def)
qed

section \<open>The abstract pools\<close>

text \<open>
  What the allocator stands for: for each network, the addresses of its range, each free or
  claimed (by an owner, or by nobody for an excluded or restored address).
\<close>

type_synonym pools = "string \<rightharpoonup> (string \<rightharpoonup> string option)"

definition pool_of :: "IPSubnet \<Rightarrow> string \<rightharpoonup> string option" where
  "pool_of s ip = map_option (\<lambda>_. claim s ip) (map_of (s_ips s) ip)"

definition pools_of :: "IPAllocator \<Rightarrow> pools" where
  "pools_of a n = map_option pool_of (map_of a n)"

text \<open>What a call may do to the abstract pools; every call may be refused.\<close>

inductive pool_step :: "ipam_call \<Rightarrow> pools \<Rightarrow> pools \<Rightarrow> bool" where
  refused: "pool_step c P P"
| created: "(\<forall>c \<in> ran m. c = None) \<Longrightarrow> pool_step (CallNewSubnet n sub st en) P (P(n \<mapsto> m))"
| refreshed: "(\<forall>ip o'. m ip = Some (Some o') \<longrightarrow> o' \<noteq> [] \<longrightarrow> (\<exists>m0. P n = Some m0 \<and> m0 ip = Some (Some o'))) \<Longrightarrow>
    (\<forall>ip \<in> set ex. m ip \<noteq> None \<and> m ip \<noteq> Some None) \<Longrightarrow>
    pool_step (CallRefreshSubnet n sub st en ex al) P (P(n \<mapsto> m))"
| deleted: "pool_step (CallDeleteSubnet n) P (P(n := None))"
| granted: "P n = Some m \<Longrightarrow> m ip = Some None \<Longrightarrow> (g \<noteq> [] \<longrightarrow> ip = g) \<Longrightarrow>
    pool_step (CallGetIP n g) P (P(n \<mapsto> m(ip \<mapsto> Some [])))"
| granted_owned: "P n = Some m \<Longrightarrow> m ip = Some None \<Longrightarrow> (g \<noteq> [] \<longrightarrow> ip = g) \<Longrightarrow> o' \<noteq> [] \<Longrightarrow>
    pool_step (CallGetIPOwned n g o') P (P(n \<mapsto> m(ip \<mapsto> Some o')))"
| released: "P n = Some m \<Longrightarrow> m ip = Some (Some o') \<Longrightarrow>
    pool_step (CallReleaseIP n ip) P (P(n \<mapsto> m(ip \<mapsto> None)))"
| released_owned: "P n = Some m \<Longrightarrow> m ip = Some (Some o') \<Longrightarrow> o' \<noteq> [] \<Longrightarrow>
    pool_step (CallReleaseIPOwned n ip o') P (P(n \<mapsto> m(ip \<mapsto> None)))"
| swept: "P n = Some m \<Longrightarrow> o' \<noteq> [] \<Longrightarrow>
    pool_step (CallReleaseAllByOwner n o') P
      (P(n \<mapsto> (\<lambda>ip. if m ip = Some (Some o') then Some None else m ip)))"

lemma pools_of_update: "pools_of (AList.update n s a) = (pools_of a)(n \<mapsto> pool_of s)"
  by (auto simp: pools_of_def fun_eq_iff)

lemma pools_of_claims:
  assumes "map_of a n = Some s" "map_of (s_ips s) ip \<noteq> None"
  shows "pools_of (AList.update n (set_claim s ip o') a) = (pools_of a)(n \<mapsto> (pool_of s)(ip \<mapsto> Some o'))"
    "pools_of (AList.update n (clear_claim s ip) a) = (pools_of a)(n \<mapsto> (pool_of s)(ip \<mapsto> None))"
proof -
  have "pool_of (set_claim s ip o') = (pool_of s)(ip \<mapsto> Some o')"
    "pool_of (clear_claim s ip) = (pool_of s)(ip \<mapsto> None)"
    using assms(2) by (auto simp: pool_of_def fun_eq_iff claim_set_claim claim_clear_claim)
      (auto simp: set_claim_def clear_claim_def)
  then show "pools_of (AList.update n (set_claim s ip o') a) = (pools_of a)(n \<mapsto> (pool_of s)(ip \<mapsto> Some o'))"
    "pools_of (AList.update n (clear_claim s ip) a) = (pools_of a)(n \<mapsto> (pool_of s)(ip \<mapsto> None))"
    by (simp_all add: pools_of_update)
qed

end
