(* ===== verification/Ipam_Props.thy ===== *)
theory Ipam_Props
  imports Ipam_Ops
begin

text \<open>The properties of the address manager.\<close>

section \<open>Simulation by the abstract pools\<close>

lemma claim_allocated: "claim s ip = Some o' \<Longrightarrow> map_of (s_ips s) ip = Some True"
  by (simp add: claim_def split: if_splits)

lemma pool_of_claim: "pool_of s ip = Some (Some o') \<longleftrightarrow> claim s ip = Some o'"
  using claim_allocated [of s ip o'] by (auto simp: pool_of_def)

lemma pool_of_free: "map_of (s_ips s) ip = Some False \<Longrightarrow> pool_of s ip = Some None"
  by (simp add: pool_of_def claim_def)

lemma refresh_step:
  assumes a: "ipam_ok a" and r: "RefreshSubnet a n sub st en ex al = Some (a', r)"
  shows "pool_step (CallRefreshSubnet n sub st en ex al) (pools_of a) (pools_of a')"
proof (cases r)
  case (Some e)
  with r have "a' = a" by (auto dest: RefreshSubnet_error)
  then show ?thesis by (simp add: pool_step.refused)
next
  case None
  with r have "RefreshSubnet a n sub st en ex al = Some (a', None)" by simp
  from RefreshSubnet_ok [OF ipam_ok_inv [OF a] this] obtain p sa ea s where
    c: "claim_in a' n = refreshed a n (built_subnet p sa ea) (set ex \<union> set al)"
    and m: "\<forall>m. m \<noteq> n \<longrightarrow> map_of a' m = map_of a m" and s: "map_of a' n = Some s"
    and ex: "\<forall>ip \<in> set ex. markable (built_subnet p sa ea) ip" by metis
  have cs: "claim s = refreshed a n (built_subnet p sa ea) (set ex \<union> set al)"
    using c s by (simp add: claim_in_def fun_eq_iff)
  have P': "pools_of a' = (pools_of a)(n \<mapsto> pool_of s)" using m s by (auto simp: pools_of_def fun_eq_iff)
  have "\<exists>m0. pools_of a n = Some m0 \<and> m0 ip = Some (Some o')" if "pool_of s ip = Some (Some o')" "o' \<noteq> []" for ip o'
  proof -
    have "claim_in a n ip = Some o'"
      using that cs by (auto simp: pool_of_claim refreshed_def split: if_splits option.splits)
    then obtain s0 where "map_of a n = Some s0" "claim s0 ip = Some o'" by (auto simp: claim_in_def split: option.splits)
    then show ?thesis by (simp add: pools_of_def pool_of_claim)
  qed
  moreover have "pool_of s ip \<noteq> None \<and> pool_of s ip \<noteq> Some None" if "ip \<in> set ex" for ip
  proof -
    have "claim s ip \<noteq> None" using that ex cs by (auto simp: refreshed_def split: option.splits)
    then obtain o' where "claim s ip = Some o'" by blast
    then have "pool_of s ip = Some (Some o')" by (simp add: pool_of_claim)
    then show ?thesis by simp
  qed
  ultimately show ?thesis unfolding P' by (intro pool_step.refreshed) blast+
qed

lemma new_step:
  assumes "NewSubnet a n sub st en = Some (a', r)"
  shows "pool_step (CallNewSubnet n sub st en) (pools_of a) (pools_of a')"
proof (cases rule: buildSubnet_cases [of sub st en])
  case (ok p sa ea)
  have "\<forall>c \<in> ran (pool_of (built_subnet p sa ea)). c = None" by (auto simp: ran_def pool_of_def)
  with ok(3) assms show ?thesis by (auto simp: NewSubnet_def pools_of_update intro: pool_step.created)
qed (use assms in \<open>auto simp: NewSubnet_def intro: pool_step.refused\<close>)

lemma get_step:
  assumes a: "ipam_ok a" and g: "getIP a n g o' = (a', r)"
  shows "pools_of a' = pools_of a \<or>
    (\<exists>m ip. pools_of a n = Some m \<and> m ip = Some None \<and> (g \<noteq> [] \<longrightarrow> ip = g) \<and>
       pools_of a' = (pools_of a)(n \<mapsto> m(ip \<mapsto> Some o')))"
proof -
  from getIP_outcome [OF ipam_ok_inv [OF a] g] consider "a' = a"
    | s k where "map_of a n = Some s" "map_of (s_ips s) k = Some False" "g \<noteq> [] \<longrightarrow> k = g"
      "a' = AList.update n (set_claim s k o') a" by blast
  then show ?thesis
  proof cases
    case 2
    then have "pools_of a n = Some (pool_of s)" by (simp add: pools_of_def)
    with 2 pools_of_claims(1) [of a n s k o'] pool_of_free [OF 2(2)] show ?thesis by auto
  qed simp
qed

lemma get_owned_step:
  assumes a: "ipam_ok a" and g: "GetIPOwned a n g o' = (a', r)"
  shows "pool_step (CallGetIPOwned n g o') (pools_of a) (pools_of a')"
proof (cases "o' \<noteq> [] \<and> getIP a n g o' = (a', r)")
  case True
  with get_step [OF a, of n g o' a' r] show ?thesis by (auto intro: pool_step.refused pool_step.granted_owned)
next
  case False
  with g have "a' = a" by (auto simp: GetIPOwned_def split: if_splits)
  then show ?thesis by (simp add: pool_step.refused)
qed

lemma release_step:
  assumes "map_of a n = Some s" "map_of (s_ips s) ip = Some True"
  shows "\<exists>m o'. pools_of a n = Some m \<and> claim_in a n ip = Some o' \<and> m ip = Some (Some o') \<and>
    pools_of (AList.update n (clear_claim s ip) a) = (pools_of a)(n \<mapsto> m(ip \<mapsto> None))"
  using assms pools_of_claims(2) [of a n s ip]
  by (auto simp: pools_of_def claim_in_def claim_def pool_of_def)

lemma sweep_step:
  assumes a: "ipam_ok a" and r: "ReleaseAllByOwner a n o' = (a', k)"
  shows "pool_step (CallReleaseAllByOwner n o') (pools_of a) (pools_of a')"
proof (cases "o' = [] \<or> map_of a n = None")
  case True
  with r have "a' = a" by (auto simp: ReleaseAllByOwner_def split: if_splits option.splits)
  then show ?thesis by (simp add: pool_step.refused)
next
  case False
  then obtain s where s: "map_of a n = Some s" and o': "o' \<noteq> []" by auto
  obtain s' where s': "sweep_owner s o' (s_owners s) = (s', k)" and a': "a' = AList.update n s' a"
    using r s o' by (auto simp: ReleaseAllByOwner_def split: prod.splits)
  have si: "subnet_inv s" using a s by (auto simp: ipam_ok_def intro: ipam_inv_subnet)
  note sw = sweep_owner_spec [OF si subnet_invD(2) [OF si] _ s']
  have dom: "(map_of (s_ips s') ip = None) = (map_of (s_ips s) ip = None)" for ip
    using sw unfolding map_of_None_keys by auto
  have cl: "claim s' = (\<lambda>ip. if claim s ip = Some o' then None else claim s ip)"
    using sw claim_owner [OF si o'] by auto
  have "pool_of s' ip = (if pool_of s ip = Some (Some o') then Some None else pool_of s ip)" for ip
    using dom [of ip] cl by (cases "map_of (s_ips s) ip"; cases "map_of (s_ips s') ip") (auto simp: pool_of_def)
  then have "pools_of a' = (pools_of a)(n \<mapsto> (\<lambda>ip. if pool_of s ip = Some (Some o') then Some None else pool_of s ip))"
    unfolding a' pools_of_update by presburger
  moreover have "pools_of a n = Some (pool_of s)" using s by (simp add: pools_of_def)
  ultimately show ?thesis using pool_step.swept [of "pools_of a" n "pool_of s" o'] o' by simp
qed

lemma do_call_simulated:
  assumes a: "ipam_ok a" and c: "do_call c a = Some a'"
  shows "pool_step c (pools_of a) (pools_of a')"
proof (cases c)
  case (CallNewSubnet n sub st en)
  with c show ?thesis by (auto intro: new_step)
next
  case (CallRefreshSubnet n sub st en ex al)
  with c a show ?thesis by (auto intro: refresh_step)
next
  case (CallDeleteSubnet n)
  with c have "pools_of a' = (pools_of a)(n := None)" by (auto simp: DeleteSubnet_def pools_of_def fun_eq_iff)
  with CallDeleteSubnet show ?thesis by (simp add: pool_step.deleted)
next
  case (CallGetIP n g)
  with c have "getIP a n g [] = (a', snd (getIP a n g []))" by (auto simp: GetIP_def)
  from get_step [OF a this] CallGetIP show ?thesis by (auto intro: pool_step.refused pool_step.granted)
next
  case (CallGetIPOwned n g o')
  with c have "GetIPOwned a n g o' = (a', snd (GetIPOwned a n g o'))" by auto
  from get_owned_step [OF a this] CallGetIPOwned show ?thesis by simp
next
  case (CallReleaseIP n ip)
  with c have "releaseIP a n ip = (a', snd (releaseIP a n ip))" by (auto simp: ReleaseIP_def)
  from releaseIP_outcome [OF this] show ?thesis
    using release_step [of a n _ ip] CallReleaseIP
    by (auto intro: pool_step.refused) (metis pool_step.released)
next
  case (CallReleaseIPOwned n ip o')
  with c have "ReleaseIPOwned a n ip o' = (a', snd (ReleaseIPOwned a n ip o'))" by auto
  from ReleaseIPOwned_outcome [OF this] show ?thesis
    using release_step [of a n _ ip] CallReleaseIPOwned
    by (auto simp: holds_def intro: pool_step.refused) (metis option.inject pool_step.released_owned)
next
  case (CallReleaseAllByOwner n o')
  with c have "ReleaseAllByOwner a n o' = (a', snd (ReleaseAllByOwner a n o'))" by auto
  from sweep_step [OF a this] CallReleaseAllByOwner show ?thesis by simp
qed

section \<open>A concrete allocator\<close>

text \<open>A network \<open>lab\<close> with three addresses, used by the witnesses.\<close>

definition lab :: IPAllocator where
  "lab = [(''lab'', \<lparr>s_cidr = Prefix (AddrFrom4 0x0a000000) 29,
     s_start = Some (IP16 0xffff0a000002), s_end = Some (IP16 0xffff0a000004),
     s_broadcast = Some (IP4 0x0a000007),
     s_ips = [(''10.0.0.2'', False), (''10.0.0.3'', False), (''10.0.0.4'', False)], s_owners = []\<rparr>)]"

definition lab1 :: IPAllocator where
  "lab1 = fst (GetIPOwned lab ''lab'' [] ''ns/a'')"

lemma lab_reach: "ipam_reach lab"
proof (rule ipam_reach.call [OF ipam_reach.start])
  show "do_call (CallNewSubnet ''lab'' ''10.0.0.0/29'' ''10.0.0.2'' ''10.0.0.4'') New = Some lab" by code_simp
qed

lemma lab1_reach: "ipam_reach lab1"
  by (rule ipam_reach.call [OF lab_reach, of "CallGetIPOwned ''lab'' [] ''ns/a''"]) (simp add: lab1_def)

section \<open>Properties: building ranges\<close>

text \<open>
  A subnet is built exactly when the CIDR, the start and the end parse, both ends lie in the
  CIDR, the start is not above the end, the end is not the broadcast address, the range spans at
  most 65536 addresses and does not end at the very last IPv6 address; the built subnet then has
  one free entry for each address from the start to the end and no owners.
\<close>

theorem buildSubnet_correct:
  "buildSubnet subnet start en = Some (Inr s) \<longleftrightarrow>
     (\<exists>p sa ea. ParsePrefix subnet = Some p \<and> ParseAddr start = Some sa \<and> ParseAddr en = Some ea \<and>
        Contains p sa \<and> Contains p ea \<and> aval sa \<le> aval ea \<and>
        \<not> is_broadcast (broadcast_of p) (IP16 (aval ea)) \<and> aval ea - aval sa < 65536 \<and>
        aval ea \<noteq> top128 - 1 \<and>
        s = \<lparr>s_cidr = p, s_start = Some (IP16 (aval sa)), s_end = Some (IP16 (aval ea)),
             s_broadcast = broadcast_of p,
             s_ips = map (\<lambda>v. (ipkey v, False)) [aval sa..<Suc (aval ea)], s_owners = []\<rparr>)"
proof -
  have "buildSubnet subnet start en = Some (Inr s) \<longleftrightarrow>
    (\<exists>p sa ea. build_checks subnet start en p sa ea \<and> aval ea \<noteq> top128 - 1 \<and> s = built_subnet p sa ea)"
    by (cases rule: buildSubnet_cases [of subnet start en]) (use buildSubnet_built in fastforce)+
  then show ?thesis unfolding build_checks_def built_subnet_def by blast
qed

text \<open>
  Building a subnet does not return exactly when every check passes and the range ends at the
  highest IPv6 address: there the loop that fills the address map never ends.
\<close>

theorem buildSubnet_diverges:
  "buildSubnet subnet start en = None \<longleftrightarrow>
     (\<exists>p sa ea. build_checks subnet start en p sa ea \<and> aval ea = top128 - 1)"
  by (cases rule: buildSubnet_cases [of subnet start en]) (use buildSubnet_built in fastforce)+

section \<open>Properties: the reachable allocators\<close>

lemma built_length: "build_checks subnet start en p sa ea \<Longrightarrow> length (s_ips (built_subnet p sa ea)) \<le> 65536"
  by (auto simp: build_checks_def built_subnet_def simp del: upt_Suc)

lemma configured_keys:
  assumes c: "configured s" and i4: "Is4 (pip (s_cidr s))" and v: "v < top128" "ipkey v \<in> set (keys (s_ips s))"
  shows "Contains (s_cidr s) (addr_of v) \<and> \<not> is_broadcast (s_broadcast s) (AsSlice (addr_of v))"
proof -
  obtain subnet start en p sa ea where c: "build_checks subnet start en p sa ea"
    and net: "same_net (built_subnet p sa ea) s" using c by (auto simp: configured_def)
  have p: "s_cidr s = p" "keys (s_ips s) = map ipkey [aval sa..<Suc (aval ea)]"
    using net by (auto simp: same_net_def built_subnet_def comp_def simp del: upt_Suc)
  have "aval sa \<le> v \<and> v \<le> aval ea"
    using v p(2) build_checks_bound [OF c] ipkey_inject by (auto simp del: upt_Suc)
  then have "markable s (ipkey v)"
    using built_markable [OF c] same_net_markable [OF net] i4 p by simp
  moreover have "Unmap (addr_of v) = addr_of v" by (simp add: addr_of_eq Unmap_def Is4In6_def)
  ultimately show ?thesis using ParseAddr_String [OF v(1)] by (simp add: markable_def)
qed

lemma reachable_invariant_keys:
  assumes "ipam_reach a" "map_of a n = Some s" "Is4 (pip (s_cidr s))" "ip \<in> set (keys (s_ips s))"
  shows "\<exists>x. ParseAddr ip = Some x \<and> Contains (s_cidr s) x \<and> ip \<noteq> []"
proof -
  have s: "subnet_inv s" "configured s"
    using ipam_reach_ok [OF assms(1)] assms(2) by (auto simp: ipam_ok_def intro: ipam_inv_subnet)
  then obtain v where "v < top128" "ip = ipkey v" using assms(4) by (auto simp: subnet_inv_def)
  with configured_keys [OF s(2) assms(3)] assms(4) ParseAddr_String show ?thesis by auto
qed

text \<open>
  C22. After any sequence of calls, the address map of every network has exactly the addresses from its start to its end, each once, in
  canonical text and in order, and they are at most 65536; an owner is recorded only for an allocated address; and in an
  IPv4 network every one of these addresses lies in the network's CIDR and is not its broadcast address.
\<close>

theorem reachable_invariant:
  assumes "ipam_reach a" and "map_of a n = Some s"
  shows "length (s_ips s) \<le> 65536 \<and> distinct (keys (s_ips s)) \<and>
    (\<exists>lo hi. lo \<le> hi \<and> hi < top128 \<and> s_start s = Some (IP16 lo) \<and> s_end s = Some (IP16 hi) \<and>
       keys (s_ips s) = map ipkey [lo..<Suc hi]) \<and>
    (\<forall>ip o'. map_of (s_owners s) ip = Some o' \<longrightarrow> map_of (s_ips s) ip = Some True) \<and>
    (\<forall>ip \<in> set (keys (s_ips s)). \<exists>v < top128. ip = ipkey v \<and>
       (Is4 (pip (s_cidr s)) \<longrightarrow> Contains (s_cidr s) (addr_of v) \<and>
          \<not> is_broadcast (s_broadcast s) (AsSlice (addr_of v))))"
proof -
  have "subnet_inv s" "configured s"
    using ipam_reach_ok [OF assms(1)] assms(2) by (auto simp: ipam_ok_def intro: ipam_inv_subnet)
  then obtain subnet start en p sa ea where c: "build_checks subnet start en p sa ea"
    and net: "same_net (built_subnet p sa ea) s" by (auto simp: configured_def)
  have len: "length (s_ips s) \<le> 65536"
    using built_length [OF c] net by (metis length_map same_net_def)
  have "s_start s = Some (IP16 (aval sa))" "s_end s = Some (IP16 (aval ea))" "keys (s_ips s) = map ipkey [aval sa..<Suc (aval ea)]"
    using net by (auto simp: same_net_def built_subnet_def comp_def simp del: upt_Suc)
  then have range: "\<exists>lo hi. lo \<le> hi \<and> hi < top128 \<and> s_start s = Some (IP16 lo) \<and> s_end s = Some (IP16 hi) \<and>
       keys (s_ips s) = map ipkey [lo..<Suc hi]"
    using build_checks_bound [OF c] by blast
  have "\<exists>v < top128. ip = ipkey v \<and> (Is4 (pip (s_cidr s)) \<longrightarrow> Contains (s_cidr s) (addr_of v) \<and>
      \<not> is_broadcast (s_broadcast s) (AsSlice (addr_of v)))" if "ip \<in> set (keys (s_ips s))" for ip
    using that configured_keys [OF \<open>configured s\<close>] \<open>subnet_inv s\<close> unfolding subnet_inv_def by metis
  with len range \<open>subnet_inv s\<close> show ?thesis unfolding subnet_inv_def by blast
qed

theorem reachable_invariant_witness:
  "length (s_ips (the (map_of lab1 ''lab''))) \<le> 65536"
proof -
  have "map_of lab1 ''lab'' = Some (the (map_of lab1 ''lab''))" by code_simp
  from reachable_invariant [OF lab1_reach this] show ?thesis by blast
qed

text \<open>
  C21. Refinement: every call that returns moves the claims the allocator stands for by one step of
  the abstract pools: it is refused without effect, or grants a free address to its caller,
  frees the claim it names, sweeps one owner, or replaces a range without inventing an owned claim.
\<close>

theorem allocator_refines_pools:
  assumes "ipam_reach a" and "do_call c a = Some a'"
  shows "ipam_reach a' \<and> pool_step c (pools_of a) (pools_of a')"
  using ipam_reach.call [OF assms] do_call_simulated [OF ipam_reach_ok [OF assms(1)] assms(2)] by simp

theorem allocator_refines_pools_witness:
  "pool_step (CallReleaseIPOwned ''lab'' ''10.0.0.2'' ''ns/a'') (pools_of lab1)
     (pools_of (fst (ReleaseIPOwned lab1 ''lab'' ''10.0.0.2'' ''ns/a'')))"
  using allocator_refines_pools [OF lab1_reach, of "CallReleaseIPOwned ''lab'' ''10.0.0.2'' ''ns/a''"] by simp

section \<open>Properties: granting, keeping and giving back addresses\<close>

text \<open>
  C1. Exclusive grants: when \<open>GetIPOwned\<close> grants an address, the address was free or already held
  by the same owner, the owner now holds it, and no other claim of any network changed; when it
  returns an error nothing changed at all.
\<close>

theorem GetIPOwned_exclusive:
  assumes "ipam_reach a" and "GetIPOwned a n g owner = (a', r)"
  shows "case r of
      Inl e \<Rightarrow> a' = a
    | Inr ip \<Rightarrow> (claim_in a n ip = None \<or> holds a n ip owner) \<and> holds a' n ip owner \<and>
        (g \<noteq> [] \<longrightarrow> ip = g) \<and>
        (\<forall>m k. (m, k) \<noteq> (n, ip) \<longrightarrow> claim_in a' m k = claim_in a m k)"
proof (cases r)
  case (Inl e)
  with assms(2) ipam.acquire_refused [OF ipam_reach_ok [OF assms(1)], of "(n, g)" owner a' e] show ?thesis
    by (simp add: ipam_acquire_def)
next
  case (Inr ip)
  note ok = ipam_reach_ok [OF assms(1)]
  note law = acquire_law [OF ok assms(2) [unfolded Inr]]
  have "owner \<noteq> []" using assms(2) Inr by (auto simp: GetIPOwned_def)
  moreover have "g \<noteq> [] \<longrightarrow> ip = g"
    using assms(2) Inr by (auto elim: GetIPOwned_outcome [OF ipam_ok_inv [OF ok]])
  ultimately show ?thesis using law Inr by (auto simp: holds_def ipam_holder_def fun_eq_iff)
qed

theorem GetIPOwned_exclusive_witness:
  "holds (fst (GetIPOwned lab1 ''lab'' [] ''ns/b'')) ''lab'' ''10.0.0.3'' ''ns/b''"
proof -
  have "GetIPOwned lab1 ''lab'' [] ''ns/b'' = (fst (GetIPOwned lab1 ''lab'' [] ''ns/b''), Inr ''10.0.0.3'')"
    by code_simp
  from GetIPOwned_exclusive [OF lab1_reach this] show ?thesis by simp
qed

text \<open>
  C27. Automatic allocation for a named owner is live and picks the lowest free address: with any free address in the
  network the call grants the smallest one in the order of \<open>netip.Addr.Compare\<close>, in an IPv4 network an address that lies in the CIDR and is not the
  broadcast address; when no address is free the call reports exhaustion and changes nothing.
\<close>

theorem GetIPOwned_lowest:
  assumes "ipam_reach a" and "map_of a n = Some s" and "owner \<noteq> []"
  shows "if \<exists>u. free_in s u
    then \<exists>v. free_in s v \<and> (\<forall>u. free_in s u \<longrightarrow> addr_key (addr_of v) \<le> addr_key (addr_of u)) \<and>
           (Is4 (pip (s_cidr s)) \<longrightarrow> Contains (s_cidr s) (addr_of v) \<and> \<not> is_broadcast (s_broadcast s) (AsSlice (addr_of v))) \<and>
           snd (GetIPOwned a n [] owner) = Inr (ipkey v)
    else GetIPOwned a n [] owner = (a, Inl (NoneLeft n))"
proof -
  have s: "subnet_inv s" "configured s"
    using ipam_reach_ok [OF assms(1)] assms(2) by (auto simp: ipam_ok_def intro: ipam_inv_subnet)
  have "GetIPOwned a n [] owner = getIP a n [] owner" using assms(3) by (simp add: GetIPOwned_def)
  moreover have "Contains (s_cidr s) (addr_of v) \<and> \<not> is_broadcast (s_broadcast s) (AsSlice (addr_of v))"
    if "free_in s v" "Is4 (pip (s_cidr s))" for v
    using that by (intro configured_keys [OF s(2)]) (auto simp: free_in_def intro: map_of_in_keys simp del: set_map)
  ultimately show ?thesis using getIP_any [OF s(1) assms(2), of owner] by auto
qed

theorem GetIPOwned_lowest_witness:
  "\<exists>v. free_in (the (map_of lab1 ''lab'')) v \<and> snd (GetIPOwned lab1 ''lab'' [] ''ns/b'') = Inr (ipkey v)"
proof -
  have s: "map_of lab1 ''lab'' = Some (the (map_of lab1 ''lab''))" by code_simp
  have "free_in (the (map_of lab1 ''lab'')) 0xffff0a000004" unfolding free_in_def by code_simp
  then show ?thesis using GetIPOwned_lowest [OF lab1_reach s, of "''ns/b''"] by (auto split: if_splits)
qed

text \<open>The calls that leave a claim of \<open>owner\<close> on \<open>ip\<close> of network \<open>n\<close> alone.\<close>

fun spares :: "string \<Rightarrow> string \<Rightarrow> string \<Rightarrow> ipam_call \<Rightarrow> bool" where
  "spares n ip owner (CallNewSubnet m sub st en) = (m \<noteq> n)"
| "spares n ip owner (CallRefreshSubnet m sub st en ex al) =
     (m \<noteq> n \<or> (case buildSubnet sub st en of Some (Inr s) \<Rightarrow> markable s ip | _ \<Rightarrow> True))"
| "spares n ip owner (CallDeleteSubnet m) = (m \<noteq> n)"
| "spares n ip owner (CallGetIP m k) = True"
| "spares n ip owner (CallGetIPOwned m k o') = True"
| "spares n ip owner (CallReleaseIP m k) = (m \<noteq> n \<or> k \<noteq> ip)"
| "spares n ip owner (CallReleaseIPOwned m k o') = (m \<noteq> n \<or> k \<noteq> ip \<or> o' \<noteq> owner)"
| "spares n ip owner (CallReleaseAllByOwner m o') = (m \<noteq> n \<or> o' \<noteq> owner)"

fun do_calls :: "ipam_call list \<Rightarrow> IPAllocator \<Rightarrow> IPAllocator option" where
  "do_calls [] a = Some a"
| "do_calls (c # cs) a = (case do_call c a of None \<Rightarrow> None | Some a' \<Rightarrow> do_calls cs a')"

lemma refresh_spares:
  assumes "ipam_ok a" "claim_in a n ip = Some o'" "o' \<noteq> []"
    "RefreshSubnet a n sub st en ex al = Some (a', r)"
    "case buildSubnet sub st en of Some (Inr s) \<Rightarrow> markable s ip | _ \<Rightarrow> True"
  shows "claim_in a' n ip = Some o'"
proof (cases r)
  case (Some e)
  with assms(2,4) show ?thesis by (auto dest: RefreshSubnet_error)
next
  case None
  with assms(4) have "RefreshSubnet a n sub st en ex al = Some (a', None)" by simp
  from RefreshSubnet_ok [OF ipam_ok_inv [OF assms(1)] this] obtain p sa ea where
    "build_checks sub st en p sa ea" "aval ea \<noteq> top128 - 1"
    "claim_in a' n = refreshed a n (built_subnet p sa ea) (set ex \<union> set al)" by metis
  with assms(2,3,5) show ?thesis by (simp add: buildSubnet_built refreshed_def)
qed

lemma claim_pools: "claim_in a n ip = Some o' \<longleftrightarrow> (\<exists>m. pools_of a n = Some m \<and> m ip = Some (Some o'))"
  by (auto simp: claim_in_def pools_of_def pool_of_claim split: option.splits)

lemma do_call_spares:
  assumes a: "ipam_ok a" and h: "claim_in a n ip = Some owner" "owner \<noteq> []"
    and c: "do_call c a = Some a'" and s: "spares n ip owner c"
  shows "claim_in a' n ip = Some owner"
proof (cases "\<exists>sub st en ex al. c = CallRefreshSubnet n sub st en ex al")
  case True
  with c s refresh_spares [OF a h] show ?thesis by auto
next
  case False
  from do_call_simulated [OF a c] show ?thesis using h s False unfolding claim_pools
    by (cases rule: pool_step.cases) auto
qed

text \<open>
  C2. A claim is stable under the calls of others, with three exceptions that the sequence must not contain: take an owner that holds an
  address of a network in a reachable allocator, and any sequence of calls, by any number of clients and in any order, in which (a) the network
  is neither created anew nor deleted, and is not refreshed to a range in which this address cannot be marked, (b) nobody, not even another
  client, calls the release without an owner check (\<open>ReleaseIP\<close>) for this address, and (c) the owner itself does not release the address
  and does not sweep its claims. Then the owner still holds the address at the end.
\<close>

theorem claim_survives:
  assumes "ipam_reach a" and "holds a n ip owner" and "list_all (spares n ip owner) cs"
    and "do_calls cs a = Some a'"
  shows "holds a' n ip owner"
  using assms
proof (induction cs arbitrary: a)
  case (Cons c cs)
  then obtain a1 where a1: "do_call c a = Some a1" "do_calls cs a1 = Some a'" by (auto split: option.splits)
  have "holds a1 n ip owner"
    using do_call_spares [OF ipam_reach_ok [OF Cons.prems(1)] _ _ a1(1)] Cons.prems(2,3) by (simp add: holds_def)
  with Cons.IH [OF ipam_reach.call [OF Cons.prems(1) a1(1)]] Cons.prems(3) a1(2) show ?case by simp
qed simp

theorem claim_survives_witness:
  "holds (the (do_calls [CallGetIPOwned ''lab'' ''10.0.0.2'' ''ns/b'', CallReleaseIPOwned ''lab'' ''10.0.0.2'' ''ns/b'',
      CallRefreshSubnet ''lab'' ''10.0.0.0/28'' ''10.0.0.1'' ''10.0.0.2'' [''10.0.0.1''] [],
      CallReleaseAllByOwner ''lab'' ''ns/b''] lab1)) ''lab'' ''10.0.0.2'' ''ns/a''"
proof -
  let ?cs = "[CallGetIPOwned ''lab'' ''10.0.0.2'' ''ns/b'', CallReleaseIPOwned ''lab'' ''10.0.0.2'' ''ns/b'',
      CallRefreshSubnet ''lab'' ''10.0.0.0/28'' ''10.0.0.1'' ''10.0.0.2'' [''10.0.0.1''] [],
      CallReleaseAllByOwner ''lab'' ''ns/b'']"
  have "holds lab1 ''lab'' ''10.0.0.2'' ''ns/a''" by code_simp
  moreover have "list_all (spares ''lab'' ''10.0.0.2'' ''ns/a'') ?cs" by code_simp
  moreover have "do_calls ?cs lab1 = Some (the (do_calls ?cs lab1))" by code_simp
  ultimately show ?thesis by (rule claim_survives [OF lab1_reach])
qed

text \<open>
  An owned release gives back exactly the caller's own claim: it succeeds only when the caller
  holds the address, frees that address and touches no other claim; a claim of somebody else
  (or of nobody) is refused as foreign, and every refusal leaves the allocator unchanged.
\<close>

theorem ReleaseIPOwned_own_claim_only:
  assumes "ipam_reach a" and "ReleaseIPOwned a n ip owner = (a', r)"
  shows "(case r of
      Some e \<Rightarrow> a' = a
    | None \<Rightarrow> holds a n ip owner \<and> claim_in a' n ip = None \<and>
        (\<forall>m k. (m, k) \<noteq> (n, ip) \<longrightarrow> claim_in a' m k = claim_in a m k)) \<and>
    (owner \<noteq> [] \<longrightarrow> claim_in a n ip = Some o' \<longrightarrow> o' \<noteq> owner \<longrightarrow> r = Some (ForeignClaim ip o'))"
proof -
  note ok = ipam_reach_ok [OF assms(1)]
  have "r = Some (ForeignClaim ip o')" if "owner \<noteq> []" "claim_in a n ip = Some o'" "o' \<noteq> owner"
    using that assms(2) by (auto simp: ReleaseIPOwned_def claim_in_def claim_def split: option.splits if_splits)
  moreover have "a' = a" if "r = Some e" for e
    using ipam.release_refused [OF ok, of "(n, ip)" owner a' e] assms(2) that by (simp add: ipam_release_def)
  moreover have "holds a n ip owner \<and> claim_in a' n ip = None \<and>
      (\<forall>m k. (m, k) \<noteq> (n, ip) \<longrightarrow> claim_in a' m k = claim_in a m k)" if "r = None"
    using ipam.release_done [OF ok, of "(n, ip)" owner a'] assms(2) that
      ReleaseIPOwned_outcome [OF assms(2)]
    by (auto simp: ipam_release_def ipam_holder_def fun_eq_iff)
  ultimately show ?thesis by (cases r) auto
qed

theorem ReleaseIPOwned_own_claim_only_witness:
  "ReleaseIPOwned lab1 ''lab'' ''10.0.0.2'' ''ns/b'' = (lab1, Some (ForeignClaim ''10.0.0.2'' ''ns/a''))"
proof -
  let ?p = "ReleaseIPOwned lab1 ''lab'' ''10.0.0.2'' ''ns/b''"
  have "claim_in lab1 ''lab'' ''10.0.0.2'' = Some ''ns/a''" by code_simp
  then show ?thesis
    using ReleaseIPOwned_own_claim_only [OF lab1_reach, of "''lab''" "''10.0.0.2''" "''ns/b''" "fst ?p" "snd ?p" "''ns/a''"]
    by (cases ?p) auto
qed

text \<open>
  The sweep takes away all claims of one owner in one network and nothing else, and the number
  it returns is exactly by how much the network's usage drops.
\<close>

theorem ReleaseAllByOwner_exact:
  assumes "ipam_reach a" and "owner \<noteq> []" and "ReleaseAllByOwner a n owner = (a', k)"
  shows "(\<forall>m ip. claim_in a' m ip = (if m = n \<and> claim_in a n ip = Some owner then None else claim_in a m ip)) \<and>
    Used a' n + k = Used a n"
  using ipam.sweep_done [OF ipam_reach_ok [OF assms(1)] assms(2,3)]
    ReleaseAllByOwner_spec(4) [OF ipam_ok_inv [OF ipam_reach_ok [OF assms(1)]] assms(2,3)]
  by (auto simp: ipam_holder_def)

theorem ReleaseAllByOwner_exact_witness:
  "claim_in (fst (ReleaseAllByOwner lab1 ''lab'' ''ns/a'')) ''lab'' ''10.0.0.2'' = None"
proof -
  have "claim_in lab1 ''lab'' ''10.0.0.2'' = Some ''ns/a''" by code_simp
  then show ?thesis
    using ReleaseAllByOwner_exact [OF lab1_reach, of "''ns/a''" "''lab''" _ "snd (ReleaseAllByOwner lab1 ''lab'' ''ns/a'')"]
    by simp
qed

lemma refresh_exact:
  assumes "ipam_reach a" and "build_checks subnet start en p sa ea" and "Is4 (pip p)"
    and "aval ea \<noteq> top128 - 1"
  shows "\<exists>a' r. RefreshSubnet a n subnet start en ex al = Some (a', r) \<and>
    (r = None \<longleftrightarrow> (\<forall>ip \<in> set ex. ip \<in> ipkey ` {aval sa..aval ea})) \<and>
    (r \<noteq> None \<longrightarrow> a' = a) \<and>
    (r = None \<longrightarrow> (\<forall>m. m \<noteq> n \<longrightarrow> map_of a' m = map_of a m) \<and>
      (\<forall>ip. claim_in a' n ip =
        (if ip \<notin> ipkey ` {aval sa..aval ea} then None
         else if \<exists>o'. holds a n ip o' then claim_in a n ip
         else if ip \<in> set ex \<union> set al then Some [] else None)))"
proof -
  let ?f = "built_subnet p sa ea"
  note ok = ipam_ok_inv [OF ipam_reach_ok [OF assms(1)]]
  have mk: "markable ?f ip \<longleftrightarrow> ip \<in> ipkey ` {aval sa..aval ea}" for ip
    using built_markable [OF assms(2,3)] by (auto simp: markable_def) (auto simp: built_subnet_def simp del: upt_Suc)
  have b: "buildSubnet subnet start en = Some (Inr ?f)" using buildSubnet_built [OF assms(2)] assms(4) by simp
  have fi: "subnet_inv ?f" using build_checks_bound [OF assms(2)] by (simp add: subnet_inv_built)
  obtain a' r where r: "RefreshSubnet a n subnet start en ex al = Some (a', r)"
    using b by (cases "mark_excludes ?f ex") (auto simp: RefreshSubnet_def Let_def)
  have iff: "r = None \<longleftrightarrow> (\<forall>ip \<in> set ex. markable ?f ip)"
    using r b mark_excludes_total [OF fi, of ex]
    by (cases "mark_excludes ?f ex") (auto simp: RefreshSubnet_def Let_def)
  show ?thesis
  proof (cases r)
    case (Some e)
    with r iff mk show ?thesis by (auto dest: RefreshSubnet_error)
  next
    case None
    with r have r': "RefreshSubnet a n subnet start en ex al = Some (a', None)" by simp
    from RefreshSubnet_ok [OF ok this] obtain p' sa' ea' where c: "build_checks subnet start en p' sa' ea'"
      and cl: "claim_in a' n = refreshed a n (built_subnet p' sa' ea') (set ex \<union> set al)"
      and fr: "\<forall>m. m \<noteq> n \<longrightarrow> map_of a' m = map_of a m" by metis
    have "built_subnet p' sa' ea' = ?f" using c assms(2) by (auto simp: build_checks_def)
    with cl have "claim_in a' n ip = (if \<not> markable ?f ip then None
         else if \<exists>o'. holds a n ip o' then claim_in a n ip
         else if ip \<in> set ex \<union> set al then Some [] else None)" for ip
      by (auto simp: refreshed_def holds_def split: option.splits)
    with r' iff None fr mk show ?thesis by auto
  qed
qed

text \<open>
  C26. Refreshing an IPv4 network whose new range passes the checks succeeds exactly when every
  excluded address is in the new range, and changes nothing otherwise. Listed allocations have no part in that: those outside the new range are
  dropped (with a warning). After a success the
  addresses of the new range carry, in order of precedence: the live owned claim they had before,
  an ownerless mark when they are excluded or listed as allocated, and nothing otherwise; every
  address outside the new range is unclaimed, and no other network changes.
\<close>

theorem RefreshSubnet_exact:
  assumes "ipam_reach a" and "build_checks subnet start en p sa ea" and "Is4 (pip p)"
    and "aval ea \<noteq> top128 - 1"
  shows "\<exists>a' r. RefreshSubnet a n subnet start en ex al = Some (a', r) \<and>
    (r = None \<longleftrightarrow> (\<forall>ip \<in> set ex. ip \<in> ipkey ` {aval sa..aval ea})) \<and>
    (r \<noteq> None \<longrightarrow> a' = a) \<and>
    (r = None \<longrightarrow> (\<forall>m. m \<noteq> n \<longrightarrow> map_of a' m = map_of a m) \<and>
      (\<forall>ip. claim_in a' n ip =
        (if ip \<notin> ipkey ` {aval sa..aval ea} then None
         else if \<exists>o'. holds a n ip o' then claim_in a n ip
         else if ip \<in> set ex \<union> set al then Some [] else None)))"
  using refresh_exact [OF assms] .

theorem RefreshSubnet_exact_witness:
  "\<exists>a' r. RefreshSubnet lab1 ''lab'' ''10.0.0.0/28'' ''10.0.0.1'' ''10.0.0.2'' [''10.0.0.9''] [] = Some (a', r) \<and>
     (r = None \<longleftrightarrow> (\<forall>ip \<in> set [''10.0.0.9'']. ip \<in> ipkey ` {0xffff0a000001..0xffff0a000002})) \<and> (r \<noteq> None \<longrightarrow> a' = lab1)"
proof -
  have c: "build_checks ''10.0.0.0/28'' ''10.0.0.1'' ''10.0.0.2'' (Prefix (AddrFrom4 0x0a000000) 28)
      (AddrFrom4 0x0a000001) (AddrFrom4 0x0a000002)" by code_simp
  have i4: "Is4 (pip (Prefix (AddrFrom4 0x0a000000) 28))" by code_simp
  have v: "aval (AddrFrom4 0x0a000001) = 0xffff0a000001" "aval (AddrFrom4 0x0a000002) = 0xffff0a000002"
    by (simp_all add: AddrFrom4_def)
  have ne: "aval (AddrFrom4 0x0a000002) \<noteq> top128 - 1" by (simp add: AddrFrom4_def)
  show ?thesis
    using RefreshSubnet_exact [OF lab1_reach c i4 ne, of "''lab''" "[''10.0.0.9'']" "[]"] unfolding v
    by (elim exE conjE) (intro exI conjI; assumption)
qed

lemma count_true_card: "distinct (keys m) \<Longrightarrow> count_true m = card {k. map_of m k = Some True}"
proof -
  assume d: "distinct (keys m)"
  have "{k. map_of m k = Some True} = set (map fst (filter snd m))"
    using d by (auto simp: map_of_eq_Some_iff image_iff)
  moreover have "distinct (map fst (filter snd m))"
    using d by (metis distinct_map_filter)
  ultimately show ?thesis by (metis count_true_def distinct_card length_map)
qed

text \<open>
  The usage numbers are right: the used count of a network is the number of addresses with a
  claim, used and available add up to the size of the range, and \<open>GetUsage\<close> reports the same
  numbers with the claimed addresses in order.
\<close>

theorem usage_counts:
  assumes "ipam_reach a" and "map_of a n = Some s"
  shows "Used a n = card {ip. claim_in a n ip \<noteq> None} \<and>
    Used a n + Available a n = length (s_ips s) \<and>
    (\<exists>u. map_of (GetUsage a) n = Some u \<and> u_Used u = Used a n \<and> u_Available u = int (Available a n) \<and>
       u_Total u = length (s_ips s) \<and> set (u_UsedIPs u) = {ip. claim_in a n ip \<noteq> None} \<and> sorted (u_UsedIPs u))"
proof -
  have si: "subnet_inv s" using ipam_reach_ok [OF assms(1)] assms(2) by (auto simp: ipam_ok_def intro: ipam_inv_subnet)
  note d = subnet_invD(1) [OF si]
  have cl: "{ip. claim_in a n ip \<noteq> None} = {k. map_of (s_ips s) k = Some True}"
    using assms(2) by (auto simp: claim_in_def claim_def)
  have us: "Used a n = count_true (s_ips s)" using assms(2) by (simp add: Used_def count_true_def)
  have sp: "Used a n + Available a n = length (s_ips s)"
    using us count_true_split [of "s_ips s"] assms(2) by (simp add: Available_def)
  have "map_of (GetUsage a) n = Some (usage_of s)"
    using assms(2) map_of_map [of usage_of a] by (simp add: GetUsage_def case_prod_beta comp_def)
  moreover have "set (map fst (filter snd (s_ips s))) = {ip. claim_in a n ip \<noteq> None}"
    unfolding cl using d by (auto simp: map_of_eq_Some_iff image_iff)
  ultimately show ?thesis
    using us sp count_true_card [OF d] cl by (auto simp: usage_of_def Let_def count_true_def)
qed

theorem usage_counts_witness: "Used lab1 ''lab'' + Available lab1 ''lab'' = 3"
proof -
  have s: "map_of lab1 ''lab'' = Some (the (map_of lab1 ''lab''))" by code_simp
  have "length (s_ips (the (map_of lab1 ''lab''))) = 3" by code_simp
  with usage_counts [OF lab1_reach s] show ?thesis by simp
qed

lemma grant_release:
  assumes "ipam_reach a" and "map_of a n = Some s" and "Is4 (pip (s_cidr s))"
    and "GetIPOwned a n g owner = (a1, Inr ip)" and "claim_in a n ip = None"
  shows "\<exists>a2. ReleaseIPOwned a1 n ip owner = (a2, None) \<and> claim_in a2 = claim_in a \<and>
    Used a1 n = Used a n + 1 \<and> Used a2 n = Used a n"
proof (cases rule: GetIPOwned_outcome [OF ipam_ok_inv [OF ipam_reach_ok [OF assms(1)]] assms(4), case_names error reclaim fresh])
  case reclaim
  with assms(5) show ?thesis by (simp add: holds_def)
next
  case (fresh s' k)
  then have s: "s' = s" "k = ip" "map_of (s_ips s) ip = Some False" "owner \<noteq> []" using assms(2) by auto
  let ?s1 = "set_claim s ip owner"
  have ipk: "ip \<in> set (keys (s_ips s))" using s(3) by (rule map_of_in_keys)
  from reachable_invariant_keys [OF assms(1,2,3) ipk] obtain x where
    x: "ParseAddr ip = Some x" "Contains (s_cidr s) x" "ip \<noteq> []" by blast
  have a1: "a1 = AList.update n ?s1 a" and m1: "map_of a1 n = Some ?s1" using fresh s by auto
  have r: "ReleaseIPOwned a1 n ip owner = (AList.update n (clear_claim ?s1 ip) a1, None)"
    using m1 s x by (auto simp: ReleaseIPOwned_def releaseIP_def set_claim_def getz_def)
  let ?a2 = "AList.update n (clear_claim ?s1 ip) a1"
  have d: "distinct (keys (s_ips s))"
    using ipam_reach_ok [OF assms(1)] assms(2) by (auto simp: ipam_ok_def intro: subnet_invD ipam_inv_subnet)
  have u1: "Used a1 n = Used a n + 1"
    using count_true_update [OF d s(3), of True] m1 assms(2) by (simp add: Used_def set_claim_def count_true_def)
  have "claim_in ?a2 m = claim_in a m" for m
    using assms(2,5) a1 by (auto simp: claim_in_update claim_clear_claim claim_set_claim claim_in_def fun_eq_iff)
  moreover have "Used ?a2 n + 1 = Used a1 n"
    using count_true_update [of "s_ips ?s1" ip True False] d m1
    by (auto simp: Used_def set_claim_def clear_claim_def count_true_def distinct_keys_update)
  ultimately show ?thesis using r u1 by auto
qed simp

text \<open>
  Round trip: an address freshly granted from an IPv4 network can always be released by its
  owner, and after that release every claim and the usage are what they were before the grant;
  in between the usage is one higher.
\<close>

theorem grant_release_roundtrip:
  assumes "ipam_reach a" and "map_of a n = Some s" and "Is4 (pip (s_cidr s))"
    and "GetIPOwned a n g owner = (a1, Inr ip)" and "claim_in a n ip = None"
  shows "\<exists>a2. ReleaseIPOwned a1 n ip owner = (a2, None) \<and> claim_in a2 = claim_in a \<and>
    Used a1 n = Used a n + 1 \<and> Used a2 n = Used a n"
  using grant_release [OF assms] .

theorem grant_release_roundtrip_witness:
  "\<exists>a2. ReleaseIPOwned lab1 ''lab'' ''10.0.0.2'' ''ns/a'' = (a2, None) \<and> claim_in a2 = claim_in lab"
proof -
  have "map_of lab ''lab'' = Some (the (map_of lab ''lab''))" "Is4 (pip (s_cidr (the (map_of lab ''lab''))))"
    "GetIPOwned lab ''lab'' [] ''ns/a'' = (lab1, Inr ''10.0.0.2'')" "claim_in lab ''lab'' ''10.0.0.2'' = None"
    by code_simp+
  from grant_release_roundtrip [OF lab_reach this] show ?thesis by blast
qed

end
