(* ===== verification/Kube.thy ===== *)
theory Kube
  imports Ipam_Ops "HOL-Library.State_Monad"
begin

text \<open>
  The resources of \<open>pkg/apis/rancher.k8s.binbash.org/v1beta2/types.go\<close> and the environment
  the controllers run in.

  A resource is a record of the fields the program reads or writes; the object metadata it uses
  (name, namespace, labels, finalizers, deletion timestamp, resource version) is part of the
  record. A Go map that may be \<open>nil\<close> is a \<open>gomap option\<close>, a pointer an \<open>option\<close>.

  The Kubernetes client, the informer caches, the retry helper of client-go, the clock and the
  system's random source are not part of the repository: they are the fields of an environment
  record \<open>env\<close>, an argument of every definition that uses them. A call to the environment may
  change the whole system state, the address manager included: that is what the other
  goroutines do while the call is under way. What the code relies on is stated as hypotheses
  about the environment where a property needs it.
\<close>

section \<open>Resources\<close>

record Condition =
  c_type :: string
  c_status :: string
  c_reason :: string
  c_message :: string
  c_time :: nat

record AssignedService =
  ServiceNamespace :: string
  ServiceName :: string

record AssignedInfo =
  ClusterName :: string
  ProjectName :: string
  FloatingIPGroup :: string
  SharedKey :: string
  Services :: "AssignedService list"

type_synonym labels = "(string, string) gomap option"

record FloatingIP =
  f_ns :: string
  f_name :: string
  f_labels :: labels
  f_finalizers :: "string list"
  f_deleted :: bool
  f_created :: int
  f_rv :: nat
  f_spec_ip :: "string option"
  f_pool :: string
  f_ip :: string
  f_state :: string
  f_assigned :: "AssignedInfo option"
  f_conditions :: "Condition list"

record IPConfig =
  Family :: string
  Subnet :: string
  Pool_Start :: string
  Pool_End :: string
  Pool_Exclude :: "string list"

record FloatingIPPool =
  p_name :: string
  p_rv :: nat
  p_config :: "IPConfig option"
  p_allocated :: "(string, string) gomap option"
  p_used :: int
  p_available :: int

record FipInfo =
  fi_family :: string
  fi_allocated :: "(string, string) gomap option"
  fi_used :: int

record FloatingIPProjectQuota =
  q_name :: string
  q_finalizers :: "string list"
  q_deleted :: bool
  q_rv :: nat
  q_display :: string
  q_quota :: "(string, int) gomap option"
  q_fips :: "(string, FipInfo option) gomap option"

text \<open>Reading a label: a missing label and a \<open>nil\<close> label map read as the empty string.\<close>

definition label :: "labels \<Rightarrow> string \<Rightarrow> string" where
  "label ls k = getz [] (mof ls) k"

definition has_label :: "labels \<Rightarrow> string \<Rightarrow> bool" where
  "has_label ls k = (map_of (mof ls) k \<noteq> None)"

abbreviation projectNameLabel :: string where
  "projectNameLabel \<equiv> ''rancher.k8s.binbash.org/project-name''"

abbreviation clusterNameLabel :: string where
  "clusterNameLabel \<equiv> ''rancher.k8s.binbash.org/cluster-name''"

abbreviation floatingipGroupLabel :: string where
  "floatingipGroupLabel \<equiv> ''rancher.k8s.binbash.org/floatingip-group''"

section \<open>Errors\<close>

text \<open>
  \<open>StatusErr\<close> is any other status error of the API server, with its code and message; \<open>ErrHTTP\<close>
  and \<open>FIPClaimed\<close> are the error values \<open>errHTTP\<close> and \<open>errFIPClaimed\<close> of the HTTP API.
  \<open>Wrap\<close> is an error made with the \<open>%w\<close> verb, which the \<open>Is...\<close> tests look through.
  \<open>Panic\<close> and \<open>Hangs\<close> stand for the two ways a call can fail to return at all.
\<close>

datatype kerr =
    NotFound
  | Conflict
  | AlreadyExists
  | StatusErr nat string
  | ApiErr string
  | Errorf string
  | ErrHTTP nat string
  | FIPClaimed
  | IpamErr ipam_error
  | Wrap string kerr
  | Panic
  | Hangs

fun IsNotFound :: "kerr \<Rightarrow> bool" where
  "IsNotFound NotFound = True"
| "IsNotFound (Wrap m e) = IsNotFound e"
| "IsNotFound _ = False"

fun IsConflict :: "kerr \<Rightarrow> bool" where
  "IsConflict Conflict = True"
| "IsConflict (Wrap m e) = IsConflict e"
| "IsConflict _ = False"

fun IsAlreadyExists :: "kerr \<Rightarrow> bool" where
  "IsAlreadyExists AlreadyExists = True"
| "IsAlreadyExists (Wrap m e) = IsAlreadyExists e"
| "IsAlreadyExists _ = False"

fun IsForbidden :: "kerr \<Rightarrow> bool" where
  "IsForbidden (StatusErr c m) = (c = 403)"
| "IsForbidden (Wrap m e) = IsForbidden e"
| "IsForbidden _ = False"

text \<open>Adding context to an error; a call that did not return has no error to add to.\<close>

definition wrap :: "string \<Rightarrow> kerr \<Rightarrow> kerr" where
  "wrap m e = (if e = Panic \<or> e = Hangs then e else Wrap m e)"

section \<open>The environment\<close>

text \<open>The system: the shared address manager and everything outside this process.\<close>

record 'w sys =
  sys_ipam :: IPAllocator
  sys_world :: 'w

type_synonym ('w, 'a) act = "('w sys, 'a) state"

record 'w env =
  GetFip :: "string \<Rightarrow> string \<Rightarrow> ('w, kerr + FloatingIP) act"
  UpdateFip :: "FloatingIP \<Rightarrow> ('w, kerr + FloatingIP) act"
  UpdateStatusFip :: "FloatingIP \<Rightarrow> ('w, kerr option) act"
  ApplyFinalizersFip :: "string \<Rightarrow> string \<Rightarrow> string list \<Rightarrow> ('w, kerr option) act"
  DeleteFip :: "string \<Rightarrow> string \<Rightarrow> ('w, kerr option) act"
  GetPool :: "string \<Rightarrow> ('w, kerr + FloatingIPPool) act"
  UpdateStatusPool :: "FloatingIPPool \<Rightarrow> ('w, kerr option) act"
  GetQuota :: "string \<Rightarrow> ('w, kerr + FloatingIPProjectQuota) act"
  UpdateQuota :: "FloatingIPProjectQuota \<Rightarrow> ('w, kerr option) act"
  UpdateStatusQuota :: "FloatingIPProjectQuota \<Rightarrow> ('w, kerr option) act"
  ListerFip :: "string \<Rightarrow> string \<Rightarrow> ('w, kerr + FloatingIP) act"
  ListerFips :: "('w, kerr + FloatingIP list) act"
  ListerFipsBy :: "string \<Rightarrow> string \<Rightarrow> ('w, kerr + FloatingIP list) act"
  ListerPool :: "string \<Rightarrow> ('w, kerr + FloatingIPPool) act"
  ListerQuota :: "string \<Rightarrow> ('w, kerr + FloatingIPProjectQuota) act"
  RetryOnConflict :: "('w, kerr option) act \<Rightarrow> ('w, kerr option) act"
  SplitMetaNamespaceKey :: "string \<Rightarrow> (string \<times> string) option"
  RandInt :: "nat \<Rightarrow> ('w, nat option) act"
  Now :: "('w, nat) act"
  IpamErrText :: "ipam_error \<Rightarrow> string"

text \<open>The calls into the address manager.\<close>

definition ipam_GetIPOwned :: "string \<Rightarrow> string \<Rightarrow> string \<Rightarrow> ('w, ipam_error + string) act" where
  "ipam_GetIPOwned n g owner =
     State (\<lambda>s. case GetIPOwned (sys_ipam s) n g owner of (a, r) \<Rightarrow> (r, s\<lparr>sys_ipam := a\<rparr>))"

definition ipam_ReleaseIPOwned :: "string \<Rightarrow> string \<Rightarrow> string \<Rightarrow> ('w, ipam_error option) act" where
  "ipam_ReleaseIPOwned n ip owner =
     State (\<lambda>s. case ReleaseIPOwned (sys_ipam s) n ip owner of (a, r) \<Rightarrow> (r, s\<lparr>sys_ipam := a\<rparr>))"

definition ipam_ReleaseIP :: "string \<Rightarrow> string \<Rightarrow> ('w, ipam_error option) act" where
  "ipam_ReleaseIP n ip =
     State (\<lambda>s. case ReleaseIP (sys_ipam s) n ip of (a, r) \<Rightarrow> (r, s\<lparr>sys_ipam := a\<rparr>))"

definition ipam_ReleaseAllByOwner :: "string \<Rightarrow> string \<Rightarrow> ('w, nat) act" where
  "ipam_ReleaseAllByOwner n owner =
     State (\<lambda>s. case ReleaseAllByOwner (sys_ipam s) n owner of (a, r) \<Rightarrow> (r, s\<lparr>sys_ipam := a\<rparr>))"

definition ipam_RefreshSubnet ::
  "string \<Rightarrow> string \<Rightarrow> string \<Rightarrow> string \<Rightarrow> string list \<Rightarrow> string list \<Rightarrow> ('w, kerr option) act" where
  "ipam_RefreshSubnet n sub st en ex al =
     State (\<lambda>s. case RefreshSubnet (sys_ipam s) n sub st en ex al of
        None \<Rightarrow> (Some Hangs, s)
      | Some (a, r) \<Rightarrow> (map_option IpamErr r, s\<lparr>sys_ipam := a\<rparr>))"

definition ipam_DeleteSubnet :: "string \<Rightarrow> ('w, unit) act" where
  "ipam_DeleteSubnet n = State (\<lambda>s. ((), s\<lparr>sys_ipam := DeleteSubnet (sys_ipam s) n\<rparr>))"

definition ipam_Used :: "string \<Rightarrow> ('w, nat) act" where
  "ipam_Used n = State (\<lambda>s. (Used (sys_ipam s) n, s))"

definition ipam_Available :: "string \<Rightarrow> ('w, nat) act" where
  "ipam_Available n = State (\<lambda>s. (Available (sys_ipam s) n, s))"

section \<open>What client-go's retry helper promises\<close>

text \<open>
  \<open>retry.RetryOnConflict\<close> runs its function at least once, runs it again only after a
  conflict, and returns what the last run returned.
\<close>

inductive attempts :: "('s, kerr option) state \<Rightarrow> 's \<Rightarrow> kerr option \<Rightarrow> 's \<Rightarrow> bool" where
  once: "run_state f s = (r, s') \<Longrightarrow> attempts f s r s'"
| again: "run_state f s = (Some e, s1) \<Longrightarrow> IsConflict e \<Longrightarrow> attempts f s1 r s' \<Longrightarrow> attempts f s r s'"

definition retry_ok :: "'w env \<Rightarrow> bool" where
  "retry_ok E \<longleftrightarrow> (\<forall>f s r s'. run_state (RetryOnConflict E f) s = (r, s') \<longrightarrow> attempts f s r s')"

text \<open>A relation on allocators that every call of the environment respects.\<close>

definition env_rel :: "(IPAllocator \<Rightarrow> IPAllocator \<Rightarrow> bool) \<Rightarrow> ('w, 'a) act \<Rightarrow> bool" where
  "env_rel R m \<longleftrightarrow> state_io_rel (\<lambda>s s'. R (sys_ipam s) (sys_ipam s')) m"

definition env_ok :: "(IPAllocator \<Rightarrow> IPAllocator \<Rightarrow> bool) \<Rightarrow> 'w env \<Rightarrow> bool" where
  "env_ok R E \<longleftrightarrow> retry_ok E \<and>
     (\<forall>x y. env_rel R (GetFip E x y)) \<and> (\<forall>x. env_rel R (UpdateFip E x)) \<and>
     (\<forall>x. env_rel R (UpdateStatusFip E x)) \<and> (\<forall>x y z. env_rel R (ApplyFinalizersFip E x y z)) \<and>
     (\<forall>x y. env_rel R (DeleteFip E x y)) \<and> (\<forall>x. env_rel R (GetPool E x)) \<and>
     (\<forall>x. env_rel R (UpdateStatusPool E x)) \<and> (\<forall>x. env_rel R (GetQuota E x)) \<and>
     (\<forall>x. env_rel R (UpdateQuota E x)) \<and> (\<forall>x. env_rel R (UpdateStatusQuota E x)) \<and>
     (\<forall>x y. env_rel R (ListerFip E x y)) \<and> env_rel R (ListerFips E) \<and> (\<forall>x y. env_rel R (ListerFipsBy E x y)) \<and>
     (\<forall>x. env_rel R (ListerPool E x)) \<and> (\<forall>x. env_rel R (ListerQuota E x)) \<and>
     (\<forall>x. env_rel R (RandInt E x)) \<and> env_rel R (Now E)"

section \<open>Programs that respect a relation on the allocator\<close>

named_theorems rel_intro \<open>how the statements of a program respect a relation\<close>

definition preorder_rel :: "('a \<Rightarrow> 'a \<Rightarrow> bool) \<Rightarrow> bool" where
  "preorder_rel R \<longleftrightarrow> reflp R \<and> transp R"

lemma env_rel_return [rel_intro]: "preorder_rel R \<Longrightarrow> env_rel R (State_Monad.return x)"
  by (auto simp: env_rel_def state_io_rel_def preorder_rel_def reflp_def)

lemma env_rel_bind [rel_intro]:
  assumes "preorder_rel R" "env_rel R m" "\<And>x. env_rel R (f x)"
  shows "env_rel R (State_Monad.bind m f)"
  using assms unfolding env_rel_def state_io_rel_def preorder_rel_def transp_def
  by (auto simp: case_prod_beta) blast

lemma env_rel_mono: "env_rel R m \<Longrightarrow> (\<And>a b. R a b \<Longrightarrow> Q a b) \<Longrightarrow> env_rel Q m"
  by (auto simp: env_rel_def state_io_rel_def)

lemma env_rel_run: "env_rel R m \<Longrightarrow> run_state m s = (r, s') \<Longrightarrow> R (sys_ipam s) (sys_ipam s')"
  by (auto simp: env_rel_def state_io_rel_def dest: spec [of _ s])

lemma env_rel_if [rel_intro]: "env_rel R m \<Longrightarrow> env_rel R m' \<Longrightarrow> env_rel R (if b then m else m')"
  by simp

lemma env_rel_option [rel_intro]:
  "env_rel R m \<Longrightarrow> (\<And>x. env_rel R (f x)) \<Longrightarrow> env_rel R (case v of None \<Rightarrow> m | Some x \<Rightarrow> f x)"
  by (cases v) auto

lemma env_rel_sum [rel_intro]:
  "(\<And>x. env_rel R (f x)) \<Longrightarrow> (\<And>x. env_rel R (g x)) \<Longrightarrow> env_rel R (case v of Inl x \<Rightarrow> f x | Inr x \<Rightarrow> g x)"
  by (cases v) auto

lemma env_rel_prod [rel_intro]: "(\<And>x y. env_rel R (f x y)) \<Longrightarrow> env_rel R (case v of (x, y) \<Rightarrow> f x y)"
  by (cases v) auto

lemma env_rel_let [rel_intro]: "(\<And>x. env_rel R (f x)) \<Longrightarrow> env_rel R (Let v f)"
  by simp

lemma env_rel_reads [rel_intro]:
  "preorder_rel R \<Longrightarrow> env_rel R (ipam_Used n)" "preorder_rel R \<Longrightarrow> env_rel R (ipam_Available n)"
  by (auto simp: env_rel_def state_io_rel_def ipam_Used_def ipam_Available_def preorder_rel_def reflp_def)

lemma attempts_rel:
  assumes "attempts f s r s'" "preorder_rel R" "env_rel R f"
  shows "R (sys_ipam s) (sys_ipam s')"
  using assms
proof (induction rule: attempts.induct)
  case (once f s r s')
  then show ?case by (auto simp: env_rel_def state_io_rel_def) (metis snd_conv)
next
  case (again f s e s1 r s')
  then have "R (sys_ipam s) (sys_ipam s1)" by (auto simp: env_rel_def state_io_rel_def) (metis snd_conv)
  with again show ?case by (auto simp: preorder_rel_def transp_def)
qed

lemma env_rel_retry [rel_intro]:
  "env_ok R E \<Longrightarrow> preorder_rel Q \<Longrightarrow> env_rel Q f \<Longrightarrow> env_rel Q (RetryOnConflict E f)"
  unfolding env_rel_def [of Q "RetryOnConflict E f"] state_io_rel_def
  by (metis attempts_rel env_ok_def prod.collapse retry_ok_def)

lemma env_ok_calls:
  assumes "env_ok R E"
  shows "env_rel R (GetFip E x y)" "env_rel R (UpdateFip E f)" "env_rel R (UpdateStatusFip E f)"
    "env_rel R (ApplyFinalizersFip E x y fs)" "env_rel R (DeleteFip E x y)" "env_rel R (GetPool E x)"
    "env_rel R (UpdateStatusPool E p)" "env_rel R (GetQuota E x)" "env_rel R (UpdateQuota E q)"
    "env_rel R (UpdateStatusQuota E q)" "env_rel R (ListerFip E x y)" "env_rel R (ListerFips E)"
    "env_rel R (ListerPool E x)" "env_rel R (ListerQuota E x)" "env_rel R (RandInt E n)" "env_rel R (Now E)"
    "env_rel R (ListerFipsBy E x y)"
  using assms by (simp_all add: env_ok_def)

end
