(* ===== verification/Services.thy ===== *)
theory Services
  imports Kube
begin

text \<open>
  The service labels of a FloatingIP, \<open>pkg/controller/floatingip/service_labels.go\<close>: a pair of
  labels \<open>service-<i>-namespace\<close> and \<open>service-<i>-name\<close> per assigned service, read back into the
  list of assigned services.
\<close>

section \<open>Definitions\<close>

abbreviation serviceIndexLabelPrefix :: string where
  "serviceIndexLabelPrefix \<equiv> ''rancher.k8s.binbash.org/service-''"

datatype svc_field = FNamespace | FName

text \<open>
  The regular expression \<open>service-(\d+)-(namespace|name)\<close>, unanchored: the leftmost match, with
  its two groups. The digits are followed by a dash, so the greedy run of digits is the only choice.
\<close>

definition svc_match_at :: "string \<Rightarrow> (string \<times> svc_field) option" where
  "svc_match_at s =
     (if \<not> prefix ''service-'' s then None
      else let t = drop 8 s; ds = takeWhile is_digit t; u = dropWhile is_digit t in
        if ds = [] then None
        else if prefix ''-namespace'' u then Some (ds, FNamespace)
        else if prefix ''-name'' u then Some (ds, FName)
        else None)"

fun svc_find :: "string \<Rightarrow> (string \<times> svc_field) option" where
  "svc_find [] = None"
| "svc_find (c # s) = (case svc_match_at (c # s) of Some m \<Rightarrow> Some m | None \<Rightarrow> svc_find s)"

text \<open>\<open>fmt.Sscanf\<close> with \<open>%d\<close> into an \<open>int\<close>: on overflow the variable keeps its zero value.\<close>

definition Sscanf_d :: "string \<Rightarrow> nat" where
  "Sscanf_d ds = (let n = val_base 10 ds in if n < 2 ^ 63 then n else 0)"

definition svc_entry :: "string \<Rightarrow> (nat \<times> svc_field) option" where
  "svc_entry key =
     (if prefix serviceIndexLabelPrefix key
      then map_option (\<lambda>(ds, f). (Sscanf_d ds, f)) (svc_find key)
      else None)"

definition svc_put ::
  "(nat, AssignedService) gomap \<Rightarrow> string \<times> string \<Rightarrow> (nat, AssignedService) gomap" where
  "svc_put m kv =
     (case svc_entry (fst kv) of
        None \<Rightarrow> m
      | Some (idx, field) \<Rightarrow>
          (let service = getz \<lparr>ServiceNamespace = [], ServiceName = []\<rparr> m idx
           in AList.update idx
                (case field of
                   FNamespace \<Rightarrow> service\<lparr>ServiceNamespace := snd kv\<rparr>
                 | FName \<Rightarrow> service\<lparr>ServiceName := snd kv\<rparr>) m))"

definition parseServicesFromLabels :: "labels \<Rightarrow> AssignedService list" where
  "parseServicesFromLabels ls =
     (case ls of
        None \<Rightarrow> []
      | Some m \<Rightarrow>
          (let serviceMap = foldl svc_put [] m;
               indices = sort (keys serviceMap)
           in filter (\<lambda>svc. ServiceNamespace svc \<noteq> [] \<or> ServiceName svc \<noteq> [])
                (map (getz \<lparr>ServiceNamespace = [], ServiceName = []\<rparr> serviceMap) indices)))"

definition describe_service :: "AssignedService \<Rightarrow> string list" where
  "describe_service svc =
     (if ServiceNamespace svc \<noteq> [] \<and> ServiceName svc \<noteq> []
      then [ServiceNamespace svc @ ''/'' @ ServiceName svc]
      else if ServiceName svc \<noteq> [] then [ServiceName svc]
      else if ServiceNamespace svc \<noteq> [] then [ServiceNamespace svc]
      else [])"

definition describeServices :: "AssignedService list \<Rightarrow> string" where
  "describeServices services =
     (let parts = concat (map describe_service services) in
      case parts of
        [] \<Rightarrow> ''no services''
      | [p] \<Rightarrow> p
      | _ \<Rightarrow> ''services '' @ join '', '' parts)"

section \<open>The map from indices to services\<close>

text \<open>The last value written to a field of a service; empty when there is none.\<close>

definition field_val :: "(string, string) gomap \<Rightarrow> nat \<Rightarrow> svc_field \<Rightarrow> string" where
  "field_val m i f = (case find (\<lambda>kv. svc_entry (fst kv) = Some (i, f)) (rev m) of
     None \<Rightarrow> [] | Some kv \<Rightarrow> snd kv)"

definition svc_at :: "(string, string) gomap \<Rightarrow> nat \<Rightarrow> AssignedService" where
  "svc_at m i = \<lparr>ServiceNamespace = field_val m i FNamespace, ServiceName = field_val m i FName\<rparr>"

definition svc_indices :: "(string, string) gomap \<Rightarrow> nat set" where
  "svc_indices m = {i. \<exists>kv \<in> set m. \<exists>f. svc_entry (fst kv) = Some (i, f)}"

lemma field_val_snoc:
  "field_val (m @ [kv]) i f = (if svc_entry (fst kv) = Some (i, f) then snd kv else field_val m i f)"
  by (simp add: field_val_def)

lemma field_val_absent: "i \<notin> svc_indices m \<Longrightarrow> field_val m i f = []"
  by (auto simp: field_val_def svc_indices_def find_Some_iff split: option.splits)
     (metis nth_mem set_rev length_rev fst_conv)

lemma svc_indices_snoc:
  "svc_indices (m @ [kv]) = (case svc_entry (fst kv) of None \<Rightarrow> svc_indices m | Some (i, f) \<Rightarrow> insert i (svc_indices m))"
  by (auto simp: svc_indices_def split: option.splits)

lemma fold_svc_put:
  "map_of (foldl svc_put [] m) i = (if i \<in> svc_indices m then Some (svc_at m i) else None)"
proof (induction m arbitrary: i rule: rev_induct)
  case Nil
  then show ?case by (simp add: svc_indices_def)
next
  case (snoc kv m)
  define M where "M = foldl svc_put [] m"
  have IH: "map_of M i = (if i \<in> svc_indices m then Some (svc_at m i) else None)" for i
    using snoc.IH by (simp add: M_def)
  have z: "getz \<lparr>ServiceNamespace = [], ServiceName = []\<rparr> M j = svc_at m j" for j
    using IH [of j] field_val_absent [of j m] by (auto simp: getz_def svc_at_def)
  have "map_of (svc_put M kv) i = (if i \<in> svc_indices (m @ [kv]) then Some (svc_at (m @ [kv]) i) else None)"
  proof (cases "svc_entry (fst kv)")
    case None
    then show ?thesis using IH by (simp add: svc_put_def svc_indices_snoc svc_at_def field_val_snoc)
  next
    case (Some p)
    obtain j f where p: "p = (j, f)" by (cases p)
    show ?thesis
    proof (cases "i = j")
      case True
      with z Some p show ?thesis
        by (cases f) (simp_all add: svc_put_def svc_indices_snoc svc_at_def field_val_snoc)
    next
      case False
      with IH Some p show ?thesis
        by (simp add: svc_put_def svc_indices_snoc svc_at_def field_val_snoc Let_def)
    qed
  qed
  then show ?case by (simp add: M_def)
qed

lemma distinct_fold_svc_put: "distinct (keys (foldl svc_put [] m))"
  by (induction m rule: rev_induct)
     (auto simp: svc_put_def distinct_keys_update Let_def split: option.splits prod.splits)

lemma keys_fold_svc_put: "set (keys (foldl svc_put [] m)) = svc_indices m"
  using fold_svc_put [of m] map_of_None_keys [of "foldl svc_put [] m"] by (metis option.discI subsetI subset_antisym)

lemma parse_eq:
  "parseServicesFromLabels (Some m) =
     filter (\<lambda>svc. ServiceNamespace svc \<noteq> [] \<or> ServiceName svc \<noteq> [])
       (map (svc_at m) (sorted_list_of_set (svc_indices m)))"
proof -
  have "sort (keys (foldl svc_put [] m)) = sorted_list_of_set (svc_indices m)"
    by (metis distinct_fold_svc_put keys_fold_svc_put sorted_list_of_set_sort_remdups distinct_remdups_id)
  moreover have "getz z (foldl svc_put [] m) i = svc_at m i" if "i \<in> svc_indices m" for i z
    using fold_svc_put [of m i] that by (simp add: getz_def)
  moreover have "finite (svc_indices m)" by (metis keys_fold_svc_put finite_set)
  ultimately have "map (getz z (foldl svc_put [] m)) (sort (keys (foldl svc_put [] m))) =
      map (svc_at m) (sorted_list_of_set (svc_indices m))" for z by simp
  then show ?thesis by (simp add: parseServicesFromLabels_def Let_def)
qed

section \<open>The keys the program writes\<close>

definition svc_key :: "nat \<Rightarrow> svc_field \<Rightarrow> string" where
  "svc_key i f = serviceIndexLabelPrefix @ dec i @ (case f of FNamespace \<Rightarrow> ''-namespace'' | FName \<Rightarrow> ''-name'')"

lemma svc_match_key:
  "svc_match_at (''service-'' @ dec i @ ''-namespace'') = Some (dec i, FNamespace)"
  "svc_match_at (''service-'' @ dec i @ ''-name'') = Some (dec i, FName)"
proof -
  have d: "\<forall>c \<in> set (dec i). is_digit c" using dec_is_digit by blast
  show "svc_match_at (''service-'' @ dec i @ ''-namespace'') = Some (dec i, FNamespace)"
    "svc_match_at (''service-'' @ dec i @ ''-name'') = Some (dec i, FName)"
    using takeWhile_all [OF d, of "CHR ''-''"] dropWhile_all [OF d, of "CHR ''-''"]
    by (simp_all add: svc_match_at_def Let_def)
qed

lemma svc_find_key: "svc_find (svc_key i f) = Some (dec i, f)"
  using svc_match_key [of i]
  by (cases f) (simp_all add: svc_key_def svc_match_at_def)

lemma svc_entry_key [simp]: "i < 2 ^ 63 \<Longrightarrow> svc_entry (svc_key i f) = Some (i, f)"
proof -
  assume i: "i < 2 ^ 63"
  have "prefix serviceIndexLabelPrefix (svc_key i f)" by (simp add: svc_key_def)
  with i show ?thesis by (simp add: svc_entry_def svc_find_key Sscanf_d_def val_to_base Let_def del: power_numeral)
qed

section \<open>Properties\<close>

text \<open>Two labels collide when they write the same field of the same service.\<close>

definition collision_free :: "(string, string) gomap \<Rightarrow> bool" where
  "collision_free m \<longleftrightarrow> (\<forall>kv \<in> set m. \<forall>kv' \<in> set m. \<forall>e.
     svc_entry (fst kv) = Some e \<and> svc_entry (fst kv') = Some e \<longrightarrow> kv = kv')"

lemma field_val_iff:
  assumes "collision_free m" "kv \<in> set m" "svc_entry (fst kv) = Some (i, f)"
  shows "field_val m i f = snd kv"
proof (cases "find (\<lambda>kv. svc_entry (fst kv) = Some (i, f)) (rev m)")
  case None
  then have "\<forall>x \<in> set m. svc_entry (fst x) \<noteq> Some (i, f)" by (force simp: find_None_iff)
  with assms(2,3) show ?thesis by blast
next
  case (Some x)
  then have "x \<in> set m" "svc_entry (fst x) = Some (i, f)"
    by (auto simp: find_Some_iff) (metis nth_mem set_rev length_rev)
  with assms have "x = kv" unfolding collision_free_def by blast
  with Some show ?thesis by (simp add: field_val_def)
qed

lemma field_val_missing: "\<forall>kv \<in> set m. svc_entry (fst kv) \<noteq> Some (i, f) \<Longrightarrow> field_val m i f = []"
  by (auto simp: field_val_def find_Some_iff split: option.splits) (metis nth_mem set_rev length_rev fst_conv)

lemma field_val_set:
  assumes "collision_free m" "set m = set m'"
  shows "field_val m i f = field_val m' i f"
proof -
  have c: "collision_free m'" using assms by (simp add: collision_free_def)
  show ?thesis
  proof (cases "\<exists>kv \<in> set m. svc_entry (fst kv) = Some (i, f)")
    case True
    then obtain kv where "kv \<in> set m" "svc_entry (fst kv) = Some (i, f)" by blast
    with field_val_iff [OF assms(1)] field_val_iff [OF c] assms(2) show ?thesis by metis
  next
    case False
    with field_val_missing [of m i f] field_val_missing [of m' i f] assms(2) show ?thesis by simp
  qed
qed

text \<open>
  Go iterates over a label map in an arbitrary order; as long as no two labels write the same
  field of the same service, the parsed list of services does not depend on that order.
\<close>

theorem parseServices_order_independent:
  assumes "set m = set m'" and "collision_free m"
  shows "parseServicesFromLabels (Some m) = parseServicesFromLabels (Some m')"
proof -
  have "svc_indices m = svc_indices m'" using assms(1) by (simp add: svc_indices_def)
  moreover have "svc_at m = svc_at m'"
    using field_val_set [OF assms(2,1)] by (simp add: svc_at_def fun_eq_iff)
  ultimately show ?thesis by (simp add: parse_eq)
qed

theorem parseServices_order_independent_witness:
  "parseServicesFromLabels (Some [(svc_key 1 FName, ''web''), (svc_key 0 FName, ''db'')]) =
   parseServicesFromLabels (Some [(svc_key 0 FName, ''db''), (svc_key 1 FName, ''web'')])"
  by (rule parseServices_order_independent) (auto simp: collision_free_def)

lemma ex_svc_field: "(\<exists>f. P f) \<longleftrightarrow> P FNamespace \<or> P FName"
  by (metis svc_field.exhaust)

text \<open>The labels that record the services \<open>svcs\<close> at the indices \<open>is\<close>.\<close>

definition labels_for :: "(nat \<times> AssignedService) list \<Rightarrow> (string, string) gomap" where
  "labels_for xs = concat (map (\<lambda>(i, svc).
     [(svc_key i FNamespace, ServiceNamespace svc), (svc_key i FName, ServiceName svc)]) xs)"

definition svc_get :: "AssignedService \<Rightarrow> svc_field \<Rightarrow> string" where
  "svc_get svc f = (case f of FNamespace \<Rightarrow> ServiceNamespace svc | FName \<Rightarrow> ServiceName svc)"

lemma set_labels_for:
  "kv \<in> set (labels_for xs) \<longleftrightarrow> (\<exists>i svc. (i, svc) \<in> set xs \<and> (\<exists>f. kv = (svc_key i f, svc_get svc f)))"
  unfolding ex_svc_field by (auto simp: labels_for_def svc_get_def)

lemma labels_for_parse:
  assumes "sorted (map fst xs)" "distinct (map fst xs)" and b: "\<forall>p \<in> set xs. fst p < 2 ^ 63"
    and m: "set m = set (labels_for xs) \<union> set other" and o: "\<forall>kv \<in> set other. svc_entry (fst kv) = None"
  shows "collision_free m" "svc_indices m = set (map fst xs)" "(i, svc) \<in> set xs \<Longrightarrow> svc_at m i = svc"
proof -
  have e: "svc_entry (svc_key i f) = Some (i, f)" if "(i, svc) \<in> set xs" for i f svc
    using b that by (intro svc_entry_key) auto
  have mem: "kv \<in> set m \<and> svc_entry (fst kv) = Some (i, f) \<longleftrightarrow>
    (\<exists>svc. (i, svc) \<in> set xs \<and> kv = (svc_key i f, svc_get svc f))" for kv i f
  proof
    assume h: "kv \<in> set m \<and> svc_entry (fst kv) = Some (i, f)"
    then have "kv \<in> set (labels_for xs)" using m o by auto
    then obtain j svc g where "(j, svc) \<in> set xs" "kv = (svc_key j g, svc_get svc g)"
      unfolding set_labels_for by blast
    with h e [of j svc g] show "\<exists>svc. (i, svc) \<in> set xs \<and> kv = (svc_key i f, svc_get svc f)" by auto
  next
    assume "\<exists>svc. (i, svc) \<in> set xs \<and> kv = (svc_key i f, svc_get svc f)"
    then obtain svc where h: "(i, svc) \<in> set xs" "kv = (svc_key i f, svc_get svc f)" by blast
    then have "kv \<in> set (labels_for xs)" unfolding set_labels_for by blast
    with m e [OF h(1), of f] h(2) show "kv \<in> set m \<and> svc_entry (fst kv) = Some (i, f)" by simp
  qed
  show c: "collision_free m"
    unfolding collision_free_def
  proof (intro ballI allI impI)
    fix kv kv' e assume h: "kv \<in> set m" "kv' \<in> set m" "svc_entry (fst kv) = Some e \<and> svc_entry (fst kv') = Some e"
    obtain i f where e': "e = (i, f)" by (cases e)
    obtain svc where "(i, svc) \<in> set xs" "kv = (svc_key i f, svc_get svc f)"
      using mem [of kv i f] h e' by blast
    moreover obtain svc' where "(i, svc') \<in> set xs" "kv' = (svc_key i f, svc_get svc' f)"
      using mem [of kv' i f] h e' by blast
    ultimately show "kv = kv'" using eq_key_imp_eq_value [OF assms(2)] by metis
  qed
  show "svc_indices m = set (map fst xs)"
  proof -
    have "i \<in> svc_indices m \<longleftrightarrow> (\<exists>f kv. kv \<in> set m \<and> svc_entry (fst kv) = Some (i, f))" for i
      unfolding svc_indices_def by blast
    moreover have "(\<exists>f kv. kv \<in> set m \<and> svc_entry (fst kv) = Some (i, f)) \<longleftrightarrow> (\<exists>svc. (i, svc) \<in> set xs)" for i
      unfolding mem by blast
    moreover have "(\<exists>svc. (i, svc) \<in> set xs) \<longleftrightarrow> i \<in> set (map fst xs)" for i by force
    ultimately show ?thesis by (intro set_eqI) metis
  qed
  show "svc_at m i = svc" if "(i, svc) \<in> set xs"
  proof -
    have "field_val m i f = svc_get svc f" for f
      using field_val_iff [OF c, of "(svc_key i f, svc_get svc f)" i f]
        mem [of "(svc_key i f, svc_get svc f)" i f] that by auto
    then show ?thesis by (simp add: svc_at_def svc_get_def)
  qed
qed

lemma labels_for_services:
  assumes "sorted (map fst xs)" and "distinct (map fst xs)" and "\<forall>p \<in> set xs. fst p < 2 ^ 63"
    and "set m = set (labels_for xs) \<union> set other" and "\<forall>kv \<in> set other. svc_entry (fst kv) = None"
  shows "parseServicesFromLabels (Some m) =
    filter (\<lambda>svc. ServiceNamespace svc \<noteq> [] \<or> ServiceName svc \<noteq> []) (map snd xs)"
proof -
  note p = labels_for_parse [OF assms]
  have "sorted_list_of_set (svc_indices m) = map fst xs"
    unfolding p(2) using assms(1,2) by (metis distinct_remdups_id sort_upt sorted_list_of_set_sort_remdups sorted_sort_id)
  moreover have "map (svc_at m) (map fst xs) = map snd xs"
    using p(3) by (auto simp: comp_def)
  ultimately show ?thesis unfolding parse_eq by presburger
qed

text \<open>
  Round trip: labels that record a list of services at increasing indices, in any order and
  among any labels that are not service labels, are read back as exactly that list of services,
  in the order of the indices, without the services that have neither a namespace nor a name.
\<close>

theorem parseServices_roundtrip:
  assumes "sorted (map fst xs)" and "distinct (map fst xs)" and "\<forall>p \<in> set xs. fst p < 2 ^ 63"
    and "set m = set (labels_for xs) \<union> set other" and "\<forall>kv \<in> set other. svc_entry (fst kv) = None"
  shows "parseServicesFromLabels (Some m) =
    filter (\<lambda>svc. ServiceNamespace svc \<noteq> [] \<or> ServiceName svc \<noteq> []) (map snd xs)"
  using assms by (rule labels_for_services)

theorem parseServices_roundtrip_witness:
  "parseServicesFromLabels (Some [(svc_key 7 FName, ''web''), (''rancher.k8s.binbash.org/cluster-name'', ''c''),
     (svc_key 3 FName, ''db''), (svc_key 3 FNamespace, ''data''), (svc_key 7 FNamespace, ''front'')]) =
   [\<lparr>ServiceNamespace = ''data'', ServiceName = ''db''\<rparr>, \<lparr>ServiceNamespace = ''front'', ServiceName = ''web''\<rparr>]"
proof -
  let ?xs = "[(3 :: nat, \<lparr>ServiceNamespace = ''data'', ServiceName = ''db''\<rparr>), (7, \<lparr>ServiceNamespace = ''front'', ServiceName = ''web''\<rparr>)]"
  let ?o = "[(''rancher.k8s.binbash.org/cluster-name'', ''c'')]"
  have "svc_entry ''rancher.k8s.binbash.org/cluster-name'' = None" by code_simp
  then show ?thesis
    using parseServices_roundtrip [of ?xs _ ?o] by (simp add: labels_for_def insert_commute)
qed

end
