(* ===== verification/Fip_Controller.thy ===== *)
theory Fip_Controller
  imports Services
begin

text \<open>
  The FloatingIP controller, \<open>pkg/controller/floatingip/controller.go\<close>, with the random strings of
  \<open>pkg/util/util.go\<close>. Every handler is a program over the system state: it calls the environment
  and the address manager in the order of the source and returns \<open>None\<close> for success or the error.
  Each function literal that the source passes to \<open>retry.RetryOnConflict\<close> is a definition of its own.
\<close>

section \<open>Random strings\<close>

definition charset :: string where
  "charset = ''abcdefghijklmnopqrstuvwxyzABCDEFGHIJKLMNOPQRSTUVWXYZ0123456789''"

text \<open>
  When the random source fails the index becomes the length of the character set, and reading
  the character at that index panics: \<open>None\<close>.
\<close>

fun GenerateRandomString :: "'w env \<Rightarrow> nat \<Rightarrow> ('w, string option) act" where
  "GenerateRandomString E 0 = State_Monad.return (Some [])"
| "GenerateRandomString E (Suc n) = do {
     r \<leftarrow> RandInt E (length charset);
     let i = (case r of None \<Rightarrow> length charset | Some k \<Rightarrow> k);
     if length charset \<le> i then State_Monad.return None
     else do {
       rest \<leftarrow> GenerateRandomString E n;
       State_Monad.return (map_option (\<lambda>s. charset ! i # s) rest)
     }
   }"

definition sharedKeyFor :: "'w env \<Rightarrow> string \<Rightarrow> string \<Rightarrow> ('w, kerr + string) act" where
  "sharedKeyFor E grp cluster =
     (if grp = [] then State_Monad.return (Inr [])
      else do {
        r \<leftarrow> GenerateRandomString E 12;
        State_Monad.return (case r of None \<Rightarrow> Inl Panic | Some s \<Rightarrow> Inr (cluster @ ''-'' @ s))
      })"

section \<open>Conditions and finalizers\<close>

abbreviation finalizerName :: string where
  "finalizerName \<equiv> ''rancher.k8s.binbash.org/floatingip-cleanup''"

definition maxConditions :: nat where
  "maxConditions = 30"

definition same_condition :: "Condition \<Rightarrow> Condition \<Rightarrow> bool" where
  "same_condition a b \<longleftrightarrow> c_type a = c_type b \<and> c_status a = c_status b \<and>
     c_reason a = c_reason b \<and> c_message a = c_message b"

definition push_condition :: "Condition list \<Rightarrow> Condition \<Rightarrow> Condition list" where
  "push_condition cs c = (if maxConditions \<le> length cs then tl cs else cs) @ [c]"

definition setCondition :: "'w env \<Rightarrow> Condition list \<Rightarrow> Condition \<Rightarrow> ('w, Condition list) act" where
  "setCondition E cs c =
     (if cs \<noteq> [] \<and> same_condition (last cs) c then State_Monad.return cs
      else do {
        t \<leftarrow> Now E;
        State_Monad.return (push_condition cs (c\<lparr>c_time := t\<rparr>))
      })"

definition condition :: "string \<Rightarrow> string \<Rightarrow> string \<Rightarrow> Condition" where
  "condition st reason msg =
     \<lparr>c_type = ''Ready'', c_status = st, c_reason = reason, c_message = msg, c_time = 0\<rparr>"

fun containsString :: "string list \<Rightarrow> string \<Rightarrow> bool" where
  "containsString [] s = False"
| "containsString (item # slice) s = (if item = s then True else containsString slice s)"

fun removeString :: "string list \<Rightarrow> string \<Rightarrow> string list" where
  "removeString [] s = []"
| "removeString (item # slice) s = (if item = s then removeString slice s else item # removeString slice s)"

definition fip_key :: "FloatingIP \<Rightarrow> string" where
  "fip_key fip = f_ns fip @ ''/'' @ f_name fip"

definition removeFinalizer :: "'w env \<Rightarrow> FloatingIP \<Rightarrow> ('w, kerr option) act" where
  "removeFinalizer E fip = do {
     r \<leftarrow> UpdateFip E (fip\<lparr>f_finalizers := removeString (f_finalizers fip) finalizerName\<rparr>);
     State_Monad.return (case r of
        Inl e \<Rightarrow> Some (wrap (''failed to remove finalizer from floatingip '' @ fip_key fip) e)
      | Inr _ \<Rightarrow> None)
   }"

definition updateFipStatusWithError :: "'w env \<Rightarrow> FloatingIP \<Rightarrow> string \<Rightarrow> string \<Rightarrow> ('w, kerr option) act" where
  "updateFipStatusWithError E fip reason message =
     (let c = condition ''False'' reason message in
      if f_state fip = ''Error'' \<and> f_conditions fip \<noteq> [] \<and> same_condition (last (f_conditions fip)) c
      then State_Monad.return None
      else do {
        cs \<leftarrow> setCondition E (f_conditions fip) c;
        r \<leftarrow> UpdateStatusFip E (fip\<lparr>f_state := ''Error'', f_conditions := cs\<rparr>);
        State_Monad.return (map_option (wrap ''failed to update fip status with error'') r)
      })"

section \<open>Reconciling a FloatingIP that has its address\<close>

text \<open>The allocation map of a pool in a quota's status, when every part of the path to it is there.\<close>

definition quota_alloc :: "FloatingIPProjectQuota \<Rightarrow> string \<Rightarrow> (FipInfo \<times> (string, string) gomap) option" where
  "quota_alloc q pool =
     (case map_of (mof (q_fips q)) pool of
        Some (Some fi) \<Rightarrow> map_option (\<lambda>m. (fi, m)) (fi_allocated fi)
      | _ \<Rightarrow> None)"

definition set_quota_info :: "FloatingIPProjectQuota \<Rightarrow> string \<Rightarrow> FipInfo \<Rightarrow> FloatingIPProjectQuota" where
  "set_quota_info q pool fi = q\<lparr>q_fips := Some (AList.update pool (Some fi) (mof (q_fips q)))\<rparr>"

definition cluster_or_unassigned :: "FloatingIP \<Rightarrow> string" where
  "cluster_or_unassigned fip =
     (case f_assigned fip of
        Some a \<Rightarrow> if ClusterName a \<noteq> [] then ClusterName a else ''Unassigned''
      | None \<Rightarrow> ''Unassigned'')"

definition recordClusterName :: "'w env \<Rightarrow> string \<Rightarrow> string \<Rightarrow> string \<Rightarrow> string \<Rightarrow> ('w, kerr option) act" where
  "recordClusterName E projectName poolName ipAddr newClusterName = do {
     r \<leftarrow> GetQuota E projectName;
     case r of
       Inl e \<Rightarrow> State_Monad.return (Some e)
     | Inr q \<Rightarrow>
         (case quota_alloc q poolName of
            Some (fi, m) \<Rightarrow>
              UpdateStatusQuota E
                (set_quota_info q poolName (fi\<lparr>fi_allocated := Some (AList.update ipAddr newClusterName m)\<rparr>))
          | None \<Rightarrow> State_Monad.return None)
   }"

definition clearAssigned :: "'w env \<Rightarrow> FloatingIP \<Rightarrow> ('w, kerr option) act" where
  "clearAssigned E fip = do {
     r \<leftarrow> GetFip E (f_ns fip) (f_name fip);
     case r of
       Inl e \<Rightarrow> State_Monad.return (Some e)
     | Inr cur \<Rightarrow> do {
         cs \<leftarrow> setCondition E (f_conditions cur)
                (condition ''True'' ''IPUnassigned'' ''IP is unassigned from any service.'');
         UpdateStatusFip E (cur\<lparr>f_assigned := None, f_conditions := cs\<rparr>)
       }
   }"

definition assigned_condition :: "FloatingIP \<Rightarrow> AssignedService list \<Rightarrow> Condition" where
  "assigned_condition cur services =
     condition ''True'' ''IPAssigned''
       (''IP is assigned to '' @ describeServices services @ '' in cluster '' @
        label (f_labels cur) clusterNameLabel @ ''.'')"

definition setAssigned :: "'w env \<Rightarrow> FloatingIP \<Rightarrow> string \<Rightarrow> string \<Rightarrow> ('w, kerr option) act" where
  "setAssigned E fip grp key = do {
     r \<leftarrow> GetFip E (f_ns fip) (f_name fip);
     case r of
       Inl e \<Rightarrow> State_Monad.return (Some e)
     | Inr cur \<Rightarrow> do {
         let services = parseServicesFromLabels (f_labels cur);
         cs \<leftarrow> setCondition E (f_conditions cur) (assigned_condition cur services);
         UpdateStatusFip E (cur\<lparr>f_assigned := Some \<lparr>ClusterName = label (f_labels cur) clusterNameLabel,
             ProjectName = label (f_labels cur) projectNameLabel, FloatingIPGroup = grp,
             SharedKey = key, Services = services\<rparr>, f_conditions := cs\<rparr>)
       }
   }"

text \<open>Keeps the assignment and replaces its services; rebuilds the assignment when it was cleared.\<close>

definition updateServices :: "'w env \<Rightarrow> FloatingIP \<Rightarrow> ('w, kerr option) act" where
  "updateServices E fip = do {
     r \<leftarrow> GetFip E (f_ns fip) (f_name fip);
     case r of
       Inl e \<Rightarrow> State_Monad.return (Some e)
     | Inr cur \<Rightarrow> do {
         let services = parseServicesFromLabels (f_labels cur);
         b \<leftarrow> (case f_assigned cur of
            Some a \<Rightarrow> State_Monad.return (Inr a)
          | None \<Rightarrow> do {
              k \<leftarrow> sharedKeyFor E (label (f_labels cur) floatingipGroupLabel) (label (f_labels cur) clusterNameLabel);
              State_Monad.return (case k of Inl e \<Rightarrow> Inl e | Inr key \<Rightarrow>
                Inr \<lparr>ClusterName = label (f_labels cur) clusterNameLabel,
                     ProjectName = label (f_labels cur) projectNameLabel,
                     FloatingIPGroup = label (f_labels cur) floatingipGroupLabel,
                     SharedKey = key, Services = []\<rparr>)
            });
         case b of
           Inl e \<Rightarrow> State_Monad.return (Some e)
         | Inr a \<Rightarrow> do {
             cs \<leftarrow> setCondition E (f_conditions cur) (assigned_condition cur services);
             UpdateStatusFip E (cur\<lparr>f_assigned := Some (a\<lparr>Services := services\<rparr>), f_conditions := cs\<rparr>)
           }
       }
   }"

definition reconcileAllocated :: "'w env \<Rightarrow> FloatingIP \<Rightarrow> ('w, kerr option) act" where
  "reconcileAllocated E fip =
     (case map_of (mof (f_labels fip)) projectNameLabel of
        None \<Rightarrow> State_Monad.return (Some (Errorf (''fip '' @ fip_key fip @ '' does not have project label'')))
      | Some projectName \<Rightarrow> do {
          r \<leftarrow> ListerQuota E projectName;
          case r of
            Inl e \<Rightarrow> State_Monad.return (if IsNotFound e then None else Some e)
          | Inr projectConfig \<Rightarrow> do {
              let poolName = f_pool fip;
              let ipAddr = f_ip fip;
              let current = (case quota_alloc projectConfig poolName of None \<Rightarrow> [] | Some (fi, m) \<Rightarrow> getz [] m ipAddr);
              let newName = cluster_or_unassigned fip;
              e1 \<leftarrow> (if current \<noteq> newName
                     then RetryOnConflict E (recordClusterName E projectName poolName ipAddr newName)
                     else State_Monad.return None);
              case e1 of
                Some e \<Rightarrow> State_Monad.return (Some (wrap (''failed to update project config status for fip '' @ fip_key fip) e))
              | None \<Rightarrow>
                  if \<not> has_label (f_labels fip) clusterNameLabel then do {
                    e2 \<leftarrow> RetryOnConflict E (clearAssigned E fip);
                    State_Monad.return (map_option (wrap (''failed to update fip status for fip '' @ fip_key fip)) e2)
                  }
                  else if f_assigned fip = None then do {
                    k \<leftarrow> sharedKeyFor E (label (f_labels fip) floatingipGroupLabel) (label (f_labels fip) clusterNameLabel);
                    case k of
                      Inl e \<Rightarrow> State_Monad.return (Some e)
                    | Inr key \<Rightarrow> do {
                        e2 \<leftarrow> RetryOnConflict E (setAssigned E fip (label (f_labels fip) floatingipGroupLabel) key);
                        State_Monad.return (map_option (wrap (''failed to update fip status for fip '' @ fip_key fip)) e2)
                      }
                  }
                  else do {
                    e2 \<leftarrow> RetryOnConflict E (updateServices E fip);
                    State_Monad.return (map_option (wrap (''failed to update fip services for fip '' @ fip_key fip)) e2)
                  }
            }
        })"

section \<open>Allocating an address\<close>

definition recordStatus :: "'w env \<Rightarrow> FloatingIP \<Rightarrow> string \<Rightarrow> string \<Rightarrow> string \<Rightarrow> ('w, kerr option) act" where
  "recordStatus E fip allocatedIP grp key = do {
     r \<leftarrow> GetFip E (f_ns fip) (f_name fip);
     case r of
       Inl e \<Rightarrow> State_Monad.return (Some e)
     | Inr cur \<Rightarrow> do {
         let services = (if f_labels cur = None then [] else parseServicesFromLabels (f_labels cur));
         let assigned = (if f_labels cur = None then f_assigned cur
           else Some \<lparr>ClusterName = label (f_labels cur) clusterNameLabel,
                  ProjectName = label (f_labels cur) projectNameLabel, FloatingIPGroup = grp,
                  SharedKey = key, Services = services\<rparr>);
         cs \<leftarrow> setCondition E (f_conditions cur) (assigned_condition cur services);
         UpdateStatusFip E (cur\<lparr>f_ip := allocatedIP, f_state := ''Allocated'', f_assigned := assigned, f_conditions := cs\<rparr>)
       }
   }"

definition recordPoolAllocation ::
  "'w env \<Rightarrow> string \<Rightarrow> string \<Rightarrow> string \<Rightarrow> string \<Rightarrow> ('w, kerr option) act" where
  "recordPoolAllocation E pool poolName allocatedIP displayName = do {
     r \<leftarrow> GetPool E pool;
     case r of
       Inl e \<Rightarrow> State_Monad.return (if IsNotFound e then None else Some e)
     | Inr cur \<Rightarrow> do {
         u \<leftarrow> ipam_Used poolName;
         a \<leftarrow> ipam_Available poolName;
         UpdateStatusPool E (cur\<lparr>p_allocated := Some (AList.update allocatedIP displayName (mof (p_allocated cur))),
                                p_used := int u, p_available := int a\<rparr>)
       }
   }"

text \<open>The entry of a pool in a quota's status after the address was recorded for the project.\<close>

definition recorded_info :: "FloatingIPProjectQuota \<Rightarrow> string \<Rightarrow> FloatingIPPool \<Rightarrow> string \<Rightarrow> string \<Rightarrow> FipInfo" where
  "recorded_info q poolName pool allocatedIP clusterName =
     (let fi0 = (case map_of (mof (q_fips q)) poolName of
                   Some (Some fi) \<Rightarrow> fi
                 | _ \<Rightarrow> \<lparr>fi_family = [], fi_allocated = Some [], fi_used = 0\<rparr>);
          m = mof (fi_allocated fi0);
          fam = (case p_config pool of
                   Some c \<Rightarrow> if Family c \<noteq> [] then Family c else fi_family fi0
                 | None \<Rightarrow> fi_family fi0);
          used = (if map_of m allocatedIP = None then fi_used fi0 + 1 else fi_used fi0)
      in fi0\<lparr>fi_family := fam, fi_allocated := Some (AList.update allocatedIP clusterName m), fi_used := used\<rparr>)"

definition recordQuotaAllocation ::
  "'w env \<Rightarrow> string \<Rightarrow> string \<Rightarrow> FloatingIPPool \<Rightarrow> string \<Rightarrow> string \<Rightarrow> ('w, kerr option) act" where
  "recordQuotaAllocation E projectName poolName pool allocatedIP clusterName = do {
     r \<leftarrow> GetQuota E projectName;
     case r of
       Inl e \<Rightarrow> State_Monad.return (Some e)
     | Inr q \<Rightarrow> UpdateStatusQuota E (set_quota_info q poolName (recorded_info q poolName pool allocatedIP clusterName))
   }"

text \<open>What happens to the claim when the update of the spec returned an error.\<close>

definition unwindClaim :: "'w env \<Rightarrow> FloatingIP \<Rightarrow> string \<Rightarrow> string \<Rightarrow> ('w, unit) act" where
  "unwindClaim E fip poolName allocatedIP = do {
     g \<leftarrow> GetFip E (f_ns fip) (f_name fip);
     if (case g of Inl e \<Rightarrow> False | Inr cur \<Rightarrow> f_spec_ip cur = Some allocatedIP)
     then State_Monad.return ()
     else do {
       _ \<leftarrow> ipam_ReleaseIPOwned poolName allocatedIP (fip_key fip);
       State_Monad.return ()
     }
   }"

definition allocationError :: "'w env \<Rightarrow> FloatingIP \<Rightarrow> string \<Rightarrow> ('w, kerr option) act" where
  "allocationError E fip errMsg = do {
     _ \<leftarrow> updateFipStatusWithError E fip ''AllocationFailed'' errMsg;
     State_Monad.return (Some (Errorf errMsg))
   }"

text \<open>The steps after the claim was granted and the spec was updated.\<close>

definition recordAllocation ::
  "'w env \<Rightarrow> FloatingIP \<Rightarrow> FloatingIP \<Rightarrow> FloatingIPPool \<Rightarrow> string \<Rightarrow> FloatingIPProjectQuota \<Rightarrow> string \<Rightarrow> ('w, kerr option) act" where
  "recordAllocation E fip updatedFip fipPool projectName projectConfig allocatedIP = do {
     let poolName = f_pool fip;
     let grp = label (f_labels fip) floatingipGroupLabel;
     k \<leftarrow> sharedKeyFor E grp (label (f_labels fip) clusterNameLabel);
     case k of
       Inl e \<Rightarrow> State_Monad.return (Some e)
     | Inr key \<Rightarrow> do {
     e1 \<leftarrow> RetryOnConflict E (recordStatus E fip allocatedIP grp key);
     case e1 of
       Some e \<Rightarrow> State_Monad.return (Some (wrap ''failed to update fip status'' e))
     | None \<Rightarrow> do {
     e2 \<leftarrow> RetryOnConflict E (recordPoolAllocation E (p_name fipPool) poolName allocatedIP
             (projectName @ '' ['' @ q_display projectConfig @ '']''));
     case e2 of
       Some e \<Rightarrow> State_Monad.return (Some (wrap ''failed to update fip pool status'' e))
     | None \<Rightarrow> do {
     e3 \<leftarrow> RetryOnConflict E (recordQuotaAllocation E projectName poolName fipPool allocatedIP (cluster_or_unassigned updatedFip));
     State_Monad.return (map_option (wrap ''failed to update project config status'') e3)
     }}}
   }"

definition allocateIP :: "'w env \<Rightarrow> FloatingIP \<Rightarrow> FloatingIPPool \<Rightarrow> string \<Rightarrow> FloatingIPProjectQuota \<Rightarrow> ('w, kerr option) act" where
  "allocateIP E fip fipPool projectName projectConfig = do {
     let poolName = f_pool fip;
     let requested = (case f_spec_ip fip of None \<Rightarrow> [] | Some ip \<Rightarrow> ip);
     g \<leftarrow> ipam_GetIPOwned poolName requested (fip_key fip);
     case g of
       Inl err \<Rightarrow>
         allocationError E fip
           (if requested \<noteq> []
            then ''failed to allocate requested IP '' @ requested @ '' from pool '' @ poolName @ '': '' @ IpamErrText E err
            else ''failed to allocate an IP from pool '' @ poolName @ '': '' @ IpamErrText E err)
     | Inr allocatedIP \<Rightarrow>
         if allocatedIP = [] then State_Monad.return (Some (Errorf (''no IP could be allocated from pool '' @ poolName)))
         else do {
           u \<leftarrow> UpdateFip E (fip\<lparr>f_spec_ip := Some allocatedIP\<rparr>);
           case u of
             Inl err \<Rightarrow> do {
               _ \<leftarrow> unwindClaim E fip poolName allocatedIP;
               State_Monad.return (Some (wrap ''failed to update fip spec'' err))
             }
           | Inr updatedFip \<Rightarrow>
               recordAllocation E fip updatedFip fipPool projectName projectConfig allocatedIP
         }
   }"

definition reconcile :: "'w env \<Rightarrow> FloatingIP \<Rightarrow> ('w, kerr option) act" where
  "reconcile E fip =
     (if f_ip fip \<noteq> [] then reconcileAllocated E fip
      else if f_pool fip = [] then
        State_Monad.return (Some (Errorf (''floatingippool not specified for floatingip '' @ fip_key fip)))
      else do {
        p \<leftarrow> ListerPool E (f_pool fip);
        case p of
          Inl e \<Rightarrow> State_Monad.return (if IsNotFound e then None else Some e)
        | Inr fipPool \<Rightarrow>
            (case map_of (mof (f_labels fip)) projectNameLabel of
               None \<Rightarrow> State_Monad.return (Some (Errorf (''fip '' @ fip_key fip @ '' does not have project label'')))
             | Some projectName \<Rightarrow> do {
                 q \<leftarrow> ListerQuota E projectName;
                 case q of
                   Inl e \<Rightarrow> State_Monad.return (if IsNotFound e then None else Some e)
                 | Inr projectConfig \<Rightarrow> allocateIP E fip fipPool projectName projectConfig
               })
      })"

section \<open>Deleting a FloatingIP\<close>

definition sweepAbandonedClaims :: "FloatingIP \<Rightarrow> ('w, unit) act" where
  "sweepAbandonedClaims fip = do {
     _ \<leftarrow> ipam_ReleaseAllByOwner (f_pool fip) (fip_key fip);
     State_Monad.return ()
   }"

text \<open>What the deletion handler writes for the pool.\<close>

definition unrecorded_info :: "FipInfo \<Rightarrow> string \<Rightarrow> FipInfo" where
  "unrecorded_info fi ip =
     fi\<lparr>fi_used := (if 0 < fi_used fi then fi_used fi - 1 else fi_used fi),
        fi_allocated := map_option (AList.delete ip) (fi_allocated fi)\<rparr>"

definition unrecordQuota :: "'w env \<Rightarrow> string \<Rightarrow> string \<Rightarrow> string \<Rightarrow> ('w, kerr option) act" where
  "unrecordQuota E projectName poolName ip = do {
     r \<leftarrow> GetQuota E projectName;
     case r of
       Inl e \<Rightarrow> State_Monad.return (if IsNotFound e then None else Some e)
     | Inr q \<Rightarrow>
         (case map_of (mof (q_fips q)) poolName of
            Some (Some fi) \<Rightarrow>
              if map_of (mof (fi_allocated fi)) ip \<noteq> None
              then UpdateStatusQuota E (set_quota_info q poolName (unrecorded_info fi ip))
              else State_Monad.return None
          | _ \<Rightarrow> State_Monad.return None)
   }"

definition unrecordPool :: "'w env \<Rightarrow> string \<Rightarrow> string \<Rightarrow> ('w, kerr option) act" where
  "unrecordPool E poolName ip = do {
     r \<leftarrow> GetPool E poolName;
     case r of
       Inl e \<Rightarrow> State_Monad.return (if IsNotFound e then None else Some e)
     | Inr cur \<Rightarrow>
         (case p_allocated cur of
            None \<Rightarrow> State_Monad.return None
          | Some m \<Rightarrow> do {
              u \<leftarrow> ipam_Used poolName;
              a \<leftarrow> ipam_Available poolName;
              UpdateStatusPool E (cur\<lparr>p_allocated := Some (AList.delete ip m), p_used := int u, p_available := int a\<rparr>)
            })
   }"

definition reconcileDelete :: "'w env \<Rightarrow> FloatingIP \<Rightarrow> ('w, kerr option) act" where
  "reconcileDelete E fip =
     (if f_ip fip = [] then do {
        _ \<leftarrow> (case f_spec_ip fip of
           Some ip \<Rightarrow> if ip \<noteq> [] then ipam_ReleaseIPOwned (f_pool fip) ip (fip_key fip) else State_Monad.return None
         | None \<Rightarrow> State_Monad.return None);
        _ \<leftarrow> sweepAbandonedClaims fip;
        removeFinalizer E fip
      }
      else do {
        let ipToRelease = f_ip fip;
        let poolName = f_pool fip;
        e1 \<leftarrow> (case map_of (mof (f_labels fip)) projectNameLabel of
           Some projectName \<Rightarrow> RetryOnConflict E (unrecordQuota E projectName poolName ipToRelease)
         | None \<Rightarrow> State_Monad.return None);
        case e1 of
          Some e \<Rightarrow> State_Monad.return (Some (wrap ''failed to update project config status on delete'' e))
        | None \<Rightarrow> do {
            _ \<leftarrow> ipam_ReleaseIP poolName ipToRelease;
            e2 \<leftarrow> RetryOnConflict E (unrecordPool E poolName ipToRelease);
            case e2 of
              Some e \<Rightarrow> State_Monad.return (Some (wrap ''failed to update fip pool status on delete'' e))
            | None \<Rightarrow> do {
                _ \<leftarrow> sweepAbandonedClaims fip;
                removeFinalizer E fip
              }
          }
      })"

section \<open>The sync handler\<close>

definition syncFip :: "'w env \<Rightarrow> string \<Rightarrow> ('w, kerr option) act" where
  "syncFip E key =
     (case SplitMetaNamespaceKey E key of
        None \<Rightarrow> State_Monad.return None
      | Some (ns, name) \<Rightarrow> do {
          r \<leftarrow> ListerFip E ns name;
          case r of
            Inl e \<Rightarrow> State_Monad.return (if IsNotFound e then None else Some e)
          | Inr fip \<Rightarrow>
              if f_deleted fip then
                (if containsString (f_finalizers fip) finalizerName then reconcileDelete E fip
                 else State_Monad.return None)
              else if \<not> containsString (f_finalizers fip) finalizerName then do {
                e \<leftarrow> ApplyFinalizersFip E ns (f_name fip) (f_finalizers fip @ [finalizerName]);
                State_Monad.return (map_option (wrap (''failed to add finalizer to floatingip '' @ fip_key fip)) e)
              }
              else reconcile E fip
        })"

end
