(* ===== verification/Mem_Kube.thy ===== *)
theory Mem_Kube
  imports Kube
begin

text \<open>
  One concrete environment: an API server that keeps the objects in memory, with optimistic
  locking on the resource version, the separation of spec and status updates, and the removal
  of a deleted object with its last finalizer; informer caches that are up to date; a retry
  helper with four steps; a clock; a random source. Setting \<open>m_fail\<close> makes every write of a pool
  status fail. It shows that the hypotheses about environments can be met and gives the
  witnesses something to run on.
\<close>

record mem =
  m_fips :: "(string \<times> string, FloatingIP) gomap"
  m_pools :: "(string, FloatingIPPool) gomap"
  m_quotas :: "(string, FloatingIPProjectQuota) gomap"
  m_fail :: bool
  m_clock :: nat

definition world_act :: "(mem \<Rightarrow> 'a \<times> mem) \<Rightarrow> (mem, 'a) act" where
  "world_act f = State (\<lambda>s. case f (sys_world s) of (r, w) \<Rightarrow> (r, s\<lparr>sys_world := w\<rparr>))"

definition found :: "'a option \<Rightarrow> kerr + 'a" where
  "found x = (case x of None \<Rightarrow> Inl NotFound | Some v \<Rightarrow> Inr v)"

definition mem_update_fip :: "FloatingIP \<Rightarrow> mem \<Rightarrow> (kerr + FloatingIP) \<times> mem" where
  "mem_update_fip f w =
     (let k = (f_ns f, f_name f) in
      case map_of (m_fips w) k of
        None \<Rightarrow> (Inl NotFound, w)
      | Some cur \<Rightarrow>
          if f_rv f \<noteq> f_rv cur then (Inl Conflict, w)
          else let f' = f\<lparr>f_rv := Suc (f_rv cur), f_ip := f_ip cur, f_state := f_state cur,
                          f_assigned := f_assigned cur, f_conditions := f_conditions cur\<rparr>
               in (Inr f', if f_deleted f' \<and> f_finalizers f' = []
                           then w\<lparr>m_fips := AList.delete k (m_fips w)\<rparr>
                           else w\<lparr>m_fips := AList.update k f' (m_fips w)\<rparr>))"

definition mem_update_status_fip :: "FloatingIP \<Rightarrow> mem \<Rightarrow> kerr option \<times> mem" where
  "mem_update_status_fip f w =
     (let k = (f_ns f, f_name f) in
      case map_of (m_fips w) k of
        None \<Rightarrow> (Some NotFound, w)
      | Some cur \<Rightarrow>
          if f_rv f \<noteq> f_rv cur then (Some Conflict, w)
          else (None, w\<lparr>m_fips := AList.update k (cur\<lparr>f_rv := Suc (f_rv cur), f_ip := f_ip f,
                   f_state := f_state f, f_assigned := f_assigned f, f_conditions := f_conditions f\<rparr>) (m_fips w)\<rparr>))"

definition mem_apply_finalizers :: "string \<Rightarrow> string \<Rightarrow> string list \<Rightarrow> mem \<Rightarrow> kerr option \<times> mem" where
  "mem_apply_finalizers ns n fs w =
     (case map_of (m_fips w) (ns, n) of
        None \<Rightarrow> (Some NotFound, w)
      | Some cur \<Rightarrow> (None, w\<lparr>m_fips := AList.update (ns, n) (cur\<lparr>f_finalizers := fs, f_rv := Suc (f_rv cur)\<rparr>) (m_fips w)\<rparr>))"

definition mem_delete_fip :: "string \<Rightarrow> string \<Rightarrow> mem \<Rightarrow> kerr option \<times> mem" where
  "mem_delete_fip ns n w =
     (case map_of (m_fips w) (ns, n) of
        None \<Rightarrow> (Some NotFound, w)
      | Some cur \<Rightarrow>
          (None, if f_finalizers cur = [] then w\<lparr>m_fips := AList.delete (ns, n) (m_fips w)\<rparr>
                 else w\<lparr>m_fips := AList.update (ns, n) (cur\<lparr>f_deleted := True, f_rv := Suc (f_rv cur)\<rparr>) (m_fips w)\<rparr>))"

definition mem_update_status_pool :: "FloatingIPPool \<Rightarrow> mem \<Rightarrow> kerr option \<times> mem" where
  "mem_update_status_pool p w =
     (if m_fail w then (Some (ApiErr ''timeout''), w)
      else case map_of (m_pools w) (p_name p) of
        None \<Rightarrow> (Some NotFound, w)
      | Some cur \<Rightarrow>
          if p_rv p \<noteq> p_rv cur then (Some Conflict, w)
          else (None, w\<lparr>m_pools := AList.update (p_name p) (cur\<lparr>p_rv := Suc (p_rv cur),
                   p_allocated := p_allocated p, p_used := p_used p, p_available := p_available p\<rparr>) (m_pools w)\<rparr>))"

definition mem_update_quota :: "bool \<Rightarrow> FloatingIPProjectQuota \<Rightarrow> mem \<Rightarrow> kerr option \<times> mem" where
  "mem_update_quota st q w =
     (case map_of (m_quotas w) (q_name q) of
        None \<Rightarrow> (Some NotFound, w)
      | Some cur \<Rightarrow>
          if q_rv q \<noteq> q_rv cur then (Some Conflict, w)
          else let q' = (if st then cur\<lparr>q_fips := q_fips q\<rparr> else q\<lparr>q_fips := q_fips cur\<rparr>)\<lparr>q_rv := Suc (q_rv cur)\<rparr>
               in (None, if q_deleted q' \<and> q_finalizers q' = []
                         then w\<lparr>m_quotas := AList.delete (q_name q) (m_quotas w)\<rparr>
                         else w\<lparr>m_quotas := AList.update (q_name q) q' (m_quotas w)\<rparr>))"

fun retry_steps :: "nat \<Rightarrow> ('w, kerr option) act \<Rightarrow> ('w, kerr option) act" where
  "retry_steps 0 f = f"
| "retry_steps (Suc n) f = do {
     r \<leftarrow> f;
     case r of
       None \<Rightarrow> State_Monad.return None
     | Some e \<Rightarrow> if IsConflict e then retry_steps n f else State_Monad.return (Some e)
   }"

definition mem_split_key :: "string \<Rightarrow> (string \<times> string) option" where
  "mem_split_key k =
     (case split_on (CHR ''/'') k of [n] \<Rightarrow> Some ([], n) | [ns, n] \<Rightarrow> Some (ns, n) | _ \<Rightarrow> None)"

definition mem_env :: "mem env" where
  "mem_env =
     \<lparr>GetFip = \<lambda>ns n. world_act (\<lambda>w. (found (map_of (m_fips w) (ns, n)), w)),
      UpdateFip = \<lambda>f. world_act (mem_update_fip f),
      UpdateStatusFip = \<lambda>f. world_act (mem_update_status_fip f),
      ApplyFinalizersFip = \<lambda>ns n fs. world_act (mem_apply_finalizers ns n fs),
      DeleteFip = \<lambda>ns n. world_act (mem_delete_fip ns n),
      GetPool = \<lambda>n. world_act (\<lambda>w. (found (map_of (m_pools w) n), w)),
      UpdateStatusPool = \<lambda>p. world_act (mem_update_status_pool p),
      GetQuota = \<lambda>n. world_act (\<lambda>w. (found (map_of (m_quotas w) n), w)),
      UpdateQuota = \<lambda>q. world_act (mem_update_quota False q),
      UpdateStatusQuota = \<lambda>q. world_act (mem_update_quota True q),
      ListerFip = \<lambda>ns n. world_act (\<lambda>w. (found (map_of (m_fips w) (ns, n)), w)),
      ListerFips = world_act (\<lambda>w. (Inr (map snd (m_fips w)), w)),
      ListerFipsBy = \<lambda>k v. world_act (\<lambda>w. (Inr (filter (\<lambda>f. map_of (mof (f_labels f)) k = Some v) (map snd (m_fips w))), w)),
      ListerPool = \<lambda>n. world_act (\<lambda>w. (found (map_of (m_pools w) n), w)),
      ListerQuota = \<lambda>n. world_act (\<lambda>w. (found (map_of (m_quotas w) n), w)),
      RetryOnConflict = retry_steps 3,
      SplitMetaNamespaceKey = mem_split_key,
      RandInt = \<lambda>n. State_Monad.return (Some 0),
      Now = world_act (\<lambda>w. (m_clock w, w\<lparr>m_clock := Suc (m_clock w)\<rparr>)),
      IpamErrText = \<lambda>e. ''allocation failed''\<rparr>"

lemma retry_steps_attempts: "run_state (retry_steps n f) s = (r, s') \<Longrightarrow> attempts f s r s'"
proof (induction n arbitrary: s)
  case 0
  then show ?case by (simp add: attempts.once)
next
  case (Suc n)
  obtain r1 s1 where f: "run_state f s = (r1, s1)" by (cases "run_state f s")
  show ?case
  proof (cases "\<exists>e. r1 = Some e \<and> IsConflict e")
    case True
    then obtain e where "r1 = Some e" "IsConflict e" by blast
    with Suc f show ?thesis by (auto intro: attempts.again)
  next
    case False
    with Suc.prems f have "r = r1 \<and> s' = s1" by (auto split: option.splits)
    with f show ?thesis by (auto intro: attempts.once)
  qed
qed

lemma world_act_rel: "reflp R \<Longrightarrow> env_rel R (world_act f)"
  by (auto simp: env_rel_def state_io_rel_def world_act_def reflp_def split: prod.splits)

lemma mem_env_ok: "reflp R \<Longrightarrow> env_ok R mem_env"
  by (auto simp: env_ok_def mem_env_def world_act_rel retry_ok_def retry_steps_attempts)
     (simp add: env_rel_def state_io_rel_def reflp_def)

end
