(* ===== verification/Fip_Props.thy ===== *)
theory Fip_Props
  imports Fip_Controller Mem_Kube Ipam_Props
begin

text \<open>Properties of the FloatingIP controller.\<close>

section \<open>What the handlers do to the address manager\<close>

text \<open>The calls a handler makes on behalf of \<open>owner\<close>, and a relation that contains them.\<close>

definition own_calls :: "(IPAllocator \<Rightarrow> IPAllocator \<Rightarrow> bool) \<Rightarrow> string \<Rightarrow> bool" where
  "own_calls R owner \<longleftrightarrow> (\<forall>a n ip. R a (fst (GetIPOwned a n ip owner)) \<and>
     R a (fst (ReleaseIPOwned a n ip owner)) \<and> R a (fst (ReleaseAllByOwner a n owner)))"

lemma own_calls_rel:
  assumes "own_calls R owner"
  shows "env_rel R (ipam_GetIPOwned n g owner)" "env_rel R (ipam_ReleaseIPOwned n g owner)"
    "env_rel R (ipam_ReleaseAllByOwner n owner)"
  using assms
  by (auto simp: own_calls_def env_rel_def state_io_rel_def ipam_GetIPOwned_def ipam_ReleaseIPOwned_def
      ipam_ReleaseAllByOwner_def case_prod_beta)

lemma GenerateRandomString_rel:
  "preorder_rel R \<Longrightarrow> env_ok R E \<Longrightarrow> env_rel R (GenerateRandomString E n)"
  by (induction n) (simp_all, auto intro!: rel_intro env_ok_calls simp: Let_def)

lemma helpers_rel:
  assumes "preorder_rel R" "env_ok R E"
  shows "env_rel R (sharedKeyFor E g c)" "env_rel R (setCondition E cs cd)"
  using assms GenerateRandomString_rel [OF assms]
  by (auto simp: sharedKeyFor_def setCondition_def intro!: rel_intro env_ok_calls)

lemma closures_rel:
  assumes R: "preorder_rel R" "env_ok R E"
  shows "env_rel R (removeFinalizer E fip)" "env_rel R (recordClusterName E pn pool ip c)"
    "env_rel R (clearAssigned E fip)" "env_rel R (setAssigned E fip g k)" "env_rel R (updateServices E fip)"
    "env_rel R (recordStatus E fip ip g k)" "env_rel R (recordPoolAllocation E p pool ip d)"
    "env_rel R (recordQuotaAllocation E pn pool pl ip c)" "env_rel R (unrecordQuota E pn pool ip)"
    "env_rel R (unrecordPool E pool ip)" "env_rel R (updateFipStatusWithError E fip re msg)"
  unfolding removeFinalizer_def recordClusterName_def clearAssigned_def setAssigned_def updateServices_def
    recordStatus_def recordPoolAllocation_def recordQuotaAllocation_def unrecordQuota_def unrecordPool_def
    updateFipStatusWithError_def
  by (intro rel_intro R env_ok_calls [OF R(2)] helpers_rel [OF R])+

lemma reconcileAllocated_rel:
  assumes R: "preorder_rel R" "env_ok R E"
  shows "env_rel R (reconcileAllocated E fip)"
  unfolding reconcileAllocated_def
  by (intro rel_intro R env_ok_calls [OF R(2)] helpers_rel [OF R] closures_rel [OF R] env_rel_retry [OF R(2)])

lemma recordAllocation_rel:
  assumes R: "preorder_rel R" "env_ok R E"
  shows "env_rel R (recordAllocation E fip u pool pn q ip)"
  unfolding recordAllocation_def
  by (intro rel_intro R env_ok_calls [OF R(2)] helpers_rel [OF R] closures_rel [OF R] env_rel_retry [OF R(2)])

lemma reconcile_rel:
  assumes R: "preorder_rel R" "env_ok R E" and own: "own_calls R (fip_key fip)"
  shows "env_rel R (reconcile E fip)"
  unfolding reconcile_def allocateIP_def allocationError_def unwindClaim_def
  by (intro rel_intro R env_ok_calls [OF R(2)] helpers_rel [OF R] closures_rel [OF R] own_calls_rel [OF own]
      reconcileAllocated_rel [OF R] recordAllocation_rel [OF R] env_rel_retry [OF R(2)])

section \<open>Claims of other owners\<close>

text \<open>The claim of \<open>owner\<close> on \<open>ip\<close> is not lost.\<close>

definition keeps :: "string \<Rightarrow> string \<Rightarrow> string \<Rightarrow> IPAllocator \<Rightarrow> IPAllocator \<Rightarrow> bool" where
  "keeps n ip owner a a' \<longleftrightarrow>
     (ipam_reach a \<and> holds a n ip owner \<longrightarrow> ipam_reach a' \<and> holds a' n ip owner)"

lemma keeps_preorder [simp]: "preorder_rel (keeps n ip owner)"
  by (auto simp: preorder_rel_def reflp_def transp_def keeps_def)

lemma keeps_call:
  "do_call c a = Some a' \<Longrightarrow> spares n ip owner c \<Longrightarrow> keeps n ip owner a a'"
  unfolding keeps_def holds_def
  using ipam_reach.call do_call_spares [OF ipam_reach_ok] by blast

lemma keeps_own_calls: "owner \<noteq> me \<Longrightarrow> own_calls (keeps n ip owner) me"
  unfolding own_calls_def
  using keeps_call [of "CallGetIPOwned _ _ me" _ _ n ip owner] keeps_call [of "CallReleaseIPOwned _ _ me" _ _ n ip owner]
    keeps_call [of "CallReleaseAllByOwner _ me" _ _ n ip owner] by simp

text \<open>
  C3. Reconciling one FloatingIP never takes an address away from another: whatever the API server
  answers, whichever calls fail and however often they are retried, a claim that another owner
  holds before the reconcile is held by it afterwards, as long as what the rest of the system does
  to the address manager in the meantime does not take it away either.
\<close>

theorem reconcile_keeps_foreign_claims:
  assumes "env_ok (keeps n ip owner) E" and "owner \<noteq> fip_key fip"
    and "ipam_reach (sys_ipam s)" and "holds (sys_ipam s) n ip owner"
  shows "holds (sys_ipam (snd (run_state (reconcile E fip) s))) n ip owner"
proof -
  have "env_rel (keeps n ip owner) (reconcile E fip)"
    by (rule reconcile_rel [OF keeps_preorder assms(1) keeps_own_calls [OF assms(2)]])
  with assms(3,4) show ?thesis by (auto simp: env_rel_def state_io_rel_def keeps_def)
qed

text \<open>A FloatingIP \<open>ns/b\<close> without an address, its pool and its project.\<close>

definition fip_b :: FloatingIP where
  "fip_b = \<lparr>f_ns = ''ns'', f_name = ''b'', f_labels = Some [(projectNameLabel, ''proj''), (clusterNameLabel, ''c1'')],
     f_finalizers = [finalizerName], f_deleted = False, f_created = 0, f_rv = 1, f_spec_ip = None, f_pool = ''lab'', f_ip = [],
     f_state = [], f_assigned = None, f_conditions = []\<rparr>"

definition mem_b :: mem where
  "mem_b = \<lparr>m_fips = [((''ns'', ''b''), fip_b)],
     m_pools = [(''lab'', \<lparr>p_name = ''lab'', p_rv = 1, p_config = None, p_allocated = None, p_used = 0, p_available = 3\<rparr>)],
     m_quotas = [(''proj'', \<lparr>q_name = ''proj'', q_finalizers = [], q_deleted = False, q_rv = 1, q_display = ''P'',
       q_quota = None, q_fips = None\<rparr>)], m_fail = False, m_clock = 0\<rparr>"

definition sys_b :: "mem sys" where
  "sys_b = \<lparr>sys_ipam = lab1, sys_world = mem_b\<rparr>"

lemma keeps_mem_env: "env_ok (keeps n ip owner) mem_env"
  by (rule mem_env_ok) (auto simp: reflp_def keeps_def)

theorem reconcile_keeps_foreign_claims_witness:
  "holds (sys_ipam (snd (run_state (reconcile mem_env fip_b) sys_b))) ''lab'' ''10.0.0.2'' ''ns/a''"
proof -
  have "holds (sys_ipam sys_b) ''lab'' ''10.0.0.2'' ''ns/a''" by code_simp
  then show ?thesis
    by (intro reconcile_keeps_foreign_claims keeps_mem_env) (simp_all add: sys_b_def lab1_reach fip_key_def fip_b_def)
qed

section \<open>Allocation\<close>

text \<open>
  When the allocation of an address for a FloatingIP reports success, the FloatingIP holds an
  address of its pool in the address manager, the one its spec asked for when it asked for one.
  This needs only that the rest of the system does not release this FloatingIP's claims.
\<close>

theorem allocateIP_success:
  assumes "\<And>ip. env_ok (keeps (f_pool fip) ip (fip_key fip)) E" and "ipam_reach (sys_ipam s)"
    and "run_state (allocateIP E fip pool projectName quota) s = (None, s')"
  shows "\<exists>ip. holds (sys_ipam s') (f_pool fip) ip (fip_key fip) \<and>
    (f_spec_ip fip \<noteq> None \<and> f_spec_ip fip \<noteq> Some [] \<longrightarrow> f_spec_ip fip = Some ip)"
proof -
  define req where "req = (case f_spec_ip fip of None \<Rightarrow> [] | Some ip \<Rightarrow> ip)"
  obtain a1 g where g: "GetIPOwned (sys_ipam s) (f_pool fip) req (fip_key fip) = (a1, g)" by (cases "GetIPOwned (sys_ipam s) (f_pool fip) req (fip_key fip)")
  define s1 where "s1 = s\<lparr>sys_ipam := a1\<rparr>"
  have run: "run_state (ipam_GetIPOwned (f_pool fip) req (fip_key fip)) s = (g, s1)"
    by (simp add: ipam_GetIPOwned_def g s1_def)
  show ?thesis
  proof (cases g)
    case (Inl e)
    with assms(3) run show ?thesis
      by (auto simp: allocateIP_def req_def [symmetric] Let_def allocationError_def split: prod.splits)
  next
    case (Inr ip)
    note gi = g [unfolded Inr]
    have reach1: "ipam_reach a1" using ipam_reach.call [OF assms(2), of "CallGetIPOwned (f_pool fip) req (fip_key fip)"] gi by simp
    have law: "ipam_holder a1 = (ipam_holder (sys_ipam s))((f_pool fip, ip) \<mapsto> fip_key fip)" and "req \<noteq> [] \<longrightarrow> ip = req"
      using acquire_law [OF ipam_reach_ok [OF assms(2)] gi] gi
      by (auto elim: GetIPOwned_outcome [OF ipam_ok_inv [OF ipam_reach_ok [OF assms(2)]]])
    have h1: "holds a1 (f_pool fip) ip (fip_key fip)"
      using law by (simp add: holds_def ipam_holder_def fip_key_def fun_eq_iff)
    let ?R = "keeps (f_pool fip) ip (fip_key fip)"
    obtain u s2 where u: "run_state (UpdateFip E (fip\<lparr>f_spec_ip := Some ip\<rparr>)) s1 = (u, s2)" by (cases "run_state (UpdateFip E (fip\<lparr>f_spec_ip := Some ip\<rparr>)) s1")
    have h2: "?R a1 (sys_ipam s2)"
      using env_rel_run [OF env_ok_calls(2) [OF assms(1)] u] by (simp add: s1_def)
    obtain uf where uf: "u = Inr uf" "run_state (recordAllocation E fip uf pool projectName quota ip) s2 = (None, s')"
      using assms(3) run Inr u
      by (auto simp: allocateIP_def req_def [symmetric] Let_def split: sum.splits if_splits prod.splits)
    have "?R (sys_ipam s2) (sys_ipam s')"
      by (rule env_rel_run [OF recordAllocation_rel [OF keeps_preorder assms(1)] uf(2)])
    with h1 h2 reach1 have "holds (sys_ipam s') (f_pool fip) ip (fip_key fip)" by (simp add: keeps_def)
    with \<open>req \<noteq> [] \<longrightarrow> ip = req\<close> show ?thesis by (auto simp: req_def split: option.splits)
  qed
qed

theorem allocateIP_success_witness:
  "\<exists>ip. holds (sys_ipam (snd (run_state (allocateIP mem_env fip_b (the (map_of (m_pools mem_b) ''lab'')) ''proj''
     (the (map_of (m_quotas mem_b) ''proj''))) sys_b))) ''lab'' ip ''ns/b''"
proof -
  let ?m = "allocateIP mem_env fip_b (the (map_of (m_pools mem_b) ''lab'')) ''proj'' (the (map_of (m_quotas mem_b) ''proj''))"
  have f: "f_pool fip_b = ''lab''" "fip_key fip_b = ''ns/b''" by code_simp+
  have "fst (run_state ?m sys_b) = None" by code_simp
  then have "run_state ?m sys_b = (None, snd (run_state ?m sys_b))" by (metis prod.collapse)
  moreover have "ipam_reach (sys_ipam sys_b)" by (simp add: sys_b_def lab1_reach)
  ultimately show ?thesis using allocateIP_success [OF keeps_mem_env] f by metis
qed

lemma allocationError_result: "fst (run_state (allocationError E fip m) s) = Some (Errorf m)"
  by (simp add: allocationError_def case_prod_beta)

text \<open>
  C24. An address does not leak when the spec update fails, in an IPv4 network of a reachable allocator and without interference: assume that no call
  of the environment changes the address manager (\<open>env_ok (=)\<close>), that the FloatingIP asks for no
  particular address, that every update of a FloatingIP returns an error, and that every successful read of it shows no address in its spec.
  Then \<open>allocateIP\<close> ends in an error and every claim is what it was before. When the failed update was
  written after all, a read shows it and the code keeps the claim; that case is not the subject.
\<close>

theorem failed_update_leaks_nothing:
  assumes "env_ok (=) E" and "ipam_reach (sys_ipam s)"
    and "map_of (sys_ipam s) (f_pool fip) = Some sub" and "Is4 (pip (s_cidr sub))"
    and "f_spec_ip fip = None" and "\<And>f t. \<exists>e. fst (run_state (UpdateFip E f) t) = Inl e"
    and "\<And>t cur. fst (run_state (GetFip E (f_ns fip) (f_name fip)) t) = Inr cur \<Longrightarrow> f_spec_ip cur = None"
  shows "\<exists>e. fst (run_state (allocateIP E fip pool projectName quota) s) = Some e \<and>
    claim_in (sys_ipam (snd (run_state (allocateIP E fip pool projectName quota) s))) = claim_in (sys_ipam s)"
proof -
  let ?a = "sys_ipam s" and ?n = "f_pool fip" and ?o = "fip_key fip"
  have eq: "preorder_rel ((=) :: IPAllocator \<Rightarrow> _)" by (auto simp: preorder_rel_def reflp_def transp_def)
  obtain a1 g where g: "GetIPOwned ?a ?n [] ?o = (a1, g)" by (cases "GetIPOwned ?a ?n [] ?o")
  define s1 where "s1 = s\<lparr>sys_ipam := a1\<rparr>"
  have run: "run_state (ipam_GetIPOwned ?n [] ?o) s = (g, s1)" by (simp add: ipam_GetIPOwned_def g s1_def)
  have sp: "(case f_spec_ip fip of None \<Rightarrow> [] | Some ip \<Rightarrow> ip) = []" using assms(5) by simp
  note inv = ipam_ok_inv [OF ipam_reach_ok [OF assms(2)]]
  show ?thesis
  proof (cases g)
    case (Inl e)
    then have "a1 = ?a" using g by (auto elim: GetIPOwned_outcome [OF inv])
    moreover have "env_rel (=) (allocationError E fip m)" for m
      unfolding allocationError_def by (intro rel_intro eq closures_rel [OF eq assms(1)])
    moreover obtain m where "run_state (allocateIP E fip pool projectName quota) s = run_state (allocationError E fip m) s1"
      using run Inl sp by (auto simp: allocateIP_def Let_def)
    ultimately show ?thesis
      using env_rel_run [of "(=)" "allocationError E fip m" s1] by (simp add: allocationError_result s1_def) (metis prod.collapse)
  next
    case (Inr ip)
    obtain x where x: "map_of (s_ips sub) ip = Some False" "ip \<noteq> []" "a1 = x"
      using g Inr assms(3) by (auto elim!: GetIPOwned_outcome [OF inv])
    then have "claim_in ?a ?n ip = None" using assms(3) by (simp add: claim_in_def claim_def)
    from grant_release [OF assms(2-4) g [unfolded Inr] this] obtain a2 where
      a2: "ReleaseIPOwned a1 ?n ip ?o = (a2, None)" "claim_in a2 = claim_in ?a" by blast
    obtain e s2 where u: "run_state (UpdateFip E (fip\<lparr>f_spec_ip := Some ip\<rparr>)) s1 = (Inl e, s2)"
      using assms(6) by (metis prod.collapse)
    have i2: "sys_ipam s2 = a1" using env_rel_run [OF env_ok_calls(2) [OF assms(1)] u] by (simp add: s1_def)
    obtain c s3 where c: "run_state (GetFip E (f_ns fip) (f_name fip)) s2 = (c, s3)" by (cases "run_state (GetFip E (f_ns fip) (f_name fip)) s2")
    have i3: "sys_ipam s3 = a1" using env_rel_run [OF env_ok_calls(1) [OF assms(1)] c] i2 by simp
    have nc: "\<not> (case c of Inl e \<Rightarrow> False | Inr cur \<Rightarrow> f_spec_ip cur = Some ip)"
      using assms(7) [of s2] c by (auto split: sum.splits)
    have rel: "run_state (ipam_ReleaseIPOwned ?n ip ?o) s3 = (None, s3\<lparr>sys_ipam := a2\<rparr>)"
      by (simp add: ipam_ReleaseIPOwned_def i3 a2(1))
    have uw: "run_state (unwindClaim E fip ?n ip) s2 = ((), s3\<lparr>sys_ipam := a2\<rparr>)"
      using c nc rel by (simp add: unwindClaim_def)
    have "run_state (allocateIP E fip pool projectName quota) s = (Some (wrap ''failed to update fip spec'' e), s3\<lparr>sys_ipam := a2\<rparr>)"
      using run Inr x(2) u uw sp by (simp add: allocateIP_def Let_def)
    with a2(2) show ?thesis by simp
  qed
qed

text \<open>The environment \<open>mem_env\<close> on a system from which the FloatingIP is gone: every update of it fails.\<close>

definition lost_env :: "mem env" where
  "lost_env = mem_env\<lparr>UpdateFip := \<lambda>f. State_Monad.return (Inl NotFound),
     GetFip := \<lambda>ns n. State_Monad.return (Inl NotFound)\<rparr>"

lemma lost_env_ok: "reflp R \<Longrightarrow> env_ok R lost_env"
  using mem_env_ok [of R] by (auto simp: env_ok_def lost_env_def retry_ok_def env_rel_def state_io_rel_def reflp_def)

theorem failed_update_leaks_nothing_witness:
  "claim_in (sys_ipam (snd (run_state (allocateIP lost_env fip_b
      (the (map_of (m_pools mem_b) ''lab'')) ''proj'' (the (map_of (m_quotas mem_b) ''proj''))) sys_b))) =
   claim_in (sys_ipam sys_b)"
proof -
  let ?pool = "the (map_of (m_pools mem_b) ''lab'')" and ?q = "the (map_of (m_quotas mem_b) ''proj'')"
  have "map_of (sys_ipam sys_b) (f_pool fip_b) = Some (the (map_of lab1 ''lab''))" by code_simp
  moreover have "Is4 (pip (s_cidr (the (map_of lab1 ''lab''))))" by code_simp
  moreover have "env_ok (=) lost_env" by (rule lost_env_ok) (simp add: reflp_def)
  moreover have "ipam_reach (sys_ipam sys_b)" by (simp add: sys_b_def lab1_reach)
  moreover have "f_spec_ip fip_b = None" by (simp add: fip_b_def)
  ultimately show ?thesis
    using failed_update_leaks_nothing [of lost_env sys_b fip_b "the (map_of lab1 ''lab'')" ?pool "''proj''" ?q]
    by (auto simp: lost_env_def)
qed

section \<open>Deletion\<close>

text \<open>No claim of \<open>owner\<close> comes into being.\<close>

definition gains_none :: "string \<Rightarrow> IPAllocator \<Rightarrow> IPAllocator \<Rightarrow> bool" where
  "gains_none owner a a' \<longleftrightarrow> (ipam_reach a \<longrightarrow> ipam_reach a' \<and>
     (\<forall>n ip. claim_in a' n ip = Some owner \<longrightarrow> claim_in a n ip = Some owner))"

lemma gains_none_preorder [simp]: "preorder_rel (gains_none owner)"
  by (auto simp: preorder_rel_def reflp_def transp_def gains_none_def)

lemma gains_none_call:
  assumes "do_call c a = Some a'" "case c of CallReleaseIP n ip \<Rightarrow> True | CallReleaseIPOwned n ip o' \<Rightarrow> True
      | CallReleaseAllByOwner n o' \<Rightarrow> True | _ \<Rightarrow> False"
  shows "gains_none owner a a'"
  unfolding gains_none_def
proof (intro impI conjI allI)
  assume a: "ipam_reach a"
  show "ipam_reach a'" by (rule ipam_reach.call [OF a assms(1)])
  fix n ip assume "claim_in a' n ip = Some owner"
  with do_call_simulated [OF ipam_reach_ok [OF a] assms(1)] assms(2) show "claim_in a n ip = Some owner"
    unfolding claim_pools by (cases rule: pool_step.cases) (auto split: if_splits)
qed

lemma gains_none_rel:
  "env_rel (gains_none owner) (ipam_ReleaseIP n ip)" "env_rel (gains_none owner) (ipam_ReleaseIPOwned n ip o')"
  "env_rel (gains_none owner) (ipam_ReleaseAllByOwner n o')"
  using gains_none_call [of "CallReleaseIP n ip" _ _ owner] gains_none_call [of "CallReleaseIPOwned n ip o'" _ _ owner]
    gains_none_call [of "CallReleaseAllByOwner n o'" _ _ owner]
  by (auto simp: env_rel_def state_io_rel_def ipam_ReleaseIP_def ipam_ReleaseIPOwned_def ipam_ReleaseAllByOwner_def case_prod_beta)

lemma sweep_and_remove:
  assumes E: "env_ok (gains_none (fip_key fip)) E" and a: "ipam_reach (sys_ipam s)"
    and r: "run_state (do { _ \<leftarrow> sweepAbandonedClaims fip; removeFinalizer E fip }) s = (r, s')"
  shows "claim_in (sys_ipam s') (f_pool fip) ip \<noteq> Some (fip_key fip)"
proof -
  obtain a1 k where k: "ReleaseAllByOwner (sys_ipam s) (f_pool fip) (fip_key fip) = (a1, k)"
    by (cases "ReleaseAllByOwner (sys_ipam s) (f_pool fip) (fip_key fip)")
  have ne: "fip_key fip \<noteq> []" by (simp add: fip_key_def)
  have "claim_in a1 (f_pool fip) ip \<noteq> Some (fip_key fip)"
    using ReleaseAllByOwner_spec(2) [OF ipam_ok_inv [OF ipam_reach_ok [OF a]] ne k] by simp
  moreover have "ipam_reach a1"
    using ipam_reach.call [OF a, of "CallReleaseAllByOwner (f_pool fip) (fip_key fip)"] k by simp
  moreover have "gains_none (fip_key fip) a1 (sys_ipam s')"
    using env_rel_run [OF closures_rel(1) [OF gains_none_preorder E], of fip "s\<lparr>sys_ipam := a1\<rparr>" r s'] r k
    by (simp add: sweepAbandonedClaims_def ipam_ReleaseAllByOwner_def)
  ultimately show ?thesis by (auto simp: gains_none_def)
qed

text \<open>
  C20. A deletion that completes leaves no claim behind: when the deletion handler of a FloatingIP
  reports success, no address of its pool is claimed by it any more, whatever was left over from
  earlier failed attempts, provided nobody else makes claims in its name meanwhile.
\<close>

theorem reconcileDelete_releases_all:
  assumes "env_ok (gains_none (fip_key fip)) E" and "ipam_reach (sys_ipam s)"
    and "run_state (reconcileDelete E fip) s = (None, s')"
  shows "claim_in (sys_ipam s') (f_pool fip) ip \<noteq> Some (fip_key fip)"
proof -
  let ?R = "gains_none (fip_key fip)"
  let ?last = "do { _ \<leftarrow> sweepAbandonedClaims fip; removeFinalizer E fip }"
  note R = gains_none_preorder assms(1)
  have reach: "ipam_reach (sys_ipam t')" if "env_rel ?R m" "run_state m t = (x, t')" "ipam_reach (sys_ipam t)" for m :: "(_, 'b) act" and t t' x
    using env_rel_run [OF that(1,2)] that(3) by (simp add: gains_none_def)
  show ?thesis
  proof (cases "f_ip fip = []")
    case True
    define m where "m = (case f_spec_ip fip of
       Some ip \<Rightarrow> if ip \<noteq> [] then ipam_ReleaseIPOwned (f_pool fip) ip (fip_key fip) else State_Monad.return None
     | None \<Rightarrow> (State_Monad.return None :: ('a, ipam_error option) act))"
    have m: "env_rel ?R m" unfolding m_def by (intro rel_intro R gains_none_rel)
    obtain x t where t: "run_state m s = (x, t)" by (cases "run_state m s")
    have "run_state ?last t = (None, s')"
      using assms(3) True t by (simp add: reconcileDelete_def flip: m_def)
    then show ?thesis by (rule sweep_and_remove [OF assms(1) reach [OF m t assms(2)]])
  next
    case False
    define m1 where "m1 = (case map_of (mof (f_labels fip)) projectNameLabel of
       Some pn \<Rightarrow> RetryOnConflict E (unrecordQuota E pn (f_pool fip) (f_ip fip))
     | None \<Rightarrow> State_Monad.return None)"
    define m2 where "m2 = RetryOnConflict E (unrecordPool E (f_pool fip) (f_ip fip))"
    have m: "env_rel ?R m1" "env_rel ?R m2" unfolding m1_def m2_def
      by (intro rel_intro R closures_rel [OF R] env_rel_retry [OF assms(1)])+
    obtain e1 s1 where s1: "run_state m1 s = (e1, s1)" by (cases "run_state m1 s")
    obtain y s2 where s2: "run_state (ipam_ReleaseIP (f_pool fip) (f_ip fip)) s1 = (y, s2)"
      by (cases "run_state (ipam_ReleaseIP (f_pool fip) (f_ip fip)) s1")
    obtain e2 s3 where s3: "run_state m2 s2 = (e2, s3)" by (cases "run_state m2 s2")
    have eq: "run_state (reconcileDelete E fip) s = (case e1 of
        Some e \<Rightarrow> (Some (wrap ''failed to update project config status on delete'' e), s1)
      | None \<Rightarrow> (case e2 of
          Some e \<Rightarrow> (Some (wrap ''failed to update fip pool status on delete'' e), s3)
        | None \<Rightarrow> run_state ?last s3))"
      using False s1 s2 s3 unfolding reconcileDelete_def m1_def [symmetric] m2_def [symmetric]
      by (cases e1; cases e2) (simp_all flip: m1_def m2_def)
    have "run_state ?last s3 = (None, s')"
      using assms(3) unfolding eq by (cases e1; cases e2) simp_all
    moreover have "ipam_reach (sys_ipam s3)"
      using reach [OF m(2) s3 reach [OF gains_none_rel(1) s2 reach [OF m(1) s1 assms(2)]]] .
    ultimately show ?thesis using sweep_and_remove [OF assms(1)] by blast
  qed
qed

lemma gains_none_mem_env: "env_ok (gains_none owner) mem_env"
  by (rule mem_env_ok) (auto simp: reflp_def gains_none_def)

text \<open>The FloatingIP \<open>ns/a\<close> that holds 10.0.0.2, being deleted.\<close>

definition fip_a :: FloatingIP where
  "fip_a = \<lparr>f_ns = ''ns'', f_name = ''a'', f_labels = Some [(projectNameLabel, ''proj'')],
     f_finalizers = [finalizerName], f_deleted = True, f_created = 0, f_rv = 4, f_spec_ip = Some ''10.0.0.2'', f_pool = ''lab'',
     f_ip = ''10.0.0.2'', f_state = ''Allocated'', f_assigned = None, f_conditions = []\<rparr>"

definition pool_lab :: FloatingIPPool where
  "pool_lab = \<lparr>p_name = ''lab'', p_rv = 1, p_config = None, p_allocated = Some [(''10.0.0.2'', ''proj [P]'')],
     p_used = 1, p_available = 2\<rparr>"

definition sys_a :: "bool \<Rightarrow> mem sys" where
  "sys_a broken = \<lparr>sys_ipam = lab1, sys_world = mem_b\<lparr>m_fips := [((''ns'', ''a''), fip_a)],
     m_pools := [(''lab'', pool_lab)], m_fail := broken\<rparr>\<rparr>"

theorem reconcileDelete_releases_all_witness:
  "claim_in (sys_ipam (snd (run_state (reconcileDelete mem_env fip_a) (sys_a False)))) ''lab'' ''10.0.0.2'' \<noteq> Some ''ns/a''"
proof -
  have f: "f_pool fip_a = ''lab''" "fip_key fip_a = ''ns/a''" by code_simp+
  have "fst (run_state (reconcileDelete mem_env fip_a) (sys_a False)) = None" by code_simp
  then have "run_state (reconcileDelete mem_env fip_a) (sys_a False) =
      (None, snd (run_state (reconcileDelete mem_env fip_a) (sys_a False)))" by (metis prod.collapse)
  moreover have "ipam_reach (sys_ipam (sys_a False))" by (simp add: sys_a_def lab1_reach)
  ultimately show ?thesis using reconcileDelete_releases_all [OF gains_none_mem_env] f by metis
qed

text \<open>
  The release on deletion is not safe under retries. The deletion handler gives its status
  address back without an owner check before it updates the pool's status. When that update fails
  the handler returns an error and is run again later with the same object; if in between the
  address was granted to another FloatingIP, the second run takes it away from its new holder:
  starting with \<open>ns/a\<close> holding 10.0.0.2, a failed deletion of \<open>ns/a\<close>, a grant to \<open>ns/c\<close> and
  the repeated, now successful deletion leave \<open>ns/c\<close> without its claim.
\<close>

theorem repeated_deletion_frees_foreign_claim:
  "let s1 = snd (run_state (reconcileDelete mem_env fip_a) (sys_a True));
       e1 = fst (run_state (reconcileDelete mem_env fip_a) (sys_a True));
       (g, s2) = run_state (ipam_GetIPOwned ''lab'' [] ''ns/c'') s1;
       s3 = s2\<lparr>sys_world := (sys_world s2)\<lparr>m_fail := False\<rparr>\<rparr>;
       (e2, s4) = run_state (reconcileDelete mem_env fip_a) s3
   in e1 \<noteq> None \<and> g = Inr ''10.0.0.2'' \<and> holds (sys_ipam s2) ''lab'' ''10.0.0.2'' ''ns/c'' \<and>
      e2 = None \<and> claim_in (sys_ipam s4) ''lab'' ''10.0.0.2'' = None"
  by code_simp

section \<open>Finalizer before claim\<close>

text \<open>
  No claim before the finalizer: when the FloatingIP the handler reads from the cache is alive
  and does not carry the cleanup finalizer yet, the sync handler makes no call into the address
  manager at all; only what the rest of the system does meanwhile can change it.
\<close>

theorem no_claim_before_finalizer:
  assumes "preorder_rel R" and "env_ok R E" and "SplitMetaNamespaceKey E key = Some (ns, name)"
    and "fst (run_state (ListerFip E ns name) s) = Inr fip" and "\<not> f_deleted fip"
    and "finalizerName \<notin> set (f_finalizers fip)"
  shows "R (sys_ipam s) (sys_ipam (snd (run_state (syncFip E key) s)))"
proof -
  have c: "\<not> containsString fs x" if "x \<notin> set fs" for fs x using that by (induction fs) auto
  obtain s1 where s1: "run_state (ListerFip E ns name) s = (Inr fip, s1)" using assms(4) by (metis prod.collapse)
  let ?m = "do { e \<leftarrow> ApplyFinalizersFip E ns (f_name fip) (f_finalizers fip @ [finalizerName]);
    State_Monad.return (map_option (wrap (''failed to add finalizer to floatingip '' @ fip_key fip)) e) }"
  have "run_state (syncFip E key) s = run_state ?m s1"
    using s1 assms(3,5) c [OF assms(6)] by (simp add: syncFip_def)
  moreover have "env_rel R ?m" by (intro rel_intro assms(1) env_ok_calls [OF assms(2)])
  ultimately have "R (sys_ipam s1) (sys_ipam (snd (run_state (syncFip E key) s)))"
    by (simp add: env_rel_def state_io_rel_def)
  moreover have "R (sys_ipam s) (sys_ipam s1)" by (rule env_rel_run [OF env_ok_calls(11) [OF assms(2)] s1])
  ultimately show ?thesis using assms(1) by (auto simp: preorder_rel_def transp_def)
qed

theorem no_claim_before_finalizer_witness:
  "sys_ipam (snd (run_state (syncFip mem_env ''ns/b'')
     (sys_b\<lparr>sys_world := mem_b\<lparr>m_fips := [((''ns'', ''b''), fip_b\<lparr>f_finalizers := []\<rparr>)]\<rparr>\<rparr>))) = lab1"
proof -
  let ?s = "sys_b\<lparr>sys_world := mem_b\<lparr>m_fips := [((''ns'', ''b''), fip_b\<lparr>f_finalizers := []\<rparr>)]\<rparr>\<rparr>"
  have sp: "SplitMetaNamespaceKey mem_env ''ns/b'' = Some (''ns'', ''b'')" by code_simp
  have ls: "fst (run_state (ListerFip mem_env ''ns'' ''b'') ?s) = Inr (fip_b\<lparr>f_finalizers := []\<rparr>)" by code_simp
  have E: "env_ok (=) mem_env" by (rule mem_env_ok) (simp add: reflp_def)
  have P: "preorder_rel ((=) :: IPAllocator \<Rightarrow> _)" by (auto simp: preorder_rel_def reflp_def transp_def)
  have "\<not> f_deleted (fip_b\<lparr>f_finalizers := []\<rparr>)" "finalizerName \<notin> set (f_finalizers (fip_b\<lparr>f_finalizers := []\<rparr>))"
    by (simp_all add: fip_b_def)
  from no_claim_before_finalizer [OF P E sp ls this] show ?thesis by (simp add: sys_b_def)
qed

section \<open>The quota's books\<close>

text \<open>The used counter of a pool in a quota's status is the number of addresses recorded for it.\<close>

definition info_ok :: "FipInfo \<Rightarrow> bool" where
  "info_ok fi \<longleftrightarrow> distinct (keys (mof (fi_allocated fi))) \<and> fi_used fi = int (length (mof (fi_allocated fi)))"

definition quota_ok :: "FloatingIPProjectQuota \<Rightarrow> bool" where
  "quota_ok q \<longleftrightarrow> (\<forall>pool fi. map_of (mof (q_fips q)) pool = Some (Some fi) \<longrightarrow> info_ok fi)"

lemma length_update_new: "map_of m k = None \<Longrightarrow> length (AList.update k v m) = Suc (length m)"
  by (simp add: map_of_None_keys update_fresh)

lemma length_delete:
  assumes "distinct (keys m)" "map_of m k \<noteq> None"
  shows "Suc (length (AList.delete k m)) = length m"
proof -
  have d: "distinct (keys (AList.delete k m))" using assms(1) by (rule distinct_keys_delete)
  have k: "k \<in> set (keys m)" using assms(2) unfolding map_of_None_keys by simp
  have "set (keys (AList.delete k m)) = set (keys m) - {k}" unfolding keys_delete by fastforce
  then show ?thesis
    using card_Suc_Diff1 [OF _ k] distinct_card [OF assms(1)] distinct_card [OF d] by simp
qed

text \<open>
  The quota's books balance: recording an allocation, whether or not the address was already
  there, and taking a recorded address out again both keep the used counter equal to the number
  of recorded addresses; after recording, the address is there with its cluster and nothing else
  of the map changed, and taking a new address out again restores the old map and counter.
\<close>

theorem quota_books_balance:
  assumes "quota_ok q"
  shows "quota_ok (set_quota_info q pool (recorded_info q pool p ip cluster)) \<and>
    map_of (mof (fi_allocated (recorded_info q pool p ip cluster))) =
      (case quota_alloc q pool of None \<Rightarrow> [ip \<mapsto> cluster] | Some (fi, m) \<Rightarrow> (map_of m)(ip \<mapsto> cluster)) \<and>
    (\<forall>fi. map_of (mof (q_fips q)) pool = Some (Some fi) \<and> map_of (mof (fi_allocated fi)) ip \<noteq> None \<longrightarrow>
      quota_ok (set_quota_info q pool (unrecorded_info fi ip)))"
proof (intro conjI allI impI)
  have i: "info_ok fi" if "map_of (mof (q_fips q)) pool = Some (Some fi)" for fi
    using assms that by (auto simp: quota_ok_def)
  have "length (AList.update ip cluster m) = (if map_of m ip = None then Suc (length m) else length m)" for m
    using length_update_new [of m ip cluster] length_update [of ip m cluster] by (auto simp: map_of_None_keys)
  then have "info_ok (recorded_info q pool p ip cluster)"
    using i by (auto simp: recorded_info_def Let_def info_ok_def distinct_keys_update split: option.splits)
  then show "quota_ok (set_quota_info q pool (recorded_info q pool p ip cluster))"
    using assms by (auto simp: quota_ok_def set_quota_info_def)
  show "map_of (mof (fi_allocated (recorded_info q pool p ip cluster))) =
      (case quota_alloc q pool of None \<Rightarrow> [ip \<mapsto> cluster] | Some (fi, m) \<Rightarrow> (map_of m)(ip \<mapsto> cluster))"
    by (auto simp: recorded_info_def Let_def quota_alloc_def mof_def split: option.splits)
  fix fi assume fi: "map_of (mof (q_fips q)) pool = Some (Some fi) \<and> map_of (mof (fi_allocated fi)) ip \<noteq> None"
  then obtain m where m: "fi_allocated fi = Some m" by (cases "fi_allocated fi") auto
  have "info_ok (unrecorded_info fi ip)"
    using i [of fi] fi m length_delete [of m ip]
    by (auto simp: info_ok_def unrecorded_info_def distinct_keys_delete)
  then show "quota_ok (set_quota_info q pool (unrecorded_info fi ip))"
    using assms by (auto simp: quota_ok_def set_quota_info_def)
qed

theorem quota_books_balance_witness:
  "quota_ok (set_quota_info (the (map_of (m_quotas mem_b) ''proj'')) ''lab''
     (recorded_info (the (map_of (m_quotas mem_b) ''proj'')) ''lab'' pool_lab ''10.0.0.2'' ''c1''))"
proof -
  have "quota_ok (the (map_of (m_quotas mem_b) ''proj''))" by (simp add: quota_ok_def mem_b_def)
  from quota_books_balance [OF this] show ?thesis by blast
qed

section \<open>Conditions and keys\<close>

text \<open>
  The condition history stays bounded and current: after \<open>setCondition\<close> the last condition is
  the new one, a repetition of the last condition adds nothing, an addition drops at most the
  oldest entry, and a history of at most 30 entries stays within 30.
\<close>

theorem setCondition_bounded:
  assumes "run_state (setCondition E cs c) s = (cs', s')"
  shows "cs' \<noteq> [] \<and> same_condition (last cs') c \<and>
    (length cs \<le> 30 \<longrightarrow> length cs' \<le> 30) \<and>
    (cs' = cs \<or> (\<exists>t. cs' = cs @ [c\<lparr>c_time := t\<rparr>] \<and> length cs < 30) \<or> (\<exists>t. cs' = tl cs @ [c\<lparr>c_time := t\<rparr>] \<and> 30 \<le> length cs))"
  using assms
  by (auto simp: setCondition_def push_condition_def maxConditions_def same_condition_def split: if_splits prod.splits)

theorem setCondition_bounded_witness:
  "length (fst (run_state (setCondition mem_env (replicate 30 (condition ''True'' ''R'' ''m'')) (condition ''False'' ''R'' ''m'')) sys_b)) \<le> 30"
proof -
  let ?m = "setCondition mem_env (replicate 30 (condition ''True'' ''R'' ''m'')) (condition ''False'' ''R'' ''m'')"
  have "run_state ?m sys_b = (fst (run_state ?m sys_b), snd (run_state ?m sys_b))" by simp
  from setCondition_bounded [OF this] show ?thesis by simp
qed

text \<open>
  Random strings: with a random source that works (it returns an index below its bound), the
  generated string has the requested length and only characters of the alphabet; when the
  random source fails there is no string: the code indexes one past the end of the alphabet.
\<close>

theorem GenerateRandomString_correct:
  "((\<forall>m t. 0 < m \<longrightarrow> (\<exists>k < m. fst (run_state (RandInt E m) t) = Some k)) \<longrightarrow>
     (\<exists>str. fst (run_state (GenerateRandomString E n) s) = Some str \<and> length str = n \<and> set str \<subseteq> set charset)) \<and>
   ((\<forall>m t. fst (run_state (RandInt E m) t) = None) \<longrightarrow> 0 < n \<longrightarrow>
     fst (run_state (GenerateRandomString E n) s) = None)"
proof (intro conjI impI)
  have pos: "0 < length charset" by (simp add: charset_def)
  assume good: "\<forall>m t. 0 < m \<longrightarrow> (\<exists>k < m. fst (run_state (RandInt E m) t) = Some k)"
  show "\<exists>str. fst (run_state (GenerateRandomString E n) s) = Some str \<and> length str = n \<and> set str \<subseteq> set charset"
  proof (induction n arbitrary: s)
    case (Suc n)
    obtain k s1 where k: "k < length charset" "run_state (RandInt E (length charset)) s = (Some k, s1)"
      using good pos by (metis prod.collapse)
    obtain str where "fst (run_state (GenerateRandomString E n) s1) = Some str \<and> length str = n \<and> set str \<subseteq> set charset"
      using Suc by blast
    with k show ?case by (auto simp: Let_def case_prod_beta)
  qed simp
next
  assume "\<forall>m t. fst (run_state (RandInt E m) t) = None" "0 < n"
  then show "fst (run_state (GenerateRandomString E n) s) = None"
    by (cases n) (simp_all add: case_prod_beta Let_def)
qed

theorem GenerateRandomString_correct_witness:
  "\<exists>str. fst (run_state (GenerateRandomString mem_env 12) sys_b) = Some str \<and> length str = 12"
proof -
  have "\<forall>m t. 0 < m \<longrightarrow> (\<exists>k < m. fst (run_state (RandInt mem_env m) t) = Some k)" by (auto simp: mem_env_def)
  then show ?thesis using GenerateRandomString_correct [of mem_env 12 sys_b] by blast
qed

end
