(* ===== verification/Pool_Controller.thy ===== *)
theory Pool_Controller
  imports Fip_Controller
begin

text \<open>
  The FloatingIPPool controller, \<open>pkg/controller/floatingippool/controller.go\<close>: it rebuilds the
  range of a pool in the address manager from the pool's spec and the statuses of the
  FloatingIPs, and writes the pool's status.
\<close>

text \<open>The name shown for an allocated address in the pool's status.\<close>

definition allocatedDisplayName :: "'w env \<Rightarrow> FloatingIP \<Rightarrow> ('w, string) act" where
  "allocatedDisplayName E fip =
     (case map_of (mof (f_labels fip)) projectNameLabel of
        None \<Rightarrow> State_Monad.return ''Unassigned''
      | Some projectName \<Rightarrow> do {
          r \<leftarrow> ListerQuota E projectName;
          State_Monad.return (case r of
             Inl e \<Rightarrow> projectName @ '' [Unassigned]''
           | Inr q \<Rightarrow> projectName @ '' ['' @ q_display q @ '']'')
        })"

text \<open>The loop over the FloatingIPs: the addresses and the display names of this pool's live allocations.\<close>

fun collectAllocations ::
  "'w env \<Rightarrow> string \<Rightarrow> FloatingIP list \<Rightarrow> string list \<Rightarrow> (string, string) gomap \<Rightarrow>
   ('w, string list \<times> (string, string) gomap) act" where
  "collectAllocations E pool [] ips m = State_Monad.return (ips, m)"
| "collectAllocations E pool (fip # fips) ips m =
     (if f_pool fip = pool \<and> \<not> f_deleted fip \<and> f_ip fip \<noteq> [] then do {
        d \<leftarrow> allocatedDisplayName E fip;
        collectAllocations E pool fips (ips @ [f_ip fip]) (AList.update (f_ip fip) d m)
      }
      else collectAllocations E pool fips ips m)"

definition excludedMap :: "string list \<Rightarrow> (string, string) gomap" where
  "excludedMap ex = foldl (\<lambda>m ip. AList.update ip ''excluded'' m) [] ex"

definition writePoolStatus :: "'w env \<Rightarrow> string \<Rightarrow> (string, string) gomap \<Rightarrow> ('w, kerr option) act" where
  "writePoolStatus E name allocatedMap = do {
     r \<leftarrow> GetPool E name;
     case r of
       Inl e \<Rightarrow> State_Monad.return (Some (wrap (''failed to get latest version of fip pool '' @ name) e))
     | Inr p \<Rightarrow> do {
         u \<leftarrow> ipam_Used name;
         a \<leftarrow> ipam_Available name;
         UpdateStatusPool E (p\<lparr>p_allocated := Some allocatedMap, p_used := int u, p_available := int a\<rparr>)
       }
   }"

definition syncPoolConfig :: "'w env \<Rightarrow> string \<Rightarrow> IPConfig \<Rightarrow> ('w, kerr option) act" where
  "syncPoolConfig E name c = do {
     r \<leftarrow> ListerFips E;
     case r of
       Inl e \<Rightarrow> State_Monad.return (Some (wrap ''failed to list floatingips'' e))
     | Inr fips \<Rightarrow> do {
         (ips, m) \<leftarrow> collectAllocations E name fips [] (excludedMap (Pool_Exclude c));
         e1 \<leftarrow> ipam_RefreshSubnet name (Subnet c) (Pool_Start c) (Pool_End c) (Pool_Exclude c) ips;
         case e1 of
           Some e \<Rightarrow> State_Monad.return (Some (wrap (''failed to refresh subnet for pool '' @ name) e))
         | None \<Rightarrow> do {
             e2 \<leftarrow> RetryOnConflict E (writePoolStatus E name m);
             State_Monad.return (map_option (wrap (''failed to update fip pool status for '' @ name)) e2)
           }
       }
   }"

definition syncPool :: "'w env \<Rightarrow> string \<Rightarrow> ('w, kerr option) act" where
  "syncPool E key =
     (case SplitMetaNamespaceKey E key of
        None \<Rightarrow> State_Monad.return None
      | Some (ns, name) \<Rightarrow> do {
          r \<leftarrow> ListerPool E name;
          case r of
            Inl e \<Rightarrow> State_Monad.return (if IsNotFound e then None else Some e)
          | Inr pool \<Rightarrow>
              (case p_config pool of
                 None \<Rightarrow> State_Monad.return None
               | Some c \<Rightarrow> syncPoolConfig E (p_name pool) c)
        })"

text \<open>The object of a delete event: the pool, a tombstone that may hold one, or something else.\<close>

datatype pool_event = EventPool FloatingIPPool | EventTombstone "FloatingIPPool option" | EventOther

definition handleFipPoolDelete :: "pool_event \<Rightarrow> ('w, unit) act" where
  "handleFipPoolDelete obj =
     (case obj of
        EventPool p \<Rightarrow> ipam_DeleteSubnet (p_name p)
      | EventTombstone (Some p) \<Rightarrow> ipam_DeleteSubnet (p_name p)
      | EventTombstone None \<Rightarrow> State_Monad.return ()
      | EventOther \<Rightarrow> State_Monad.return ())"

section \<open>What the loop collects\<close>

definition live_ips :: "string \<Rightarrow> FloatingIP list \<Rightarrow> string list" where
  "live_ips pool fips = map f_ip (filter (\<lambda>f. f_pool f = pool \<and> \<not> f_deleted f \<and> f_ip f \<noteq> []) fips)"

lemma collectAllocations_spec:
  "run_state (collectAllocations E pool fips ips m) s = ((ips', m'), s') \<Longrightarrow>
   ips' = ips @ live_ips pool fips \<and> set (keys m') = set (keys m) \<union> set (live_ips pool fips)"
proof (induction fips arbitrary: ips m s)
  case (Cons f fips)
  show ?case
  proof (cases "f_pool f = pool \<and> \<not> f_deleted f \<and> f_ip f \<noteq> []")
    case True
    with Cons.prems obtain d s1 where
      "run_state (collectAllocations E pool fips (ips @ [f_ip f]) (AList.update (f_ip f) d m)) s1 = ((ips', m'), s')"
      by (auto split: prod.splits)
    from Cons.IH [OF this] True show ?thesis by (simp add: live_ips_def fst_set_update)
  next
    case False
    then have "live_ips pool (f # fips) = live_ips pool fips" by (auto simp: live_ips_def)
    moreover have "run_state (collectAllocations E pool fips ips m) s = ((ips', m'), s')"
      using Cons.prems False by (simp split: if_splits)
    ultimately show ?thesis using Cons.IH by simp
  qed
qed (simp add: live_ips_def)

lemma keys_excludedMap: "set (keys (excludedMap ex)) = set ex"
proof -
  have "set (keys (foldl (\<lambda>m ip. AList.update ip ''excluded'' m) m ex)) = set (keys m) \<union> set ex" for m
    by (induction ex arbitrary: m) (auto simp: fst_set_update)
  then show ?thesis by (simp add: excludedMap_def)
qed

lemma collectAllocations_rel:
  assumes R: "preorder_rel R" "env_ok R E"
  shows "env_rel R (collectAllocations E pool fips ips m)"
proof (induction fips arbitrary: ips m)
  case (Cons f fips)
  have "env_rel R (allocatedDisplayName E f)"
    unfolding allocatedDisplayName_def by (intro rel_intro R env_ok_calls [OF R(2)])
  with Cons R show ?case by (auto intro!: rel_intro)
qed (simp add: rel_intro R)

lemma writePoolStatus_rel: "preorder_rel R \<Longrightarrow> env_ok R E \<Longrightarrow> env_rel R (writePoolStatus E name m)"
  unfolding writePoolStatus_def by (intro rel_intro env_ok_calls)

section \<open>Properties\<close>

lemma syncPoolConfig_run:
  assumes E: "env_ok (=) E" and r: "run_state (syncPoolConfig E name c) s = (r, s')"
    and l: "fst (run_state (ListerFips E) s) = Inr fips"
  shows "case RefreshSubnet (sys_ipam s) name (Subnet c) (Pool_Start c) (Pool_End c) (Pool_Exclude c) (live_ips name fips) of
      None \<Rightarrow> sys_ipam s' = sys_ipam s \<and> r = Some Hangs
    | Some (a, Some e) \<Rightarrow> sys_ipam s' = sys_ipam s \<and> r = Some (wrap (''failed to refresh subnet for pool '' @ name) (IpamErr e))
    | Some (a, None) \<Rightarrow> sys_ipam s' = a"
proof -
  have eq: "preorder_rel ((=) :: IPAllocator \<Rightarrow> _)" by (auto simp: preorder_rel_def reflp_def transp_def)
  obtain s1 where s1: "run_state (ListerFips E) s = (Inr fips, s1)" using l by (metis prod.collapse)
  obtain ips m s2 where s2: "run_state (collectAllocations E name fips [] (excludedMap (Pool_Exclude c))) s1 = ((ips, m), s2)"
    by (metis prod.collapse)
  have ips: "ips = live_ips name fips" using collectAllocations_spec [OF s2] by simp
  have i: "sys_ipam s2 = sys_ipam s"
    using env_rel_run [OF env_ok_calls(12) [OF E] s1] env_rel_run [OF collectAllocations_rel [OF eq E] s2] by simp
  let ?R = "RefreshSubnet (sys_ipam s) name (Subnet c) (Pool_Start c) (Pool_End c) (Pool_Exclude c) (live_ips name fips)"
  let ?m = "do { e2 \<leftarrow> RetryOnConflict E (writePoolStatus E name m);
    State_Monad.return (map_option (wrap (''failed to update fip pool status for '' @ name)) e2) }"
  have ok: "env_rel (=) ?m" by (intro rel_intro eq env_rel_retry [OF E] writePoolStatus_rel E)
  show ?thesis
  proof (cases ?R)
    case None
    then show ?thesis using r s1 s2 ips i by (auto simp: syncPoolConfig_def ipam_RefreshSubnet_def wrap_def)
  next
    case (Some p)
    obtain a e where p: "p = (a, e)" by (cases p)
    show ?thesis
    proof (cases e)
      case (Some e')
      moreover have "a = sys_ipam s" using RefreshSubnet_error \<open>?R = Some p\<close> p Some by blast
      ultimately show ?thesis
        using r s1 s2 ips i \<open>?R = Some p\<close> p by (auto simp: syncPoolConfig_def ipam_RefreshSubnet_def)
    next
      case None
      then have "run_state ?m (s2\<lparr>sys_ipam := a\<rparr>) = (r, s')"
        using r s1 s2 ips i \<open>?R = Some p\<close> p by (simp add: syncPoolConfig_def ipam_RefreshSubnet_def)
      from env_rel_run [OF ok this] have "sys_ipam s' = a" by simp
      with None \<open>?R = Some p\<close> p show ?thesis by simp
    qed
  qed
qed

end
