(* ===== verification/Pool_Props.thy ===== *)
theory Pool_Props
  imports Pool_Controller Fip_Props
begin

text \<open>Properties of the FloatingIPPool controller.\<close>

text \<open>
  C25. Syncing an IPv4 pool brings the address manager in line with the cluster and with the owned claims it already has: assume a configuration that passes the
  checks of the range, with all excludes inside it, a cached list of FloatingIPs that answers the same throughout, and no interference with the address manager. After the
  handler ran (even when the write of the status fails) an address outside the range is unclaimed; an address of the range that an owner held
  before is carried over with its owner; any other address of the range that is excluded, or is the
  status address of a FloatingIP of the pool that is not being deleted, is claimed without an owner; and nothing else is claimed.
\<close>

theorem syncPool_exact:
  assumes "env_ok (=) E" and "ipam_reach (sys_ipam s)" and "SplitMetaNamespaceKey E key = Some (ns, name)"
    and "fst (run_state (ListerPool E name) s) = Inr pool" and "p_config pool = Some c"
    and "\<And>t. fst (run_state (ListerFips E) t) = Inr fips"
    and "build_checks (Subnet c) (Pool_Start c) (Pool_End c) p sa ea" and "Is4 (pip p)" and "aval ea \<noteq> top128 - 1"
    and "\<forall>ip \<in> set (Pool_Exclude c). ip \<in> ipkey ` {aval sa..aval ea}"
  shows "claim_in (sys_ipam (snd (run_state (syncPool E key) s))) (p_name pool) ip =
    (if ip \<notin> ipkey ` {aval sa..aval ea} then None
     else if \<exists>o'. holds (sys_ipam s) (p_name pool) ip o' then claim_in (sys_ipam s) (p_name pool) ip
     else if ip \<in> set (Pool_Exclude c) \<union>
            {f_ip f | f. f \<in> set fips \<and> f_pool f = p_name pool \<and> \<not> f_deleted f \<and> f_ip f \<noteq> []} then Some []
     else None)"
proof -
  obtain s1 where s1: "run_state (ListerPool E name) s = (Inr pool, s1)" using assms(4) by (metis prod.collapse)
  have i1: "sys_ipam s1 = sys_ipam s" using env_rel_run [OF env_ok_calls(13) [OF assms(1)] s1] by simp
  obtain r s' where r: "run_state (syncPoolConfig E (p_name pool) c) s1 = (r, s')"
    by (cases "run_state (syncPoolConfig E (p_name pool) c) s1")
  have run: "run_state (syncPool E key) s = (r, s')" using assms(3,5) s1 r by (simp add: syncPool_def)
  from refresh_exact [OF assms(2,7-9), of "p_name pool" "Pool_Exclude c" "live_ips (p_name pool) fips"]
  obtain a' where a': "RefreshSubnet (sys_ipam s) (p_name pool) (Subnet c) (Pool_Start c) (Pool_End c) (Pool_Exclude c)
      (live_ips (p_name pool) fips) = Some (a', None)"
    and cl: "claim_in a' (p_name pool) ip =
        (if ip \<notin> ipkey ` {aval sa..aval ea} then None
         else if \<exists>o'. holds (sys_ipam s) (p_name pool) ip o' then claim_in (sys_ipam s) (p_name pool) ip
         else if ip \<in> set (Pool_Exclude c) \<union> set (live_ips (p_name pool) fips) then Some [] else None)"
    using assms(10) by auto
  have "sys_ipam s' = a'"
    using syncPoolConfig_run [OF assms(1) r assms(6)] a' i1 by simp
  then have "sys_ipam (snd (run_state (syncPool E key) s)) = a'" using run by simp
  moreover have live: "set (live_ips (p_name pool) fips) =
      {f_ip f | f. f \<in> set fips \<and> f_pool f = p_name pool \<and> \<not> f_deleted f \<and> f_ip f \<noteq> []}"
    by (auto simp: live_ips_def)
  ultimately show ?thesis using cl unfolding live by presburger
qed

definition config_lab :: IPConfig where
  "config_lab = \<lparr>Family = ''IPv4'', Subnet = ''10.0.0.0/29'', Pool_Start = ''10.0.0.1'', Pool_End = ''10.0.0.3'',
     Pool_Exclude = [''10.0.0.1'']\<rparr>"

definition sys_p :: "mem sys" where
  "sys_p = \<lparr>sys_ipam = lab1, sys_world = mem_b\<lparr>m_fips := [((''ns'', ''c''), fip_b\<lparr>f_name := ''c'', f_ip := ''10.0.0.3''\<rparr>)],
     m_pools := [(''lab'', pool_lab\<lparr>p_config := Some config_lab\<rparr>)]\<rparr>\<rparr>"

definition fixed_env :: "mem env" where
  "fixed_env = mem_env\<lparr>ListerFips := State_Monad.return (Inr [fip_b\<lparr>f_name := ''c'', f_ip := ''10.0.0.3''\<rparr>])\<rparr>"

lemma fixed_env_ok: "reflp R \<Longrightarrow> env_ok R fixed_env"
  using mem_env_ok [of R] by (auto simp: env_ok_def fixed_env_def retry_ok_def env_rel_def state_io_rel_def reflp_def)

theorem syncPool_exact_witness:
  "claim_in (sys_ipam (snd (run_state (syncPool fixed_env ''lab'') sys_p))) ''lab'' ''10.0.0.2'' = Some ''ns/a''"
proof -
  have E: "env_ok (=) fixed_env" by (rule fixed_env_ok) (simp add: reflp_def)
  have reach: "ipam_reach (sys_ipam sys_p)" by (simp add: sys_p_def lab1_reach)
  have sp: "SplitMetaNamespaceKey fixed_env ''lab'' = Some ([], ''lab'')" by code_simp
  let ?p = "pool_lab\<lparr>p_config := Some config_lab\<rparr>"
  have lp: "fst (run_state (ListerPool fixed_env ''lab'') sys_p) = Inr ?p" by code_simp
  have pc: "p_config ?p = Some config_lab" by simp
  have lf: "fst (run_state (ListerFips fixed_env) t) = Inr [fip_b\<lparr>f_name := ''c'', f_ip := ''10.0.0.3''\<rparr>]" for t
    by (simp add: fixed_env_def)
  have c: "build_checks (Subnet config_lab) (Pool_Start config_lab) (Pool_End config_lab) (Prefix (AddrFrom4 0x0a000000) 29)
      (AddrFrom4 0x0a000001) (AddrFrom4 0x0a000003)" by code_simp
  have i4: "Is4 (pip (Prefix (AddrFrom4 0x0a000000) 29))" by code_simp
  have ne: "aval (AddrFrom4 0x0a000003) \<noteq> top128 - 1" by (simp add: AddrFrom4_def)
  have k: "''10.0.0.1'' = ipkey 0xffff0a000001" "''10.0.0.2'' = ipkey 0xffff0a000002" by code_simp+
  have ex: "\<forall>ip \<in> set (Pool_Exclude config_lab). ip \<in> ipkey ` {aval (AddrFrom4 0x0a000001)..aval (AddrFrom4 0x0a000003)}"
    unfolding config_lab_def k by (simp add: AddrFrom4_def)
  have two: "''10.0.0.2'' \<in> ipkey ` {aval (AddrFrom4 0x0a000001)..aval (AddrFrom4 0x0a000003)}"
    unfolding k(2) by (rule imageI) (simp add: AddrFrom4_def)
  have h: "claim_in (sys_ipam sys_p) ''lab'' ''10.0.0.2'' = Some ''ns/a''" by code_simp
  then have "\<exists>o'. holds (sys_ipam sys_p) ''lab'' ''10.0.0.2'' o'" by (simp add: holds_def)
  with syncPool_exact [OF E reach sp lp pc lf c i4 ne ex, of "''10.0.0.2''"] two h show ?thesis
    by (simp add: pool_lab_def)
qed

text \<open>
  A pool sync never revokes a live claim inside the pool's range: an owner that holds an address
  before the sync of any pool holds it afterwards, provided the range that the pool's spec
  describes still contains the address, and whatever happens to the API calls.
\<close>

theorem syncPool_keeps_claims:
  assumes "env_ok (keeps n ip owner) E" and "ipam_reach (sys_ipam s)" and "holds (sys_ipam s) n ip owner"
    and "\<And>name t pool c. fst (run_state (ListerPool E name) t) = Inr pool \<Longrightarrow> p_config pool = Some c \<Longrightarrow>
      p_name pool = n \<Longrightarrow> case buildSubnet (Subnet c) (Pool_Start c) (Pool_End c) of
        Some (Inr sub) \<Rightarrow> markable sub ip | _ \<Rightarrow> True"
  shows "holds (sys_ipam (snd (run_state (syncPool E key) s))) n ip owner"
proof -
  note R = keeps_preorder assms(1)
  have refresh: "env_rel (keeps n ip owner) (ipam_RefreshSubnet m sub st en ex al)"
    if "spares n ip owner (CallRefreshSubnet m sub st en ex al)" for m sub st en ex al
  proof -
    have "keeps n ip owner a a'" if "RefreshSubnet a m sub st en ex al = Some (a', r)" for a a' r
      by (rule keeps_call [OF _ \<open>spares n ip owner (CallRefreshSubnet m sub st en ex al)\<close>]) (simp add: that)
    then show ?thesis
      by (auto simp: env_rel_def state_io_rel_def ipam_RefreshSubnet_def keeps_def split: option.splits)
  qed
  have cfg: "env_rel (keeps n ip owner) (syncPoolConfig E m c)"
    if "\<And>ex al. spares n ip owner (CallRefreshSubnet m (Subnet c) (Pool_Start c) (Pool_End c) ex al)" for m c
    unfolding syncPoolConfig_def
    by (intro rel_intro R env_ok_calls [OF R(2)] collectAllocations_rel [OF R] writePoolStatus_rel [OF R]
        env_rel_retry [OF R(2)] refresh that)
  show ?thesis
  proof (cases "SplitMetaNamespaceKey E key")
    case None
    with assms(3) show ?thesis by (simp add: syncPool_def)
  next
    case (Some k)
    obtain ns name where k: "k = (ns, name)" by (cases k)
    obtain x s1 where s1: "run_state (ListerPool E name) s = (x, s1)" by (cases "run_state (ListerPool E name) s")
    have h1: "ipam_reach (sys_ipam s1)" "holds (sys_ipam s1) n ip owner"
      using env_rel_run [OF env_ok_calls(13) [OF assms(1)] s1] assms(2,3) by (auto simp: keeps_def)
    show ?thesis
    proof (cases "\<exists>pool c. x = Inr pool \<and> p_config pool = Some c")
      case True
      then obtain pool c where x: "x = Inr pool" "p_config pool = Some c" by blast
      have "env_rel (keeps n ip owner) (syncPoolConfig E (p_name pool) c)"
        using assms(4) [of name s pool c] s1 x by (intro cfg) auto
      moreover have "snd (run_state (syncPool E key) s) = snd (run_state (syncPoolConfig E (p_name pool) c) s1)"
        using Some k s1 x by (simp add: syncPool_def)
      ultimately show ?thesis using h1 by (auto simp: env_rel_def state_io_rel_def keeps_def)
    next
      case False
      then have "snd (run_state (syncPool E key) s) = s1"
        using Some k s1 by (cases x) (auto simp: syncPool_def split: option.splits)
      with h1 show ?thesis by simp
    qed
  qed
qed

theorem syncPool_keeps_claims_witness:
  "holds (sys_ipam (snd (run_state (syncPool (mem_env\<lparr>ListerPool := \<lambda>n. State_Monad.return (Inr (pool_lab\<lparr>p_config := Some config_lab\<rparr>))\<rparr>)
     ''lab'') sys_p))) ''lab'' ''10.0.0.2'' ''ns/a''"
proof -
  let ?E = "mem_env\<lparr>ListerPool := \<lambda>n. State_Monad.return (Inr (pool_lab\<lparr>p_config := Some config_lab\<rparr>))\<rparr>"
  have E: "env_ok (keeps ''lab'' ''10.0.0.2'' ''ns/a'') ?E"
    using keeps_mem_env [of "''lab''" "''10.0.0.2''" "''ns/a''"]
    by (auto simp: env_ok_def retry_ok_def env_rel_def state_io_rel_def keeps_def)
  have reach: "ipam_reach (sys_ipam sys_p)" by (simp add: sys_p_def lab1_reach)
  have h: "holds (sys_ipam sys_p) ''lab'' ''10.0.0.2'' ''ns/a''" by code_simp
  have m: "case buildSubnet (Subnet config_lab) (Pool_Start config_lab) (Pool_End config_lab) of
        Some (Inr sub) \<Rightarrow> markable sub ''10.0.0.2'' | _ \<Rightarrow> True" by code_simp
  show ?thesis by (rule syncPool_keeps_claims [OF E reach h]) (use m in auto)
qed

end
