(* ===== verification/Quota_Controller.thy ===== *)
theory Quota_Controller
  imports Fip_Controller
begin

text \<open>
  The FloatingIPProjectQuota controller, \<open>pkg/controller/floatingipprojectquota/controller.go\<close>: it
  rebuilds the status of a project's quota from the FloatingIPs of the project and cascades the
  deletion of a quota to them. The controller's own state is the number of cascade passes per key
  (\<open>cascadeRetries\<close>); the calls of \<open>cascadeEnqueueAfter\<close> are recorded with their delay.
\<close>

section \<open>State and pacing\<close>

record quota_ctl =
  cascadeRetries :: "(string, nat) gomap"
  enqueuedAfter :: "(string \<times> nat) list"

abbreviation quotaFinalizerName :: string where
  "quotaFinalizerName \<equiv> ''rancher.k8s.binbash.org/floatingipprojectquota-cleanup''"

text \<open>Durations are nanoseconds, as in Go's \<open>time.Duration\<close>.\<close>

definition cascadeRetryBaseDelay :: nat where
  "cascadeRetryBaseDelay = 2000000000"

definition cascadeRetryMaxDelay :: nat where
  "cascadeRetryMaxDelay = 30000000000"

function delay_loop :: "nat \<Rightarrow> nat \<Rightarrow> nat \<Rightarrow> nat" where
  "delay_loop i attempt delay =
     (if i < attempt \<and> delay < cascadeRetryMaxDelay then delay_loop (Suc i) attempt (delay * 2) else delay)"
  by pat_completeness auto
termination
  by (relation "measure (\<lambda>(i, attempt, delay). attempt - i)") auto

declare delay_loop.simps [simp del]

definition cascadeRetryDelay :: "nat \<Rightarrow> nat" where
  "cascadeRetryDelay attempt =
     (let delay = delay_loop 1 attempt cascadeRetryBaseDelay
      in if cascadeRetryMaxDelay < delay then cascadeRetryMaxDelay else delay)"

section \<open>Rebuilding the status\<close>

definition poolFamily :: "'w env \<Rightarrow> string \<Rightarrow> ('w, string) act" where
  "poolFamily E poolName = do {
     r \<leftarrow> ListerPool E poolName;
     State_Monad.return (case r of
        Inl e \<Rightarrow> []
      | Inr pool \<Rightarrow> (case p_config pool of None \<Rightarrow> [] | Some c \<Rightarrow> Family c))
   }"

text \<open>What one FloatingIP adds to the entry of its pool.\<close>

definition count_fip :: "FloatingIP \<Rightarrow> FipInfo \<Rightarrow> FipInfo" where
  "count_fip fip fi =
     (if f_ip fip = [] then fi
      else fi\<lparr>fi_allocated := Some (AList.update (f_ip fip) (cluster_or_unassigned fip) (mof (fi_allocated fi))),
              fi_used := fi_used fi + 1\<rparr>)"

fun rebuildStatus ::
  "'w env \<Rightarrow> string \<Rightarrow> FloatingIP list \<Rightarrow> (string, FipInfo option) gomap \<Rightarrow> ('w, (string, FipInfo option) gomap) act" where
  "rebuildStatus E name [] m = State_Monad.return m"
| "rebuildStatus E name (fip # fips) m =
     (if map_of (mof (f_labels fip)) projectNameLabel \<noteq> Some name \<or> f_pool fip = []
      then rebuildStatus E name fips m
      else do {
        fi \<leftarrow> (case map_of m (f_pool fip) of
           Some (Some fi) \<Rightarrow> State_Monad.return fi
         | _ \<Rightarrow> do {
             fam \<leftarrow> poolFamily E (f_pool fip);
             State_Monad.return \<lparr>fi_family = fam, fi_allocated = Some [], fi_used = 0\<rparr>
           });
        rebuildStatus E name fips (AList.update (f_pool fip) (Some (count_fip fip fi)) m)
      })"

text \<open>\<open>reflect.DeepEqual\<close> on the status: maps are equal when they have the same entries; \<open>nil\<close> and empty differ.\<close>

definition gomap_eq :: "('v \<Rightarrow> 'v \<Rightarrow> bool) \<Rightarrow> ('k, 'v) gomap \<Rightarrow> ('k, 'v) gomap \<Rightarrow> bool" where
  "gomap_eq eq m m' \<longleftrightarrow> length m = length m' \<and>
     list_all (\<lambda>(k, v). case map_of m' k of None \<Rightarrow> False | Some v' \<Rightarrow> eq v v') m"

definition nilable_eq :: "('a \<Rightarrow> 'a \<Rightarrow> bool) \<Rightarrow> 'a option \<Rightarrow> 'a option \<Rightarrow> bool" where
  "nilable_eq eq x y = (case (x, y) of (None, None) \<Rightarrow> True | (Some a, Some b) \<Rightarrow> eq a b | _ \<Rightarrow> False)"

definition info_eq :: "FipInfo \<Rightarrow> FipInfo \<Rightarrow> bool" where
  "info_eq a b \<longleftrightarrow> fi_family a = fi_family b \<and> fi_used a = fi_used b \<and>
     nilable_eq (gomap_eq (=)) (fi_allocated a) (fi_allocated b)"

definition status_eq :: "(string, FipInfo option) gomap option \<Rightarrow> (string, FipInfo option) gomap option \<Rightarrow> bool" where
  "status_eq = nilable_eq (gomap_eq (nilable_eq info_eq))"

section \<open>Deletion\<close>

text \<open>Deletes the attached FloatingIPs one after the other; the first error other than not-found ends the pass.\<close>

fun deleteAttached :: "'w env \<Rightarrow> string \<Rightarrow> FloatingIP list \<Rightarrow> ('w, kerr option) act" where
  "deleteAttached E name [] = State_Monad.return None"
| "deleteAttached E name (fip # fips) = do {
     r \<leftarrow> DeleteFip E (f_ns fip) (f_name fip);
     case r of
       None \<Rightarrow> deleteAttached E name fips
     | Some e \<Rightarrow>
         if IsNotFound e then deleteAttached E name fips
         else State_Monad.return (Some (wrap (''failed to delete floatingip '' @ fip_key fip @
                '' during FloatingIPProjectQuota '' @ name @ '' deletion'') e))
   }"

definition dropQuotaFinalizer :: "'w env \<Rightarrow> string \<Rightarrow> ('w, kerr option) act" where
  "dropQuotaFinalizer E name = do {
     r \<leftarrow> GetQuota E name;
     case r of
       Inl e \<Rightarrow> State_Monad.return (Some e)
     | Inr q \<Rightarrow> UpdateQuota E (q\<lparr>q_finalizers := removeString (q_finalizers q) quotaFinalizerName\<rparr>)
   }"

definition handleQuotaDelete :: "'w env \<Rightarrow> quota_ctl \<Rightarrow> string \<Rightarrow> string \<Rightarrow> ('w, kerr option \<times> quota_ctl) act" where
  "handleQuotaDelete E ctl key name = do {
     r \<leftarrow> ListerFipsBy E projectNameLabel name;
     case r of
       Inl e \<Rightarrow> State_Monad.return (Some (wrap (''failed to list floatingips for FloatingIPProjectQuota '' @ name) e), ctl)
     | Inr fips \<Rightarrow>
         if fips \<noteq> [] then do {
           e \<leftarrow> deleteAttached E name fips;
           case e of
             Some err \<Rightarrow> State_Monad.return (Some err, ctl)
           | None \<Rightarrow> do {
               let attempt = (case map_of (cascadeRetries ctl) key of None \<Rightarrow> 1 | Some prev \<Rightarrow> prev + 1);
               State_Monad.return (None, \<lparr>cascadeRetries = AList.update key attempt (cascadeRetries ctl),
                  enqueuedAfter = enqueuedAfter ctl @ [(key, cascadeRetryDelay attempt)]\<rparr>)
             }
         }
         else do {
           let ctl' = ctl\<lparr>cascadeRetries := AList.delete key (cascadeRetries ctl)\<rparr>;
           q \<leftarrow> GetQuota E name;
           case q of
             Inl e \<Rightarrow> State_Monad.return
               (if IsNotFound e then None else Some (wrap (''failed to get FloatingIPProjectQuota '' @ name) e), ctl')
           | Inr quota \<Rightarrow>
               if \<not> containsString (q_finalizers quota) quotaFinalizerName then State_Monad.return (None, ctl')
               else do {
                 e \<leftarrow> RetryOnConflict E (dropQuotaFinalizer E name);
                 State_Monad.return (map_option (wrap (''failed to remove finalizer from FloatingIPProjectQuota '' @ name)) e, ctl')
               }
         }
   }"

section \<open>The sync handler\<close>

definition rebuildQuota :: "'w env \<Rightarrow> string \<Rightarrow> FloatingIPProjectQuota \<Rightarrow> ('w, kerr option) act" where
  "rebuildQuota E name quota = do {
     r \<leftarrow> ListerFips E;
     case r of
       Inl e \<Rightarrow> State_Monad.return (Some (wrap ''failed to list floatingips'' e))
     | Inr fips \<Rightarrow> do {
         m \<leftarrow> rebuildStatus E name fips [];
         if status_eq (q_fips quota) (Some m) then State_Monad.return None
         else do {
           e \<leftarrow> UpdateStatusQuota E (quota\<lparr>q_fips := Some m\<rparr>);
           State_Monad.return (map_option (wrap (''could not update status for FloatingIPProjectQuota '' @ name)) e)
         }
       }
   }"

definition syncQuota :: "'w env \<Rightarrow> quota_ctl \<Rightarrow> string \<Rightarrow> ('w, kerr option \<times> quota_ctl) act" where
  "syncQuota E ctl key =
     (case SplitMetaNamespaceKey E key of
        None \<Rightarrow> State_Monad.return (None, ctl)
      | Some (ns, name) \<Rightarrow> do {
          r \<leftarrow> ListerQuota E name;
          case r of
            Inl e \<Rightarrow> State_Monad.return
              (if IsNotFound e then (None, ctl\<lparr>cascadeRetries := AList.delete key (cascadeRetries ctl)\<rparr>)
               else (Some e, ctl))
          | Inr quota \<Rightarrow>
              if q_deleted quota then handleQuotaDelete E ctl key name
              else if containsString (q_finalizers quota) quotaFinalizerName then do {
                e \<leftarrow> rebuildQuota E name quota;
                State_Monad.return (e, ctl)
              }
              else do {
                let quota' = quota\<lparr>q_finalizers := q_finalizers quota @ [quotaFinalizerName]\<rparr>;
                u \<leftarrow> UpdateQuota E quota';
                case u of
                  Some e \<Rightarrow> State_Monad.return (Some (wrap (''failed to add finalizer to FloatingIPProjectQuota '' @ name) e), ctl)
                | None \<Rightarrow> do {
                    e \<leftarrow> rebuildQuota E name quota';
                    State_Monad.return (e, ctl)
                  }
              }
        })"

end
