(* ===== verification/Quota_Props.thy ===== *)
theory Quota_Props
  imports Quota_Controller Fip_Props
begin

text \<open>Properties of the FloatingIPProjectQuota controller.\<close>

section \<open>Pacing of the cascade\<close>

lemma delay_loop_min:
  "min (delay_loop i attempt d) cascadeRetryMaxDelay = min (d * 2 ^ (attempt - i)) cascadeRetryMaxDelay"
proof (induction i attempt d rule: delay_loop.induct)
  case (1 i attempt d)
  show ?case
  proof (cases "i < attempt \<and> d < cascadeRetryMaxDelay")
    case True
    then have "attempt - i = Suc (attempt - Suc i)" by (simp add: Suc_diff_Suc)
    with True 1 show ?thesis by (subst delay_loop.simps) (simp add: mult.assoc)
  next
    case False
    then have "attempt - i = 0 \<or> cascadeRetryMaxDelay \<le> d" by auto
    moreover have "d \<le> d * 2 ^ (attempt - i)" by simp
    moreover have "delay_loop i attempt d = d" using False by (subst delay_loop.simps) auto
    ultimately show ?thesis by (metis le_trans min_absorb2 mult.right_neutral power_0)
  qed
qed

text \<open>
  The delay before the next cascade pass doubles from two seconds and is capped: pass number n
  waits 2^n seconds, at most 30 seconds, for every n from 1 on (in nanoseconds).
\<close>

theorem cascadeRetryDelay_exact:
  "1 \<le> attempt \<Longrightarrow> cascadeRetryDelay attempt = min (2 ^ attempt * 1000000000) 30000000000"
proof -
  assume "1 \<le> attempt"
  then obtain n where n: "attempt = Suc n" by (cases attempt) auto
  have "cascadeRetryDelay attempt = min (delay_loop 1 attempt cascadeRetryBaseDelay) cascadeRetryMaxDelay"
    by (simp add: cascadeRetryDelay_def Let_def min_def)
  also have "\<dots> = min (cascadeRetryBaseDelay * 2 ^ (attempt - 1)) cascadeRetryMaxDelay" by (rule delay_loop_min)
  also have "\<dots> = min (2 ^ attempt * 1000000000) 30000000000"
    using n by (simp add: cascadeRetryBaseDelay_def cascadeRetryMaxDelay_def)
  finally show ?thesis .
qed

theorem cascadeRetryDelay_exact_witness: "cascadeRetryDelay 4 = 16000000000"
  using cascadeRetryDelay_exact [of 4] by simp

section \<open>Rebuilding\<close>

text \<open>The FloatingIPs of the project in a pool.\<close>

definition project_fips :: "string \<Rightarrow> string \<Rightarrow> FloatingIP list \<Rightarrow> FloatingIP list" where
  "project_fips name pool fips =
     filter (\<lambda>f. map_of (mof (f_labels f)) projectNameLabel = Some name \<and> f_pool f = pool) fips"

definition empty_info :: "string \<Rightarrow> FipInfo" where
  "empty_info fam = \<lparr>fi_family = fam, fi_allocated = Some [], fi_used = 0\<rparr>"

lemma rebuildStatus_spec:
  "run_state (rebuildStatus E name fips m) s = (m', s') \<Longrightarrow> None \<notin> ran (map_of m) \<Longrightarrow> pool \<noteq> [] \<Longrightarrow>
   (project_fips name pool fips = [] \<longrightarrow> map_of m' pool = map_of m pool) \<and>
   (project_fips name pool fips \<noteq> [] \<longrightarrow> (\<exists>fam. map_of m' pool =
      Some (Some (fold count_fip (project_fips name pool fips)
        (case map_of m pool of Some (Some fi) \<Rightarrow> fi | _ \<Rightarrow> empty_info fam)))))"
proof (induction fips arbitrary: m s)
  case (Cons f fips)
  show ?case
  proof (cases "map_of (mof (f_labels f)) projectNameLabel \<noteq> Some name \<or> f_pool f = []")
    case True
    then have "run_state (rebuildStatus E name fips m) s = (m', s')" using Cons.prems(1) by simp
    moreover have "project_fips name pool (f # fips) = project_fips name pool fips"
      using True Cons.prems(3) by (auto simp: project_fips_def)
    ultimately show ?thesis using Cons.IH Cons.prems(2,3) by simp
  next
    case False
    then obtain fi s1 fam where fi: "fi = (case map_of m (f_pool f) of Some (Some fi) \<Rightarrow> fi | _ \<Rightarrow> empty_info fam)"
      and r: "run_state (rebuildStatus E name fips (AList.update (f_pool f) (Some (count_fip f fi)) m)) s1 = (m', s')"
      using Cons.prems(1) by (auto simp: empty_info_def split: option.splits prod.splits)
    have "None \<notin> ran (map_of (AList.update (f_pool f) (Some (count_fip f fi)) m))"
      using Cons.prems(2) by (auto simp: ran_def split: if_splits)
    note IH = Cons.IH [OF r this Cons.prems(3)]
    show ?thesis
    proof (cases "f_pool f = pool")
      case True
      then have p: "project_fips name pool (f # fips) = f # project_fips name pool fips"
        using False by (simp add: project_fips_def)
      have "map_of m' pool = Some (Some (fold count_fip (project_fips name pool fips) (count_fip f fi)))"
        using IH True by (cases "project_fips name pool fips = []") auto
      with p fi True show ?thesis by auto
    next
      case pool: False
      then have "project_fips name pool (f # fips) = project_fips name pool fips" by (simp add: project_fips_def)
      with IH pool show ?thesis by auto
    qed
  qed
qed (simp add: project_fips_def)

lemma fold_count_fip:
  "fi_allocated fi \<noteq> None \<Longrightarrow>
   fi_used (fold count_fip fs fi) = fi_used fi + int (length (filter (\<lambda>f. f_ip f \<noteq> []) fs)) \<and>
   fi_family (fold count_fip fs fi) = fi_family fi \<and>
   (\<exists>m. fi_allocated (fold count_fip fs fi) = Some m \<and>
     map_of m = map_of (mof (fi_allocated fi)) ++
       map_of (rev (map (\<lambda>f. (f_ip f, cluster_or_unassigned f)) (filter (\<lambda>f. f_ip f \<noteq> []) fs))))"
proof (induction fs arbitrary: fi)
  case (Cons f fs)
  have "fi_allocated (count_fip f fi) \<noteq> None" using Cons.prems by (auto simp: count_fip_def)
  note IH = Cons.IH [OF this]
  show ?case
  proof (cases "f_ip f = []")
    case True
    with IH show ?thesis by (simp add: count_fip_def)
  next
    case False
    then have c: "map_of (mof (fi_allocated (count_fip f fi))) = (map_of (mof (fi_allocated fi)))(f_ip f \<mapsto> cluster_or_unassigned f)"
      "fi_used (count_fip f fi) = fi_used fi + 1" "fi_family (count_fip f fi) = fi_family fi" by (simp_all add: count_fip_def)
    have m: "(map_of (mof (fi_allocated fi)))(f_ip f \<mapsto> cluster_or_unassigned f) ++
        map_of (rev (map (\<lambda>f. (f_ip f, cluster_or_unassigned f)) (filter (\<lambda>f. f_ip f \<noteq> []) fs))) =
      map_of (mof (fi_allocated fi)) ++
        map_of (rev (map (\<lambda>f. (f_ip f, cluster_or_unassigned f)) (filter (\<lambda>f. f_ip f \<noteq> []) (f # fs))))"
      using False by simp
    from IH show ?thesis unfolding c m using False by simp
  qed
qed auto

text \<open>
  C29. The rebuilt status of a project is right: a pool has an entry exactly when a FloatingIP of the
  project names it, the used counter is the number of the project's FloatingIPs of that pool that
  have an address, and the recorded addresses are exactly their addresses; when those addresses
  are pairwise different each one is recorded with its own cluster.
\<close>

theorem rebuildStatus_correct:
  assumes "run_state (rebuildStatus E name fips []) s = (m, s')" and "pool \<noteq> []"
  shows "case map_of m pool of
      None \<Rightarrow> project_fips name pool fips = []
    | Some None \<Rightarrow> False
    | Some (Some fi) \<Rightarrow> project_fips name pool fips \<noteq> [] \<and>
        fi_used fi = int (length (filter (\<lambda>f. f_ip f \<noteq> []) (project_fips name pool fips))) \<and>
        dom (map_of (mof (fi_allocated fi))) = {f_ip f | f. f \<in> set (project_fips name pool fips) \<and> f_ip f \<noteq> []} \<and>
        (distinct (map f_ip (filter (\<lambda>f. f_ip f \<noteq> []) (project_fips name pool fips))) \<longrightarrow>
          (\<forall>f \<in> set (project_fips name pool fips). f_ip f \<noteq> [] \<longrightarrow>
             map_of (mof (fi_allocated fi)) (f_ip f) = Some (cluster_or_unassigned f)))"
proof (cases "project_fips name pool fips = []")
  case True
  with rebuildStatus_spec [OF assms(1) _ assms(2)] show ?thesis by simp
next
  case False
  define fs where "fs = project_fips name pool fips"
  define xs where "xs = map (\<lambda>f. (f_ip f, cluster_or_unassigned f)) (filter (\<lambda>f. f_ip f \<noteq> []) fs)"
  from rebuildStatus_spec [OF assms(1) _ assms(2)] False obtain fam where
    m: "map_of m pool = Some (Some (fold count_fip fs (empty_info fam)))" by (auto simp: fs_def)
  obtain al where al: "fi_allocated (fold count_fip fs (empty_info fam)) = Some al" "map_of al = map_of (rev xs)"
    and used: "fi_used (fold count_fip fs (empty_info fam)) = int (length (filter (\<lambda>f. f_ip f \<noteq> []) fs))"
    using fold_count_fip [of "empty_info fam" fs] by (auto simp: empty_info_def xs_def)
  have "dom (map_of al) = {f_ip f | f. f \<in> set fs \<and> f_ip f \<noteq> []}"
    unfolding al(2) by (force simp: dom_map_of_conv_image_fst xs_def)
  moreover have "map_of al (f_ip f) = Some (cluster_or_unassigned f)"
    if "distinct (map f_ip (filter (\<lambda>f. f_ip f \<noteq> []) fs))" "f \<in> set fs" "f_ip f \<noteq> []" for f
  proof -
    have "distinct (map fst (rev xs))" using that(1) by (simp add: xs_def comp_def rev_map [symmetric])
    moreover have "(f_ip f, cluster_or_unassigned f) \<in> set (rev xs)" using that(2,3) by (auto simp: xs_def)
    ultimately show ?thesis unfolding al(2) by (rule map_of_is_SomeI)
  qed
  ultimately show ?thesis using m al(1) used False by (simp add: fs_def)
qed

definition quota_p :: FloatingIPProjectQuota where
  "quota_p = \<lparr>q_name = ''proj'', q_finalizers = [], q_deleted = False, q_rv = 1, q_display = ''P'', q_quota = None, q_fips = None\<rparr>"

theorem rebuildStatus_correct_witness:
  "case map_of (fst (run_state (rebuildStatus mem_env ''proj'' [fip_a, fip_b] []) sys_b)) ''lab'' of
     Some (Some fi) \<Rightarrow> fi_used fi = 1 | _ \<Rightarrow> False"
proof -
  obtain m s' where r: "run_state (rebuildStatus mem_env ''proj'' [fip_a, fip_b] []) sys_b = (m, s')"
    by (cases "run_state (rebuildStatus mem_env ''proj'' [fip_a, fip_b] []) sys_b")
  have f: "project_fips ''proj'' ''lab'' [fip_a, fip_b] = [fip_a, fip_b]"
    "filter (\<lambda>f. f_ip f \<noteq> []) [fip_a, fip_b] = [fip_a]"
    by (simp_all add: project_fips_def fip_a_def fip_b_def)
  define M where "M = map_of m ''lab''"
  from rebuildStatus_correct [OF r, of "''lab''", folded M_def] have "\<exists>fi. M = Some (Some fi) \<and> fi_used fi = 1"
    unfolding f by (cases M; cases "the M") simp_all
  then show ?thesis unfolding r by (auto simp: M_def)
qed

section \<open>The cascade\<close>

text \<open>A program that only makes calls respecting a relation on the whole system.\<close>

definition sys_rel :: "('w sys \<Rightarrow> 'w sys \<Rightarrow> bool) \<Rightarrow> ('w, 'a) act \<Rightarrow> bool" where
  "sys_rel R m \<longleftrightarrow> state_io_rel R m"

lemma sys_rel_run: "sys_rel R m \<Longrightarrow> run_state m s = (r, s') \<Longrightarrow> R s s'"
  by (auto simp: sys_rel_def)

lemma deleteAttached_rel:
  assumes "preorder_rel R" "\<And>ns n. sys_rel R (DeleteFip E ns n)" "run_state (deleteAttached E name fips) s = (r, s')"
  shows "R s s'"
  using assms(3)
proof (induction fips arbitrary: s)
  case Nil
  with assms(1) show ?case by (auto simp: preorder_rel_def reflp_def)
next
  case (Cons f fips)
  obtain x s1 where x: "run_state (DeleteFip E (f_ns f) (f_name f)) s = (x, s1)"
    by (cases "run_state (DeleteFip E (f_ns f) (f_name f)) s")
  have R1: "R s s1" by (rule sys_rel_run [OF assms(2) x])
  from Cons.prems x consider "run_state (deleteAttached E name fips) s1 = (r, s')" | "s' = s1"
    by (auto split: option.splits if_splits)
  then show ?case
  proof cases
    case 1
    from Cons.IH [OF this] R1 assms(1) show ?thesis by (auto simp: preorder_rel_def transp_def)
  qed (use R1 in simp)
qed

text \<open>
  The quota outlives its FloatingIPs: as long as the cache lists a FloatingIP of the project, a
  deletion pass only lists and deletes FloatingIPs. It neither reads nor writes the quota, so the
  finalizer stays; and when it succeeds it schedules the next pass after the delay for the number
  of passes so far, which it counts.
\<close>

theorem quota_outlives_fips:
  assumes "preorder_rel R" and "\<And>ns n. sys_rel R (DeleteFip E ns n)" and "\<And>k v. sys_rel R (ListerFipsBy E k v)"
    and "fst (run_state (ListerFipsBy E projectNameLabel name) s) = Inr fips" and "fips \<noteq> []"
    and "run_state (handleQuotaDelete E ctl key name) s = ((r, ctl'), s')"
  shows "R s s' \<and> (r \<noteq> None \<longrightarrow> ctl' = ctl) \<and>
    (r = None \<longrightarrow> (\<exists>n. map_of (cascadeRetries ctl') key = Some n \<and>
       n = (case map_of (cascadeRetries ctl) key of None \<Rightarrow> 1 | Some p \<Rightarrow> p + 1) \<and>
       enqueuedAfter ctl' = enqueuedAfter ctl @ [(key, cascadeRetryDelay n)]))"
proof -
  obtain s1 where s1: "run_state (ListerFipsBy E projectNameLabel name) s = (Inr fips, s1)"
    using assms(4) by (metis prod.collapse)
  obtain e s2 where s2: "run_state (deleteAttached E name fips) s1 = (e, s2)"
    by (cases "run_state (deleteAttached E name fips) s1")
  have "R s s2"
    using sys_rel_run [OF assms(3) s1] deleteAttached_rel [OF assms(1,2) s2] assms(1)
    by (auto simp: preorder_rel_def transp_def)
  moreover have "s' = s2" "r = e" "ctl' = (case e of Some err \<Rightarrow> ctl | None \<Rightarrow>
      let attempt = (case map_of (cascadeRetries ctl) key of None \<Rightarrow> 1 | Some prev \<Rightarrow> prev + 1) in
      \<lparr>cascadeRetries = AList.update key attempt (cascadeRetries ctl),
       enqueuedAfter = enqueuedAfter ctl @ [(key, cascadeRetryDelay attempt)]\<rparr>)"
    using assms(5,6) s1 s2 by (auto simp: handleQuotaDelete_def Let_def split: option.splits)
  ultimately show ?thesis by (cases e) (simp_all add: Let_def)
qed

definition ctl0 :: quota_ctl where
  "ctl0 = \<lparr>cascadeRetries = [(''proj'', 2)], enqueuedAfter = []\<rparr>"

theorem quota_outlives_fips_witness:
  "m_quotas (sys_world (snd (run_state (handleQuotaDelete mem_env ctl0 ''proj'' ''proj'') sys_b))) = m_quotas mem_b"
proof -
  let ?R = "\<lambda>s s' :: mem sys. m_quotas (sys_world s') = m_quotas (sys_world s)"
  let ?x = "run_state (handleQuotaDelete mem_env ctl0 ''proj'' ''proj'') sys_b"
  have P: "preorder_rel ?R" by (auto simp: preorder_rel_def reflp_def transp_def)
  have D: "sys_rel ?R (DeleteFip mem_env ns n)" for ns n
    by (auto simp: sys_rel_def state_io_rel_def mem_env_def world_act_def mem_delete_fip_def split: option.splits prod.splits)
  have L: "sys_rel ?R (ListerFipsBy mem_env k v)" for k v
    by (auto simp: sys_rel_def state_io_rel_def mem_env_def world_act_def)
  have l: "fst (run_state (ListerFipsBy mem_env projectNameLabel ''proj'') sys_b) = Inr [fip_b]" by code_simp
  have "?x = ((fst (fst ?x), snd (fst ?x)), snd ?x)" by simp
  from quota_outlives_fips [OF P D L l _ this] show ?thesis by (simp add: sys_b_def)
qed

section \<open>Writing the status\<close>

text \<open>
  The first sync of a quota cannot write its status: when the sync handler adds the finalizer, it
  goes on with the copy it sent, which carries the resource version from before the update. On an
  API server with optimistic locking the write of the status is then refused as a conflict and
  the handler returns an error, although every request was well formed and nobody interfered.
\<close>

theorem first_quota_sync_conflicts:
  "let s = sys_b\<lparr>sys_world := mem_b\<lparr>m_fips := [((''ns'', ''a''), fip_a)], m_quotas := [(''proj'', quota_p)]\<rparr>\<rparr>;
       ((e, ctl), s') = run_state (syncQuota mem_env ctl0 ''proj'') s
   in (case e of None \<Rightarrow> False | Some err \<Rightarrow> IsConflict err) \<and>
      (case map_of (m_quotas (sys_world s')) ''proj'' of
         None \<Rightarrow> False | Some q \<Rightarrow> containsString (q_finalizers q) quotaFinalizerName \<and> q_fips q = None)"
  by code_simp

end
