(* ===== verification/Webhook.thy ===== *)
theory Webhook
  imports Kube
begin

text \<open>
  The validating webhook, \<open>pkg/webhook/service/service.go\<close>. Its in-process state is the two
  reservation maps. The decision on a requested address runs under the lock of its pool and the
  decision on the quota under the lock of its project and pool, so each is one atomic step on
  the state. What the steps read from outside (the pool, the quota, the list of FloatingIPs, the
  clock) are arguments: \<open>Inl\<close> is a failed call, and a list item is \<open>None\<close> when it cannot be
  converted to a FloatingIP. Times are nanoseconds.
\<close>

section \<open>State and responses\<close>

record webhook =
  ipReservations :: "(string, int) gomap"
  quotaReservations :: "(string, int list) gomap"

datatype response = Allow | Deny string

definition ipReservationTTL :: int where
  "ipReservationTTL = 5000000000"

definition quotaReservationTTL :: int where
  "quotaReservationTTL = 5000000000"

section \<open>Requested addresses\<close>

text \<open>Addresses name the same claim when they are equal as addresses, or as text when one does not parse.\<close>

definition same_address :: "string \<Rightarrow> string \<Rightarrow> bool" where
  "same_address existing requested =
     (case (ParseIP requested, ParseIP existing) of
        (Some r, Some e) \<Rightarrow> ip_equal e r
      | _ \<Rightarrow> existing = requested)"

definition reservationKey :: "string \<Rightarrow> string \<Rightarrow> string" where
  "reservationKey pool ip = pool @ ''/'' @ (case ParseIP ip of None \<Rightarrow> ip | Some i \<Rightarrow> ip_string i)"

text \<open>The test on the object under update: it already owns exactly this address.\<close>

definition owns_address :: "FloatingIP option \<Rightarrow> string \<Rightarrow> bool" where
  "owns_address old ip =
     (case old of
        None \<Rightarrow> False
      | Some o' \<Rightarrow>
          (case f_spec_ip o' of
             None \<Rightarrow> False
           | Some oip \<Rightarrow>
               (case ParseIP ip of
                  None \<Rightarrow> oip = ip
                | Some r \<Rightarrow> (case ParseIP oip of None \<Rightarrow> False | Some oi \<Rightarrow> ip_equal oi r))))"

text \<open>The loop over the listed FloatingIPs: the first that claims the address gives the denial.\<close>

fun find_claimant :: "FloatingIP option list \<Rightarrow> FloatingIP option \<Rightarrow> string \<Rightarrow> string \<Rightarrow> response option" where
  "find_claimant [] old pool ip = None"
| "find_claimant (None # items) old pool ip = find_claimant items old pool ip"
| "find_claimant (Some ex # items) old pool ip =
     (if (case old of None \<Rightarrow> False | Some o' \<Rightarrow> f_name ex = f_name o' \<and> f_ns ex = f_ns o')
      then find_claimant items old pool ip
      else case f_spec_ip ex of
        None \<Rightarrow> find_claimant items old pool ip
      | Some eip \<Rightarrow>
          if f_pool ex \<noteq> pool \<or> \<not> same_address eip ip then find_claimant items old pool ip
          else if f_deleted ex then
            Some (Deny (''requested IP '' @ ip @ '' is still held by terminating floatingip '' @ f_ns ex @ ''/'' @ f_name ex))
          else if f_state ex = ''Error'' \<and> f_ip ex = [] then find_claimant items old pool ip
          else Some (Deny (''requested IP '' @ ip @ '' is already claimed by floatingip '' @ f_ns ex @ ''/'' @ f_name ex)))"

text \<open>The live list and, when nothing claims the address, the reservation.\<close>

definition claim_step ::
  "int \<Rightarrow> kerr + FloatingIP option list \<Rightarrow> FloatingIP \<Rightarrow> string \<Rightarrow> string \<Rightarrow> FloatingIP option \<Rightarrow> webhook \<Rightarrow>
   response option \<times> webhook" where
  "claim_step now listed fip ip key old w =
     (case listed of
        Inl e \<Rightarrow> (Some (Deny (''failed to verify that requested IP '' @ ip @ '' is free in floatingippool '' @ f_pool fip)), w)
      | Inr items \<Rightarrow>
          (case find_claimant items old (f_pool fip) ip of
             Some d \<Rightarrow> (Some d, w)
           | None \<Rightarrow> (None, w\<lparr>ipReservations := AList.update key (now + ipReservationTTL) (ipReservations w)\<rparr>)))"

definition checkIPNotInUse ::
  "int \<Rightarrow> int \<Rightarrow> kerr + FloatingIP option list \<Rightarrow> FloatingIP \<Rightarrow> string \<Rightarrow> FloatingIPPool \<Rightarrow> FloatingIP option \<Rightarrow>
   webhook \<Rightarrow> response option \<times> webhook" where
  "checkIPNotInUse now later listed fip ip pool old w =
     (if map_of (mof (p_allocated pool)) ip \<noteq> None then
        (Some (Deny (''requested IP '' @ ip @ '' is already allocated'')), w)
      else let key = reservationKey (f_pool fip) ip in
      if owns_address old ip then (None, w)
      else case map_of (ipReservations w) key of
        Some expiry \<Rightarrow>
          if now < expiry then
            (Some (Deny (''requested IP '' @ ip @ '' is pending allocation in floatingippool '' @ f_pool fip)), w)
          else claim_step later listed fip ip key old (w\<lparr>ipReservations := AList.delete key (ipReservations w)\<rparr>)
      | None \<Rightarrow> claim_step later listed fip ip key old w)"

section \<open>Quota\<close>

definition activeQuotaReservations :: "int \<Rightarrow> string \<Rightarrow> webhook \<Rightarrow> nat \<times> webhook" where
  "activeQuotaReservations now key w =
     (case map_of (quotaReservations w) key of
        None \<Rightarrow> (0, w)
      | Some expiries \<Rightarrow>
          (let active = filter (\<lambda>expiry. now < expiry) expiries
           in (length active, w\<lparr>quotaReservations := AList.update key active (quotaReservations w)\<rparr>)))"

definition takeQuotaReservation :: "int \<Rightarrow> string \<Rightarrow> webhook \<Rightarrow> webhook" where
  "takeQuotaReservation now key w =
     w\<lparr>quotaReservations := AList.update key (getz [] (quotaReservations w) key @ [now + quotaReservationTTL]) (quotaReservations w)\<rparr>"

text \<open>The FloatingIPs that count towards the usage of a project in a pool.\<close>

definition counts_for :: "string \<Rightarrow> string \<Rightarrow> FloatingIP \<Rightarrow> FloatingIP \<Rightarrow> bool" where
  "counts_for project pool fip ex \<longleftrightarrow>
     \<not> (f_name ex = f_name fip \<and> f_ns ex = f_ns fip) \<and>
     f_pool ex = pool \<and> label (f_labels ex) projectNameLabel = project"

fun count_usage :: "int \<Rightarrow> string \<Rightarrow> string \<Rightarrow> FloatingIP \<Rightarrow> FloatingIP option list \<Rightarrow> nat \<Rightarrow> nat \<Rightarrow> nat \<Rightarrow> nat \<times> nat \<times> nat" where
  "count_usage cutoff project pool fip [] allocated pending recent = (allocated, pending, recent)"
| "count_usage cutoff project pool fip (None # items) allocated pending recent =
     count_usage cutoff project pool fip items allocated pending recent"
| "count_usage cutoff project pool fip (Some ex # items) allocated pending recent =
     (if \<not> counts_for project pool fip ex
      then count_usage cutoff project pool fip items allocated pending recent
      else let hasip = f_ip ex \<noteq> [];
               waits = (\<not> hasip \<and> f_state ex \<noteq> ''Error'');
               young = (hasip \<or> waits) \<and> cutoff < f_created ex
           in count_usage cutoff project pool fip items
                (allocated + of_bool hasip) (pending + of_bool waits) (recent + of_bool young))"

definition liveQuotaUsage ::
  "int \<Rightarrow> int \<Rightarrow> kerr + FloatingIP option list \<Rightarrow> string \<Rightarrow> string \<Rightarrow> FloatingIP \<Rightarrow> webhook \<Rightarrow> (kerr + nat) \<times> webhook" where
  "liveQuotaUsage now later listed project pool fip w =
     (case listed of
        Inl e \<Rightarrow> (Inl e, w)
      | Inr items \<Rightarrow>
          (let (allocated, pending, recent) = count_usage (now - quotaReservationTTL) project pool fip items 0 0 0;
               (reservations, w') = activeQuotaReservations later (project @ ''/'' @ pool) w
           in (Inr (allocated + pending + (reservations - recent)), w')))"

text \<open>Whether the admission can change what the project occupies in the pool.\<close>

definition shouldCheckQuota :: "FloatingIP \<Rightarrow> FloatingIP option \<Rightarrow> bool" where
  "shouldCheckQuota fip old =
     (case old of
        None \<Rightarrow> True
      | Some o' \<Rightarrow>
          \<not> (f_spec_ip fip = Some (f_ip o')) \<and>
          \<not> (f_pool o' = f_pool fip \<and> \<not> (f_ip o' = [] \<and> f_state o' = ''Error'')))"

definition decideQuota ::
  "int \<Rightarrow> int \<Rightarrow> int \<Rightarrow> kerr + FloatingIPProjectQuota option \<Rightarrow> kerr + FloatingIP option list \<Rightarrow> FloatingIP \<Rightarrow> FloatingIP option \<Rightarrow>
   webhook \<Rightarrow> response \<times> webhook" where
  "decideQuota t1 t2 t3 got listed fip old w =
     (let projectID = label (f_labels fip) projectNameLabel; pool = f_pool fip in
      case got of
        Inl e \<Rightarrow> (Deny (''failed to get floatingipprojectquota for project '' @ projectID), w)
      | Inr None \<Rightarrow> (Deny ''internal server error: failed to process floatingipprojectquota'', w)
      | Inr (Some q) \<Rightarrow>
          (case map_of (mof (q_quota q)) pool of
             None \<Rightarrow> (Deny (''no quota defined for floatingippool '' @ pool @ '' in project '' @ projectID), w)
           | Some quota \<Rightarrow>
               (case liveQuotaUsage t1 t2 listed projectID pool fip w of
                  (Inl e, w') \<Rightarrow> (Deny (''failed to verify quota usage for floatingippool '' @ pool @ '' in project '' @ projectID), w')
                | (Inr usage, w') \<Rightarrow>
                    if quota \<le> int usage then
                      (Deny (''quota exceeded for floatingippool '' @ pool @ '' in project '' @ projectID), w')
                    else if (case old of None \<Rightarrow> True | Some o' \<Rightarrow> f_pool o' \<noteq> pool) then
                      (Allow, takeQuotaReservation t3 (projectID @ ''/'' @ pool) w')
                    else (Allow, w'))))"

section \<open>The decision on a FloatingIP\<close>

text \<open>\<open>bytes.Compare\<close> on the 4-byte forms when all have one, on the 16-byte forms otherwise.\<close>

definition ip_in_range :: "netIP \<Rightarrow> netIP \<Rightarrow> netIP \<Rightarrow> bool" where
  "ip_in_range ip st en =
     (case (To4 ip, To4 st, To4 en) of
        (Some i, Some s, Some e) \<Rightarrow> s \<le> i \<and> i \<le> e
      | _ \<Rightarrow> to16 st \<le> to16 ip \<and> to16 ip \<le> to16 en)"

text \<open>The checks on the requested address that need only the pool; \<open>None\<close> when they pass.\<close>

definition checkRequestedIP :: "FloatingIP \<Rightarrow> string \<Rightarrow> FloatingIPPool \<Rightarrow> response option" where
  "checkRequestedIP fip ip pool =
     (case ParseIP ip of
        None \<Rightarrow> Some (Deny (''invalid IP address format: '' @ ip))
      | Some req \<Rightarrow>
     (case p_config pool of
        None \<Rightarrow> Some (Deny (''floatingippool '' @ f_pool fip @ '' has no ipConfig''))
      | Some c \<Rightarrow>
     (case ParseCIDR (Subnet c) of
        None \<Rightarrow> Some (Deny ''internal server error: invalid subnet configuration in floatingippool'')
      | Some subnet \<Rightarrow>
     if \<not> ipnet_contains subnet req then
       Some (Deny (''requested IP '' @ ip @ '' is not in the subnet range '' @ Subnet c))
     else
     (case ParseIP (Pool_Start c) of
        None \<Rightarrow> Some (Deny (''internal server error: invalid start ip configuration in floatingippool '' @ f_pool fip))
      | Some st \<Rightarrow>
     (case ParseIP (Pool_End c) of
        None \<Rightarrow> Some (Deny (''internal server error: invalid end ip configuration in floatingippool '' @ f_pool fip))
      | Some en \<Rightarrow>
     if \<not> ip_in_range req st en then Some (Deny (''requested IP '' @ ip @ '' is not in the pool range ['' @ Pool_Start c @ '', '' @ Pool_End c @ '']''))
     else if ip \<in> set (Pool_Exclude c) then Some (Deny (''requested IP '' @ ip @ '' is in the exclude list''))
     else None)))))"

text \<open>What one admission reads from outside, in the order of the calls.\<close>

record admission_input =
  in_pool :: "kerr + FloatingIPPool option"
  in_claims :: "kerr + FloatingIP option list"
  in_quota :: "kerr + FloatingIPProjectQuota option"
  in_usage :: "kerr + FloatingIP option list"
  in_times :: "int \<times> int \<times> int \<times> int \<times> int"

definition checkAddress :: "admission_input \<Rightarrow> FloatingIP \<Rightarrow> FloatingIP option \<Rightarrow> FloatingIPPool \<Rightarrow> webhook \<Rightarrow> response option \<times> webhook" where
  "checkAddress i fip old pool w =
     (case f_spec_ip fip of
        Some ip \<Rightarrow>
          (case checkRequestedIP fip ip pool of
             Some d \<Rightarrow> (Some d, w)
           | None \<Rightarrow>
               if (case old of None \<Rightarrow> False | Some o' \<Rightarrow> f_ip o' = ip) then (None, w)
               else (case in_times i of (t1, t2, _) \<Rightarrow> checkIPNotInUse t1 t2 (in_claims i) fip ip pool old w))
      | None \<Rightarrow>
          if p_available pool \<le> 0 then (Some (Deny (''no available IPs in floatingippool '' @ f_pool fip)), w)
          else (None, w))"

definition validateFloatingIP :: "admission_input \<Rightarrow> FloatingIP \<Rightarrow> FloatingIP option \<Rightarrow> webhook \<Rightarrow> response \<times> webhook" where
  "validateFloatingIP i fip old w =
     (if f_deleted fip then (Allow, w)
      else case in_pool i of
        Inl e \<Rightarrow> (Deny (''the specified floatingippool '' @ f_pool fip @ '' does not exist''), w)
      | Inr None \<Rightarrow> (Deny ''internal server error: failed to process floatingippool'', w)
      | Inr (Some pool) \<Rightarrow>
          (case checkAddress i fip old pool w of
             (Some d, w') \<Rightarrow> (d, w')
           | (None, w') \<Rightarrow>
               if shouldCheckQuota fip old
               then (case in_times i of (_, _, t3, t4, t5) \<Rightarrow> decideQuota t3 t4 t5 (in_quota i) (in_usage i) fip old w')
               else (Allow, w')))"

section \<open>The decision on a pool\<close>

fun checkExcludes :: "ipnet \<Rightarrow> netIP \<Rightarrow> netIP \<Rightarrow> string list \<Rightarrow> response" where
  "checkExcludes subnet st en [] = Allow"
| "checkExcludes subnet st en (x # xs) =
     (case ParseIP x of
        None \<Rightarrow> Deny (''invalid excluded IP address format: '' @ x)
      | Some ip \<Rightarrow>
          if \<not> ipnet_contains subnet ip then Deny (''excluded IP address '' @ x @ '' is not within the subnet'')
          else if \<not> ip_in_range ip st en then Deny (''excluded IP address '' @ x @ '' is not within the pool range'')
          else checkExcludes subnet st en xs)"

definition ip_le :: "netIP \<Rightarrow> netIP \<Rightarrow> bool" where
  "ip_le a b = (case (To4 a, To4 b) of (Some x, Some y) \<Rightarrow> x \<le> y | _ \<Rightarrow> to16 a \<le> to16 b)"

definition validateFloatingIPPool :: "IPConfig option \<Rightarrow> response" where
  "validateFloatingIPPool cfg =
     (case cfg of
        None \<Rightarrow> Deny ''ipConfig is required in floatingippool spec''
      | Some c \<Rightarrow>
     (case ParseCIDR (Subnet c) of
        None \<Rightarrow> Deny (''invalid subnet format: '' @ Subnet c)
      | Some subnet \<Rightarrow>
     (case ParseIP (Pool_Start c) of
        None \<Rightarrow> Deny (''invalid start IP address format: '' @ Pool_Start c)
      | Some st \<Rightarrow>
     if \<not> ipnet_contains subnet st then Deny (''start IP address '' @ Pool_Start c @ '' is not within the subnet '' @ Subnet c)
     else
     (case ParseIP (Pool_End c) of
        None \<Rightarrow> Deny (''invalid end IP address format: '' @ Pool_End c)
      | Some en \<Rightarrow>
     if \<not> ipnet_contains subnet en then Deny (''end IP address '' @ Pool_End c @ '' is not within the subnet '' @ Subnet c)
     else if \<not> ip_le st en then
       Deny (''start IP address '' @ Pool_Start c @ '' must be less than or equal to end IP address '' @ Pool_End c)
     else if ValidateRangeSize (Pool_Start c) (Pool_End c) \<noteq> None then Deny ''pool range exceeds the maximum''
     else checkExcludes subnet st en (Pool_Exclude c)))))"

section \<open>The HTTP handlers\<close>

text \<open>
  A request body as the JSON decoder sees it: it may fail to decode, have no request, or hold an
  object (and for an update an old object) that may fail to decode. The result is the status code
  and, when an admission review is written, its response.
\<close>

datatype 'a review =
    Undecodable
  | NoRequest
  | Review "'a option" "'a option option"

definition validateFloatingIPAdmission ::
  "admission_input \<Rightarrow> FloatingIP review \<Rightarrow> webhook \<Rightarrow> (nat \<times> response option) \<times> webhook" where
  "validateFloatingIPAdmission i body w =
     (case body of
        Undecodable \<Rightarrow> ((500, None), w)
      | NoRequest \<Rightarrow> ((400, Some (Deny ''admission review does not contain a request'')), w)
      | Review None old \<Rightarrow> ((500, None), w)
      | Review (Some fip) (Some None) \<Rightarrow> ((500, None), w)
      | Review (Some fip) old \<Rightarrow>
          (case validateFloatingIP i fip (Option.bind old id) w of (r, w') \<Rightarrow> ((200, Some r), w')))"

definition validateFloatingIPPoolAdmission :: "FloatingIPPool review \<Rightarrow> nat \<times> response option" where
  "validateFloatingIPPoolAdmission body =
     (case body of
        Undecodable \<Rightarrow> (500, None)
      | NoRequest \<Rightarrow> (400, Some (Deny ''admission review does not contain a request''))
      | Review None old \<Rightarrow> (500, None)
      | Review (Some pool) old \<Rightarrow> (200, Some (validateFloatingIPPool (p_config pool))))"

end
