(* ===== verification/Webhook_Props.thy ===== *)
theory Webhook_Props
  imports Webhook Ipam_Props
begin

text \<open>Properties of the validating webhook.\<close>

section \<open>Requested addresses\<close>

lemma find_claimant_None:
  "find_claimant items old pool ip = None \<Longrightarrow> Some ex \<in> set items \<Longrightarrow> f_spec_ip ex = Some eip \<Longrightarrow>
   f_pool ex = pool \<Longrightarrow> same_address eip ip \<Longrightarrow> old = None \<Longrightarrow>
   \<not> f_deleted ex \<and> f_state ex = ''Error'' \<and> f_ip ex = []"
  by (induction items old pool ip rule: find_claimant.induct) (auto split: if_splits option.splits)

lemma find_claimant_denies: "find_claimant items old pool ip \<noteq> Some Allow"
  by (induction items old pool ip rule: find_claimant.induct) (auto split: option.splits)

lemma checkRequestedIP_denies: "checkRequestedIP fip ip pool \<noteq> Some Allow"
  by (auto simp: checkRequestedIP_def split: option.splits)

lemma checkIPNotInUse_denies: "checkIPNotInUse t1 t2 listed fip ip pool old w \<noteq> (Some Allow, w')"
  using find_claimant_denies
  by (auto simp: checkIPNotInUse_def claim_step_def Let_def split: option.splits sum.splits)

lemma checkAddress_denies: "checkAddress i fip old pool w \<noteq> (Some Allow, w')"
  using checkRequestedIP_denies checkIPNotInUse_denies
  by (auto simp: checkAddress_def split: option.splits prod.splits)

lemma validate_allow:
  assumes "validateFloatingIP i fip old w = (Allow, w')" and "\<not> f_deleted fip" and "in_times i = (t1, t2, t3, t4, t5)"
  obtains pool w1 where "in_pool i = Inr (Some pool)" "checkAddress i fip old pool w = (None, w1)"
    "if shouldCheckQuota fip old then decideQuota t3 t4 t5 (in_quota i) (in_usage i) fip old w1 = (Allow, w') else w' = w1"
proof (cases "in_pool i")
  case (Inl e)
  with assms(1,2) show thesis by (simp add: validateFloatingIP_def)
next
  case (Inr p)
  show thesis
  proof (cases p)
    case None
    with Inr assms(1,2) show thesis by (simp add: validateFloatingIP_def)
  next
    case (Some pool)
    obtain d w1 where c: "checkAddress i fip old pool w = (d, w1)" by (cases "checkAddress i fip old pool w")
    have "d = None"
      using assms(1,2) Inr Some c checkAddress_denies [of i fip old pool w w1]
      by (cases d) (auto simp: validateFloatingIP_def)
    with that [of pool w1] assms Inr Some c show thesis by (auto simp: validateFloatingIP_def split: if_splits)
  qed
qed

lemma claim_step_None:
  "claim_step t listed fip ip key old w = (None, w') \<Longrightarrow>
   \<exists>items. listed = Inr items \<and> find_claimant items old (f_pool fip) ip = None \<and>
     map_of (ipReservations w') key = Some (t + ipReservationTTL) \<and> quotaReservations w' = quotaReservations w"
  by (auto simp: claim_step_def split: sum.splits option.splits)

lemma checkIPNotInUse_None:
  assumes "checkIPNotInUse t1 t2 listed fip ip pool None w = (None, w')"
  shows "map_of (mof (p_allocated pool)) ip = None \<and>
    (\<exists>items. listed = Inr items \<and> find_claimant items None (f_pool fip) ip = None) \<and>
    (\<forall>e. map_of (ipReservations w) (reservationKey (f_pool fip) ip) = Some e \<longrightarrow> e \<le> t1) \<and>
    map_of (ipReservations w') (reservationKey (f_pool fip) ip) = Some (t2 + ipReservationTTL)"
  using assms
  by (auto simp: checkIPNotInUse_def Let_def owns_address_def dest!: claim_step_None split: if_splits option.splits)

lemma checkRequestedIP_None:
  assumes "checkRequestedIP fip ip pool = None"
  shows "\<exists>c subnet req st en. p_config pool = Some c \<and> ParseCIDR (Subnet c) = Some subnet \<and> ParseIP ip = Some req \<and>
    ParseIP (Pool_Start c) = Some st \<and> ParseIP (Pool_End c) = Some en \<and> ipnet_contains subnet req \<and>
    ip_in_range req st en \<and> ip \<notin> set (Pool_Exclude c)"
  using assms by (auto simp: checkRequestedIP_def split: option.splits if_splits)

lemma checkAddress_quota: "checkAddress i fip old pool w = (d, w') \<Longrightarrow> quotaReservations w' = quotaReservations w"
  by (auto simp: checkAddress_def checkIPNotInUse_def claim_step_def Let_def split: option.splits if_splits sum.splits prod.splits)

lemma liveQuotaUsage_quota:
  "quotaReservations w = quotaReservations w' \<Longrightarrow>
   fst (liveQuotaUsage t t' l project pool fip w) = fst (liveQuotaUsage t t' l project pool fip w')"
  by (auto simp: liveQuotaUsage_def activeQuotaReservations_def Let_def split: sum.splits prod.splits option.splits)

lemma decideQuota_ip: "decideQuota t1 t2 t3 got l fip old w = (r, w') \<Longrightarrow> ipReservations w' = ipReservations w"
  by (auto simp: decideQuota_def liveQuotaUsage_def activeQuotaReservations_def takeQuotaReservation_def Let_def
      split: sum.splits option.splits prod.splits if_splits)

text \<open>
  C28. What the admission of a creation promises: when the webhook allows the creation of a FloatingIP with a
  requested address (no old object, not being deleted), the pool exists and has a configuration, the address lies in its subnet
  and range, the text of the address is not among the texts of the excludes (another spelling of an excluded address passes this check) and is no key of the
  pool's status, no other FloatingIP of the
  pool claims the same address (only failed ones that hold nothing), no reservation for it is
  pending, a reservation for it is now recorded, and the project's quota for the pool is defined
  and above the usage counted from the live list and the reservations. Updates are not the subject.
\<close>

theorem admission_sound:
  assumes "validateFloatingIP i fip None w = (Allow, w')" and "\<not> f_deleted fip" and "f_spec_ip fip = Some ip"
    and "in_times i = (t1, t2, t3, t4, t5)"
  shows "\<exists>pool c subnet req st en claims q quota usage.
    in_pool i = Inr (Some pool) \<and> p_config pool = Some c \<and> ParseCIDR (Subnet c) = Some subnet \<and>
    ParseIP ip = Some req \<and> ParseIP (Pool_Start c) = Some st \<and> ParseIP (Pool_End c) = Some en \<and>
    ipnet_contains subnet req \<and> ip_in_range req st en \<and> ip \<notin> set (Pool_Exclude c) \<and>
    map_of (mof (p_allocated pool)) ip = None \<and> in_claims i = Inr claims \<and>
    (\<forall>ex eip. Some ex \<in> set claims \<longrightarrow> f_spec_ip ex = Some eip \<longrightarrow> f_pool ex = f_pool fip \<longrightarrow> same_address eip ip \<longrightarrow>
       \<not> f_deleted ex \<and> f_state ex = ''Error'' \<and> f_ip ex = []) \<and>
    (\<forall>e. map_of (ipReservations w) (reservationKey (f_pool fip) ip) = Some e \<longrightarrow> e \<le> t1) \<and>
    map_of (ipReservations w') (reservationKey (f_pool fip) ip) = Some (t2 + ipReservationTTL) \<and>
    in_quota i = Inr (Some q) \<and> map_of (mof (q_quota q)) (f_pool fip) = Some quota \<and> int usage < quota \<and>
    fst (liveQuotaUsage t3 t4 (in_usage i) (label (f_labels fip) projectNameLabel) (f_pool fip) fip w) = Inr usage"
proof -
  obtain pool w1 where pool: "in_pool i = Inr (Some pool)" and ca: "checkAddress i fip None pool w = (None, w1)"
    and dq: "decideQuota t3 t4 t5 (in_quota i) (in_usage i) fip None w1 = (Allow, w')"
    using validate_allow [OF assms(1,2,4)] by (auto simp: shouldCheckQuota_def)
  have cr: "checkRequestedIP fip ip pool = None" and cu: "checkIPNotInUse t1 t2 (in_claims i) fip ip pool None w = (None, w1)"
    using ca assms(3,4) by (auto simp: checkAddress_def split: option.splits)
  obtain q quota where q: "in_quota i = Inr (Some q)" "map_of (mof (q_quota q)) (f_pool fip) = Some quota"
    using dq by (auto simp: decideQuota_def Let_def split: sum.splits option.splits)
  obtain u w2 where u: "liveQuotaUsage t3 t4 (in_usage i) (label (f_labels fip) projectNameLabel) (f_pool fip) fip w1 = (Inr u, w2)" "int u < quota"
    using dq q by (auto simp: decideQuota_def Let_def split: sum.splits prod.splits if_splits)
  have u': "fst (liveQuotaUsage t3 t4 (in_usage i) (label (f_labels fip) projectNameLabel) (f_pool fip) fip w) = Inr u"
    using liveQuotaUsage_quota [of w1 w] checkAddress_quota [OF ca] u(1) by (metis fst_conv)
  have "map_of (ipReservations w') (reservationKey (f_pool fip) ip) = Some (t2 + ipReservationTTL)"
    using checkIPNotInUse_None [OF cu] decideQuota_ip [OF dq] by simp
  moreover obtain claims where cl: "in_claims i = Inr claims" "find_claimant claims None (f_pool fip) ip = None"
    "map_of (mof (p_allocated pool)) ip = None"
    "\<forall>e. map_of (ipReservations w) (reservationKey (f_pool fip) ip) = Some e \<longrightarrow> e \<le> t1"
    using checkIPNotInUse_None [OF cu] by blast
  moreover have "\<forall>ex eip. Some ex \<in> set claims \<longrightarrow> f_spec_ip ex = Some eip \<longrightarrow> f_pool ex = f_pool fip \<longrightarrow> same_address eip ip \<longrightarrow>
       \<not> f_deleted ex \<and> f_state ex = ''Error'' \<and> f_ip ex = []"
    using find_claimant_None [OF cl(2)] by blast
  moreover obtain c subnet req st en where "p_config pool = Some c" "ParseCIDR (Subnet c) = Some subnet" "ParseIP ip = Some req"
    "ParseIP (Pool_Start c) = Some st" "ParseIP (Pool_End c) = Some en" "ipnet_contains subnet req"
    "ip_in_range req st en" "ip \<notin> set (Pool_Exclude c)" using checkRequestedIP_None [OF cr] by blast
  ultimately show ?thesis using pool q u(2) u' by metis
qed

text \<open>A pool, a project and a request for one of the pool's addresses.\<close>

definition pool_w :: FloatingIPPool where
  "pool_w = \<lparr>p_name = ''lab'', p_rv = 1, p_config = Some \<lparr>Family = ''IPv4'', Subnet = ''10.0.0.0/29'',
     Pool_Start = ''10.0.0.2'', Pool_End = ''10.0.0.4'', Pool_Exclude = []\<rparr>, p_allocated = None, p_used = 0, p_available = 3\<rparr>"

definition quota_w :: FloatingIPProjectQuota where
  "quota_w = \<lparr>q_name = ''proj'', q_finalizers = [], q_deleted = False, q_rv = 1, q_display = ''P'',
     q_quota = Some [(''lab'', 2)], q_fips = None\<rparr>"

definition fip_w :: FloatingIP where
  "fip_w = \<lparr>f_ns = ''ns'', f_name = ''x'', f_labels = Some [(projectNameLabel, ''proj'')], f_finalizers = [], f_deleted = False,
     f_created = 0, f_rv = 0, f_spec_ip = Some ''10.0.0.3'', f_pool = ''lab'', f_ip = [], f_state = [], f_assigned = None, f_conditions = []\<rparr>"

definition input_w :: "int \<Rightarrow> admission_input" where
  "input_w t = \<lparr>in_pool = Inr (Some pool_w), in_claims = Inr [], in_quota = Inr (Some quota_w), in_usage = Inr [],
     in_times = (t, t, t, t, t)\<rparr>"

definition webhook0 :: webhook where
  "webhook0 = \<lparr>ipReservations = [], quotaReservations = []\<rparr>"

theorem admission_sound_witness:
  "map_of (ipReservations (snd (validateFloatingIP (input_w 7) fip_w None webhook0))) ''lab/10.0.0.3'' = Some 5000000007"
proof -
  have "fst (validateFloatingIP (input_w 7) fip_w None webhook0) = Allow" by code_simp
  then have a: "validateFloatingIP (input_w 7) fip_w None webhook0 = (Allow, snd (validateFloatingIP (input_w 7) fip_w None webhook0))"
    by (metis prod.collapse)
  have f: "\<not> f_deleted fip_w" "f_spec_ip fip_w = Some ''10.0.0.3''" "in_times (input_w 7) = (7, 7, 7, 7, 7)"
    by (simp_all add: fip_w_def input_w_def)
  have k: "reservationKey (f_pool fip_w) ''10.0.0.3'' = ''lab/10.0.0.3''" by code_simp
  from admission_sound [OF a f] show ?thesis unfolding k by (auto simp: ipReservationTTL_def)
qed

section \<open>Reservations\<close>

lemma checkIPNotInUse_keeps:
  assumes "checkIPNotInUse t1 t2 l fip ip pool old w = (r, w')" "map_of (ipReservations w) key = Some e" "t1 < e"
  shows "map_of (ipReservations w') key = Some e"
  using assms
  by (auto simp: checkIPNotInUse_def claim_step_def Let_def split: if_splits option.splits sum.splits)

lemma validate_keeps:
  assumes "validateFloatingIP i fip old w = (r, w')" "map_of (ipReservations w) key = Some e" "fst (in_times i) < e"
  shows "map_of (ipReservations w') key = Some e"
proof -
  have c: "map_of (ipReservations w1) key = Some e" if "checkAddress i fip old pool w = (d, w1)" for pool d w1
    using that assms(2,3) checkIPNotInUse_keeps [of "fst (in_times i)" _ _ _ _ _ _ w _ w1 key e]
    by (auto simp: checkAddress_def split: option.splits if_splits prod.splits)
  show ?thesis
    using assms(1,2) c by (auto simp: validateFloatingIP_def dest: decideQuota_ip split: if_splits sum.splits option.splits prod.splits)
qed

text \<open>A sequence of admission requests.\<close>

definition admissions :: "(admission_input \<times> FloatingIP \<times> FloatingIP option) list \<Rightarrow> webhook \<Rightarrow> webhook" where
  "admissions = fold (\<lambda>(i, fip, old) w. snd (validateFloatingIP i fip old w))"

lemma admissions_keep:
  "map_of (ipReservations w) key = Some e \<Longrightarrow> \<forall>(i, fip, old) \<in> set rs. fst (in_times i) < e \<Longrightarrow>
   map_of (ipReservations (admissions rs w)) key = Some e"
proof (induction rs arbitrary: w)
  case (Cons r rs)
  obtain i fip old where r: "r = (i, fip, old)" by (cases r)
  have "map_of (ipReservations (snd (validateFloatingIP i fip old w))) key = Some e"
    using validate_keeps [of i fip old w _ _ key e] Cons.prems r by (metis (mono_tags, lifting) case_prod_conv list.set_intros(1) prod.collapse)
  with Cons r show ?case by (simp add: admissions_def)
qed (simp add: admissions_def)

text \<open>
  C4. No double admission of creations: after the creation of a FloatingIP with a requested address was allowed,
  a second creation (a request without an old object, for an object that is not being deleted) in the same pool that asks for the same
  address, in whatever spelling, is denied for as long as the reservation lasts, even when the first object is not yet visible in
  any list and whatever requests, creations or updates, were handled in between before the reservation ended. Updates are not
  the subject: an update of a FloatingIP in the state Error that already carries the address may be admitted meanwhile.
\<close>

theorem no_double_admission:
  assumes "validateFloatingIP i fip None w = (Allow, w1)" and "\<not> f_deleted fip" and "f_spec_ip fip = Some ip"
    and "in_times i = (t1, t2, t3, t4, t5)"
    and "\<forall>(j, f, old) \<in> set rs. fst (in_times j) < t2 + ipReservationTTL"
    and "\<not> f_deleted fip2" and "f_pool fip2 = f_pool fip" and "f_spec_ip fip2 = Some ip2"
    and "ParseIP ip2 = ParseIP ip" and "fst (in_times i2) < t2 + ipReservationTTL"
  shows "fst (validateFloatingIP i2 fip2 None (admissions rs w1)) \<noteq> Allow"
proof
  assume a: "fst (validateFloatingIP i2 fip2 None (admissions rs w1)) = Allow"
  let ?w = "admissions rs w1"
  obtain u1 u2 u3 u4 u5 where u: "in_times i2 = (u1, u2, u3, u4, u5)" by (metis prod_cases5)
  obtain w' where v: "validateFloatingIP i2 fip2 None ?w = (Allow, w')" using a by (metis prod.collapse)
  obtain pool v1 where "in_pool i = Inr (Some pool)" and ca1: "checkAddress i fip None pool w = (None, v1)"
    and dq1: "decideQuota t3 t4 t5 (in_quota i) (in_usage i) fip None v1 = (Allow, w1)"
    using validate_allow [OF assms(1,2,4)] by (auto simp: shouldCheckQuota_def)
  have cu1: "checkRequestedIP fip ip pool = None" "checkIPNotInUse t1 t2 (in_claims i) fip ip pool None w = (None, v1)"
    using ca1 assms(3,4) by (auto simp: checkAddress_def split: option.splits)
  have "ParseIP ip \<noteq> None" using checkRequestedIP_None [OF cu1(1)] by auto
  then have k: "reservationKey (f_pool fip2) ip2 = reservationKey (f_pool fip) ip"
    using assms(7,9) by (auto simp: reservationKey_def)
  have "map_of (ipReservations w1) (reservationKey (f_pool fip) ip) = Some (t2 + ipReservationTTL)"
    using checkIPNotInUse_None [OF cu1(2)] decideQuota_ip [OF dq1] by simp
  from admissions_keep [OF this assms(5)]
  have res: "map_of (ipReservations ?w) (reservationKey (f_pool fip2) ip2) = Some (t2 + ipReservationTTL)" by (simp add: k)
  obtain pool2 v2 where "in_pool i2 = Inr (Some pool2)" and "checkAddress i2 fip2 None pool2 ?w = (None, v2)"
    using validate_allow [OF v assms(6) u] by metis
  then have "checkIPNotInUse u1 u2 (in_claims i2) fip2 ip2 pool2 None ?w = (None, v2)"
    using assms(8) u by (auto simp: checkAddress_def split: option.splits)
  from checkIPNotInUse_None [OF this] res assms(10) u show False by auto
qed

theorem no_double_admission_witness:
  "fst (validateFloatingIP (input_w 3000000000) (fip_w\<lparr>f_name := ''y''\<rparr>) None
     (snd (validateFloatingIP (input_w 0) fip_w None webhook0))) \<noteq> Allow"
proof -
  have "fst (validateFloatingIP (input_w 0) fip_w None webhook0) = Allow" by code_simp
  then have a: "validateFloatingIP (input_w 0) fip_w None webhook0 = (Allow, snd (validateFloatingIP (input_w 0) fip_w None webhook0))"
    by (metis prod.collapse)
  have f: "\<not> f_deleted fip_w" "f_spec_ip fip_w = Some ''10.0.0.3''" "in_times (input_w 0) = (0, 0, 0, 0, 0)"
    by (simp_all add: fip_w_def input_w_def)
  from no_double_admission [OF a f, of "[]" "fip_w\<lparr>f_name := ''y''\<rparr>" "''10.0.0.3''" "input_w 3000000000"]
  show ?thesis by (simp add: admissions_def fip_w_def input_w_def ipReservationTTL_def)
qed

section \<open>Bursts against the quota\<close>

text \<open>
  A burst of creations of one project in one pool, decided one after the other while the list of
  FloatingIPs the webhook can see does not change; the number of those that are allowed.
\<close>

fun burst ::
  "FloatingIPProjectQuota \<Rightarrow> FloatingIP option list \<Rightarrow> (int \<times> int \<times> int \<times> FloatingIP) list \<Rightarrow> webhook \<Rightarrow> nat" where
  "burst q items [] w = 0"
| "burst q items ((t1, t2, t3, fip) # rs) w =
     (case decideQuota t1 t2 t3 (Inr (Some q)) (Inr items) fip None w of
        (Allow, w') \<Rightarrow> Suc (burst q items rs w')
      | (Deny m, w') \<Rightarrow> burst q items rs w')"

definition live_after :: "int \<Rightarrow> string \<Rightarrow> webhook \<Rightarrow> nat" where
  "live_after B key w = length (filter (\<lambda>e. B < e) (getz [] (quotaReservations w) key))"

lemma decideQuota_create:
  assumes q: "map_of (mof (q_quota q)) (f_pool fip) = Some L"
    and u: "count_usage (t1 - quotaReservationTTL) (label (f_labels fip) projectNameLabel) (f_pool fip) fip items 0 0 0 = (a, p, 0)"
    and B: "t2 \<le> B" "B < t3 + quotaReservationTTL"
    and d: "decideQuota t1 t2 t3 (Inr (Some q)) (Inr items) fip None w = (r, w')"
    and key: "key = label (f_labels fip) projectNameLabel @ ''/'' @ f_pool fip"
  shows "live_after B key w' = live_after B key w + of_bool (r = Allow)"
    "r = Allow \<Longrightarrow> int (a + p + live_after B key w) < L"
proof -
  obtain n w1 where n: "activeQuotaReservations t2 key w = (n, w1)" by (cases "activeQuotaReservations t2 key w")
  have lu: "liveQuotaUsage t1 t2 (Inr items) (label (f_labels fip) projectNameLabel) (f_pool fip) fip w = (Inr (a + p + n), w1)"
    using u n key by (simp add: liveQuotaUsage_def)
  have f: "filter (\<lambda>e. t2 < e \<and> B < e) xs = filter (\<lambda>e. B < e) xs" for xs :: "int list"
    using B(1) by (intro filter_cong) auto
  have l1: "live_after B key w1 = live_after B key w"
    using n by (auto simp: activeQuotaReservations_def live_after_def getz_def Let_def f split: option.splits)
  have "live_after B key w \<le> n"
  proof (cases "map_of (quotaReservations w) key")
    case (Some xs)
    have "filter (\<lambda>e. B < e) (filter (\<lambda>e. t2 < e) xs) = filter (\<lambda>e. B < e) xs" by (simp add: f)
    then have "length (filter (\<lambda>e. B < e) xs) \<le> length (filter (\<lambda>e. t2 < e) xs)" by (metis length_filter_le)
    with n Some show ?thesis by (auto simp: activeQuotaReservations_def live_after_def getz_def Let_def)
  qed (use n in \<open>simp add: activeQuotaReservations_def live_after_def getz_def\<close>)
  moreover have "live_after B key (takeQuotaReservation t3 key w1) = Suc (live_after B key w1)"
    using B(2) by (simp add: live_after_def takeQuotaReservation_def getz_update)
  ultimately show "live_after B key w' = live_after B key w + of_bool (r = Allow)"
    "r = Allow \<Longrightarrow> int (a + p + live_after B key w) < L"
    using d q lu l1 key by (auto simp: decideQuota_def Let_def split: if_splits)
qed

lemma burst_bound:
  assumes "\<forall>(t1, t2, t3, fip) \<in> set rs. f_pool fip = pool \<and> label (f_labels fip) projectNameLabel = project \<and>
      t2 \<le> B \<and> B < t3 + quotaReservationTTL \<and>
      count_usage (t1 - quotaReservationTTL) project pool fip items 0 0 0 = (a, p, 0)"
    and q: "map_of (mof (q_quota q)) pool = Some L"
  shows "int (burst q items rs w) \<le> max 0 (L - int (a + p + live_after B (project @ ''/'' @ pool) w))"
  using assms(1)
proof (induction rs arbitrary: w)
  case (Cons r rs)
  obtain t1 t2 t3 fip where r: "r = (t1, t2, t3, fip)" by (cases r)
  have h: "f_pool fip = pool" "label (f_labels fip) projectNameLabel = project" "t2 \<le> B" "B < t3 + quotaReservationTTL"
    "count_usage (t1 - quotaReservationTTL) project pool fip items 0 0 0 = (a, p, 0)" using Cons.prems r by auto
  obtain x w' where d: "decideQuota t1 t2 t3 (Inr (Some q)) (Inr items) fip None w = (x, w')"
    by (cases "decideQuota t1 t2 t3 (Inr (Some q)) (Inr items) fip None w")
  note dq = decideQuota_create [of q fip L t1 items a p t2 B t3 w x w' "project @ ''/'' @ pool"]
  have s: "live_after B (project @ ''/'' @ pool) w' = live_after B (project @ ''/'' @ pool) w + of_bool (x = Allow)"
    "x = Allow \<Longrightarrow> int (a + p + live_after B (project @ ''/'' @ pool) w) < L"
    using dq h q d by simp_all
  have IH: "int (burst q items rs w') \<le> max 0 (L - int (a + p + live_after B (project @ ''/'' @ pool) w'))"
    using Cons.IH Cons.prems by simp
  show ?case
  proof (cases x)
    case Allow
    with r d IH s show ?thesis by simp
  next
    case (Deny m)
    with r d IH s show ?thesis by simp
  qed
qed simp

text \<open>
  C5. A burst of quota decisions cannot overrun the quota: take any number of decisions (\<open>decideQuota\<close>, the quota part of the
  validation) on creations of one project in one pool, where every decision sees the same quota and the same list, in which the project has
  \<open>a\<close> allocated and \<open>p\<close> pending FloatingIPs in the pool and none of them is recent (so no object of the burst is visible yet), and where no
  reservation of the burst expires before the last decision. Then at most \<open>max 0 (L - (a + p))\<close> of them are allowed, \<open>L\<close> the limit of the pool.
  Bursts in which listed objects are recent are not covered.
\<close>

theorem burst_within_quota:
  assumes "\<forall>(t1, t2, t3, fip) \<in> set rs. f_pool fip = pool \<and> label (f_labels fip) projectNameLabel = project \<and>
      t2 \<le> B \<and> B < t3 + quotaReservationTTL \<and>
      count_usage (t1 - quotaReservationTTL) project pool fip items 0 0 0 = (a, p, 0)"
    and "map_of (mof (q_quota q)) pool = Some L"
  shows "int (burst q items rs w) \<le> max 0 (L - int (a + p))"
  using burst_bound [OF assms, of w] by simp

theorem burst_within_quota_witness:
  "burst quota_w [] (map (\<lambda>n. (n, n, n, fip_w\<lparr>f_name := dec (nat n)\<rparr>)) [1, 2, 3, 4]) webhook0 \<le> 2"
proof -
  let ?rs = "map (\<lambda>n. (n, n, n, fip_w\<lparr>f_name := dec (nat n)\<rparr>)) [1, 2, 3, 4 :: int]"
  have h: "\<forall>(t1, t2, t3, fip) \<in> set ?rs. f_pool fip = ''lab'' \<and> label (f_labels fip) projectNameLabel = ''proj'' \<and>
      t2 \<le> 4 \<and> 4 < t3 + quotaReservationTTL \<and>
      count_usage (t1 - quotaReservationTTL) ''proj'' ''lab'' fip [] 0 0 0 = (0, 0, 0)"
    by (simp add: fip_w_def label_def getz_def quotaReservationTTL_def)
  have q: "map_of (mof (q_quota quota_w)) ''lab'' = Some 2" by (simp add: quota_w_def)
  show ?thesis using burst_within_quota [OF h q, of webhook0] by simp
qed

section \<open>Pools: the webhook and the address manager\<close>

lemma split_on_chars: "x \<in> set s \<Longrightarrow> x = c \<or> (\<exists>p \<in> set (split_on c s). x \<in> set p)"
  by (induction s) (auto split: list.splits)

lemma ParseAddr_v4_chars:
  assumes "ParseAddr s = Some a" "azone a = Z4" "x \<in> set s"
  shows "is_digit x \<or> x = CHR ''.''"
proof -
  obtain w where w: "parseIPv4Fields s = Some w"
    using assms(1,2) parseIPv6_zone by (auto simp: ParseAddr_def split: option.splits if_splits)
  obtain a b c d where "map parse_octet (split_on (CHR ''.'') s) = [Some a, Some b, Some c, Some d]"
    using w by (auto simp: parseIPv4Fields_def split: list.splits option.splits)
  then have "\<forall>p \<in> set (split_on (CHR ''.'') s). parse_octet p \<noteq> None" by auto
  then have "\<forall>p \<in> set (split_on (CHR ''.'') s). list_all is_digit p" by (auto simp: parse_octet_def split: if_splits)
  with split_on_chars [OF assms(3), of "CHR ''.''"] show ?thesis by (auto simp: list_all_iff)
qed

lemma split_last_slash:
  assumes "CHR ''/'' \<in> set s" and "bs = rev (takeWhile (\<lambda>c. c \<noteq> CHR ''/'') (rev s))"
  shows "s = take (length s - length bs - 1) s @ CHR ''/'' # bs"
proof -
  define d where "d = dropWhile (\<lambda>c. c \<noteq> CHR ''/'') (rev s)"
  have r: "rev s = rev bs @ d" unfolding assms(2) d_def by simp
  have "d \<noteq> []" using assms(1) by (auto simp: d_def dropWhile_eq_Nil_conv)
  then obtain x xs where d: "d = x # xs" by (cases d) auto
  have "x = CHR ''/''" using hd_dropWhile [of "\<lambda>c. c \<noteq> CHR ''/''" "rev s"] \<open>d \<noteq> []\<close> d by (simp add: d_def)
  with r d have "s = rev xs @ CHR ''/'' # bs" by (metis append_eq_append_conv2 rev.simps(2) rev_append rev_rev_ident append.assoc append_Cons append_Nil)
  then show ?thesis by simp
qed

lemma ParsePrefix_ParseCIDR:
  assumes p: "ParsePrefix s = Some p" and i4: "Is4 (pip p)"
  shows "\<exists>nt. ParseCIDR s = Some nt \<and> (\<forall>v. mapped v \<longrightarrow> Contains p (Addr v Z4) \<longrightarrow> ipnet_contains nt (IP16 v))"
proof -
  define bs where "bs = rev (takeWhile (\<lambda>c. c \<noteq> CHR ''/'') (rev s))"
  define as where "as = take (length s - length bs - 1) s"
  have sl: "CHR ''/'' \<in> set s" using p by (auto simp: ParsePrefix_def split: if_splits)
  have s: "s = as @ CHR ''/'' # bs" using split_last_slash [OF sl bs_def] by (simp add: as_def)
  have a: "ParseAddr as = Some (pip p)" "zone_of (pip p) = []" "parse_bits bs = Some (pbits p)"
    using p sl by (auto simp: ParsePrefix_def Let_def as_def simp flip: bs_def split: option.splits if_splits)
  note pp = ParsePrefix_Is4 [OF p i4]
  have "CHR ''/'' \<notin> set as"
    using ParseAddr_v4_chars [OF a(1), of "CHR ''/''"] pp by (auto simp: is_digit_def)
  then have "\<forall>c \<in> set as. c \<noteq> CHR ''/''" by auto
  from takeWhile_all [OF this, of "CHR ''/''" bs] have tw: "takeWhile (\<lambda>c. c \<noteq> CHR ''/'') s = as" by (simp flip: s)
  have bits: "bs \<noteq> []" "list_all is_digit bs" "val_base 10 bs = pbits p"
    using a(3) by (auto simp: parse_bits_def split: if_splits)
  have bl: "BitLen (pip p) = 32" using pp by (cases "pip p") auto
  define h where "h = 32 - pbits p"
  define w where "w = aval (pip p) mod 0x100000000"
  have dr: "drop (Suc (length as)) s = bs" unfolding s by simp
  have c: "ParseCIDR s = Some (IPNet (IP4 (w div 2 ^ h * 2 ^ h)) (pbits p) 4)"
    using sl tw a bits bl pp i4 by (auto simp: ParseCIDR_def Let_def dr w_def h_def)
  have "ipnet_contains (IPNet (IP4 (w div 2 ^ h * 2 ^ h)) (pbits p) 4) (IP16 v)"
    if "mapped v" "Contains p (Addr v Z4)" for v
  proof -
    have h32: "h \<le> 32" by (simp add: h_def)
    have "v div 2 ^ h = aval (pip p) div 2 ^ h" using that(2) by (simp add: Contains_def h_def)
    then have "v mod 0x100000000 div 2 ^ h = w div 2 ^ h"
      using mapped_div [OF that(1) h32] mapped_div [OF conjunct1 [OF pp] h32] by (simp add: w_def)
    then show ?thesis using that(1) by (simp add: ipnet_contains_def h_def [symmetric])
  qed
  with c show ?thesis by blast
qed

lemma mapped_le: "mapped u \<Longrightarrow> mapped v \<Longrightarrow> u \<le> v \<longleftrightarrow> u mod 0x100000000 \<le> v mod 0x100000000"
  using mapped_value [of u] mapped_value [of v] by linarith

text \<open>
  The webhook refuses no IPv4 pool that the address manager can serve: a configuration for which
  the manager builds the range and reserves every excluded address is always admitted.
\<close>

theorem serviceable_pools_admitted:
  assumes "RefreshSubnet a name (Subnet c) (Pool_Start c) (Pool_End c) (Pool_Exclude c) al = Some (a', None)"
    and "ipam_reach a" and "ParsePrefix (Subnet c) = Some p" and "Is4 (pip p)"
  shows "validateFloatingIPPool (Some c) = Allow"
proof -
  from RefreshSubnet_ok [OF ipam_ok_inv [OF ipam_reach_ok [OF assms(2)]] assms(1)] obtain p' sa ea where
    "build_checks (Subnet c) (Pool_Start c) (Pool_End c) p' sa ea"
    and ex: "\<forall>ip \<in> set (Pool_Exclude c). markable (built_subnet p' sa ea) ip" by metis
  then have b: "build_checks (Subnet c) (Pool_Start c) (Pool_End c) p sa ea" and p': "p' = p"
    using assms(3) by (auto simp: build_checks_def)
  obtain nt where nt: "ParseCIDR (Subnet c) = Some nt"
    "\<And>v. mapped v \<Longrightarrow> Contains p (Addr v Z4) \<Longrightarrow> ipnet_contains nt (IP16 v)"
    using ParsePrefix_ParseCIDR [OF assms(3,4)] by blast
  have sa: "ParseAddr (Pool_Start c) = Some sa" "Contains p sa" and ea: "ParseAddr (Pool_End c) = Some ea" "Contains p ea"
    and le: "aval sa \<le> aval ea" "aval ea - aval sa < 65536" using b by (simp_all add: build_checks_def)
  have z: "sa = Addr (aval sa) Z4" "ea = Addr (aval ea) Z4"
    using Contains_Is4 [OF sa(2) assms(4)] Contains_Is4 [OF ea(2) assms(4)] by (metis addr.collapse)+
  have m: "mapped (aval sa)" "mapped (aval ea)"
    using ParseAddr_Z4 [OF sa(1)] ParseAddr_Z4 [OF ea(1)] z by (metis addr.sel(2))+
  have inn: "mapped v \<and> ipnet_contains nt (IP16 v) \<and> ip_in_range (IP16 v) (IP16 (aval sa)) (IP16 (aval ea))"
    if "aval sa \<le> v" "v \<le> aval ea" for v
  proof -
    have mv: "mapped v" using mapped_between [OF m that] .
    have "Contains p (Addr v Z4)" using Contains_between [OF _ _ that] sa(2) ea(2) z by metis
    with nt(2) mv m that mapped_le [OF m(1) mv] mapped_le [OF mv m(2)] show ?thesis by (simp add: ip_in_range_def)
  qed
  have st: "ParseIP (Pool_Start c) = Some (IP16 (aval sa))" and en: "ParseIP (Pool_End c) = Some (IP16 (aval ea))"
    using ParseIP_Contains sa ea by blast+
  have excl: "checkExcludes nt (IP16 (aval sa)) (IP16 (aval ea)) xs = Allow" if "set xs \<subseteq> set (Pool_Exclude c)" for xs
    using that
  proof (induction xs)
    case (Cons x xs)
    then have "x \<in> set (keys (s_ips (built_subnet p sa ea)))" using ex p' by (simp add: markable_def)
    then obtain v where v: "x = ipkey v" "aval sa \<le> v" "v \<le> aval ea" by (auto simp: built_subnet_def simp del: upt_Suc)
    have "ParseAddr x = Some (addr_of v)" using v ParseAddr_String [of v] build_checks_bound [OF b] by simp
    then have "ParseIP x = Some (IP16 v)" by (simp add: ParseIP_def addr_of_eq)
    with inn [OF v(2,3)] Cons show ?case by simp
  qed simp
  have "ValidateRangeSize (Pool_Start c) (Pool_End c) = None"
    using ValidateRangeSize_None [OF sa(1) ea(1) le(1)] le(2) by simp
  moreover have "ip_le (IP16 (aval sa)) (IP16 (aval ea))" using m mapped_le [OF m] le(1) by (simp add: ip_le_def)
  ultimately show ?thesis
    using nt(1) st en inn [of "aval sa"] inn [of "aval ea"] le(1) excl [of "Pool_Exclude c"]
    by (simp add: validateFloatingIPPool_def)
qed

definition config_w :: IPConfig where
  "config_w = \<lparr>Family = ''IPv4'', Subnet = ''10.0.0.0/29'', Pool_Start = ''10.0.0.2'', Pool_End = ''10.0.0.4'',
     Pool_Exclude = [''10.0.0.3'']\<rparr>"

theorem serviceable_pools_admitted_witness: "validateFloatingIPPool (Some config_w) = Allow"
proof -
  let ?r = "RefreshSubnet lab ''lab'' (Subnet config_w) (Pool_Start config_w) (Pool_End config_w) (Pool_Exclude config_w) []"
  have "map_option snd ?r = Some None" by code_simp
  then obtain a' where "?r = Some (a', None)" by auto
  moreover have "ParsePrefix (Subnet config_w) = Some (Prefix (AddrFrom4 0x0a000000) 29)" by code_simp
  moreover have "Is4 (pip (Prefix (AddrFrom4 0x0a000000) 29))" by code_simp
  ultimately show ?thesis using serviceable_pools_admitted lab_reach by metis
qed

text \<open>
  The converse fails: the webhook admits IPv4 pools that the address manager can never build. A
  range that ends at the subnet's broadcast address is admitted and then refused by every
  refresh, and so is a pool that excludes an address written in its IPv4-mapped form.
\<close>

theorem admitted_pools_not_serviceable:
  "validateFloatingIPPool (Some (config_w\<lparr>Pool_End := ''10.0.0.7''\<rparr>)) = Allow \<and>
   buildSubnet (Subnet config_w) (Pool_Start config_w) ''10.0.0.7'' = Some (Inl (EndIsBroadcast ''10.0.0.7'')) \<and>
   validateFloatingIPPool (Some (config_w\<lparr>Pool_Exclude := [''::ffff:10.0.0.3'']\<rparr>)) = Allow \<and>
   map_option snd (RefreshSubnet New ''lab'' (Subnet config_w) (Pool_Start config_w) (Pool_End config_w) [''::ffff:10.0.0.3''] []) =
     Some (Some (ExcludeFailed ''::ffff:10.0.0.3'' (NotInCidr ''::ffff:10.0.0.3'')))"
  by (intro conjI; code_simp)

end
