(* ===== verification/Api_Env.thy ===== *)
theory Api_Env
  imports Services "HOL-Library.Word"
begin

text \<open>
  The environment of the HTTP API server (\<open>src/apiserver\<close>) and the values its parts exchange:
  the requests and answers of \<open>pkg/types/types.go\<close>, the errors written by \<open>internal/errors\<close>, and
  the calls into the Kubernetes API as the fields of a record \<open>api\<close>. A program of the API server
  is a state transformer of the outside world; every call may change the world, which is what
  other replicas, the manager and the users of the cluster do in the meantime.

  The REST client, the JWT library, the RSA keys and the context of a request are not part of
  the repository; what a property needs of them is a hypothesis of the property.
\<close>

section \<open>Requests and answers\<close>

record project =
  pr_name :: string
  pr_ns :: string

record FIPRequest =
  rq_ClientSecret :: string
  rq_Cluster :: string
  rq_Project :: string
  rq_FloatingIPPool :: string
  rq_ServiceNamespace :: string
  rq_ServiceName :: string
  rq_IPAddress :: string
  rq_FloatingIPGroup :: string

record FIPResponse =
  rs_ClientSecret :: string
  rs_Status :: string
  rs_Cluster :: string
  rs_Project :: string
  rs_FloatingIPPool :: string
  rs_ServiceNamespace :: string
  rs_ServiceName :: string
  rs_IPAddress :: string
  rs_Subnet :: string
  rs_FloatingIPGroup :: string
  rs_SharedKey :: string

record FIPReleaseRequest =
  rl_ClientSecret :: string
  rl_Cluster :: string
  rl_Project :: string
  rl_FloatingIPPool :: string
  rl_ServiceNamespace :: string
  rl_ServiceName :: string
  rl_IPAddress :: string
  rl_FloatingIPGroup :: string

record FIPListRequest =
  ls_ClientSecret :: string
  ls_Cluster :: string
  ls_Project :: string
  ls_FloatingIPPool :: string

record FIPListEntry =
  le_Project :: string
  le_Cluster :: string
  le_FloatingIPPool :: string
  le_ServiceNamespace :: string
  le_ServiceName :: string
  le_IPAddress :: string
  le_FloatingIPGroup :: string

record FIPListResponse =
  lr_ClientSecret :: string
  lr_Cluster :: string
  lr_Project :: string
  lr_FloatingIPs :: "FIPListEntry list"

record FIPDeleteRequest =
  dl_ClientSecret :: string
  dl_Project :: string
  dl_IPAddress :: string

text \<open>
  What is written to the client: \<open>WriteJSONError\<close> with a code and a message, an answer with code
  200, or nothing at all when the client has gone away.
\<close>

datatype reply =
    JSONError nat string
  | TokenReply string int
  | FIPReply FIPResponse
  | ReleaseReply string string
  | ListReply FIPListResponse
  | DeleteReply string string
  | NoReply

fun reply_code :: "reply \<Rightarrow> nat" where
  "reply_code (JSONError c m) = c"
| "reply_code NoReply = 0"
| "reply_code _ = 200"

section \<open>The calls\<close>

datatype ctx_err = DeadlineExceeded | Canceled

text \<open>An event of a watch: the context is done, the channel is closed, an error event with or
  without an object, a FloatingIP, or an object of another kind.\<close>

datatype watch_event = CtxDone | WatchClosed | WatchError "kerr option" | WatchFip FloatingIP | WatchOther

record 'w api =
  ListProjects :: "('w, kerr + project list option) state"
  GetSecret :: "string \<Rightarrow> string \<Rightarrow> ('w, kerr + (string, string) gomap) state"
  CreateSecret :: "string \<Rightarrow> string \<Rightarrow> (string, string) gomap \<Rightarrow> ('w, kerr option) state"
  ListFips :: "string \<Rightarrow> ('w, kerr + FloatingIP list) state"
  ListFipsMatching :: "string \<Rightarrow> (string, string) gomap \<Rightarrow> ('w, kerr + FloatingIP list) state"
  FetchFip :: "string \<Rightarrow> string \<Rightarrow> ('w, kerr + FloatingIP) state"
  WriteFip :: "FloatingIP \<Rightarrow> ('w, kerr + FloatingIP) state"
  CreateFip :: "string \<Rightarrow> FloatingIP \<Rightarrow> ('w, kerr + FloatingIP) state"
  RemoveFip :: "string \<Rightarrow> string \<Rightarrow> ('w, kerr option) state"
  FetchPool :: "string \<Rightarrow> ('w, kerr + FloatingIPPool) state"
  Retry :: "('w, kerr + FloatingIP) state \<Rightarrow> ('w, kerr + FloatingIP) state"
  CtxErr :: "('w, ctx_err option) state"
  WatchGet :: "string \<Rightarrow> string \<Rightarrow> ('w, kerr + FloatingIP) state"
  OpenWatch :: "string \<Rightarrow> string \<Rightarrow> nat \<Rightarrow> ('w, kerr option) state"
  NextEvent :: "('w, watch_event) state"
  Sleep :: "nat \<Rightarrow> ('w, ctx_err option) state"
  ErrText :: "kerr \<Rightarrow> string"

text \<open>
  \<open>CreateFip g f\<close> creates \<open>f\<close>; \<open>g\<close> is the \<open>GenerateName\<close> prefix, which is used when \<open>f\<close> has no name.
  \<open>Retry\<close> is \<open>retry.RetryOnConflict\<close>: it returns what the last run returned. \<open>Sleep\<close> returns
  \<open>None\<close> when the delay has passed and the error of the context when the context ended first.
\<close>

inductive tries :: "('s, kerr + 'a) state \<Rightarrow> 's \<Rightarrow> kerr + 'a \<Rightarrow> 's \<Rightarrow> bool" where
  last_try: "run_state f s = (r, s') \<Longrightarrow> tries f s r s'"
| next_try: "run_state f s = (Inl e, s1) \<Longrightarrow> IsConflict e \<Longrightarrow> tries f s1 r s' \<Longrightarrow> tries f s r s'"

definition api_retry_ok :: "'w api \<Rightarrow> bool" where
  "api_retry_ok A \<longleftrightarrow> (\<forall>f s r s'. run_state (Retry A f) s = (r, s') \<longrightarrow> tries f s r s')"

lemma tries_result:
  "tries f s r s' \<Longrightarrow> \<exists>t. run_state f t = (r, s')"
  by (induction rule: tries.induct) auto

section \<open>Programs whose every call respects a relation\<close>

text \<open>
  \<open>moves R m\<close>: whatever the start, running \<open>m\<close> moves the world along \<open>R\<close>. The rules in
  \<open>moves_intro\<close> take a program apart down to its calls.
\<close>

named_theorems moves_intro \<open>how the statements of a program respect a relation\<close>

definition moves :: "('w \<Rightarrow> 'w \<Rightarrow> bool) \<Rightarrow> ('w, 'a) state \<Rightarrow> bool" where
  "moves R m \<longleftrightarrow> (\<forall>w. R w (snd (run_state m w)))"

lemma movesD: "moves R m \<Longrightarrow> run_state m w = (r, w') \<Longrightarrow> R w w'"
  by (metis moves_def snd_conv)

lemma moves_return [moves_intro]: "preorder_rel R \<Longrightarrow> moves R (State_Monad.return x)"
  by (auto simp: moves_def preorder_rel_def reflp_def)

lemma moves_bind [moves_intro]:
  assumes "preorder_rel R" "moves R m" "\<And>x. moves R (f x)"
  shows "moves R (State_Monad.bind m f)"
  using assms unfolding moves_def preorder_rel_def transp_def
  by (auto simp: case_prod_beta) blast

lemma moves_bind_result:
  assumes "preorder_rel R" "moves R m"
    and "\<And>w x w'. run_state m w = (x, w') \<Longrightarrow> moves R (f x)"
  shows "moves R (State_Monad.bind m f)"
  unfolding moves_def
proof
  fix w
  obtain x w' where x: "run_state m w = (x, w')" by (cases "run_state m w")
  with assms(2) have "R w w'" by (rule movesD)
  moreover have "R w' (snd (run_state (f x) w'))" using assms(3) [OF x] by (simp add: moves_def)
  ultimately show "R w (snd (run_state (State_Monad.bind m f) w))"
    using x assms(1) by (auto simp: preorder_rel_def transp_def)
qed

lemma moves_if [moves_intro]: "(b \<Longrightarrow> moves R m) \<Longrightarrow> (\<not> b \<Longrightarrow> moves R m') \<Longrightarrow> moves R (if b then m else m')"
  by simp

lemma moves_option [moves_intro]:
  "moves R m \<Longrightarrow> (\<And>x. moves R (f x)) \<Longrightarrow> moves R (case v of None \<Rightarrow> m | Some x \<Rightarrow> f x)"
  by (cases v) auto

lemma moves_sum [moves_intro]:
  "(\<And>x. moves R (f x)) \<Longrightarrow> (\<And>x. moves R (g x)) \<Longrightarrow> moves R (case v of Inl x \<Rightarrow> f x | Inr x \<Rightarrow> g x)"
  by (cases v) auto

lemma moves_prod [moves_intro]: "(\<And>x y. moves R (f x y)) \<Longrightarrow> moves R (case v of (x, y) \<Rightarrow> f x y)"
  by (cases v) auto

lemma moves_let [moves_intro]: "(\<And>x. moves R (f x)) \<Longrightarrow> moves R (Let v f)"
  by simp

lemma tries_moves:
  assumes "tries f w r w'" "preorder_rel R" "moves R f"
  shows "R w w'"
  using assms
proof (induction rule: tries.induct)
  case (last_try f w r w')
  then show ?case by (metis movesD)
next
  case (next_try f w e w1 r w')
  then have "R w w1" by (metis movesD)
  with next_try show ?case by (auto simp: preorder_rel_def transp_def)
qed

lemma moves_retry [moves_intro]:
  "api_retry_ok A \<Longrightarrow> preorder_rel R \<Longrightarrow> moves R f \<Longrightarrow> moves R (Retry A f)"
  unfolding moves_def [of R "Retry A f"]
  by (metis tries_moves api_retry_ok_def prod.collapse)

end
