(* ===== verification/Api_Auth.thy ===== *)
theory Api_Auth
  imports Api_Env
begin

text \<open>
  Authentication, authorization and rate limiting in front of the API's handlers:
  \<open>apiserver/internal/middleware/middleware.go\<close>, \<open>apiserver/internal/auth/auth.go\<close> and the order
  in which \<open>run\<close> in \<open>apiserver/cmd/api-server/main.go\<close> chains them.

  The parameters of the definitions are what is not in the repository: the JWT parser and signer,
  the RSA key pair and its PEM form, the token bucket \<open>rate.Limiter\<close>, the clock, and the decoder
  of the JSON body. Times are nanoseconds.
\<close>

section \<open>Tokens\<close>

datatype signing_method = SigningRSA | SigningOther

text \<open>A parsed token: whether it is valid, and the client of its claims when they are of the program's type.\<close>

record token =
  tk_Valid :: bool
  tk_ClientID :: "string option"

type_synonym 'pub jwt_parser = "string \<Rightarrow> (signing_method \<Rightarrow> kerr + 'pub) \<Rightarrow> kerr + token"

definition ValidateJWT :: "'pub jwt_parser \<Rightarrow> string \<Rightarrow> 'pub \<Rightarrow> kerr + token" where
  "ValidateJWT ParseWithClaims tokenString publicKey =
     (case ParseWithClaims tokenString
             (\<lambda>m. if m = SigningRSA then Inr publicKey else Inl (Errorf ''unexpected signing method'')) of
        Inl e \<Rightarrow> Inl (Wrap ''failed to parse token'' e)
      | Inr token \<Rightarrow> Inr token)"

record jwt_claims =
  cl_IssuedAt :: int
  cl_ExpiresAt :: int
  cl_ClientID :: string

definition GenerateJWT ::
  "(jwt_claims \<Rightarrow> 'priv \<Rightarrow> kerr + string) \<Rightarrow> int \<Rightarrow> int \<Rightarrow> 'priv \<Rightarrow> string \<Rightarrow> int \<Rightarrow> kerr + (string \<times> int)" where
  "GenerateJWT SignedString t1 t2 privateKey clientID expiration =
     (let expiresAt = t1 + expiration in
      case SignedString \<lparr>cl_IssuedAt = t2, cl_ExpiresAt = expiresAt, cl_ClientID = clientID\<rparr> privateKey of
        Inl e \<Rightarrow> Inl (Wrap ''failed to sign token'' e)
      | Inr signedToken \<Rightarrow> Inr (signedToken, expiresAt))"

section \<open>The client's secret\<close>

fun find_project :: "project list \<Rightarrow> string \<Rightarrow> project option" where
  "find_project [] name = None"
| "find_project (p # ps) name = (if pr_name p = name then Some p else find_project ps name)"

definition secretName :: "project \<Rightarrow> string" where
  "secretName p = ''rancher-fip-config-'' @ pr_name p"

definition ValidateClientRequest :: "'w api \<Rightarrow> string \<Rightarrow> string \<Rightarrow> ('w, bool) state" where
  "ValidateClientRequest A projectRequest clientSecretRequest = do {
     l \<leftarrow> ListProjects A;
     case l of
       Inl e \<Rightarrow> State_Monad.return False
     | Inr None \<Rightarrow> State_Monad.return False
     | Inr (Some projects) \<Rightarrow>
         (case find_project projects projectRequest of
            None \<Rightarrow> State_Monad.return False
          | Some project \<Rightarrow> do {
              s \<leftarrow> GetSecret A (pr_ns project) (secretName project);
              State_Monad.return (case s of
                 Inl e \<Rightarrow> False
               | Inr d \<Rightarrow>
                   (case map_of d ''project'' of
                      None \<Rightarrow> False
                    | Some projectID \<Rightarrow>
                        if projectID \<noteq> pr_name project then False
                        else (case map_of d ''clientSecret'' of
                                None \<Rightarrow> False
                              | Some clientSecret \<Rightarrow> clientSecret = clientSecretRequest)))
            })
   }"

section \<open>The signing key\<close>

text \<open>\<open>ParsePEM\<close> and \<open>EncodePEM\<close> stand for the key's PEM form, \<open>GenKey\<close> for \<open>rsa.GenerateKey\<close>.\<close>

record ('w, 'k) key_ops =
  ParsePEM :: "string \<Rightarrow> kerr + 'k"
  EncodePEM :: "'k \<Rightarrow> string"
  GenKey :: "('w, kerr + 'k) state"

definition GetPrivateKey :: "'w api \<Rightarrow> ('w, 'k) key_ops \<Rightarrow> string \<Rightarrow> string \<Rightarrow> string \<Rightarrow> ('w, kerr + 'k) state" where
  "GetPrivateKey A K ns name dataKey = do {
     s \<leftarrow> GetSecret A ns name;
     State_Monad.return (case s of
        Inl e \<Rightarrow> Inl (wrap (''failed to get secret '' @ ns @ ''/'' @ name) e)
      | Inr d \<Rightarrow>
          (case map_of d dataKey of
             None \<Rightarrow> Inl (Errorf (''secret '' @ ns @ ''/'' @ name @ '' does not contain key '' @ dataKey))
           | Some b \<Rightarrow>
               (case ParsePEM K b of
                  Inl e \<Rightarrow> Inl (wrap (''failed to parse private key from secret '' @ ns @ ''/'' @ name) e)
                | Inr k \<Rightarrow> Inr k)))
   }"

definition GeneratePrivateKey :: "('w, 'k) key_ops \<Rightarrow> ('w, kerr + 'k) state" where
  "GeneratePrivateKey K = do {
     r \<leftarrow> GenKey K;
     State_Monad.return (case r of Inl e \<Rightarrow> Inl (wrap ''failed to generate private key'' e) | Inr k \<Rightarrow> Inr k)
   }"

definition SavePrivateKey :: "'w api \<Rightarrow> ('w, 'k) key_ops \<Rightarrow> string \<Rightarrow> string \<Rightarrow> 'k \<Rightarrow> ('w, kerr option) state" where
  "SavePrivateKey A K ns name privateKey = do {
     r \<leftarrow> CreateSecret A ns name [(''key'', EncodePEM K privateKey)];
     State_Monad.return (map_option (wrap (''failed to create private key secret '' @ ns @ ''/'' @ name)) r)
   }"

definition EnsurePrivateKey :: "'w api \<Rightarrow> ('w, 'k) key_ops \<Rightarrow> string \<Rightarrow> string \<Rightarrow> bool \<Rightarrow> ('w, kerr + 'k) state" where
  "EnsurePrivateKey A K ns name generate = do {
     g \<leftarrow> GetPrivateKey A K ns name ''key'';
     case g of
       Inr k \<Rightarrow> State_Monad.return (Inr k)
     | Inl e \<Rightarrow>
         if \<not> IsNotFound e then State_Monad.return (Inl e)
         else if \<not> generate then
           State_Monad.return (Inl (Errorf (''private key not found in secret '' @ ns @ ''/'' @ name @ '' and key generation is disabled'')))
         else do {
           n \<leftarrow> GeneratePrivateKey K;
           case n of
             Inl e' \<Rightarrow> State_Monad.return (Inl e')
           | Inr privateKey \<Rightarrow> do {
               s \<leftarrow> SavePrivateKey A K ns name privateKey;
               case s of
                 None \<Rightarrow> State_Monad.return (Inr privateKey)
               | Some e' \<Rightarrow>
                   if \<not> IsAlreadyExists e' then State_Monad.return (Inl e')
                   else GetPrivateKey A K ns name ''key''
             }
         }
   }"

section \<open>Token buckets\<close>

definition limiterIdleTTL :: int where
  "limiterIdleTTL = 600000000000"

definition limiterSweepInterval :: int where
  "limiterSweepInterval = 60000000000"

definition limiterMaxEntries :: nat where
  "limiterMaxEntries = 10000"

text \<open>
  A store keeps a bucket and the time it was last asked for per key. \<open>ls_bucket\<close> is a fresh bucket
  of the store's rate and burst; \<open>lastSweep\<close> is \<open>None\<close> for the zero time, from which every time is
  further away than the sweep interval.
\<close>

record 'l limiterStore =
  ls_entries :: "(string, 'l \<times> int) gomap"
  ls_bucket :: 'l
  ls_lastSweep :: "int option"

definition newLimiterStore :: "'l \<Rightarrow> 'l limiterStore" where
  "newLimiterStore bucket = \<lparr>ls_entries = [], ls_bucket = bucket, ls_lastSweep = None\<rparr>"

definition sweepLocked :: "int \<Rightarrow> 'l limiterStore \<Rightarrow> 'l limiterStore" where
  "sweepLocked now s =
     s\<lparr>ls_lastSweep := Some now,
       ls_entries := filter (\<lambda>(key, (b, lastSeen)). \<not> limiterIdleTTL < now - lastSeen) (ls_entries s)\<rparr>"

text \<open>\<open>sort.Slice\<close> is not stable; the order of equal ages is one of those it may produce.\<close>

definition evictOldestLocked :: "'l limiterStore \<Rightarrow> 'l limiterStore" where
  "evictOldestLocked s =
     (let target = max 1 (length (ls_entries s) div 8);
          ages = sort_key (\<lambda>(key, (b, lastSeen)). lastSeen) (ls_entries s);
          gone = map fst (take target ages)
      in s\<lparr>ls_entries := filter (\<lambda>(key, e). key \<notin> set gone) (ls_entries s)\<rparr>)"

text \<open>
  \<open>Allow t b\<close> stands for the bucket's own \<open>Allow\<close> at time \<open>t\<close>: the verdict and the bucket afterwards.
\<close>

definition allow :: "(int \<Rightarrow> 'l \<Rightarrow> bool \<times> 'l) \<Rightarrow> int \<Rightarrow> int \<Rightarrow> string \<Rightarrow> 'l limiterStore \<Rightarrow> bool \<times> 'l limiterStore" where
  "allow Allow now t key s =
     (let s1 = (case ls_lastSweep s of
                  None \<Rightarrow> sweepLocked now s
                | Some l \<Rightarrow> if limiterSweepInterval \<le> now - l then sweepLocked now s else s);
          (b, s2) = (case map_of (ls_entries s1) key of
                       Some (b, _) \<Rightarrow> (b, s1)
                     | None \<Rightarrow> (ls_bucket s1, if limiterMaxEntries \<le> length (ls_entries s1) then evictOldestLocked s1 else s1));
          (ok, b') = Allow t b
      in (ok, s2\<lparr>ls_entries := AList.update key (b', now) (ls_entries s2)\<rparr>))"

section \<open>Requests and middleware\<close>

text \<open>
  A request: its \<open>Authorization\<close> header, the peer's address, the declared length, the bytes the
  body delivers and whether reading then fails, and the client the token named (in the context).
\<close>

record http_req =
  h_auth :: string
  h_remote :: string
  h_length :: int
  h_body :: string
  h_broken :: bool
  h_limit :: "nat option"
  h_client :: "string option"

datatype body_error = MaxBytesError | ReadError

text \<open>\<open>io.ReadAll\<close> on the body, through the \<open>http.MaxBytesReader\<close> when one was installed.\<close>

definition ReadAll :: "http_req \<Rightarrow> body_error + string" where
  "ReadAll r =
     (if (case h_limit r of None \<Rightarrow> False | Some n \<Rightarrow> n < length (h_body r)) then Inl MaxBytesError
      else if h_broken r then Inl ReadError
      else Inr (h_body r))"

text \<open>The three stores of the server and the outside world.\<close>

record 'l stores =
  st_global :: "'l limiterStore"
  st_token :: "'l limiterStore"
  st_client :: "'l limiterStore"

type_synonym ('l, 'w) handler = "http_req \<Rightarrow> ('l stores \<times> 'w, reply) state"

definition in_world :: "('w, 'a) state \<Rightarrow> ('s \<times> 'w, 'a) state" where
  "in_world m = State (\<lambda>(s, w). case run_state m w of (x, w') \<Rightarrow> (x, (s, w')))"

definition AuthMiddleware :: "'pub jwt_parser \<Rightarrow> 'pub \<Rightarrow> ('l, 'w) handler \<Rightarrow> ('l, 'w) handler" where
  "AuthMiddleware P pub next r =
     (if h_auth r = [] then State_Monad.return (JSONError 401 ''Authorization header is required'')
      else let parts = split_on (CHR '' '') (h_auth r) in
        if length parts \<noteq> 2 \<or> parts ! 0 \<noteq> ''Bearer'' then
          State_Monad.return (JSONError 401 ''Authorization header format must be Bearer {token}'')
        else case ValidateJWT P (parts ! 1) pub of
            Inl e \<Rightarrow> State_Monad.return (JSONError 401 ''Invalid token'')
          | Inr token \<Rightarrow>
              if \<not> tk_Valid token then State_Monad.return (JSONError 401 ''Invalid token'')
              else (case tk_ClientID token of
                  None \<Rightarrow> State_Monad.return (JSONError 401 ''Invalid token claims'')
                | Some clientID \<Rightarrow> next (r\<lparr>h_client := Some clientID\<rparr>)))"

text \<open>\<open>decode\<close> stands for the JSON decoder into the fields \<open>project\<close> and \<open>clientsecret\<close>.\<close>

definition AuthorizeMiddleware ::
  "'w api \<Rightarrow> (string \<Rightarrow> (string \<times> string) option) \<Rightarrow> ('l, 'w) handler \<Rightarrow> ('l, 'w) handler" where
  "AuthorizeMiddleware A decode next r =
     (case ReadAll r of
        Inl MaxBytesError \<Rightarrow> State_Monad.return (JSONError 413 ''request body too large'')
      | Inl ReadError \<Rightarrow> State_Monad.return (JSONError 500 ''Failed to read request body'')
      | Inr bodyBytes \<Rightarrow>
          (case decode bodyBytes of
             None \<Rightarrow> State_Monad.return (JSONError 400 ''Invalid request body'')
           | Some (project, clientSecret) \<Rightarrow> do {
               ok \<leftarrow> in_world (ValidateClientRequest A project clientSecret);
               if \<not> ok then State_Monad.return (JSONError 403 ''Client not authorized'')
               else next (r\<lparr>h_body := bodyBytes, h_limit := None\<rparr>)
             }))"

definition BodyLimitMiddleware :: "nat \<Rightarrow> ('l, 'w) handler \<Rightarrow> ('l, 'w) handler" where
  "BodyLimitMiddleware maxBytes next r =
     (if int maxBytes < h_length r then State_Monad.return (JSONError 413 ''request body too large'')
      else next (r\<lparr>h_limit := Some maxBytes\<rparr>))"

text \<open>\<open>SplitHostPort\<close> of the standard library on the peer's address: the last colon ends the host,
  which may stand in brackets and otherwise has no colon.\<close>

definition SplitHostPort :: "string \<Rightarrow> string option" where
  "SplitHostPort hp =
     (if CHR '':'' \<notin> set hp then None
      else let rest = dropWhile (\<lambda>c. c \<noteq> CHR '':'') (rev hp); before = rev (tl rest) in
        if before \<noteq> [] \<and> hd before = CHR ''['' then
          (if CHR '']'' \<notin> set hp then None
           else let inner = takeWhile (\<lambda>c. c \<noteq> CHR '']'') (tl before) in
             if length before \<noteq> length inner + 2 then None
             else if CHR ''['' \<in> set inner then None
             else if CHR ''['' \<in> set (takeWhile (\<lambda>c. c \<noteq> CHR '':'') (rev hp)) \<or>
                     CHR '']'' \<in> set (takeWhile (\<lambda>c. c \<noteq> CHR '':'') (rev hp)) then None
             else Some inner)
        else if CHR '':'' \<in> set before then None
        else if CHR ''['' \<in> set hp \<or> CHR '']'' \<in> set hp then None
        else Some before)"

definition RemoteIPRateLimitKey :: "http_req \<Rightarrow> string" where
  "RemoteIPRateLimitKey r =
     (case SplitHostPort (h_remote r) of None \<Rightarrow> ''ip:'' @ h_remote r | Some host \<Rightarrow> ''ip:'' @ host)"

definition ClientIDRateLimitKey :: "http_req \<Rightarrow> string" where
  "ClientIDRateLimitKey r =
     (case h_client r of
        Some clientID \<Rightarrow> if clientID \<noteq> [] then ''client:'' @ clientID else RemoteIPRateLimitKey r
      | None \<Rightarrow> RemoteIPRateLimitKey r)"

definition GlobalRateLimitKey :: "http_req \<Rightarrow> string" where
  "GlobalRateLimitKey r = ''global''"

text \<open>\<open>get\<close> and \<open>put\<close> select the store; the clock is read once for the store and once by the bucket.\<close>

definition rateLimitHandler ::
  "(int \<Rightarrow> 'l \<Rightarrow> bool \<times> 'l) \<Rightarrow> ('w, int) state \<Rightarrow> ('l stores \<Rightarrow> 'l limiterStore) \<Rightarrow>
   ('l limiterStore \<Rightarrow> 'l stores \<Rightarrow> 'l stores) \<Rightarrow> (http_req \<Rightarrow> string) \<Rightarrow> ('l, 'w) handler \<Rightarrow> ('l, 'w) handler" where
  "rateLimitHandler Allow clock get put keyFn next r = do {
     now \<leftarrow> in_world clock;
     t \<leftarrow> in_world clock;
     ok \<leftarrow> State (\<lambda>(s, w). case allow Allow now t (keyFn r) (get s) of (ok, st) \<Rightarrow> (ok, (put st s, w)));
     if \<not> ok then State_Monad.return (JSONError 429 ''rate limit exceeded'') else next r
   }"

section \<open>The chain of the protected routes\<close>

record ('l, 'w, 'pub) server =
  sv_api :: "'w api"
  sv_parse :: "'pub jwt_parser"
  sv_pub :: 'pub
  sv_Allow :: "int \<Rightarrow> 'l \<Rightarrow> bool \<times> 'l"
  sv_clock :: "('w, int) state"
  sv_maxBodySize :: nat
  sv_decode :: "string \<Rightarrow> (string \<times> string) option"

text \<open>
  Every route goes through the global limit and the body limit; the routes under \<open>/v1/fip\<close> then
  through authentication, the limit per client and authorization.
\<close>

definition every_route :: "('l, 'w, 'pub) server \<Rightarrow> ('l, 'w) handler \<Rightarrow> ('l, 'w) handler" where
  "every_route S next =
     rateLimitHandler (sv_Allow S) (sv_clock S) st_global (\<lambda>g s. s\<lparr>st_global := g\<rparr>) GlobalRateLimitKey
       (BodyLimitMiddleware (sv_maxBodySize S) next)"

definition token_route :: "('l, 'w, 'pub) server \<Rightarrow> ('l, 'w) handler \<Rightarrow> ('l, 'w) handler" where
  "token_route S tokenHandler =
     every_route S
       (rateLimitHandler (sv_Allow S) (sv_clock S) st_token (\<lambda>g s. s\<lparr>st_token := g\<rparr>) RemoteIPRateLimitKey tokenHandler)"

definition fip_route :: "('l, 'w, 'pub) server \<Rightarrow> ('l, 'w) handler \<Rightarrow> ('l, 'w) handler" where
  "fip_route S handler =
     every_route S
       (AuthMiddleware (sv_parse S) (sv_pub S)
         (rateLimitHandler (sv_Allow S) (sv_clock S) st_client (\<lambda>g s. s\<lparr>st_client := g\<rparr>) ClientIDRateLimitKey
           (AuthorizeMiddleware (sv_api S) (sv_decode S) handler)))"

end
