(* ===== verification/Api_Auth_Props.thy ===== *)
theory Api_Auth_Props
  imports Api_Auth
begin

text \<open>
  What the middleware of the API server guarantees: the stores of token buckets stay bounded and
  keep the clients apart, the replicas agree on one signing key, and no request reaches a
  protected handler without a valid token and the secret of the project it names.
\<close>

section \<open>Token buckets\<close>

definition store_ok :: "'l limiterStore \<Rightarrow> bool" where
  "store_ok s \<longleftrightarrow> distinct (keys (ls_entries s)) \<and> length (ls_entries s) \<le> limiterMaxEntries"

lemma distinct_keys_filter: "distinct (keys m) \<Longrightarrow> distinct (keys (filter P m))"
  by (simp add: distinct_map_filter)

lemma map_of_filter_entries:
  assumes "distinct (keys m)"
  shows "map_of (filter P m) k = (case map_of m k of None \<Rightarrow> None | Some v \<Rightarrow> if P (k, v) then Some v else None)"
  using assms
  by (induction m) (auto split: option.splits simp: map_of_eq_None_iff [unfolded image_def] rev_image_eqI)

lemma sweep_ok: "store_ok s \<Longrightarrow> store_ok (sweepLocked now s)"
  by (auto simp: store_ok_def sweepLocked_def distinct_keys_filter intro: order_trans [OF length_filter_le])

lemma head_taken: "xs \<noteq> [] \<Longrightarrow> 1 \<le> n \<Longrightarrow> fst (hd xs) \<in> set (map fst (take n xs))"
  by (cases xs; cases n) auto

lemma fst_cond: "(\<lambda>(key, e). key \<notin> X) = (\<lambda>p. fst p \<notin> X)"
  by auto

lemma evict_length:
  assumes "ls_entries s \<noteq> []"
  shows "length (ls_entries (evictOldestLocked s)) < length (ls_entries s)"
proof -
  let ?m = "ls_entries s"
  let ?ages = "sort_key (\<lambda>(key, (b, lastSeen)). lastSeen) ?m"
  have ne: "?ages \<noteq> []" using assms by (metis length_0_conv length_sort)
  then have "hd ?ages \<in> set ?m" by (metis hd_in_set set_sort)
  moreover have "fst (hd ?ages) \<in> set (map fst (take (max 1 (length ?m div 8)) ?ages))"
    by (intro head_taken ne) simp
  ultimately have "length (filter (\<lambda>p. fst p \<notin> set (map fst (take (max 1 (length ?m div 8)) ?ages))) ?m) < length ?m"
    by (intro length_filter_less [of "hd ?ages"]) simp_all
  then show ?thesis unfolding evictOldestLocked_def Let_def by (simp add: fst_cond)
qed

lemma evict_oldest:
  assumes "distinct (keys (ls_entries s))" "map_of (ls_entries s) k = Some (c, seen)"
    and "map_of (ls_entries (evictOldestLocked s)) k = None"
    and "(k', c', seen') \<in> set (ls_entries (evictOldestLocked s))"
  shows "seen \<le> seen'"
proof -
  let ?m = "ls_entries s" and ?f = "\<lambda>(key :: string, (b :: 'a, lastSeen :: int)). lastSeen"
  let ?n = "max 1 (length ?m div 8)" and ?ages = "sort_key ?f ?m"
  let ?gone = "map fst (take ?n ?ages)"
  have "k \<in> set ?gone" using assms(1-3)
    by (auto simp: evictOldestLocked_def Let_def map_of_filter_entries split: if_splits)
  then obtain e where e: "(k, e) \<in> set (take ?n ?ages)" by auto
  then have "(k, e) \<in> set ?m" by (metis in_set_takeD set_sort)
  then have "map_of ?m k = Some e" using assms(1) by simp
  then have e': "(k, c, seen) \<in> set (take ?n ?ages)" using e assms(2) by simp
  have "(k', c', seen') \<in> set ?m" "k' \<notin> set ?gone"
    using assms(4) by (auto simp: evictOldestLocked_def Let_def)
  then have "(k', c', seen') \<in> set (drop ?n ?ages)"
    by (metis (no_types, lifting) Un_iff append_take_drop_id fst_conv image_eqI list.set_map set_append set_sort)
  moreover have "sorted (map ?f (take ?n ?ages @ drop ?n ?ages))"
    by (simp only: append_take_drop_id sorted_sort_key)
  ultimately show ?thesis using e' unfolding map_append sorted_append by force
qed

lemma evict_keeps:
  "distinct (keys (ls_entries s)) \<Longrightarrow> map_of (ls_entries (evictOldestLocked s)) k = Some e \<Longrightarrow> map_of (ls_entries s) k = Some e"
  by (auto simp: evictOldestLocked_def Let_def map_of_filter_entries split: option.splits if_splits)

lemma evict_distinct: "distinct (keys (ls_entries s)) \<Longrightarrow> distinct (keys (ls_entries (evictOldestLocked s)))"
  by (auto simp: evictOldestLocked_def Let_def distinct_keys_filter)

text \<open>The two phases of \<open>allow\<close>: the store after the sweep, and the store with room for the key.\<close>

definition swept :: "int \<Rightarrow> 'l limiterStore \<Rightarrow> 'l limiterStore" where
  "swept now s = (case ls_lastSweep s of
      None \<Rightarrow> sweepLocked now s
    | Some l \<Rightarrow> if limiterSweepInterval \<le> now - l then sweepLocked now s else s)"

definition roomy :: "string \<Rightarrow> 'l limiterStore \<Rightarrow> 'l limiterStore" where
  "roomy key s = (if map_of (ls_entries s) key = None \<and> limiterMaxEntries \<le> length (ls_entries s)
                  then evictOldestLocked s else s)"

definition own_bucket :: "string \<Rightarrow> 'l limiterStore \<Rightarrow> 'l" where
  "own_bucket key s = (case map_of (ls_entries s) key of None \<Rightarrow> ls_bucket s | Some (b, _) \<Rightarrow> b)"

lemma allow_eq:
  "allow Allow now t key s =
     (fst (Allow t (own_bucket key (swept now s))),
      (roomy key (swept now s))\<lparr>ls_entries := AList.update key (snd (Allow t (own_bucket key (swept now s))), now)
         (ls_entries (roomy key (swept now s)))\<rparr>)"
  unfolding allow_def own_bucket_def roomy_def swept_def Let_def
  by (cases "map_of (ls_entries (swept now s)) key") (auto simp: swept_def case_prod_beta split: option.splits prod.splits)

lemma swept_ok: "store_ok s \<Longrightarrow> store_ok (swept now s)"
  by (auto simp: swept_def sweep_ok split: option.splits)

lemma allow_ok:
  assumes "store_ok s"
  shows "store_ok (snd (allow Allow now t key s))"
proof -
  let ?s1 = "swept now s" and ?s2 = "roomy key (swept now s)"
  have s1: "store_ok ?s1" by (rule swept_ok [OF assms])
  then have d: "distinct (keys (ls_entries ?s2))" by (auto simp: roomy_def store_ok_def evict_distinct)
  have "length (AList.update key v (ls_entries ?s2)) \<le> limiterMaxEntries" for v
  proof (cases "map_of (ls_entries ?s1) key = None")
    case False
    then have "key \<in> set (keys (ls_entries ?s1))" unfolding map_of_None_keys by simp
    then have "length (AList.update key v (ls_entries ?s1)) = length (ls_entries ?s1)" by (rule length_update)
    moreover have "?s2 = ?s1" unfolding roomy_def using False by presburger
    ultimately show ?thesis using s1 unfolding store_ok_def by simp
  next
    case True
    then have "length (ls_entries ?s2) < limiterMaxEntries"
    proof (cases "limiterMaxEntries \<le> length (ls_entries ?s1)")
      case True
      then have "ls_entries ?s1 \<noteq> []" by (auto simp: limiterMaxEntries_def)
      from evict_length [OF this] s1 True \<open>map_of _ _ = None\<close> show ?thesis
        unfolding roomy_def store_ok_def by (simp only: if_P) linarith
    next
      case False
      then show ?thesis unfolding roomy_def by simp
    qed
    then show ?thesis using length_update_le [of key v "ls_entries ?s2"] by linarith
  qed
  then show ?thesis using d by (simp add: allow_eq store_ok_def distinct_keys_update)
qed

text \<open>The store after any sequence of requests: each with the time, the bucket's time and its key.\<close>

definition serve_all :: "(int \<Rightarrow> 'l \<Rightarrow> bool \<times> 'l) \<Rightarrow> (int \<times> int \<times> string) list \<Rightarrow> 'l limiterStore \<Rightarrow> 'l limiterStore" where
  "serve_all Allow calls s = foldl (\<lambda>s (now, t, key). snd (allow Allow now t key s)) s calls"

lemma serve_all_ok: "store_ok s \<Longrightarrow> store_ok (serve_all Allow calls s)"
  by (induction calls rule: rev_induct) (auto simp: serve_all_def allow_ok)

lemma new_store_ok: "store_ok (newLimiterStore b)"
  by (simp add: store_ok_def newLimiterStore_def)

text \<open>
  The store of token buckets stays bounded whatever the clients send: after any sequence of
  requests with any keys and at any times it holds at most 10000 buckets, at most one per key,
  and the key of the last request has one, stamped with the time of that request.
\<close>

theorem limiter_store_bounded:
  "let s = serve_all Allow (calls @ [(now, t, key)]) (newLimiterStore b)
   in length (ls_entries s) \<le> limiterMaxEntries \<and> distinct (keys (ls_entries s)) \<and>
      (\<exists>c. map_of (ls_entries s) key = Some (c, now))"
proof -
  define s where "s = serve_all Allow (calls @ [(now, t, key)]) (newLimiterStore b)"
  have "store_ok s" unfolding s_def by (rule serve_all_ok [OF new_store_ok])
  moreover have "\<exists>c. map_of (ls_entries s) key = Some (c, now)"
    by (simp add: s_def serve_all_def allow_eq)
  ultimately show ?thesis by (simp add: s_def [symmetric] store_ok_def)
qed

lemma swept_entry:
  assumes "distinct (keys (ls_entries s))" "map_of (ls_entries s) k = Some (c, seen)"
  shows "map_of (ls_entries (swept now s)) k = Some (c, seen) \<or> limiterIdleTTL < now - seen"
  using assms by (auto simp: swept_def sweepLocked_def map_of_filter_entries split: option.splits)

lemma swept_origin:
  assumes "distinct (keys (ls_entries s))" "map_of (ls_entries (swept now s)) k = Some e"
  shows "map_of (ls_entries s) k = Some e"
  using assms by (auto simp: swept_def sweepLocked_def map_of_filter_entries split: option.splits if_splits)

lemma swept_length: "length (ls_entries (swept now s)) \<le> length (ls_entries s)"
  by (auto simp: swept_def sweepLocked_def split: option.splits)

text \<open>
  Clients do not use up each other's budget: when a request is decided, the bucket of every other
  key stays as it is and its next request is decided by it alone. A bucket is only forgotten when
  it was idle for more than ten minutes, or when the store was full and the request brought a new
  key; then no bucket that is kept was used less recently.
\<close>

theorem client_budgets_isolated:
  assumes "s = serve_all Allow calls (newLimiterStore b)" and "k \<noteq> key"
    and "map_of (ls_entries s) k = Some (c, seen)" and "allow Allow now t key s = (ok, s')"
  shows "(map_of (ls_entries s') k = Some (c, seen) \<and>
          (\<forall>now' t'. now' - seen \<le> limiterIdleTTL \<longrightarrow> fst (allow Allow now' t' k s') = fst (Allow t' c))) \<or>
         limiterIdleTTL < now - seen \<or>
         (limiterMaxEntries \<le> length (ls_entries s) \<and>
          (\<forall>(k', c', seen') \<in> set (ls_entries s'). k' \<noteq> key \<longrightarrow> seen \<le> seen'))"
proof -
  have ok: "store_ok s" unfolding assms(1) by (rule serve_all_ok [OF new_store_ok])
  let ?s1 = "swept now s" and ?s2 = "roomy key (swept now s)"
  have d: "distinct (keys (ls_entries s))" "distinct (keys (ls_entries ?s1))"
    using ok swept_ok [OF ok] by (auto simp: store_ok_def)
  have ok': "store_ok s'" using allow_ok [OF ok, of Allow now t key] assms(4) by simp
  have e': "ls_entries s' = AList.update key (snd (Allow t (own_bucket key ?s1)), now) (ls_entries ?s2)"
    using assms(4) by (auto simp: allow_eq)
  show ?thesis
  proof (cases "map_of (ls_entries s') k = Some (c, seen)")
    case True
    have "fst (allow Allow now' t' k s') = fst (Allow t' c)" if "now' - seen \<le> limiterIdleTTL" for now' t'
      using swept_entry [OF _ True, of now'] ok' that by (auto simp: allow_eq own_bucket_def store_ok_def)
    with True show ?thesis by blast
  next
    case False
    then have gone: "map_of (ls_entries ?s2) k \<noteq> Some (c, seen)" using assms(2) e' by simp
    show ?thesis
    proof (cases "map_of (ls_entries ?s1) k = Some (c, seen)")
      case False
      with swept_entry [OF d(1) assms(3), of now] show ?thesis by blast
    next
      case True
      with gone have full: "limiterMaxEntries \<le> length (ls_entries ?s1)" and s2: "?s2 = evictOldestLocked ?s1"
        by (auto simp: roomy_def split: if_splits)
      have none: "map_of (ls_entries (evictOldestLocked ?s1)) k = None"
        using gone evict_keeps [OF d(2), of k] True unfolding s2
        by (cases "map_of (ls_entries (evictOldestLocked ?s1)) k") (blast, force)
      have "seen \<le> seen'" if "(k', c', seen') \<in> set (ls_entries s')" "k' \<noteq> key" for k' c' seen'
      proof -
        have "map_of (ls_entries s') k' = Some (c', seen')"
          using that(1) ok' by (auto simp: store_ok_def)
        then have "(k', c', seen') \<in> set (ls_entries (evictOldestLocked ?s1))"
          using that(2) e' s2 by (auto dest: map_of_SomeD)
        then show ?thesis by (rule evict_oldest [OF d(2) True none])
      qed
      moreover have "limiterMaxEntries \<le> length (ls_entries s)" using full swept_length [of now s] by linarith
      ultimately show ?thesis by blast
    qed
  qed
qed

text \<open>A bucket that only counts down, for concrete runs.\<close>

definition countdown :: "int \<Rightarrow> nat \<Rightarrow> bool \<times> nat" where
  "countdown t n = (0 < n, n - 1)"

theorem client_budgets_isolated_witness:
  "let s = serve_all countdown [(0, 0, ''a''), (1, 1, ''b''), (2, 2, ''b'')] (newLimiterStore 2);
       s' = snd (allow countdown 3 3 ''b'' s)
   in fst (allow countdown 3 3 ''b'' s) = False \<and> map_of (ls_entries s') ''a'' = Some (1, 0) \<and>
      fst (allow countdown 4 4 ''a'' s') = True"
proof -
  let ?s = "serve_all countdown [(0, 0, ''a''), (1, 1, ''b''), (2, 2, ''b'')] (newLimiterStore 2)"
  let ?s' = "snd (allow countdown 3 3 ''b'' ?s)"
  have a: "map_of (ls_entries ?s) ''a'' = Some (1, 0)" by code_simp
  have no: "\<not> limiterIdleTTL < 3 - 0" "\<not> limiterMaxEntries \<le> length (ls_entries ?s)"
    "4 - 0 \<le> limiterIdleTTL" by code_simp+
  have "allow countdown 3 3 ''b'' ?s = (fst (allow countdown 3 3 ''b'' ?s), ?s')" by simp
  from client_budgets_isolated [OF refl _ a this] no(1,2)
  have iso: "map_of (ls_entries ?s') ''a'' = Some (1, 0)"
    "\<forall>now' t'. now' - 0 \<le> limiterIdleTTL \<longrightarrow> fst (allow countdown now' t' ''a'' ?s') = fst (countdown t' 1)" by auto
  have "fst (allow countdown 4 4 ''a'' ?s') = fst (countdown 4 1)" using iso(2) no(3) by blast
  moreover have "fst (countdown 4 1) = True" by code_simp
  moreover have "fst (allow countdown 3 3 ''b'' ?s) = False" by code_simp
  ultimately show ?thesis using iso(1) by (simp only: Let_def)
qed

section \<open>The way to a protected handler\<close>

text \<open>
  A middleware either answers itself, with an error and whatever the next handler would do, or
  hands the request over: then the result is what the next handler makes of it.
\<close>

definition answers :: "(('l, 'w) handler \<Rightarrow> ('l, 'w) handler) \<Rightarrow> http_req \<Rightarrow> 'l stores \<times> 'w \<Rightarrow> bool" where
  "answers mw r st \<longleftrightarrow>
     (\<exists>c m st'. c \<in> {400, 401, 403, 413, 429, 500} \<and> (\<forall>next. run_state (mw next r) st = (JSONError c m, st')))"

definition hands_over ::
  "(('l, 'w) handler \<Rightarrow> ('l, 'w) handler) \<Rightarrow> http_req \<Rightarrow> 'l stores \<times> 'w \<Rightarrow> http_req \<Rightarrow> 'l stores \<times> 'w \<Rightarrow> bool" where
  "hands_over mw r st r' st' \<longleftrightarrow> (\<forall>next. run_state (mw next r) st = run_state (next r') st')"

lemma answersI:
  assumes "\<And>nx. run_state (mw nx r) st = (JSONError c m, st')" "c \<in> {400, 401, 403, 413, 429, 500}"
  shows "answers mw r st"
  unfolding answers_def using assms by (intro exI [of _ c] exI [of _ m] exI [of _ st']) simp

lemma run_in_world: "run_state (in_world m) (s, w) = (fst (run_state m w), (s, snd (run_state m w)))"
  by (simp add: in_world_def case_prod_beta)

lemma limit_gate:
  obtains "answers (rateLimitHandler Allow clock get put keyFn) r st"
  | sts w where "hands_over (rateLimitHandler Allow clock get put keyFn) r st r (sts, w)"
proof -
  obtain s w where st: "st = (s, w)" by (cases st)
  let ?w1 = "snd (run_state clock w)"
  let ?now = "fst (run_state clock w)" and ?t = "fst (run_state clock ?w1)" and ?w2 = "snd (run_state clock ?w1)"
  obtain ok g where a: "allow Allow ?now ?t (keyFn r) (get s) = (ok, g)"
    by (cases "allow Allow ?now ?t (keyFn r) (get s)")
  have run: "run_state (rateLimitHandler Allow clock get put keyFn nx r) st =
      (if \<not> ok then (JSONError 429 ''rate limit exceeded'', (put g s, ?w2)) else run_state (nx r) (put g s, ?w2))" for nx
    by (simp add: rateLimitHandler_def st run_in_world a)
  show thesis
  proof (cases ok)
    case True
    then show ?thesis using run that(2) [of "put g s" ?w2] by (simp add: hands_over_def)
  next
    case False
    then show ?thesis using run
      by (intro that(1), intro answersI [where c = 429 and m = "''rate limit exceeded''" and st' = "(put g s, ?w2)"]) simp_all
  qed
qed

lemma body_gate:
  obtains "answers (BodyLimitMiddleware n) r st"
  | "hands_over (BodyLimitMiddleware n) r st (r\<lparr>h_limit := Some n\<rparr>) st"
proof (cases "int n < h_length r")
  case True
  then show ?thesis
    by (intro that(1), intro answersI [where c = 413 and m = "''request body too large''" and st' = st])
       (simp_all add: BodyLimitMiddleware_def)
next
  case False
  then show ?thesis by (intro that(2)) (simp add: hands_over_def BodyLimitMiddleware_def)
qed

lemma auth_run:
  "run_state (AuthMiddleware P pub nx r) st =
     (if h_auth r = [] then (JSONError 401 ''Authorization header is required'', st)
      else let parts = split_on (CHR '' '') (h_auth r) in
        if length parts \<noteq> 2 \<or> parts ! 0 \<noteq> ''Bearer'' then
          (JSONError 401 ''Authorization header format must be Bearer {token}'', st)
        else case ValidateJWT P (parts ! 1) pub of
            Inl e \<Rightarrow> (JSONError 401 ''Invalid token'', st)
          | Inr token \<Rightarrow>
              if \<not> tk_Valid token then (JSONError 401 ''Invalid token'', st)
              else (case tk_ClientID token of
                  None \<Rightarrow> (JSONError 401 ''Invalid token claims'', st)
                | Some clientID \<Rightarrow> run_state (nx (r\<lparr>h_client := Some clientID\<rparr>)) st))"
  by (simp add: AuthMiddleware_def Let_def split: sum.splits option.splits)

lemma auth_gate:
  obtains "answers (AuthMiddleware P pub) r st"
  | tok token clientID where "hands_over (AuthMiddleware P pub) r st (r\<lparr>h_client := Some clientID\<rparr>) st"
      "split_on (CHR '' '') (h_auth r) = [''Bearer'', tok]" "ValidateJWT P tok pub = Inr token" "tk_Valid token"
      "tk_ClientID token = Some clientID"
proof -
  let ?parts = "split_on (CHR '' '') (h_auth r)"
  show thesis
  proof (cases "h_auth r \<noteq> [] \<and> length ?parts = 2 \<and> ?parts ! 0 = ''Bearer''")
    case False
    show ?thesis
    proof (intro that(1), rule answersI)
      show "run_state (AuthMiddleware P pub nx r) st =
          (JSONError 401 (if h_auth r = [] then ''Authorization header is required''
             else ''Authorization header format must be Bearer {token}''), st)" for nx
        using False unfolding auth_run Let_def by presburger
    qed simp
  next
    case ok: True
    then obtain a tok where "?parts = [a, tok]" by (auto simp: length_Suc_conv numeral_2_eq_2)
    with ok have p: "?parts = [''Bearer'', tok]" by simp
    have run: "run_state (AuthMiddleware P pub nx r) st =
        (case ValidateJWT P tok pub of
            Inl e \<Rightarrow> (JSONError 401 ''Invalid token'', st)
          | Inr token \<Rightarrow>
              if \<not> tk_Valid token then (JSONError 401 ''Invalid token'', st)
              else (case tk_ClientID token of
                  None \<Rightarrow> (JSONError 401 ''Invalid token claims'', st)
                | Some clientID \<Rightarrow> run_state (nx (r\<lparr>h_client := Some clientID\<rparr>)) st))" for nx
      using ok unfolding auth_run Let_def p by simp
    show ?thesis
    proof (cases "\<exists>token clientID. ValidateJWT P tok pub = Inr token \<and> tk_Valid token \<and> tk_ClientID token = Some clientID")
      case True
      then obtain token clientID where t: "ValidateJWT P tok pub = Inr token" "tk_Valid token" "tk_ClientID token = Some clientID"
        by (elim exE conjE)
      then show ?thesis using p by (intro that(2) [of clientID tok token]) (simp_all add: hands_over_def run)
    next
      case False
      show ?thesis
      proof (intro that(1), rule answersI)
        show "run_state (AuthMiddleware P pub nx r) st =
            (JSONError 401 (case ValidateJWT P tok pub of Inl e \<Rightarrow> ''Invalid token''
               | Inr token \<Rightarrow> if \<not> tk_Valid token then ''Invalid token'' else ''Invalid token claims''), st)" for nx
          using False unfolding run by (auto split: sum.splits option.splits)
      qed simp
    qed
  qed
qed

text \<open>What the world answered when the client's secret was accepted.\<close>

definition secret_accepted :: "'w api \<Rightarrow> string \<Rightarrow> string \<Rightarrow> 'w \<Rightarrow> 'w \<Rightarrow> bool" where
  "secret_accepted A project secret w w' \<longleftrightarrow>
     (\<exists>projects p w1 d. run_state (ListProjects A) w = (Inr (Some projects), w1) \<and>
        p \<in> set projects \<and> pr_name p = project \<and>
        run_state (GetSecret A (pr_ns p) (''rancher-fip-config-'' @ project)) w1 = (Inr d, w') \<and>
        map_of d ''project'' = Some project \<and> map_of d ''clientSecret'' = Some secret)"

lemma find_project_Some: "find_project ps n = Some p \<Longrightarrow> p \<in> set ps \<and> pr_name p = n"
  by (induction ps) (auto split: if_splits)

lemma ValidateClientRequest_sound:
  assumes "run_state (ValidateClientRequest A project secret) w = (True, w')"
  shows "secret_accepted A project secret w w'"
proof -
  obtain l w1 where l: "run_state (ListProjects A) w = (l, w1)" by (cases "run_state (ListProjects A) w")
  from assms l obtain projects p where lp: "l = Inr (Some projects)" and p: "find_project projects project = Some p"
    by (auto simp: ValidateClientRequest_def split: sum.splits option.splits)
  note n = find_project_Some [OF p]
  obtain g w2 where g: "run_state (GetSecret A (pr_ns p) (secretName p)) w1 = (g, w2)"
    by (cases "run_state (GetSecret A (pr_ns p) (secretName p)) w1")
  from assms l lp p g have "w2 = w'" and
    "case g of Inl e \<Rightarrow> False | Inr d \<Rightarrow> map_of d ''project'' = Some (pr_name p) \<and> map_of d ''clientSecret'' = Some secret"
    by (auto simp: ValidateClientRequest_def split: sum.splits option.splits if_splits)
  with l lp n g show ?thesis
    unfolding secret_accepted_def secretName_def by (cases g) auto
qed

lemma authorize_gate:
  obtains "answers (AuthorizeMiddleware A decode) r st"
  | project secret sts w w' where "hands_over (AuthorizeMiddleware A decode) r st (r\<lparr>h_limit := None\<rparr>) (sts, w')"
      "ReadAll r = Inr (h_body r)" "decode (h_body r) = Some (project, secret)" "secret_accepted A project secret w w'"
proof -
  obtain sts w where st: "st = (sts, w)" by (cases st)
  show thesis
  proof (cases "ReadAll r")
    case (Inl e)
    show ?thesis
    proof (intro that(1), rule answersI)
      show "run_state (AuthorizeMiddleware A decode nx r) st =
          (JSONError (if e = MaxBytesError then 413 else 500)
             (if e = MaxBytesError then ''request body too large'' else ''Failed to read request body''), st)" for nx
        using Inl by (cases e) (simp_all add: AuthorizeMiddleware_def)
    qed simp
  next
    case (Inr b)
    then have b: "b = h_body r" by (simp add: ReadAll_def split: if_splits)
    show ?thesis
    proof (cases "decode (h_body r)")
      case None
      show ?thesis
      proof (intro that(1), rule answersI)
        show "run_state (AuthorizeMiddleware A decode nx r) st = (JSONError 400 ''Invalid request body'', st)" for nx
          using None Inr b by (simp add: AuthorizeMiddleware_def)
      qed simp
    next
      case (Some ps)
      obtain project secret where ps: "ps = (project, secret)" by (cases ps)
      obtain ok w' where v: "run_state (ValidateClientRequest A project secret) w = (ok, w')"
        by (cases "run_state (ValidateClientRequest A project secret) w")
      have run: "run_state (AuthorizeMiddleware A decode nx r) st =
          (if \<not> ok then (JSONError 403 ''Client not authorized'', (sts, w')) else run_state (nx (r\<lparr>h_limit := None\<rparr>)) (sts, w'))" for nx
        using Inr b Some ps v by (simp add: AuthorizeMiddleware_def st run_in_world)
      show ?thesis
      proof (cases ok)
        case False
        show ?thesis
          by (intro that(1), rule answersI [where c = 403 and m = "''Client not authorized''" and st' = "(sts, w')"])
             (simp_all add: run False)
      next
        case True
        with v have "secret_accepted A project secret w w'" by (simp add: ValidateClientRequest_sound)
        with True Inr b Some ps show ?thesis
          by (intro that(2) [of sts w' project secret w]) (simp_all add: hands_over_def run)
      qed
    qed
  qed
qed

lemma answers_compose: "hands_over mw r st r' st' \<Longrightarrow> answers mw' r' st' \<Longrightarrow> answers (\<lambda>h. mw (mw' h)) r st"
  by (auto simp: hands_over_def answers_def)

lemma hands_over_compose:
  "hands_over mw r st r1 st1 \<Longrightarrow> hands_over mw' r1 st1 r2 st2 \<Longrightarrow> hands_over (\<lambda>h. mw (mw' h)) r st r2 st2"
  by (simp add: hands_over_def)

lemma answers_first: "answers mw r st \<Longrightarrow> answers (\<lambda>h. mw (mw' h)) r st"
  unfolding answers_def by metis

text \<open>
  C7. A protected handler runs only for an authorized request. Either the chain of middleware in front of
  the handler answers with an error (400, 401, 403, 413, 429 or 500) and the handler has no
  influence at all on the outcome, or the request carries \<open>Authorization: Bearer\<close> with a token that is
  valid under the server's key, its body is within the limit and names a project and a secret, the secret is the one
  stored for that project when it was read, and the handler sees the client of the token.
\<close>

theorem protected_requests_authorized:
  "answers (fip_route S) r st \<or>
   (\<exists>tok token clientID project secret sts w w'.
      h_auth r = ''Bearer '' @ tok \<and> ValidateJWT (sv_parse S) tok (sv_pub S) = Inr token \<and> tk_Valid token \<and>
      tk_ClientID token = Some clientID \<and> length (h_body r) \<le> sv_maxBodySize S \<and>
      sv_decode S (h_body r) = Some (project, secret) \<and> secret_accepted (sv_api S) project secret w w' \<and>
      hands_over (fip_route S) r st (r\<lparr>h_client := Some clientID, h_limit := None\<rparr>) (sts, w'))"
proof (cases "answers (fip_route S) r st")
  case no: False
  let ?g = "rateLimitHandler (sv_Allow S) (sv_clock S) st_global (\<lambda>g s. s\<lparr>st_global := g\<rparr>) GlobalRateLimitKey"
  let ?b = "BodyLimitMiddleware (sv_maxBodySize S)" and ?a = "AuthMiddleware (sv_parse S) (sv_pub S)"
  let ?c = "rateLimitHandler (sv_Allow S) (sv_clock S) st_client (\<lambda>g s. s\<lparr>st_client := g\<rparr>) ClientIDRateLimitKey"
  let ?z = "AuthorizeMiddleware (sv_api S) (sv_decode S)"
  have chain: "fip_route S = (\<lambda>h. ?g (?b (?a (?c (?z h)))))" by (simp add: fun_eq_iff fip_route_def every_route_def)
  obtain st1 where 1: "hands_over ?g r st r st1"
    by (rule limit_gate [of "sv_Allow S" "sv_clock S" st_global _ GlobalRateLimitKey r st])
       (use no answers_first [of ?g r st "\<lambda>h. ?b (?a (?c (?z h)))"] in \<open>auto simp: chain\<close>)
  let ?r1 = "r\<lparr>h_limit := Some (sv_maxBodySize S)\<rparr>"
  have 2: "hands_over (\<lambda>h. ?g (?b h)) r st ?r1 st1"
  proof (rule body_gate [of "sv_maxBodySize S" r st1])
    assume "answers ?b r st1"
    with no show ?thesis using answers_compose [OF 1 answers_first [of ?b r st1 "\<lambda>h. ?a (?c (?z h))"]] by (simp add: chain)
  qed (rule hands_over_compose [OF 1])
  obtain tok token clientID where t: "split_on (CHR '' '') (h_auth r) = [''Bearer'', tok]"
      "ValidateJWT (sv_parse S) tok (sv_pub S) = Inr token" "tk_Valid token" "tk_ClientID token = Some clientID"
    and 3: "hands_over (\<lambda>h. ?g (?b (?a h))) r st (?r1\<lparr>h_client := Some clientID\<rparr>) st1"
  proof (rule auth_gate [of "sv_parse S" "sv_pub S" ?r1 st1], goal_cases)
    case 1
    with no show ?case using answers_compose [OF 2 answers_first [of ?a ?r1 st1 "\<lambda>h. ?c (?z h)"]] by (simp add: chain)
  next
    case (2 tok token clientID)
    then show ?case using hands_over_compose [OF \<open>hands_over (\<lambda>h. ?g (?b h)) r st ?r1 st1\<close> 2(2)]
      by (intro 2(1) [of tok token clientID]) simp_all
  qed
  let ?r2 = "?r1\<lparr>h_client := Some clientID\<rparr>"
  obtain st2 where 4: "hands_over (\<lambda>h. ?g (?b (?a (?c h)))) r st ?r2 st2"
  proof (rule limit_gate [of "sv_Allow S" "sv_clock S" st_client "\<lambda>g s. s\<lparr>st_client := g\<rparr>" ClientIDRateLimitKey ?r2 st1], goal_cases)
    case 1
    with no show ?case using answers_compose [OF 3 answers_first [of ?c ?r2 st1 ?z]] by (simp add: chain)
  next
    case (2 sts w)
    show ?case by (rule 2(1)) (rule hands_over_compose [OF 3 2(2)])
  qed
  show ?thesis
  proof (rule authorize_gate [of "sv_api S" "sv_decode S" ?r2 st2], goal_cases)
    case 1
    with no show ?case using answers_compose [OF 4] by (simp add: chain)
  next
    case (2 project secret sts w w')
    have "h_auth r = ''Bearer '' @ tok"
      using t(1) split_on_parts [of "CHR '' ''" "h_auth r"] by simp
    moreover have "length (h_body r) \<le> sv_maxBodySize S" using 2(2) by (simp add: ReadAll_def split: if_splits)
    moreover have "hands_over (fip_route S) r st (r\<lparr>h_client := Some clientID, h_limit := None\<rparr>) (sts, w')"
      using hands_over_compose [OF 4 2(1)] by (simp add: chain)
    ultimately show ?case using t(2-4) 2(3,4)
      by (intro disjI2 exI [of _ tok] exI [of _ token] exI [of _ clientID] exI [of _ project] exI [of _ secret]
            exI [of _ sts] exI [of _ w] exI [of _ w'] conjI) simp_all
  qed
qed simp

section \<open>One signing key\<close>

text \<open>
  \<open>stored\<close> reads the data of the key's secret in a world. The secret is written once when every
  call keeps what is stored; a read returns and a successful creation stores what is then there.
\<close>

definition keeps_secret :: "('w \<Rightarrow> (string, string) gomap option) \<Rightarrow> 'w \<Rightarrow> 'w \<Rightarrow> bool" where
  "keeps_secret stored w w' \<longleftrightarrow> (\<forall>d. stored w = Some d \<longrightarrow> stored w' = Some d)"

definition secret_api :: "('w \<Rightarrow> (string, string) gomap option) \<Rightarrow> 'w api \<Rightarrow> ('w, 'k) key_ops \<Rightarrow> string \<Rightarrow> string \<Rightarrow> bool" where
  "secret_api stored A K ns name \<longleftrightarrow>
     moves (keeps_secret stored) (GetSecret A ns name) \<and> moves (keeps_secret stored) (GenKey K) \<and>
     (\<forall>d. moves (keeps_secret stored) (CreateSecret A ns name d)) \<and>
     (\<forall>w d w'. run_state (GetSecret A ns name) w = (Inr d, w') \<longrightarrow> stored w' = Some d) \<and>
     (\<forall>w d w'. run_state (CreateSecret A ns name d) w = (None, w') \<longrightarrow> stored w' = Some d)"

lemma GetPrivateKey_stored:
  assumes "secret_api stored A K ns name" "run_state (GetPrivateKey A K ns name ''key'') w = (Inr k, w')"
  shows "\<exists>d b. stored w' = Some d \<and> map_of d ''key'' = Some b \<and> ParsePEM K b = Inr k"
proof -
  obtain r w1 where r: "run_state (GetSecret A ns name) w = (r, w1)" by (cases "run_state (GetSecret A ns name) w")
  with assms(2) obtain d b where "r = Inr d" "w1 = w'" "map_of d ''key'' = Some b" "ParsePEM K b = Inr k"
    by (auto simp: GetPrivateKey_def split: sum.splits option.splits)
  moreover from this r assms(1) have "stored w' = Some d" unfolding secret_api_def by blast
  ultimately show ?thesis by blast
qed

lemma EnsurePrivateKey_stored:
  assumes S: "secret_api stored A K ns name" and pem: "\<And>k. ParsePEM K (EncodePEM K k) = Inr k"
    and run: "run_state (EnsurePrivateKey A K ns name generate) w = (Inr k, w')"
  shows "\<exists>d b. stored w' = Some d \<and> map_of d ''key'' = Some b \<and> ParsePEM K b = Inr k"
proof -
  obtain g w1 where g: "run_state (GetPrivateKey A K ns name ''key'') w = (g, w1)"
    by (cases "run_state (GetPrivateKey A K ns name ''key'') w")
  show ?thesis
  proof (cases g)
    case (Inr k')
    with run g have "k' = k" "w1 = w'" by (auto simp: EnsurePrivateKey_def)
    with g Inr show ?thesis by (intro GetPrivateKey_stored [OF S, of w k w']) simp
  next
    case (Inl e)
    obtain n w2 where n: "run_state (GenKey K) w1 = (n, w2)" by (cases "run_state (GenKey K) w1")
    from run g Inl n obtain key where key: "n = Inr key"
      by (auto simp: EnsurePrivateKey_def GeneratePrivateKey_def split: if_splits sum.splits)
    let ?d = "[(''key'', EncodePEM K key)]"
    obtain c w3 where c: "run_state (CreateSecret A ns name ?d) w2 = (c, w3)"
      by (cases "run_state (CreateSecret A ns name ?d) w2")
    show ?thesis
    proof (cases c)
      case None
      with run g Inl n key c have "k = key" "w' = w3"
        by (auto simp: EnsurePrivateKey_def GeneratePrivateKey_def SavePrivateKey_def split: if_splits)
      moreover have "stored w3 = Some ?d" using S c None unfolding secret_api_def by blast
      ultimately show ?thesis using pem by simp
    next
      case (Some e')
      with run g Inl n key c have "run_state (GetPrivateKey A K ns name ''key'') w3 = (Inr k, w')"
        by (auto simp: EnsurePrivateKey_def GeneratePrivateKey_def SavePrivateKey_def split: if_splits)
      then show ?thesis by (rule GetPrivateKey_stored [OF S])
    qed
  qed
qed

text \<open>
  C31. Replicas agree on the signing key: any two replicas that obtain a key, whenever they start, however
  their calls interleave and whichever of them wins the creation, obtain the same key, provided
  nobody changes the secret once it exists and the key survives its PEM form. The worlds in which the two runs end
  are two moments of one history: both are continued by the same later world.
\<close>

theorem EnsurePrivateKey_agrees:
  assumes "secret_api stored A K ns name" and "\<And>k. ParsePEM K (EncodePEM K k) = Inr k"
    and "run_state (EnsurePrivateKey A K ns name gen1) w1 = (Inr k1, w1')"
    and "run_state (EnsurePrivateKey A K ns name gen2) w2 = (Inr k2, w2')"
    and "keeps_secret stored w1' w" and "keeps_secret stored w2' w"
  shows "k1 = k2"
proof -
  obtain d1 b1 where 1: "stored w1' = Some d1" "map_of d1 ''key'' = Some b1" "ParsePEM K b1 = Inr k1"
    using EnsurePrivateKey_stored [OF assms(1-3)] by (elim exE conjE)
  obtain d2 b2 where 2: "stored w2' = Some d2" "map_of d2 ''key'' = Some b2" "ParsePEM K b2 = Inr k2"
    using EnsurePrivateKey_stored [OF assms(1,2,4)] by (elim exE conjE)
  have "stored w = Some d1" "stored w = Some d2" using 1 2 assms(5,6) by (simp_all add: keeps_secret_def)
  with 1 2 show ?thesis by simp
qed

text \<open>
  A world for concrete runs: the secret and a counter that makes fresh keys; \<open>racing\<close> makes another
  replica store its key right before the first creation.
\<close>

record key_world =
  kw_secret :: "(string, string) gomap option"
  kw_next :: nat
  kw_racing :: bool

definition key_create :: "(string, string) gomap \<Rightarrow> key_world \<Rightarrow> kerr option \<times> key_world" where
  "key_create d w =
     (let w' = (if kw_racing w \<and> kw_secret w = None then w\<lparr>kw_secret := Some [(''key'', dec 77)], kw_racing := False\<rparr> else w)
      in if kw_secret w' = None then (None, w'\<lparr>kw_secret := Some d\<rparr>) else (Some AlreadyExists, w'))"

definition key_api :: "key_world api" where
  "key_api =
     \<lparr>ListProjects = State_Monad.return (Inr None),
      GetSecret = \<lambda>ns n. State (\<lambda>w. (case kw_secret w of None \<Rightarrow> Inl NotFound | Some d \<Rightarrow> Inr d, w)),
      CreateSecret = \<lambda>ns n d. State (key_create d),
      ListFips = \<lambda>ns. State_Monad.return (Inr []), ListFipsMatching = \<lambda>ns m. State_Monad.return (Inr []),
      FetchFip = \<lambda>ns n. State_Monad.return (Inl NotFound), WriteFip = \<lambda>f. State_Monad.return (Inl NotFound),
      CreateFip = \<lambda>g f. State_Monad.return (Inr f), RemoveFip = \<lambda>ns n. State_Monad.return None,
      FetchPool = \<lambda>n. State_Monad.return (Inl NotFound), Retry = \<lambda>f. f, CtxErr = State_Monad.return None,
      WatchGet = \<lambda>ns n. State_Monad.return (Inl NotFound), OpenWatch = \<lambda>ns n v. State_Monad.return None,
      NextEvent = State_Monad.return CtxDone, Sleep = \<lambda>d. State_Monad.return None, ErrText = \<lambda>e. []\<rparr>"

definition key_ops :: "(key_world, nat) key_ops" where
  "key_ops = \<lparr>ParsePEM = \<lambda>s. Inr (val_base 10 s), EncodePEM = dec,
     GenKey = State (\<lambda>w. (Inr (kw_next w), w\<lparr>kw_next := Suc (kw_next w)\<rparr>))\<rparr>"

theorem EnsurePrivateKey_agrees_witness:
  "let w0 = \<lparr>kw_secret = None, kw_next = 5, kw_racing = True\<rparr>;
       (r1, w1) = run_state (EnsurePrivateKey key_api key_ops ''ns'' ''jwt'' True) w0;
       (r2, w2) = run_state (EnsurePrivateKey key_api key_ops ''ns'' ''jwt'' False) w1
   in r1 = Inr 77 \<and> r2 = r1"
proof -
  let ?w0 = "\<lparr>kw_secret = None, kw_next = 5, kw_racing = True\<rparr>"
  let ?run = "\<lambda>g w. run_state (EnsurePrivateKey key_api key_ops ''ns'' ''jwt'' g) w"
  let ?w1 = "snd (?run True ?w0)" and ?w2 = "snd (?run False (snd (?run True ?w0)))"
  have api: "secret_api kw_secret key_api key_ops ''ns'' ''jwt''"
    by (auto simp: secret_api_def key_api_def key_ops_def moves_def keeps_secret_def key_create_def Let_def
        split: option.splits if_splits)
  have pem: "ParsePEM key_ops (EncodePEM key_ops k) = Inr k" for k by (simp add: key_ops_def val_to_base)
  have 1: "?run True ?w0 = (Inr 77, ?w1)" and 2: "?run False ?w1 = (fst (?run False ?w1), ?w2)"
    and 3: "isl (fst (?run False ?w1)) = False" and k: "kw_secret ?w1 = Some [(''key'', ''77'')]" "kw_secret ?w2 = Some [(''key'', ''77'')]"
    by code_simp+
  obtain k2 where k2: "fst (?run False ?w1) = Inr k2" using 3 by (cases "fst (?run False ?w1)") auto
  have "77 = k2"
    using EnsurePrivateKey_agrees [OF api pem 1, of False ?w1 k2 ?w2 ?w2] k2 k 2 by (simp add: keeps_secret_def)
  moreover from 1 have "fst (?run True ?w0) = Inr 77" by (metis fst_conv)
  ultimately show ?thesis using k2 by (simp add: Let_def case_prod_beta)
qed

end
