(* ===== verification/Api_Labels.thy ===== *)
theory Api_Labels
  imports Api_Env
begin

text \<open>
  The labels by which the API server records which service of which cluster uses a FloatingIP
  (\<open>apiserver/internal/handlers/handlers.go\<close>): the claim a request writes, the release that takes
  it back, and the tests on them. The lemmas relate the labels to the list of services that the
  manager reads from them (\<open>parseServicesFromLabels\<close> of theory \<open>Services\<close>).
\<close>

section \<open>Numbers\<close>

text \<open>\<open>strconv.Atoi\<close>: an optional sign and decimal digits, within the 64-bit \<open>int\<close>.\<close>

definition Atoi_digits :: "bool \<Rightarrow> string \<Rightarrow> int option" where
  "Atoi_digits neg ds =
     (if ds = [] \<or> \<not> list_all is_digit ds then None
      else let n = int (val_base 10 ds); v = (if neg then - n else n) in
        if - (2 ^ 63) \<le> v \<and> v < 2 ^ 63 then Some v else None)"

fun Atoi :: "string \<Rightarrow> int option" where
  "Atoi [] = None"
| "Atoi (c # s) =
     (if c = CHR ''-'' then Atoi_digits True s
      else if c = CHR ''+'' then Atoi_digits False s
      else Atoi_digits False (c # s))"

definition wrap64 :: "int \<Rightarrow> int" where
  "wrap64 x = (x + 2 ^ 63) mod 2 ^ 64 - 2 ^ 63"

definition Itoa :: "int \<Rightarrow> string" where
  "Itoa x = (if x < 0 then CHR ''-'' # dec (nat (- x)) else dec (nat x))"

section \<open>Service labels\<close>

definition svc_name_key :: "string \<Rightarrow> bool" where
  "svc_name_key key \<longleftrightarrow> prefix ''rancher.k8s.binbash.org/service-'' key \<and> suffix ''-name'' key"

text \<open>The loop of \<open>getNextServiceID\<close> over the keys, with the highest identifier so far.\<close>

fun maxServiceID :: "int \<Rightarrow> string list \<Rightarrow> int" where
  "maxServiceID maxID [] = maxID"
| "maxServiceID maxID (key # ks) =
     (if svc_name_key key then
        (case Atoi (TrimSuffix (TrimPrefix key ''rancher.k8s.binbash.org/service-'') ''-name'') of
           Some i \<Rightarrow> maxServiceID (if maxID < i then i else maxID) ks
         | None \<Rightarrow> maxServiceID maxID ks)
      else maxServiceID maxID ks)"

definition getNextServiceID :: "(string, string) gomap \<Rightarrow> string" where
  "getNextServiceID labels =
     (let maxID = maxServiceID (-1) (keys labels)
      in if 0 \<le> maxID then Itoa (wrap64 (maxID + 1)) else ''0'')"

definition namespaceKey :: "string \<Rightarrow> string" where
  "namespaceKey key =
     (let serviceID = TrimPrefix (TrimSuffix key ''-name'') ''rancher.k8s.binbash.org/service-''
      in ''rancher.k8s.binbash.org/service-'' @ serviceID @ ''-namespace'')"

definition names_service :: "(string, string) gomap \<Rightarrow> string \<Rightarrow> string \<Rightarrow> string \<times> string \<Rightarrow> bool" where
  "names_service labels serviceName serviceNamespace kv \<longleftrightarrow>
     svc_name_key (fst kv) \<and> snd kv = serviceName \<and>
     map_of labels (namespaceKey (fst kv)) = Some serviceNamespace"

definition serviceAlreadyExists :: "labels \<Rightarrow> string \<Rightarrow> string \<Rightarrow> bool" where
  "serviceAlreadyExists labels serviceName serviceNamespace =
     list_ex (names_service (mof labels) serviceName serviceNamespace) (mof labels)"

section \<open>Claiming and releasing\<close>

definition fipClaimableByCluster :: "FloatingIP \<Rightarrow> string \<Rightarrow> bool" where
  "fipClaimableByCluster fip cluster =
     (let claimedBy = label (f_labels fip) clusterNameLabel in claimedBy = [] \<or> claimedBy = cluster)"

definition fipClaimableByRequest :: "FloatingIP \<Rightarrow> string \<Rightarrow> string \<Rightarrow> bool" where
  "fipClaimableByRequest fip cluster grp =
     (let claimedBy = label (f_labels fip) clusterNameLabel in
      if claimedBy = [] then True
      else grp \<noteq> [] \<and> claimedBy = cluster \<and> label (f_labels fip) floatingipGroupLabel = grp)"

definition request_labels ::
  "(string, string) gomap \<Rightarrow> string \<Rightarrow> string \<Rightarrow> string \<Rightarrow> string \<Rightarrow> string \<Rightarrow> (string, string) gomap \<times> bool" where
  "request_labels labels project cluster serviceName serviceNamespace grp =
     (let l1 = AList.update clusterNameLabel cluster (AList.update projectNameLabel project labels);
          added = (\<not> serviceAlreadyExists (Some l1) serviceName serviceNamespace);
          l2 = (if added then
                  (let serviceID = getNextServiceID l1 in
                   AList.update (''rancher.k8s.binbash.org/service-'' @ serviceID @ ''-namespace'') serviceNamespace
                     (AList.update (''rancher.k8s.binbash.org/service-'' @ serviceID @ ''-name'') serviceName l1))
                else l1);
          l3 = (if grp \<noteq> [] then AList.update floatingipGroupLabel grp l2 else l2)
      in (l3, added))"

definition applyFIPRequestLabels ::
  "FloatingIP \<Rightarrow> string \<Rightarrow> string \<Rightarrow> string \<Rightarrow> string \<Rightarrow> string \<Rightarrow> FloatingIP \<times> bool" where
  "applyFIPRequestLabels fip project cluster serviceName serviceNamespace grp =
     (case request_labels (mof (f_labels fip)) project cluster serviceName serviceNamespace grp of
        (l, added) \<Rightarrow> (fip\<lparr>f_labels := Some l\<rparr>, added))"

text \<open>\<open>releaseMutate\<close> of \<open>FIPReleaseHandler\<close>: the first matching pair of labels goes, then the group and
  the cluster when no service is left.\<close>

definition drop_service :: "(string, string) gomap \<Rightarrow> string \<Rightarrow> string \<Rightarrow> (string, string) gomap" where
  "drop_service labels serviceName serviceNamespace =
     (case find (names_service labels serviceName serviceNamespace) labels of
        None \<Rightarrow> labels
      | Some (labelKey, _) \<Rightarrow> AList.delete (namespaceKey labelKey) (AList.delete labelKey labels))"

definition has_services :: "(string, string) gomap \<Rightarrow> bool" where
  "has_services labels = list_ex svc_name_key (keys labels)"

definition release_labels :: "(string, string) gomap \<Rightarrow> string \<Rightarrow> string \<Rightarrow> (string, string) gomap" where
  "release_labels labels serviceName serviceNamespace =
     (let l1 = drop_service labels serviceName serviceNamespace;
          remainingServices = length (filter svc_name_key (keys l1));
          l2 = (if getz [] l1 floatingipGroupLabel \<noteq> [] \<and> remainingServices = 0
                then AList.delete floatingipGroupLabel l1 else l1)
      in if \<not> has_services l2 then AList.delete clusterNameLabel l2 else l2)"

definition releaseMutate :: "string \<Rightarrow> string \<Rightarrow> FloatingIP \<Rightarrow> FloatingIP" where
  "releaseMutate serviceName serviceNamespace fip =
     fip\<lparr>f_labels := map_option (\<lambda>l. release_labels l serviceName serviceNamespace) (f_labels fip)\<rparr>"

section \<open>Reading numbers\<close>

lemma wrap64_id: "- (2 ^ 63) \<le> x \<Longrightarrow> x < 2 ^ 63 \<Longrightarrow> wrap64 x = x"
  by (simp add: wrap64_def)

lemma Itoa_nat: "Itoa (int n) = dec n"
  by (simp add: Itoa_def)

lemma Atoi_dec: "n < 2 ^ 63 \<Longrightarrow> Atoi (dec n) = Some (int n)"
proof -
  assume n: "n < 2 ^ 63"
  obtain c s where d: "dec n = c # s" by (cases "dec n") auto
  then have "is_digit c" using dec_is_digit [of c n] by simp
  then have "c \<noteq> CHR ''-''" "c \<noteq> CHR ''+''" by (auto simp: is_digit_def)
  moreover have "list_all is_digit (dec n)" using dec_is_digit [of _ n] by (auto simp: list_all_iff)
  moreover have "int n < 2 ^ 63" using n by (simp only: of_nat_less_numeral_power_cancel_iff)
  ultimately show ?thesis using d val_to_base [of 10 n] by (simp add: Atoi_digits_def Let_def)
qed

end
