(* ===== verification/Api_Labels_Props.thy ===== *)
theory Api_Labels_Props
  imports Api_Labels
begin

text \<open>
  The labels of a FloatingIP implement a register of services: claims add a service at the end,
  releases take one out, and the manager reads back exactly the registered services.
\<close>

section \<open>Service keys\<close>

lemma svc_key_inject [simp]: "svc_key i f = svc_key j g \<longleftrightarrow> i = j \<and> f = g"
  by (metis svc_find_key option.inject prod.inject dec_inject)

lemma svc_name_key_svc_key [simp]: "svc_name_key (svc_key i f) \<longleftrightarrow> f = FName"
proof (cases f)
  case FName
  have "suffix ''-name'' (serviceIndexLabelPrefix @ dec i @ ''-name'')" by (metis append_assoc suffixI)
  with FName show ?thesis by (simp add: svc_name_key_def svc_key_def)
next
  case FNamespace
  then have "\<not> prefix (rev ''-name'') (rev (svc_key i f))" by (simp add: svc_key_def)
  then have "\<not> suffix ''-name'' (svc_key i f)" unfolding suffix_to_prefix .
  with FNamespace show ?thesis by (simp add: svc_name_key_def)
qed

lemma namespaceKey_svc_key [simp]: "namespaceKey (svc_key i FName) = svc_key i FNamespace"
proof -
  have "TrimSuffix ((serviceIndexLabelPrefix @ dec i) @ ''-name'') ''-name'' = serviceIndexLabelPrefix @ dec i"
    by (rule TrimSuffix_append)
  then have "TrimSuffix (svc_key i FName) ''-name'' = serviceIndexLabelPrefix @ dec i" by (simp add: svc_key_def)
  then show ?thesis by (simp add: namespaceKey_def svc_key_def TrimPrefix_append Let_def del: append.simps)
qed

lemma service_id_svc_key [simp]: "TrimSuffix (TrimPrefix (svc_key i FName) serviceIndexLabelPrefix) ''-name'' = dec i"
  unfolding svc_key_def TrimPrefix_append svc_field.case by (rule TrimSuffix_append)

text \<open>A label of either form that the readers look at.\<close>

definition service_key :: "string \<Rightarrow> bool" where
  "service_key k \<longleftrightarrow> svc_entry k \<noteq> None \<or> svc_name_key k"

lemma not_service_labels [simp]:
  "\<not> service_key projectNameLabel" "\<not> service_key clusterNameLabel" "\<not> service_key floatingipGroupLabel"
  unfolding service_key_def by code_simp+

lemma svc_entry_svc_key: "svc_entry (svc_key i f) \<noteq> None"
proof -
  have "prefix serviceIndexLabelPrefix (svc_key i f)" by (simp add: svc_key_def)
  then show ?thesis unfolding svc_entry_def by (simp add: svc_find_key)
qed

lemma svc_key_not_other [simp]: "\<not> service_key k \<Longrightarrow> svc_key i f \<noteq> k"
  using svc_entry_svc_key [of i f] unfolding service_key_def by metis

section \<open>The register of services\<close>

text \<open>
  The labels \<open>m\<close> record the services \<open>xs\<close>: increasing indices, two labels per service, no other
  label that looks like a service label, and no service twice.
\<close>

definition registers :: "(string, string) gomap \<Rightarrow> (nat \<times> AssignedService) list \<Rightarrow> bool" where
  "registers m xs \<longleftrightarrow>
     distinct (keys m) \<and> sorted_wrt (<) (map fst xs) \<and> (\<forall>p \<in> set xs. fst p < 2 ^ 63) \<and> distinct (map snd xs) \<and>
     (\<forall>i f. map_of m (svc_key i f) = map_option (\<lambda>svc. svc_get svc f) (map_of xs i)) \<and>
     (\<forall>k \<in> set (keys m). service_key k \<longrightarrow> (\<exists>i f. k = svc_key i f))"

lemma registers_distinct: "registers m xs \<Longrightarrow> distinct (map fst xs)"
  using strict_sorted_iff registers_def by blast

lemma registers_lookup: "registers m xs \<Longrightarrow> map_of m (svc_key i f) = map_option (\<lambda>svc. svc_get svc f) (map_of xs i)"
  by (simp add: registers_def)

text \<open>The manager reads the registered services.\<close>

lemma registers_parse:
  assumes "registers m xs"
  shows "parseServicesFromLabels (Some m) =
    filter (\<lambda>svc. ServiceNamespace svc \<noteq> [] \<or> ServiceName svc \<noteq> []) (map snd xs)"
proof (rule labels_for_services)
  note r = assms [unfolded registers_def]
  show "sorted (map fst xs)" "distinct (map fst xs)" using r by (auto simp: strict_sorted_iff)
  show "\<forall>p \<in> set xs. fst p < 2 ^ 63" using r by blast
  let ?other = "filter (\<lambda>kv. svc_entry (fst kv) = None) m"
  show "\<forall>kv \<in> set ?other. svc_entry (fst kv) = None" by simp
  show "set m = set (labels_for xs) \<union> set ?other"
  proof (intro subset_antisym subsetI)
    fix kv assume kv: "kv \<in> set m"
    show "kv \<in> set (labels_for xs) \<union> set ?other"
    proof (cases "svc_entry (fst kv) = None")
      case False
      then obtain i f where k: "fst kv = svc_key i f" using r kv by (fastforce simp: service_key_def)
      have "map_of m (fst kv) = Some (snd kv)" using r kv by simp
      with registers_lookup [OF assms, of i f] k obtain svc where "map_of xs i = Some svc" "snd kv = svc_get svc f" by auto
      with k show ?thesis unfolding Un_iff set_labels_for by (metis map_of_SomeD prod.collapse)
    qed (use kv in simp)
  next
    fix kv assume "kv \<in> set (labels_for xs) \<union> set ?other"
    then show "kv \<in> set m"
    proof
      assume "kv \<in> set (labels_for xs)"
      then obtain i svc f where x: "(i, svc) \<in> set xs" "kv = (svc_key i f, svc_get svc f)"
        unfolding set_labels_for by blast
      then have "map_of xs i = Some svc" using registers_distinct [OF assms] by simp
      then show ?thesis using registers_lookup [OF assms, of i f] x(2) by (auto dest: map_of_SomeD)
    qed simp
  qed
qed

lemma registers_if: "registers m xs \<Longrightarrow> registers m' xs \<Longrightarrow> registers (if b then m else m') xs"
  by simp

lemma registers_other_update: "registers m xs \<Longrightarrow> \<not> service_key k \<Longrightarrow> registers (AList.update k v m) xs"
  unfolding registers_def by (auto simp: distinct_keys_update keys_update dest!: svc_key_not_other)

lemma registers_other_delete: "registers m xs \<Longrightarrow> \<not> service_key k \<Longrightarrow> registers (AList.delete k m) xs"
  unfolding registers_def by (auto simp: distinct_keys_delete keys_delete dest!: svc_key_not_other)

lemma names_service_iff:
  assumes r: "registers m xs" and kv: "kv \<in> set m"
  shows "names_service m n ns kv \<longleftrightarrow>
    (\<exists>i. kv = (svc_key i FName, n) \<and> map_of xs i = Some \<lparr>ServiceNamespace = ns, ServiceName = n\<rparr>)"
proof
  assume h: "names_service m n ns kv"
  then have "service_key (fst kv)" by (simp add: names_service_def service_key_def)
  then obtain i f where k: "fst kv = svc_key i f" using r kv unfolding registers_def by fastforce
  with h have f: "f = FName" by (simp add: names_service_def)
  have "distinct (keys m)" using r by (simp add: registers_def)
  then have "map_of m (fst kv) = Some (snd kv)" using kv by simp
  then have "map_of m (svc_key i FName) = Some n" using h k f by (simp add: names_service_def)
  moreover have "map_of m (svc_key i FNamespace) = Some ns" using h k f by (simp add: names_service_def)
  ultimately obtain svc where "map_of xs i = Some svc" "svc_get svc FName = n" "svc_get svc FNamespace = ns"
    using registers_lookup [OF r] by auto
  moreover from this have "svc = \<lparr>ServiceNamespace = ns, ServiceName = n\<rparr>" by (cases svc) (simp add: svc_get_def)
  ultimately show "\<exists>i. kv = (svc_key i FName, n) \<and> map_of xs i = Some \<lparr>ServiceNamespace = ns, ServiceName = n\<rparr>"
    using h k f by (intro exI [of _ i]) (auto simp: names_service_def prod_eq_iff)
next
  assume "\<exists>i. kv = (svc_key i FName, n) \<and> map_of xs i = Some \<lparr>ServiceNamespace = ns, ServiceName = n\<rparr>"
  then obtain i where "kv = (svc_key i FName, n)" "map_of xs i = Some \<lparr>ServiceNamespace = ns, ServiceName = n\<rparr>" by (elim exE conjE)
  then show "names_service m n ns kv" using registers_lookup [OF r, of i FNamespace]
    by (simp add: names_service_def svc_get_def)
qed

lemma registered_label:
  "registers m xs \<Longrightarrow> map_of xs i = Some svc \<Longrightarrow> (svc_key i FName, ServiceName svc) \<in> set m"
  using registers_lookup [of m xs i FName] by (auto simp: svc_get_def dest: map_of_SomeD)

lemma registers_exists:
  assumes r: "registers m xs"
  shows "serviceAlreadyExists (Some m) n ns \<longleftrightarrow> \<lparr>ServiceNamespace = ns, ServiceName = n\<rparr> \<in> set (map snd xs)"
proof
  assume "serviceAlreadyExists (Some m) n ns"
  then obtain kv where "kv \<in> set m" "names_service m n ns kv" by (auto simp: serviceAlreadyExists_def list_ex_iff)
  then show "\<lparr>ServiceNamespace = ns, ServiceName = n\<rparr> \<in> set (map snd xs)"
    unfolding names_service_iff [OF r \<open>kv \<in> set m\<close>] by (auto dest: map_of_SomeD intro: rev_image_eqI)
next
  assume "\<lparr>ServiceNamespace = ns, ServiceName = n\<rparr> \<in> set (map snd xs)"
  then obtain i where "(i, \<lparr>ServiceNamespace = ns, ServiceName = n\<rparr>) \<in> set xs" by auto
  then have i: "map_of xs i = Some \<lparr>ServiceNamespace = ns, ServiceName = n\<rparr>" using registers_distinct [OF r] by simp
  have kv: "(svc_key i FName, n) \<in> set m" using registered_label [OF r i] by simp
  have "names_service m n ns (svc_key i FName, n)" using names_service_iff [OF r kv, of n ns] i by simp
  with kv show "serviceAlreadyExists (Some m) n ns" by (auto simp: serviceAlreadyExists_def list_ex_iff)
qed

section \<open>The next index\<close>

definition next_index :: "(nat \<times> 'a) list \<Rightarrow> nat" where
  "next_index xs = (if xs = [] then 0 else Suc (fst (last xs)))"

definition name_indices :: "string list \<Rightarrow> nat set" where
  "name_indices ks = {i. svc_key i FName \<in> set ks}"

lemma finite_name_indices: "finite (name_indices ks)"
proof -
  have "inj (\<lambda>i. svc_key i FName)" by (auto simp: inj_def)
  then have "finite ((\<lambda>i. svc_key i FName) -` set ks)" by (intro finite_vimageI) auto
  then show ?thesis by (simp add: name_indices_def vimage_def)
qed

lemma maxServiceID_Max:
  assumes "\<forall>k \<in> set ks. svc_name_key k \<longrightarrow> (\<exists>i < 2 ^ 63. k = svc_key i FName)"
  shows "maxServiceID a ks = Max (insert a (int ` name_indices ks))"
  using assms
proof (induction ks arbitrary: a)
  case Nil
  then show ?case by (simp add: name_indices_def)
next
  case (Cons key ks)
  have IH: "maxServiceID b ks = Max (insert b (int ` name_indices ks))" for b using Cons by simp
  have fin: "finite (int ` name_indices ks)" by (simp add: finite_name_indices)
  show ?case
  proof (cases "svc_name_key key")
    case False
    then have "name_indices (key # ks) = name_indices ks" by (auto simp: name_indices_def)
    with False IH show ?thesis by simp
  next
    case True
    then obtain i where i: "i < 2 ^ 63" "key = svc_key i FName" using Cons.prems by auto
    have "maxServiceID a (key # ks) = maxServiceID (max a (int i)) ks"
      using True Atoi_dec [OF i(1)] by (simp add: i(2) max_def del: svc_name_key_svc_key)
    also have "\<dots> = Max (insert a (insert (int i) (int ` name_indices ks)))"
      unfolding IH using fin by (cases "name_indices ks = {}") (simp_all add: Max_insert max.assoc)
    also have "insert (int i) (int ` name_indices ks) = int ` name_indices (key # ks)"
      by (auto simp: name_indices_def i(2))
    finally show ?thesis .
  qed
qed

lemma registers_name_indices: "registers m xs \<Longrightarrow> name_indices (keys m) = set (map fst xs)"
proof -
  assume r: "registers m xs"
  have "svc_key i FName \<in> set (keys m) \<longleftrightarrow> map_of m (svc_key i FName) \<noteq> None" for i
    unfolding map_of_None_keys by simp
  then have "svc_key i FName \<in> set (keys m) \<longleftrightarrow> map_of xs i \<noteq> None" for i
    using registers_lookup [OF r, of i FName] by simp
  then show ?thesis unfolding name_indices_def map_of_None_keys by auto
qed

lemma registers_name_keys:
  assumes "registers m xs" "k \<in> set (keys m)" "svc_name_key k"
  shows "\<exists>i < 2 ^ 63. k = svc_key i FName"
proof -
  obtain i f where k: "k = svc_key i f" using assms by (auto simp: registers_def service_key_def)
  with assms(3) have f: "f = FName" by simp
  with assms k have "i \<in> name_indices (keys m)" by (simp add: name_indices_def)
  then have "i < 2 ^ 63" using assms(1) unfolding registers_name_indices [OF assms(1)] registers_def by force
  with k f show ?thesis by blast
qed

lemma registers_next:
  assumes r: "registers m xs" and n: "next_index xs < 2 ^ 63"
  shows "getNextServiceID m = dec (next_index xs)"
proof -
  have max: "maxServiceID (-1) (keys m) = Max (insert (-1) (int ` set (map fst xs)))"
    unfolding registers_name_indices [OF r, symmetric] using registers_name_keys [OF r] by (intro maxServiceID_Max) blast
  show ?thesis
  proof (cases "xs = []")
    case True
    moreover have "dec 0 = ''0''" by code_simp
    ultimately show ?thesis using max by (simp add: getNextServiceID_def next_index_def)
  next
    case False
    have "x \<le> fst (last xs)" if "(x, y) \<in> set xs" for x y
    proof -
      obtain ys z where xs: "xs = ys @ [z]" using False by (metis rev_exhaust)
      have "sorted_wrt (<) (map fst xs)" using r by (simp add: registers_def)
      with that show ?thesis unfolding xs by (auto simp: sorted_wrt_append)
    qed
    then have "Max (insert (-1) (int ` set (map fst xs))) = int (fst (last xs))"
      using False by (intro Max_eqI) (auto simp: image_iff)
    with max have "maxServiceID (-1) (keys m) + 1 = int (next_index xs)" "0 \<le> maxServiceID (-1) (keys m)"
      using False by (simp_all add: next_index_def)
    moreover have "int (next_index xs) < 2 ^ 63" using n by (simp only: of_nat_less_numeral_power_cancel_iff)
    ultimately show ?thesis by (simp add: getNextServiceID_def Let_def wrap64_id Itoa_nat)
  qed
qed

section \<open>Claim and release on the register\<close>

lemma registers_add:
  assumes r: "registers m xs" and n: "\<forall>p \<in> set xs. fst p < n" "n < 2 ^ 63" and new: "svc \<notin> set (map snd xs)"
  shows "registers (AList.update (svc_key n FNamespace) (ServiceNamespace svc)
           (AList.update (svc_key n FName) (ServiceName svc) m)) (xs @ [(n, svc)])"
proof -
  have "map_of xs n = None" using n(1) unfolding map_of_None_keys by force
  then have l: "map_of (xs @ [(n, svc)]) = (map_of xs)(n \<mapsto> svc)" by (auto simp: fun_eq_iff map_add_def split: option.splits)
  have "sorted_wrt (<) (map fst (xs @ [(n, svc)]))" using r n(1) by (auto simp: registers_def sorted_wrt_append)
  moreover have "map_of (AList.update (svc_key n FNamespace) (ServiceNamespace svc)
           (AList.update (svc_key n FName) (ServiceName svc) m)) (svc_key i f) =
      map_option (\<lambda>svc. svc_get svc f) (map_of (xs @ [(n, svc)]) i)" for i f
    using registers_lookup [OF r, of i f] unfolding l by (cases f) (auto simp: svc_get_def)
  moreover have "distinct (keys (AList.update (svc_key n FNamespace) a (AList.update (svc_key n FName) b m)))" for a b
    using r by (intro distinct_keys_update) (simp add: registers_def)
  ultimately show ?thesis using r n(2) new unfolding registers_def set_keys_update by auto
qed

lemma registers_remove:
  assumes r: "registers m xs"
  shows "registers (AList.delete (svc_key n FNamespace) (AList.delete (svc_key n FName) m)) (filter (\<lambda>p. fst p \<noteq> n) xs)"
proof -
  let ?xs = "filter (\<lambda>p. fst p \<noteq> n) xs"
  have "AList.delete n xs = ?xs" by (auto simp: AList.delete_eq intro: filter_cong)
  then have l: "map_of ?xs = (map_of xs)(n := None)" by (metis map_of_delete)
  have "map_of (AList.delete (svc_key n FNamespace) (AList.delete (svc_key n FName) m)) (svc_key i f) =
      map_option (\<lambda>svc. svc_get svc f) (map_of ?xs i)" for i f
    using registers_lookup [OF r, of i f] unfolding l by (cases f) auto
  moreover have "sorted_wrt (<) (map fst ?xs)" using r by (simp add: registers_def sorted_wrt_map sorted_wrt_filter)
  moreover have "distinct (map snd ?xs)" using r by (simp add: registers_def distinct_map_filter)
  ultimately show ?thesis using r unfolding registers_def by (auto simp: distinct_keys_delete keys_delete)
qed

text \<open>What a claim and a release do to the register.\<close>

definition claim_service :: "(nat \<times> AssignedService) list \<Rightarrow> AssignedService \<Rightarrow> (nat \<times> AssignedService) list" where
  "claim_service xs svc = (if svc \<in> set (map snd xs) then xs else xs @ [(next_index xs, svc)])"

definition release_service :: "(nat \<times> AssignedService) list \<Rightarrow> AssignedService \<Rightarrow> (nat \<times> AssignedService) list" where
  "release_service xs svc = filter (\<lambda>p. snd p \<noteq> svc) xs"

lemma below_next_index: "registers m xs \<Longrightarrow> p \<in> set xs \<Longrightarrow> fst p < next_index xs"
proof -
  assume r: "registers m xs" and p: "p \<in> set xs"
  then obtain ys y where xs: "xs = ys @ [y]" by (metis empty_iff list.set(1) rev_exhaust)
  have "sorted_wrt (<) (map fst xs)" using r by (simp add: registers_def)
  with p show ?thesis unfolding xs by (auto simp: sorted_wrt_append next_index_def less_Suc_eq)
qed

lemma request_labels_registers:
  assumes r: "registers m xs" and n: "next_index xs < 2 ^ 63"
  shows "registers (fst (request_labels m project cluster name ns grp)) (claim_service xs \<lparr>ServiceNamespace = ns, ServiceName = name\<rparr>)"
    "snd (request_labels m project cluster name ns grp) \<longleftrightarrow> \<lparr>ServiceNamespace = ns, ServiceName = name\<rparr> \<notin> set (map snd xs)"
proof -
  let ?svc = "\<lparr>ServiceNamespace = ns, ServiceName = name\<rparr>"
  let ?l1 = "AList.update clusterNameLabel cluster (AList.update projectNameLabel project m)"
  have l1: "registers ?l1 xs" by (intro registers_other_update r not_service_labels)
  have ex: "serviceAlreadyExists (Some ?l1) name ns \<longleftrightarrow> ?svc \<in> set (map snd xs)" by (rule registers_exists [OF l1])
  let ?l2 = "if ?svc \<in> set (map snd xs) then ?l1
    else AList.update (svc_key (next_index xs) FNamespace) ns (AList.update (svc_key (next_index xs) FName) name ?l1)"
  have l2: "registers ?l2 (claim_service xs ?svc)"
    using l1 registers_add [OF l1 _ n, of ?svc] below_next_index [OF r] by (simp add: claim_service_def)
  have eq: "request_labels m project cluster name ns grp =
      (if grp \<noteq> [] then AList.update floatingipGroupLabel grp ?l2 else ?l2, ?svc \<notin> set (map snd xs))"
    unfolding request_labels_def Let_def ex registers_next [OF l1 n]
    by (simp add: svc_key_def)
  show "registers (fst (request_labels m project cluster name ns grp)) (claim_service xs ?svc)"
    unfolding eq using l2 registers_other_update [OF l2] by simp
  show "snd (request_labels m project cluster name ns grp) \<longleftrightarrow> ?svc \<notin> set (map snd xs)" unfolding eq by simp
qed

lemma drop_service_registers:
  assumes r: "registers m xs"
  shows "registers (drop_service m name ns) (release_service xs \<lparr>ServiceNamespace = ns, ServiceName = name\<rparr>)"
proof -
  let ?svc = "\<lparr>ServiceNamespace = ns, ServiceName = name\<rparr>"
  show ?thesis
  proof (cases "find (names_service m name ns) m")
    case None
    then have "\<not> serviceAlreadyExists (Some m) name ns" by (auto simp: find_None_iff serviceAlreadyExists_def list_ex_iff)
    then have "release_service xs ?svc = xs"
      unfolding registers_exists [OF r] release_service_def by (intro filter_True) force
    with r None show ?thesis by (simp add: drop_service_def)
  next
    case (Some kv)
    then have kv: "kv \<in> set m" "names_service m name ns kv" by (auto simp: find_Some_iff)
    then obtain i where i: "kv = (svc_key i FName, name)" "map_of xs i = Some ?svc"
      unfolding names_service_iff [OF r kv(1)] by (elim exE conjE)
    have "fst p = i \<longleftrightarrow> snd p = ?svc" if "p \<in> set xs" for p
    proof
      assume "fst p = i"
      then have "map_of xs i = Some (snd p)" using that registers_distinct [OF r] by auto
      with i show "snd p = ?svc" by simp
    next
      assume "snd p = ?svc"
      moreover have "(i, ?svc) \<in> set xs" using i(2) by (rule map_of_SomeD)
      moreover have "distinct (map snd xs)" using r by (simp add: registers_def)
      ultimately show "fst p = i" using that by (metis distinct_map inj_on_def fst_conv snd_conv)
    qed
    then have "filter (\<lambda>p. fst p \<noteq> i) xs = release_service xs ?svc"
      unfolding release_service_def by (intro filter_cong) auto
    with registers_remove [OF r, of i] Some i show ?thesis by (simp add: drop_service_def)
  qed
qed

lemma has_services_registers: "registers m xs \<Longrightarrow> has_services m \<longleftrightarrow> xs \<noteq> []"
proof -
  assume r: "registers m xs"
  have "has_services m \<longleftrightarrow> name_indices (keys m) \<noteq> {}"
    unfolding has_services_def list_ex_iff name_indices_def
    using registers_name_keys [OF r] svc_name_key_svc_key by blast
  then show ?thesis unfolding registers_name_indices [OF r] by simp
qed

lemma no_services_length: "length (filter svc_name_key (keys m)) = 0 \<longleftrightarrow> \<not> has_services m"
  by (auto simp: has_services_def list_ex_iff filter_empty_conv)

lemma release_labels_registers:
  fixes name ns :: string
  assumes r: "registers m xs"
  defines "ys \<equiv> release_service xs \<lparr>ServiceNamespace = ns, ServiceName = name\<rparr>"
  shows "registers (release_labels m name ns) ys"
    "map_of (release_labels m name ns) clusterNameLabel = (if ys = [] then None else map_of m clusterNameLabel)"
    "getz [] (release_labels m name ns) floatingipGroupLabel = (if ys = [] then [] else getz [] m floatingipGroupLabel)"
    "map_of (release_labels m name ns) projectNameLabel = map_of m projectNameLabel"
proof -
  let ?l1 = "drop_service m name ns"
  have l1: "registers ?l1 ys" unfolding ys_def by (rule drop_service_registers [OF r])
  have same: "map_of ?l1 k = map_of m k" if "\<not> service_key k" for k
  proof (cases "find (names_service m name ns) m")
    case (Some kv)
    then have kv: "kv \<in> set m" "names_service m name ns kv" by (auto simp: find_Some_iff)
    then obtain i where "kv = (svc_key i FName, name)" unfolding names_service_iff [OF r kv(1)] by (elim exE conjE)
    with Some that show ?thesis by (simp add: drop_service_def svc_key_not_other [symmetric] del: svc_key_not_other)
  qed (simp add: drop_service_def)
  let ?l2 = "if getz [] ?l1 floatingipGroupLabel \<noteq> [] \<and> ys = [] then AList.delete floatingipGroupLabel ?l1 else ?l1"
  have l2: "registers ?l2 ys" by (intro registers_if l1 registers_other_delete not_service_labels)
  have eq: "release_labels m name ns = (if ys = [] then AList.delete clusterNameLabel ?l2 else ?l2)"
    unfolding release_labels_def Let_def no_services_length has_services_registers [OF l1]
    using has_services_registers [OF l2] by simp
  show "registers (release_labels m name ns) ys"
    unfolding eq by (rule registers_if [OF registers_other_delete [OF l2] l2]) simp
  have n: "\<not> service_key clusterNameLabel" "\<not> service_key floatingipGroupLabel" "\<not> service_key projectNameLabel"
    by (rule not_service_labels)+
  show "map_of (release_labels m name ns) clusterNameLabel = (if ys = [] then None else map_of m clusterNameLabel)"
    unfolding eq using same [OF n(1)] by simp
  show "getz [] (release_labels m name ns) floatingipGroupLabel = (if ys = [] then [] else getz [] m floatingipGroupLabel)"
    unfolding eq getz_def using same [OF n(2)] by (auto split: option.splits)
  show "map_of (release_labels m name ns) projectNameLabel = map_of m projectNameLabel"
    unfolding eq using same [OF n(3)] by simp
qed

lemma registers_nonempty_parse:
  "registers m xs \<Longrightarrow> \<forall>svc \<in> set (map snd xs). ServiceName svc \<noteq> [] \<Longrightarrow> parseServicesFromLabels (Some m) = map snd xs"
  unfolding registers_parse by (intro filter_True) auto

lemma parse_mof: "parseServicesFromLabels (Some (mof ls)) = parseServicesFromLabels ls"
  by (cases ls) (simp_all add: parseServicesFromLabels_def Let_def)

lemma update_same: "map_of m k = Some v \<Longrightarrow> AList.update k v m = m"
  by (induction m) (auto split: if_splits)

lemma request_labels_fixed:
  assumes r: "registers m xs" and "map_of m projectNameLabel = Some project" "map_of m clusterNameLabel = Some cluster"
    and "\<lparr>ServiceNamespace = ns, ServiceName = name\<rparr> \<in> set (map snd xs)"
    and "grp \<noteq> [] \<longrightarrow> map_of m floatingipGroupLabel = Some grp"
  shows "request_labels m project cluster name ns grp = (m, False)"
  using assms registers_exists [OF r, of name ns] by (auto simp: request_labels_def Let_def update_same)

lemma request_labels_others:
  fixes project cluster name ns grp :: string
  assumes r: "registers m xs" and n: "next_index xs < 2 ^ 63"
  defines "l \<equiv> fst (request_labels m project cluster name ns grp)"
  shows "map_of l projectNameLabel = Some project" "map_of l clusterNameLabel = Some cluster"
    "map_of l floatingipGroupLabel = (if grp \<noteq> [] then Some grp else map_of m floatingipGroupLabel)"
proof -
  let ?l1 = "AList.update clusterNameLabel cluster (AList.update projectNameLabel project m)"
  have l1: "registers ?l1 xs" by (intro registers_other_update r not_service_labels)
  have k: "''rancher.k8s.binbash.org/service-'' @ getNextServiceID ?l1 @ ''-namespace'' = svc_key (next_index xs) FNamespace"
    "''rancher.k8s.binbash.org/service-'' @ getNextServiceID ?l1 @ ''-name'' = svc_key (next_index xs) FName"
    unfolding registers_next [OF l1 n] by (simp_all add: svc_key_def)
  have ne: "svc_key i f \<noteq> projectNameLabel" "svc_key i f \<noteq> clusterNameLabel" "svc_key i f \<noteq> floatingipGroupLabel" for i f
    by (rule svc_key_not_other, rule not_service_labels)+
  note simps = request_labels_def Let_def k ne [symmetric]
  show "map_of l projectNameLabel = Some project" "map_of l clusterNameLabel = Some cluster"
    "map_of l floatingipGroupLabel = (if grp \<noteq> [] then Some grp else map_of m floatingipGroupLabel)"
    unfolding l_def simps by (simp_all add: ne [symmetric])
qed

text \<open>
  A claim arrives at the manager: on a FloatingIP whose service labels are in order, the labels that a
  request writes name its project, its cluster and its group, and the manager then reads the
  services it read before with the new service at the end, or exactly the same services when it
  was registered already. Writing the same claim again changes nothing.
\<close>

theorem claim_reaches_manager:
  assumes "registers (mof (f_labels fip)) xs" and "next_index xs < 2 ^ 63"
    and "\<forall>svc \<in> set (map snd xs). ServiceName svc \<noteq> []" and "name \<noteq> []"
  shows "let fip' = fst (applyFIPRequestLabels fip project cluster name ns grp);
             svc = \<lparr>ServiceNamespace = ns, ServiceName = name\<rparr>;
             old = parseServicesFromLabels (f_labels fip)
         in label (f_labels fip') projectNameLabel = project \<and> label (f_labels fip') clusterNameLabel = cluster \<and>
            (grp = [] \<or> label (f_labels fip') floatingipGroupLabel = grp) \<and>
            parseServicesFromLabels (f_labels fip') = (if svc \<in> set old then old else old @ [svc]) \<and>
            applyFIPRequestLabels fip' project cluster name ns grp = (fip', False)"
proof -
  let ?m = "mof (f_labels fip)" and ?svc = "\<lparr>ServiceNamespace = ns, ServiceName = name\<rparr>"
  define l where "l = fst (request_labels ?m project cluster name ns grp)"
  define ys where "ys = claim_service xs ?svc"
  have l: "registers l ys" unfolding l_def ys_def by (rule request_labels_registers [OF assms(1,2)])
  note o = request_labels_others [OF assms(1,2), of project cluster name ns grp, folded l_def]
  have fip': "fst (applyFIPRequestLabels fip project cluster name ns grp) = fip\<lparr>f_labels := Some l\<rparr>"
    by (simp add: applyFIPRequestLabels_def l_def case_prod_beta)
  have old: "parseServicesFromLabels (f_labels fip) = map snd xs"
    using registers_nonempty_parse [OF assms(1,3)] by (simp add: parse_mof)
  have new: "parseServicesFromLabels (Some l) = map snd ys"
    using assms(3,4) by (intro registers_nonempty_parse [OF l]) (auto simp: ys_def claim_service_def)
  have "?svc \<in> set (map snd ys)" by (auto simp: ys_def claim_service_def)
  then have again: "request_labels l project cluster name ns grp = (l, False)"
    using o by (intro request_labels_fixed [OF l]) auto
  have "label (Some l) projectNameLabel = project" "label (Some l) clusterNameLabel = cluster"
    "grp = [] \<or> label (Some l) floatingipGroupLabel = grp" using o by (auto simp: label_def getz_def)
  moreover have "map snd ys = (if ?svc \<in> set (map snd xs) then map snd xs else map snd xs @ [?svc])"
    by (simp add: ys_def claim_service_def)
  moreover have "applyFIPRequestLabels (fip\<lparr>f_labels := Some l\<rparr>) project cluster name ns grp = (fip\<lparr>f_labels := Some l\<rparr>, False)"
    by (simp add: applyFIPRequestLabels_def again)
  ultimately show ?thesis unfolding Let_def fip' old by (simp add: new)
qed

definition claimed_fip :: FloatingIP where
  "claimed_fip = \<lparr>f_ns = ''ns'', f_name = ''fip-1'', f_labels = Some [(projectNameLabel, ''p''), (clusterNameLabel, ''c1''),
     (svc_key 3 FName, ''web''), (svc_key 3 FNamespace, ''shop'')], f_finalizers = [], f_deleted = False, f_created = 0,
     f_rv = 1, f_spec_ip = None, f_pool = ''lab'', f_ip = ''10.0.0.2'', f_state = ''Allocated'', f_assigned = None, f_conditions = []\<rparr>"

lemma claimed_fip_registers:
  "registers (mof (f_labels claimed_fip)) [(3, \<lparr>ServiceNamespace = ''shop'', ServiceName = ''web''\<rparr>)]"
proof -
  let ?m = "[(projectNameLabel, ''p''), (clusterNameLabel, ''c1'')]"
  have e: "svc_key i f \<noteq> projectNameLabel" "svc_key i f \<noteq> clusterNameLabel" for i f
    by (rule svc_key_not_other, rule not_service_labels)+
  have "registers ?m []"
    unfolding registers_def by (simp add: e not_service_labels)
  from registers_add [OF this, of 3 "\<lparr>ServiceNamespace = ''shop'', ServiceName = ''web''\<rparr>"]
  have "registers (AList.update (svc_key 3 FNamespace) ''shop'' (AList.update (svc_key 3 FName) ''web'' ?m))
      [(3, \<lparr>ServiceNamespace = ''shop'', ServiceName = ''web''\<rparr>)]" by simp
  moreover have "AList.update (svc_key 3 FNamespace) ''shop'' (AList.update (svc_key 3 FName) ''web'' ?m) = mof (f_labels claimed_fip)"
    by code_simp
  ultimately show ?thesis by simp
qed

theorem claim_reaches_manager_witness:
  "parseServicesFromLabels (f_labels (fst (applyFIPRequestLabels claimed_fip ''p'' ''c1'' ''db'' ''shop'' ''g''))) =
   [\<lparr>ServiceNamespace = ''shop'', ServiceName = ''web''\<rparr>, \<lparr>ServiceNamespace = ''shop'', ServiceName = ''db''\<rparr>]"
proof -
  have old: "parseServicesFromLabels (f_labels claimed_fip) = [\<lparr>ServiceNamespace = ''shop'', ServiceName = ''web''\<rparr>]" by code_simp
  have n: "next_index [(3 :: nat, \<lparr>ServiceNamespace = ''shop'', ServiceName = ''web''\<rparr>)] < 2 ^ 63" by (simp add: next_index_def)
  have "\<forall>svc \<in> set (map snd [(3 :: nat, \<lparr>ServiceNamespace = ''shop'', ServiceName = ''web''\<rparr>)]). ServiceName svc \<noteq> []" by simp
  from claim_reaches_manager [OF claimed_fip_registers n this, of "''db''" "''p''" "''c1''" "''shop''" "''g''"]
  show ?thesis unfolding Let_def old by simp
qed

text \<open>
  A release takes a claim back: releasing the service that was just claimed for the first time gives the
  manager the services from before the claim. When it was the only one, the cluster and the
  group are dropped as well, so the FloatingIP is free for the next request; otherwise the other
  services keep the cluster.
\<close>

theorem release_undoes_claim:
  assumes "registers (mof (f_labels fip)) xs" and "next_index xs < 2 ^ 63"
    and "\<forall>svc \<in> set (map snd xs). ServiceName svc \<noteq> []" and "name \<noteq> []"
    and "\<lparr>ServiceNamespace = ns, ServiceName = name\<rparr> \<notin> set (map snd xs)"
  shows "let fip' = releaseMutate name ns (fst (applyFIPRequestLabels fip project cluster name ns grp))
         in parseServicesFromLabels (f_labels fip') = parseServicesFromLabels (f_labels fip) \<and>
            label (f_labels fip') projectNameLabel = project \<and>
            label (f_labels fip') clusterNameLabel = (if xs = [] then [] else cluster) \<and>
            (xs = [] \<longrightarrow> label (f_labels fip') floatingipGroupLabel = [] \<and> (\<forall>c. fipClaimableByRequest fip' c grp))"
proof -
  let ?m = "mof (f_labels fip)" and ?svc = "\<lparr>ServiceNamespace = ns, ServiceName = name\<rparr>"
  define l where "l = fst (request_labels ?m project cluster name ns grp)"
  define ys where "ys = claim_service xs ?svc"
  define l' where "l' = release_labels l name ns"
  have l: "registers l ys" unfolding l_def ys_def by (rule request_labels_registers [OF assms(1,2)])
  note o = request_labels_others [OF assms(1,2), of project cluster name ns grp, folded l_def]
  have "xs = filter (\<lambda>p. snd p \<noteq> ?svc) xs" using assms(5) by (intro filter_True [symmetric]) force
  then have bk: "release_service ys ?svc = xs"
    using assms(5) by (simp add: ys_def claim_service_def release_service_def)
  note rl = release_labels_registers [OF l, of name ns, unfolded bk, folded l'_def]
  have fip': "releaseMutate name ns (fst (applyFIPRequestLabels fip project cluster name ns grp)) = fip\<lparr>f_labels := Some l'\<rparr>"
    by (simp add: applyFIPRequestLabels_def releaseMutate_def l_def l'_def case_prod_beta)
  have "parseServicesFromLabels (Some l') = parseServicesFromLabels (f_labels fip)"
    using registers_nonempty_parse [OF rl(1) assms(3)] registers_nonempty_parse [OF assms(1,3)] by (simp add: parse_mof)
  moreover have "label (Some l') projectNameLabel = project" using rl(4) o(1) by (simp add: label_def getz_def)
  moreover have c: "label (Some l') clusterNameLabel = (if xs = [] then [] else cluster)" using rl(2) o(2) by (simp add: label_def getz_def)
  moreover have "xs = [] \<Longrightarrow> label (Some l') floatingipGroupLabel = []" using rl(3) by (simp add: label_def)
  ultimately show ?thesis unfolding Let_def fip' by (simp add: fipClaimableByRequest_def)
qed

theorem release_undoes_claim_witness:
  "parseServicesFromLabels (f_labels (releaseMutate ''db'' ''shop''
      (fst (applyFIPRequestLabels claimed_fip ''p'' ''c1'' ''db'' ''shop'' ''g'')))) =
   [\<lparr>ServiceNamespace = ''shop'', ServiceName = ''web''\<rparr>]"
proof -
  have old: "parseServicesFromLabels (f_labels claimed_fip) = [\<lparr>ServiceNamespace = ''shop'', ServiceName = ''web''\<rparr>]" by code_simp
  have n: "next_index [(3 :: nat, \<lparr>ServiceNamespace = ''shop'', ServiceName = ''web''\<rparr>)] < 2 ^ 63" by (simp add: next_index_def)
  have "\<forall>svc \<in> set (map snd [(3 :: nat, \<lparr>ServiceNamespace = ''shop'', ServiceName = ''web''\<rparr>)]). ServiceName svc \<noteq> []" by simp
  from release_undoes_claim [OF claimed_fip_registers n this, of "''db''" "''shop''" "''p''" "''c1''" "''g''"]
  show ?thesis unfolding Let_def old by simp
qed

end
