(* ===== verification/Mem_Api.thy ===== *)
theory Mem_Api
  imports Api_Env
begin

text \<open>
  One concrete world for the API server: projects, secrets, FloatingIPs and pools in memory, with
  optimistic locking on the resource version, names generated from a counter, a context whose
  time is counted in calls, and a manager that grants the address \<open>a_grant\<close> to a waiting
  FloatingIP. It shows that the hypotheses on the API's environment can be met and gives the
  witnesses and counterexamples something to run on.
\<close>

record amem =
  a_projects :: "project list"
  a_secrets :: "(string \<times> string, (string, string) gomap) gomap"
  a_fips :: "(string \<times> string, FloatingIP) gomap"
  a_pools :: "(string, FloatingIPPool) gomap"
  a_counter :: nat
  a_left :: nat
  a_grant :: "string option"

definition in_ns :: "string \<Rightarrow> amem \<Rightarrow> FloatingIP list" where
  "in_ns ns w = filter (\<lambda>f. f_ns f = ns) (map snd (a_fips w))"

definition has_labels :: "(string, string) gomap \<Rightarrow> FloatingIP \<Rightarrow> bool" where
  "has_labels m f = list_all (\<lambda>(k, v). map_of (mof (f_labels f)) k = Some v) m"

definition amem_write :: "FloatingIP \<Rightarrow> amem \<Rightarrow> (kerr + FloatingIP) \<times> amem" where
  "amem_write f w =
     (let k = (f_ns f, f_name f) in
      case map_of (a_fips w) k of
        None \<Rightarrow> (Inl NotFound, w)
      | Some cur \<Rightarrow>
          if f_rv f \<noteq> f_rv cur then (Inl Conflict, w)
          else let f' = f\<lparr>f_rv := Suc (f_rv cur)\<rparr> in (Inr f', w\<lparr>a_fips := AList.update k f' (a_fips w)\<rparr>))"

definition amem_create :: "string \<Rightarrow> FloatingIP \<Rightarrow> amem \<Rightarrow> (kerr + FloatingIP) \<times> amem" where
  "amem_create g f w =
     (let name = (if f_name f = [] then g @ dec (a_counter w) else f_name f);
          f' = f\<lparr>f_name := name, f_rv := 1\<rparr>; k = (f_ns f, name)
      in if map_of (a_fips w) k \<noteq> None then (Inl AlreadyExists, w)
         else (Inr f', w\<lparr>a_fips := AList.update k f' (a_fips w), a_counter := Suc (a_counter w)\<rparr>))"

definition amem_remove :: "string \<Rightarrow> string \<Rightarrow> amem \<Rightarrow> kerr option \<times> amem" where
  "amem_remove ns n w =
     (if map_of (a_fips w) (ns, n) = None then (Some NotFound, w)
      else (None, w\<lparr>a_fips := AList.delete (ns, n) (a_fips w)\<rparr>))"

text \<open>A read while waiting: one unit of time passes and the manager may have granted the address.\<close>

definition amem_watch_get :: "string \<Rightarrow> string \<Rightarrow> amem \<Rightarrow> (kerr + FloatingIP) \<times> amem" where
  "amem_watch_get ns n w =
     (let w1 = w\<lparr>a_left := a_left w - 1\<rparr> in
      case map_of (a_fips w) (ns, n) of
        None \<Rightarrow> (Inl NotFound, w1)
      | Some f \<Rightarrow>
          (case a_grant w of
             Some ip \<Rightarrow>
               if f_ip f = [] then
                 (let f' = f\<lparr>f_ip := ip, f_rv := Suc (f_rv f)\<rparr>
                  in (Inr f', w1\<lparr>a_fips := AList.update (ns, n) f' (a_fips w), a_grant := None\<rparr>))
               else (Inr f, w1)
           | None \<Rightarrow> (Inr f, w1)))"

definition of_option :: "'a option \<Rightarrow> kerr + 'a" where
  "of_option x = (case x of None \<Rightarrow> Inl NotFound | Some v \<Rightarrow> Inr v)"

fun sum_retry :: "nat \<Rightarrow> ('w, kerr + 'a) state \<Rightarrow> ('w, kerr + 'a) state" where
  "sum_retry 0 f = f"
| "sum_retry (Suc n) f = do {
     r \<leftarrow> f;
     case r of
       Inr x \<Rightarrow> State_Monad.return (Inr x)
     | Inl e \<Rightarrow> if IsConflict e then sum_retry n f else State_Monad.return (Inl e)
   }"

definition mem_api :: "amem api" where
  "mem_api =
     \<lparr>ListProjects = State (\<lambda>w. (Inr (Some (a_projects w)), w)),
      GetSecret = \<lambda>ns n. State (\<lambda>w. (of_option (map_of (a_secrets w) (ns, n)), w)),
      CreateSecret = \<lambda>ns n d. State (\<lambda>w. if map_of (a_secrets w) (ns, n) = None
         then (None, w\<lparr>a_secrets := AList.update (ns, n) d (a_secrets w)\<rparr>) else (Some AlreadyExists, w)),
      ListFips = \<lambda>ns. State (\<lambda>w. (Inr (in_ns ns w), w)),
      ListFipsMatching = \<lambda>ns m. State (\<lambda>w. (Inr (filter (has_labels m) (in_ns ns w)), w)),
      FetchFip = \<lambda>ns n. State (\<lambda>w. (of_option (map_of (a_fips w) (ns, n)), w)),
      WriteFip = \<lambda>f. State (amem_write f),
      CreateFip = \<lambda>g f. State (amem_create g f),
      RemoveFip = \<lambda>ns n. State (amem_remove ns n),
      FetchPool = \<lambda>n. State (\<lambda>w. (of_option (map_of (a_pools w) n), w)),
      Retry = sum_retry 7,
      CtxErr = State (\<lambda>w. (if a_left w = 0 then Some DeadlineExceeded else None, w)),
      WatchGet = \<lambda>ns n. State (amem_watch_get ns n),
      OpenWatch = \<lambda>ns n v. State_Monad.return None,
      NextEvent = State (\<lambda>w. if a_left w = 0 then (CtxDone, w) else (WatchClosed, w\<lparr>a_left := a_left w - 1\<rparr>)),
      Sleep = \<lambda>d. State (\<lambda>w. (if a_left w = 0 then Some DeadlineExceeded else None, w\<lparr>a_left := a_left w - 1\<rparr>)),
      ErrText = \<lambda>e. ''error''\<rparr>"

lemma sum_retry_tries: "run_state (sum_retry n f) s = (r, s') \<Longrightarrow> tries f s r s'"
proof (induction n arbitrary: s)
  case 0
  then show ?case by (simp add: tries.last_try)
next
  case (Suc n)
  obtain r1 s1 where f: "run_state f s = (r1, s1)" by (cases "run_state f s")
  show ?case
  proof (cases "\<exists>e. r1 = Inl e \<and> IsConflict e")
    case True
    then obtain e where "r1 = Inl e" "IsConflict e" by blast
    with Suc f show ?thesis by (auto intro: tries.next_try)
  next
    case False
    with Suc.prems f have "r = r1 \<and> s' = s1" by (auto split: sum.splits)
    with f show ?thesis by (auto intro: tries.last_try)
  qed
qed

lemma mem_api_retry: "api_retry_ok mem_api"
  by (auto simp: api_retry_ok_def mem_api_def sum_retry_tries)

end
