(* ===== verification/Api_Watch.thy ===== *)
theory Api_Watch
  imports Mem_Api
begin

text \<open>
  Waiting for the manager to allocate an address: \<open>WatchFloatingIP\<close> and its helpers in
  \<open>apiserver/internal/kubebuilder/kubebuilder.go\<close>. The loops end with the context of the request; the
  model runs them with fuel, and running out of fuel is the result \<open>WatchMore\<close>. With a context
  that ends, enough fuel always gives a result (\<open>WatchFloatingIP_returns\<close>).
\<close>

section \<open>Definitions\<close>

definition watchReconnectInitialDelay :: nat where
  "watchReconnectInitialDelay = 200000000"

definition watchReconnectMaxDelay :: nat where
  "watchReconnectMaxDelay = 2000000000"

definition nextReconnectDelay :: "nat \<Rightarrow> nat" where
  "nextReconnectDelay delay =
     (let d = delay * 2 in if watchReconnectMaxDelay < d then watchReconnectMaxDelay else d)"

definition isTerminalWatchError :: "kerr \<Rightarrow> bool" where
  "isTerminalWatchError e \<longleftrightarrow> IsNotFound e \<or> IsForbidden e"

definition waitForFloatingIPGroup :: "FloatingIP \<Rightarrow> bool" where
  "waitForFloatingIPGroup fip \<longleftrightarrow> label (f_labels fip) floatingipGroupLabel \<noteq> []"

definition fip_allocated :: "bool \<Rightarrow> FloatingIP \<Rightarrow> bool" where
  "fip_allocated waitGroup fip =
     (if f_ip fip = [] then False
      else if waitGroup then (case f_assigned fip of None \<Rightarrow> False | Some a \<Rightarrow> FloatingIPGroup a \<noteq> [])
      else True)"

text \<open>The result of \<open>consumeWatch\<close> is the error and the object, of which at most one is set.\<close>

fun consumeWatch :: "'w api \<Rightarrow> nat \<Rightarrow> bool \<Rightarrow> ('w, (kerr option \<times> FloatingIP option) option) state" where
  "consumeWatch A 0 waitGroup = State_Monad.return None"
| "consumeWatch A (Suc n) waitGroup = do {
     event \<leftarrow> NextEvent A;
     case event of
       CtxDone \<Rightarrow> State_Monad.return (Some (None, None))
     | WatchClosed \<Rightarrow> State_Monad.return (Some (None, None))
     | WatchError e \<Rightarrow> State_Monad.return (Some (e, None))
     | WatchOther \<Rightarrow> consumeWatch A n waitGroup
     | WatchFip fip \<Rightarrow>
         if fip_allocated waitGroup fip then State_Monad.return (Some (None, Some fip))
         else consumeWatch A n waitGroup
   }"

datatype watch_result = WatchGot FloatingIP | WatchFailed kerr | WatchEnded ctx_err | WatchMore

text \<open>One failed attempt: definitive errors end the wait, other errors wait for \<open>delay\<close> and go on with \<open>k\<close>.\<close>

definition after_failure :: "'w api \<Rightarrow> nat \<Rightarrow> kerr \<Rightarrow> ('w, watch_result) state \<Rightarrow> ('w, watch_result) state" where
  "after_failure A delay e k =
     (if isTerminalWatchError e then State_Monad.return (WatchFailed e)
      else do {
        ended \<leftarrow> Sleep A delay;
        case ended of
          Some c \<Rightarrow> State_Monad.return (WatchEnded c)
        | None \<Rightarrow> k
      })"

fun watch_loop :: "'w api \<Rightarrow> nat \<Rightarrow> bool \<Rightarrow> string \<Rightarrow> string \<Rightarrow> nat \<Rightarrow> ('w, watch_result) state" where
  "watch_loop A 0 waitGroup ns name delay = State_Monad.return WatchMore"
| "watch_loop A (Suc n) waitGroup ns name delay = do {
     c \<leftarrow> CtxErr A;
     case c of
       Some err \<Rightarrow> State_Monad.return (WatchEnded err)
     | None \<Rightarrow> do {
         g \<leftarrow> WatchGet A ns name;
         case g of
           Inl e \<Rightarrow> after_failure A delay e (watch_loop A n waitGroup ns name (nextReconnectDelay delay))
         | Inr fip \<Rightarrow>
             if fip_allocated waitGroup fip then State_Monad.return (WatchGot fip)
             else do {
               w \<leftarrow> OpenWatch A ns name (f_rv fip);
               case w of
                 Some e \<Rightarrow> after_failure A delay e (watch_loop A n waitGroup ns name (nextReconnectDelay delay))
               | None \<Rightarrow> do {
                   r \<leftarrow> consumeWatch A n waitGroup;
                   case r of
                     None \<Rightarrow> State_Monad.return WatchMore
                   | Some (watchErr, result) \<Rightarrow>
                       if (case watchErr of None \<Rightarrow> False | Some e \<Rightarrow> isTerminalWatchError e)
                       then State_Monad.return (WatchFailed (the watchErr))
                       else case result of
                           Some f \<Rightarrow> State_Monad.return (WatchGot f)
                         | None \<Rightarrow> do {
                             c' \<leftarrow> CtxErr A;
                             case c' of
                               Some err \<Rightarrow> State_Monad.return (WatchEnded err)
                             | None \<Rightarrow> watch_loop A n waitGroup ns name (nextReconnectDelay delay)
                           }
                 }
             }
       }
   }"

definition WatchFloatingIP :: "'w api \<Rightarrow> nat \<Rightarrow> FloatingIP \<Rightarrow> ('w, watch_result) state" where
  "WatchFloatingIP A n currentFip =
     watch_loop A n (waitForFloatingIPGroup currentFip) (f_ns currentFip) (f_name currentFip) watchReconnectInitialDelay"

section \<open>What it returns, and that it returns\<close>

lemma consumeWatch_object:
  "run_state (consumeWatch A n waitGroup) w = (Some (e, Some f), w') \<Longrightarrow> fip_allocated waitGroup f"
proof (induction n arbitrary: w)
  case 0
  then show ?case by simp
next
  case (Suc n)
  obtain ev w1 where ev: "run_state (NextEvent A) w = (ev, w1)" by (cases "run_state (NextEvent A) w")
  with Suc show ?case by (cases ev) (auto split: if_splits)
qed

lemma after_failure_cases:
  assumes "run_state (after_failure A delay e k) w = (r, w')"
  obtains "isTerminalWatchError e" "r = WatchFailed e" "w' = w"
  | c where "r = WatchEnded c"
  | w1 where "run_state (Sleep A delay) w = (None, w1)" "run_state k w1 = (r, w')"
proof (cases "isTerminalWatchError e")
  case True
  with assms that(1) show ?thesis by (simp add: after_failure_def)
next
  case False
  obtain c w1 where "run_state (Sleep A delay) w = (c, w1)" by (cases "run_state (Sleep A delay) w")
  with False assms that(2,3) show ?thesis by (cases c) (auto simp: after_failure_def)
qed

text \<open>
  \<open>left\<close> measures what is left of the context's time: no call adds to it, a read takes time, a
  wait for an event takes time or reports that the context is done, and nothing is left
  exactly when the context reports its error.
\<close>

definition ctx_clock :: "('w \<Rightarrow> nat) \<Rightarrow> 'w api \<Rightarrow> bool" where
  "ctx_clock left A \<longleftrightarrow>
     (\<forall>w c w'. run_state (CtxErr A) w = (c, w') \<longrightarrow> left w' \<le> left w \<and> (left w' = 0 \<longrightarrow> c \<noteq> None)) \<and>
     (\<forall>ns n w g w'. run_state (WatchGet A ns n) w = (g, w') \<longrightarrow> left w' < left w \<or> left w' = 0) \<and>
     (\<forall>ns n v w e w'. run_state (OpenWatch A ns n v) w = (e, w') \<longrightarrow> left w' \<le> left w) \<and>
     (\<forall>d w c w'. run_state (Sleep A d) w = (c, w') \<longrightarrow> left w' \<le> left w) \<and>
     (\<forall>w ev w'. run_state (NextEvent A) w = (ev, w') \<longrightarrow> left w' < left w \<or> (left w' = 0 \<and> ev = CtxDone))"

lemma ctx_clockD:
  assumes "ctx_clock left A"
  shows "run_state (CtxErr A) w = (c, w') \<Longrightarrow> left w' \<le> left w \<and> (left w' = 0 \<longrightarrow> c \<noteq> None)"
    "run_state (WatchGet A ns n) w = (g, w') \<Longrightarrow> left w' < left w \<or> left w' = 0"
    "run_state (OpenWatch A ns n v) w = (e, w') \<Longrightarrow> left w' \<le> left w"
    "run_state (Sleep A d) w = (c', w') \<Longrightarrow> left w' \<le> left w"
    "run_state (NextEvent A) w = (ev, w') \<Longrightarrow> left w' < left w \<or> (left w' = 0 \<and> ev = CtxDone)"
  using assms unfolding ctx_clock_def by simp_all

lemma consumeWatch_returns:
  assumes "ctx_clock left A"
  shows "left w < n \<Longrightarrow> run_state (consumeWatch A n waitGroup) w = (r, w') \<Longrightarrow> r \<noteq> None \<and> left w' \<le> left w"
proof (induction n arbitrary: w)
  case (Suc n)
  obtain ev w1 where ev: "run_state (NextEvent A) w = (ev, w1)" by (cases "run_state (NextEvent A) w")
  then have l: "left w1 < left w \<or> (left w1 = 0 \<and> ev = CtxDone)" by (rule ctx_clockD(5) [OF assms])
  from Suc.prems ev l Suc.IH [of w1] show ?case by (cases ev) (auto split: if_splits)
qed simp

lemma watch_loop_got:
  "run_state (watch_loop A n waitGroup ns name delay) w = (WatchGot f, w') \<Longrightarrow> fip_allocated waitGroup f"
proof (induction n arbitrary: w delay)
  case 0
  then show ?case by simp
next
  case (Suc n)
  obtain c w1 where c: "run_state (CtxErr A) w = (c, w1)" by (cases "run_state (CtxErr A) w")
  obtain g w2 where g: "run_state (WatchGet A ns name) w1 = (g, w2)" by (cases "run_state (WatchGet A ns name) w1")
  have n: "c = None" using Suc.prems c by (cases c) auto
  have fail: "fip_allocated waitGroup f"
    if "run_state (after_failure A delay e (watch_loop A n waitGroup ns name (nextReconnectDelay delay))) t = (WatchGot f, w')" for e t
    using that by (rule after_failure_cases) (auto intro: Suc.IH)
  show ?case
  proof (cases g)
    case (Inl e)
    with Suc.prems c n g fail [of e w2] show ?thesis by simp
  next
    case (Inr fip)
    show ?thesis
    proof (cases "fip_allocated waitGroup fip")
      case True
      with Suc.prems c n g Inr show ?thesis by auto
    next
      case False
      obtain e w3 where o: "run_state (OpenWatch A ns name (f_rv fip)) w2 = (e, w3)"
        by (cases "run_state (OpenWatch A ns name (f_rv fip)) w2")
      show ?thesis
      proof (cases e)
        case (Some err)
        with Suc.prems c n g Inr False o fail [of err w3] show ?thesis by simp
      next
        case None
        obtain r w4 where r: "run_state (consumeWatch A n waitGroup) w3 = (r, w4)"
          by (cases "run_state (consumeWatch A n waitGroup) w3")
        obtain c' w5 where c': "run_state (CtxErr A) w4 = (c', w5)" by (cases "run_state (CtxErr A) w4")
        from Suc.prems c n g Inr False o None r c' Suc.IH [of "nextReconnectDelay delay" w5] consumeWatch_object [of A n waitGroup w3 _ f w4]
        show ?thesis by (auto split: option.splits if_splits)
      qed
    qed
  qed
qed

lemma watch_loop_returns:
  assumes clock: "ctx_clock left A"
  shows "left w < n \<Longrightarrow> fst (run_state (watch_loop A n waitGroup ns name delay) w) \<noteq> WatchMore"
proof (induction n arbitrary: w delay)
  case (Suc n)
  obtain c w1 where c: "run_state (CtxErr A) w = (c, w1)" by (cases "run_state (CtxErr A) w")
  obtain g w2 where g: "run_state (WatchGet A ns name) w1 = (g, w2)" by (cases "run_state (WatchGet A ns name) w1")
  have l1: "left w1 \<le> left w \<and> (left w1 = 0 \<longrightarrow> c \<noteq> None)" by (rule ctx_clockD(1) [OF clock c])
  have l2: "left w2 < left w1 \<or> left w2 = 0" by (rule ctx_clockD(2) [OF clock g])
  show ?case
  proof (cases c)
    case (Some err)
    with c show ?thesis by simp
  next
    case None
    with l1 l2 Suc.prems have l: "left w2 < n" by auto
    have fail: "fst (run_state (after_failure A delay e (watch_loop A n waitGroup ns name (nextReconnectDelay delay))) t) \<noteq> WatchMore"
      if "left t < n" for e t
    proof -
      obtain r t' where r: "run_state (after_failure A delay e (watch_loop A n waitGroup ns name (nextReconnectDelay delay))) t = (r, t')"
        by (cases "run_state (after_failure A delay e (watch_loop A n waitGroup ns name (nextReconnectDelay delay))) t")
      then show ?thesis
      proof (rule after_failure_cases)
        fix t1 assume "run_state (Sleep A delay) t = (None, t1)"
          and k: "run_state (watch_loop A n waitGroup ns name (nextReconnectDelay delay)) t1 = (r, t')"
        then have "left t1 \<le> left t" by (intro ctx_clockD(4) [OF clock])
        with that have "left t1 < n" by simp
        from Suc.IH [OF this, of "nextReconnectDelay delay"] k r show ?thesis by simp
      qed (use r in auto)
    qed
    show ?thesis
    proof (cases g)
      case (Inl e)
      with c None g fail [OF l, of e] show ?thesis by simp
    next
      case (Inr fip)
      show ?thesis
      proof (cases "fip_allocated waitGroup fip")
        case True
        with c None g Inr show ?thesis by simp
      next
        case False
        obtain e w3 where o: "run_state (OpenWatch A ns name (f_rv fip)) w2 = (e, w3)"
          by (cases "run_state (OpenWatch A ns name (f_rv fip)) w2")
        then have "left w3 \<le> left w2" by (rule ctx_clockD(3) [OF clock])
        with l have l3: "left w3 < n" by simp
        obtain r w4 where r: "run_state (consumeWatch A n waitGroup) w3 = (r, w4)"
          by (cases "run_state (consumeWatch A n waitGroup) w3")
        obtain c' w5 where c': "run_state (CtxErr A) w4 = (c', w5)" by (cases "run_state (CtxErr A) w4")
        have r': "r \<noteq> None" "left w4 \<le> left w3" using consumeWatch_returns [OF clock l3 r] by auto
        have "left w5 \<le> left w4" using ctx_clockD(1) [OF clock c'] by simp
        with r'(2) l3 have "left w5 < n" by simp
        from c None g Inr False o r r'(1) c' fail [OF l3] Suc.IH [OF this, of "nextReconnectDelay delay"]
        show ?thesis by (auto split: option.splits)
      qed
    qed
  qed
qed simp

text \<open>
  C30. The wait for an address ends and gives the right object: with the context's time bounded, enough fuel
  gives a result, which is an error of the API server, the end of the context, or a FloatingIP
  that has an address and, when the request carries a group, a group in its assignment.
\<close>

theorem WatchFloatingIP_returns:
  assumes "ctx_clock left A" and "left w < n"
  shows "case fst (run_state (WatchFloatingIP A n fip) w) of
      WatchGot f \<Rightarrow> f_ip f \<noteq> [] \<and>
        (label (f_labels fip) floatingipGroupLabel = [] \<or> (\<exists>a. f_assigned f = Some a \<and> FloatingIPGroup a \<noteq> []))
    | WatchFailed e \<Rightarrow> True
    | WatchEnded c \<Rightarrow> True
    | WatchMore \<Rightarrow> False"
proof -
  obtain r w' where r: "run_state (WatchFloatingIP A n fip) w = (r, w')" by (cases "run_state (WatchFloatingIP A n fip) w")
  have "r \<noteq> WatchMore"
    using watch_loop_returns [OF assms, of "waitForFloatingIPGroup fip" "f_ns fip" "f_name fip" watchReconnectInitialDelay] r
    by (auto simp: WatchFloatingIP_def)
  moreover have "fip_allocated (waitForFloatingIPGroup fip) f" if "r = WatchGot f" for f
    using r that unfolding WatchFloatingIP_def by (auto intro: watch_loop_got)
  ultimately show ?thesis using r
    by (cases r) (auto simp: fip_allocated_def waitForFloatingIPGroup_def split: if_splits option.splits)
qed

lemma mem_api_clock: "ctx_clock a_left mem_api"
  unfolding ctx_clock_def by (auto simp: mem_api_def amem_watch_get_def Let_def split: option.splits if_splits)

definition waiting_fip :: FloatingIP where
  "waiting_fip = \<lparr>f_ns = ''ns'', f_name = ''fip-0'', f_labels = None, f_finalizers = [], f_deleted = False, f_created = 0,
     f_rv = 1, f_spec_ip = None, f_pool = ''lab'', f_ip = [], f_state = [], f_assigned = None, f_conditions = []\<rparr>"

definition waiting_world :: "string option \<Rightarrow> amem" where
  "waiting_world ip = \<lparr>a_projects = [], a_secrets = [], a_fips = [((''ns'', ''fip-0''), waiting_fip)], a_pools = [],
     a_counter = 1, a_left = 5, a_grant = ip\<rparr>"

theorem WatchFloatingIP_returns_witness:
  "(case fst (run_state (WatchFloatingIP mem_api 6 waiting_fip) (waiting_world (Some ''10.0.0.4''))) of
      WatchGot f \<Rightarrow> f_ip f = ''10.0.0.4'' | _ \<Rightarrow> False) \<and>
   fst (run_state (WatchFloatingIP mem_api 6 waiting_fip) (waiting_world None)) = WatchEnded DeadlineExceeded"
proof -
  have "a_left (waiting_world x) < 6" for x by (simp add: waiting_world_def)
  note * = WatchFloatingIP_returns [OF mem_api_clock this, of waiting_fip]
  have "fst (run_state (WatchFloatingIP mem_api 6 waiting_fip) (waiting_world x)) \<noteq> WatchMore" for x
    using * [of x] by (auto split: watch_result.splits)
  moreover have "fst (run_state (WatchFloatingIP mem_api 6 waiting_fip) (waiting_world None)) \<in> {WatchEnded DeadlineExceeded, WatchMore}"
    "case fst (run_state (WatchFloatingIP mem_api 6 waiting_fip) (waiting_world (Some ''10.0.0.4''))) of
       WatchGot f \<Rightarrow> f_ip f = ''10.0.0.4'' | WatchMore \<Rightarrow> True | _ \<Rightarrow> False" by code_simp+
  ultimately show ?thesis by (auto split: watch_result.splits)
qed

end
