(* ===== verification/Api_Handlers.thy ===== *)
theory Api_Handlers
  imports Api_Auth Api_Labels Api_Watch Sha256
begin

text \<open>
  The handlers of the HTTP API, \<open>apiserver/internal/handlers/handlers.go\<close>. A handler takes the
  decoded body (\<open>None\<close> when the JSON decoder refuses it) and is a program over the outside
  world that makes the API calls in the order of the source and ends with the reply. Log lines
  are left out; an error text that goes to the client is \<open>ErrText\<close> of the error.
\<close>

section \<open>Errors\<close>

text \<open>The status that an error of the API server carries, looking through wrapped errors.\<close>

fun api_status :: "(kerr \<Rightarrow> string) \<Rightarrow> kerr \<Rightarrow> (nat \<times> string) option" where
  "api_status txt NotFound = Some (404, txt NotFound)"
| "api_status txt Conflict = Some (409, txt Conflict)"
| "api_status txt AlreadyExists = Some (409, txt AlreadyExists)"
| "api_status txt (StatusErr c m) = Some (c, m)"
| "api_status txt (Wrap m e) = api_status txt e"
| "api_status txt _ = None"

definition createErrorToHTTP :: "'w api \<Rightarrow> kerr \<Rightarrow> kerr" where
  "createErrorToHTTP A err =
     (if IsAlreadyExists err then ErrHTTP 409 ''floating IP request is already in progress, retry the request''
      else case api_status (ErrText A) err of
          Some (code, message) \<Rightarrow>
            if 400 \<le> code \<and> code < 500
            then ErrHTTP code (if message = [] then ''floating IP request rejected by the API server'' else message)
            else err
        | None \<Rightarrow> err)"

fun writeHandlerError :: "kerr \<Rightarrow> reply" where
  "writeHandlerError (ErrHTTP status message) = JSONError status message"
| "writeHandlerError (Wrap m e) = writeHandlerError e"
| "writeHandlerError _ = JSONError 500 ''failed to process floating IP request''"

definition writeUpdateError :: "kerr \<Rightarrow> reply" where
  "writeUpdateError err =
     (if IsConflict err then JSONError 409 ''conflict updating floating IP, retry the request''
      else JSONError 500 ''failed to update floating IP'')"

section \<open>Updating with a precondition\<close>

definition update_attempt ::
  "'w api \<Rightarrow> FloatingIP \<Rightarrow> (FloatingIP \<Rightarrow> bool) \<Rightarrow> (FloatingIP \<Rightarrow> FloatingIP) \<Rightarrow> ('w, kerr + FloatingIP) state" where
  "update_attempt A desired claimable mutate = do {
     r \<leftarrow> FetchFip A (f_ns desired) (f_name desired);
     case r of
       Inl e \<Rightarrow> State_Monad.return (Inl e)
     | Inr fresh \<Rightarrow>
         if \<not> claimable fresh then State_Monad.return (Inl FIPClaimed)
         else WriteFip A (mutate fresh)
   }"

definition updateFloatingIPIf ::
  "'w api \<Rightarrow> FloatingIP \<Rightarrow> (FloatingIP \<Rightarrow> bool) \<Rightarrow> (FloatingIP \<Rightarrow> FloatingIP) \<Rightarrow> ('w, kerr + FloatingIP) state" where
  "updateFloatingIPIf A desired claimable mutate = Retry A (update_attempt A desired claimable mutate)"

definition updateFloatingIP :: "'w api \<Rightarrow> FloatingIP \<Rightarrow> (FloatingIP \<Rightarrow> FloatingIP) \<Rightarrow> ('w, kerr + FloatingIP) state" where
  "updateFloatingIP A desired mutate = updateFloatingIPIf A desired (\<lambda>_. True) mutate"

section \<open>Finding the project\<close>

text \<open>The steps every handler starts with.\<close>

definition lookupProject :: "'w api \<Rightarrow> string \<Rightarrow> ('w, reply + project) state" where
  "lookupProject A name = do {
     l \<leftarrow> ListProjects A;
     State_Monad.return (case l of
        Inl e \<Rightarrow> Inl (JSONError 500 ''Failed to list projects'')
      | Inr None \<Rightarrow> Inl (JSONError 500 ''Failed to parse projects'')
      | Inr (Some projects) \<Rightarrow>
          (case find_project projects name of
             None \<Rightarrow> Inl (JSONError 400 ''Project not found'')
           | Some project \<Rightarrow> Inr project))
   }"

section \<open>A pinned address\<close>

definition specificFIPName :: "string \<Rightarrow> string \<Rightarrow> string" where
  "specificFIPName pool ipAddr =
     (let canonical = (case ParseIP ipAddr of None \<Rightarrow> ipAddr | Some parsed \<Rightarrow> ip_string parsed);
          digest = Sum256 (string_bytes (pool @ ''/'' @ canonical))
      in ''fip-'' @ hex_encode (take 16 digest))"

definition checkSpecificIPClaimable :: "FloatingIP \<Rightarrow> FIPRequest \<Rightarrow> kerr option" where
  "checkSpecificIPClaimable fip req =
     (if f_deleted fip then Some (ErrHTTP 409 ''FloatingIP is being released, retry the request'')
      else if label (f_labels fip) projectNameLabel \<noteq> rq_Project req then
        Some (ErrHTTP 409 ''IP address is already in use by another project'')
      else case f_assigned fip of
          None \<Rightarrow> None
        | Some a \<Rightarrow>
            if FloatingIPGroup a = [] then
              (if rq_FloatingIPGroup req = [] \<and> label (f_labels fip) clusterNameLabel = rq_Cluster req \<and>
                  serviceAlreadyExists (f_labels fip) (rq_ServiceName req) (rq_ServiceNamespace req)
               then None
               else Some (ErrHTTP 409 ''IP address is already assigned''))
            else if rq_FloatingIPGroup req \<noteq> [] \<and> rq_FloatingIPGroup req \<noteq> FloatingIPGroup a then
              Some (ErrHTTP 409 ''FloatingIPGroup does not match the assigned FloatingIPGroup'')
            else if ClusterName a \<noteq> rq_Cluster req then
              Some (ErrHTTP 409 ''FloatingIP is already in use by another cluster'')
            else None)"

definition claims_service :: "FIPRequest \<Rightarrow> FloatingIP \<Rightarrow> bool" where
  "claims_service req fip \<longleftrightarrow>
     \<not> f_deleted fip \<and>
     label (f_labels fip) projectNameLabel = rq_Project req \<and>
     label (f_labels fip) clusterNameLabel = rq_Cluster req \<and>
     f_pool fip = rq_FloatingIPPool req \<and>
     serviceAlreadyExists (f_labels fip) (rq_ServiceName req) (rq_ServiceNamespace req) \<and>
     label (f_labels fip) floatingipGroupLabel = rq_FloatingIPGroup req \<and>
     (rq_IPAddress req = [] \<or> f_spec_ip fip = Some (rq_IPAddress req))"

definition findServiceFIP :: "'w api \<Rightarrow> project \<Rightarrow> FIPRequest \<Rightarrow> ('w, kerr + FloatingIP option) state" where
  "findServiceFIP A project req = do {
     l \<leftarrow> ListFips A (pr_ns project);
     State_Monad.return (case l of Inl e \<Rightarrow> Inl e | Inr items \<Rightarrow> Inr (find (claims_service req) items))
   }"

definition is_pinned :: "FIPRequest \<Rightarrow> FloatingIP \<Rightarrow> bool" where
  "is_pinned req fip \<longleftrightarrow>
     label (f_labels fip) projectNameLabel = rq_Project req \<and> f_spec_ip fip = Some (rq_IPAddress req)"

definition findPinnedFIP :: "'w api \<Rightarrow> project \<Rightarrow> FIPRequest \<Rightarrow> ('w, kerr + FloatingIP option) state" where
  "findPinnedFIP A project req = do {
     l \<leftarrow> ListFips A (pr_ns project);
     State_Monad.return (case l of Inl e \<Rightarrow> Inl e | Inr items \<Rightarrow> Inr (find (is_pinned req) items))
   }"

text \<open>The labels and the object of a FloatingIP that a request creates.\<close>

definition new_fip_labels :: "project \<Rightarrow> FIPRequest \<Rightarrow> (string, string) gomap" where
  "new_fip_labels project req =
     [(projectNameLabel, pr_name project), (clusterNameLabel, rq_Cluster req),
      (''rancher.k8s.binbash.org/service-0-name'', rq_ServiceName req),
      (''rancher.k8s.binbash.org/service-0-namespace'', rq_ServiceNamespace req)] @
     (if rq_FloatingIPGroup req \<noteq> [] then [(floatingipGroupLabel, rq_FloatingIPGroup req)] else [])"

definition new_fip :: "project \<Rightarrow> FIPRequest \<Rightarrow> string \<Rightarrow> string option \<Rightarrow> FloatingIP" where
  "new_fip project req name ip =
     \<lparr>f_ns = pr_ns project, f_name = name, f_labels = Some (new_fip_labels project req), f_finalizers = [],
      f_deleted = False, f_created = 0, f_rv = 0, f_spec_ip = ip, f_pool = rq_FloatingIPPool req,
      f_ip = [], f_state = [], f_assigned = None, f_conditions = []\<rparr>"

text \<open>After a create that failed: adopt the object a concurrent request persisted, or report the failure.\<close>

definition adoptPinned :: "'w api \<Rightarrow> project \<Rightarrow> FIPRequest \<Rightarrow> kerr \<Rightarrow> ('w, kerr + (FloatingIP \<times> bool)) state" where
  "adoptPinned A project req err = do {
     p \<leftarrow> findPinnedFIP A project req;
     State_Monad.return (case p of
        Inr (Some existing) \<Rightarrow> Inr (existing, False)
      | _ \<Rightarrow> Inl (createErrorToHTTP A err))
   }"

definition createSpecificIP :: "'w api \<Rightarrow> project \<Rightarrow> FIPRequest \<Rightarrow> ('w, kerr + (FloatingIP \<times> bool)) state" where
  "createSpecificIP A project req = do {
     let name = specificFIPName (rq_FloatingIPPool req) (rq_IPAddress req);
     c \<leftarrow> CreateFip A [] (new_fip project req name (Some (rq_IPAddress req)));
     case c of
       Inr fip \<Rightarrow> State_Monad.return (Inr (fip, True))
     | Inl err \<Rightarrow>
         if IsAlreadyExists err then do {
           g \<leftarrow> FetchFip A (pr_ns project) name;
           case g of
             Inr existing \<Rightarrow>
               State_Monad.return
                 (if f_spec_ip existing \<noteq> Some (rq_IPAddress req) \<or> f_pool existing \<noteq> rq_FloatingIPPool req
                  then Inl (ErrHTTP 409 ''floating IP request conflicts with an existing object, retry the request'')
                  else Inr (existing, False))
           | Inl getErr \<Rightarrow>
               if \<not> IsNotFound getErr
               then State_Monad.return (Inl (ErrHTTP 500 ''failed to read the existing floating IP''))
               else adoptPinned A project req err
         }
         else adoptPinned A project req err
   }"

definition claimLabels :: "project \<Rightarrow> FIPRequest \<Rightarrow> FloatingIP \<Rightarrow> FloatingIP" where
  "claimLabels project req fip =
     fst (applyFIPRequestLabels fip (pr_name project) (rq_Cluster req) (rq_ServiceName req) (rq_ServiceNamespace req)
            (rq_FloatingIPGroup req))"

text \<open>The claim of a FloatingIP that exists already.\<close>

definition claimPinned :: "'w api \<Rightarrow> project \<Rightarrow> FIPRequest \<Rightarrow> FloatingIP \<Rightarrow> ('w, kerr + (FloatingIP \<times> bool)) state" where
  "claimPinned A project req existing =
     (case checkSpecificIPClaimable existing req of
        Some e \<Rightarrow> State_Monad.return (Inl e)
      | None \<Rightarrow> do {
          u \<leftarrow> updateFloatingIPIf A existing (\<lambda>f. fipClaimableByCluster f (rq_Cluster req)) (claimLabels project req);
          State_Monad.return (case u of
             Inr f \<Rightarrow> Inr (f, False)
           | Inl err \<Rightarrow>
               if err = FIPClaimed then Inl (ErrHTTP 409 ''FloatingIP is already in use by another cluster'')
               else if IsConflict err then Inl (ErrHTTP 409 ''conflict updating floating IP, retry the request'')
               else Inl err)
        })"

definition requestSpecificIP :: "'w api \<Rightarrow> project \<Rightarrow> FIPRequest \<Rightarrow> ('w, kerr + (FloatingIP \<times> bool)) state" where
  "requestSpecificIP A project req = do {
     p \<leftarrow> findPinnedFIP A project req;
     case p of
       Inl e \<Rightarrow> State_Monad.return (Inl (ErrHTTP 500 ''failed to list existing floating IPs''))
     | Inr (Some existing) \<Rightarrow> claimPinned A project req existing
     | Inr None \<Rightarrow> do {
         c \<leftarrow> createSpecificIP A project req;
         case c of
           Inl e \<Rightarrow> State_Monad.return (Inl e)
         | Inr (created, createdNew) \<Rightarrow>
             if createdNew then State_Monad.return (Inr (created, True))
             else claimPinned A project req created
       }
   }"

section \<open>An address of any kind\<close>

definition group_match :: "FIPRequest \<Rightarrow> FloatingIP \<Rightarrow> bool" where
  "group_match req fip \<longleftrightarrow>
     rq_FloatingIPGroup req \<noteq> [] \<and> label (f_labels fip) projectNameLabel = rq_Project req \<and>
     label (f_labels fip) clusterNameLabel = rq_Cluster req \<and>
     (case f_assigned fip of None \<Rightarrow> False | Some a \<Rightarrow> FloatingIPGroup a = rq_FloatingIPGroup req)"

definition is_candidate :: "FIPRequest \<Rightarrow> FloatingIP \<Rightarrow> bool" where
  "is_candidate req fip \<longleftrightarrow>
     label (f_labels fip) projectNameLabel = rq_Project req \<and> f_ip fip \<noteq> [] \<and> f_assigned fip = None"

text \<open>The loop over the unassigned FloatingIPs: the first that can be claimed, or the error that ends the request.\<close>

fun claimCandidates :: "'w api \<Rightarrow> project \<Rightarrow> FIPRequest \<Rightarrow> FloatingIP list \<Rightarrow> ('w, kerr + FloatingIP option) state" where
  "claimCandidates A project req [] = State_Monad.return (Inr None)"
| "claimCandidates A project req (candidate # items) =
     (if \<not> is_candidate req candidate then claimCandidates A project req items
      else do {
        u \<leftarrow> updateFloatingIPIf A candidate (\<lambda>f. fipClaimableByRequest f (rq_Cluster req) (rq_FloatingIPGroup req))
               (claimLabels project req);
        case u of
          Inr f \<Rightarrow> State_Monad.return (Inr (Some f))
        | Inl err \<Rightarrow>
            if err = FIPClaimed \<or> IsNotFound err then claimCandidates A project req items
            else State_Monad.return (Inl err)
      })"

definition requestAnyIP :: "'w api \<Rightarrow> project \<Rightarrow> FIPRequest \<Rightarrow> ('w, reply + (FloatingIP \<times> bool)) state" where
  "requestAnyIP A project req = do {
     l \<leftarrow> ListFips A (pr_ns project);
     case l of
       Inl e \<Rightarrow> State_Monad.return (Inl (JSONError 500 ''failed to list existing floating IPs''))
     | Inr items \<Rightarrow>
         (case find (group_match req) items of
            Some existing \<Rightarrow> do {
              u \<leftarrow> updateFloatingIP A existing (claimLabels project req);
              State_Monad.return (case u of Inl err \<Rightarrow> Inl (writeUpdateError err) | Inr f \<Rightarrow> Inr (f, False))
            }
          | None \<Rightarrow> do {
              u \<leftarrow> claimCandidates A project req items;
              case u of
                Inl err \<Rightarrow> State_Monad.return (Inl (writeUpdateError err))
              | Inr (Some f) \<Rightarrow> State_Monad.return (Inr (f, False))
              | Inr None \<Rightarrow> do {
                  c \<leftarrow> CreateFip A ''fip-'' (new_fip project req [] None);
                  State_Monad.return (case c of
                     Inl err \<Rightarrow> Inl (writeHandlerError (createErrorToHTTP A err))
                   | Inr fip \<Rightarrow> Inr (fip, True))
                }
            })
   }"

section \<open>The request handler\<close>

text \<open>The FloatingIP a request works with, and whether this request created it.\<close>

definition obtainFIP :: "'w api \<Rightarrow> project \<Rightarrow> FIPRequest \<Rightarrow> ('w, reply + (FloatingIP \<times> bool)) state" where
  "obtainFIP A project req = do {
     s \<leftarrow> findServiceFIP A project req;
     case s of
       Inl e \<Rightarrow> State_Monad.return (Inl (JSONError 500 ''failed to list existing floating IPs''))
     | Inr (Some fip) \<Rightarrow> State_Monad.return (Inr (fip, False))
     | Inr None \<Rightarrow>
         if rq_IPAddress req \<noteq> [] then do {
           p \<leftarrow> requestSpecificIP A project req;
           State_Monad.return (case p of Inl e \<Rightarrow> Inl (writeHandlerError e) | Inr x \<Rightarrow> Inr x)
         }
         else requestAnyIP A project req
   }"

definition approve :: "FIPRequest \<Rightarrow> FloatingIP \<Rightarrow> FloatingIPPool \<Rightarrow> reply" where
  "approve req finalFip fipPool =
     FIPReply \<lparr>rs_ClientSecret = rq_ClientSecret req, rs_Status = ''approved'', rs_Cluster = rq_Cluster req,
       rs_Project = rq_Project req, rs_FloatingIPPool = rq_FloatingIPPool req,
       rs_ServiceNamespace = rq_ServiceNamespace req, rs_ServiceName = rq_ServiceName req,
       rs_IPAddress = f_ip finalFip,
       rs_Subnet = (case p_config fipPool of None \<Rightarrow> [] | Some c \<Rightarrow> Subnet c),
       rs_FloatingIPGroup = (case f_assigned finalFip of None \<Rightarrow> [] | Some a \<Rightarrow> FloatingIPGroup a),
       rs_SharedKey = (case f_assigned finalFip of None \<Rightarrow> [] | Some a \<Rightarrow> SharedKey a)\<rparr>"

text \<open>Waiting for the address and answering; \<open>None\<close> when the fuel for the wait runs out.\<close>

definition awaitAllocation :: "'w api \<Rightarrow> nat \<Rightarrow> FIPRequest \<Rightarrow> FloatingIP \<Rightarrow> bool \<Rightarrow> ('w, reply option) state" where
  "awaitAllocation A n req floatingIP createdNew = do {
     r \<leftarrow> WatchFloatingIP A n floatingIP;
     case r of
       WatchMore \<Rightarrow> State_Monad.return None
     | WatchEnded err \<Rightarrow> do {
         _ \<leftarrow> (if createdNew then RemoveFip A (f_ns floatingIP) (f_name floatingIP) else State_Monad.return None);
         State_Monad.return (Some (if err = Canceled then NoReply else JSONError 504 ''timeout waiting for IP allocation''))
       }
     | WatchFailed e \<Rightarrow> State_Monad.return (Some (JSONError 500 ''failed to get ip address''))
     | WatchGot finalFip \<Rightarrow> do {
         p \<leftarrow> FetchPool A (rq_FloatingIPPool req);
         State_Monad.return (Some (case p of
            Inl e \<Rightarrow> JSONError 500 ''failed to get floatingippool subnet''
          | Inr fipPool \<Rightarrow> approve req finalFip fipPool))
       }
   }"

definition FIPRequestHandler :: "'w api \<Rightarrow> nat \<Rightarrow> FIPRequest option \<Rightarrow> ('w, reply option) state" where
  "FIPRequestHandler A n body =
     (case body of
        None \<Rightarrow> State_Monad.return (Some (JSONError 400 ''Invalid request body''))
      | Some req \<Rightarrow> do {
          p \<leftarrow> lookupProject A (rq_Project req);
          case p of
            Inl rep \<Rightarrow> State_Monad.return (Some rep)
          | Inr project \<Rightarrow> do {
              o' \<leftarrow> obtainFIP A project req;
              case o' of
                Inl rep \<Rightarrow> State_Monad.return (Some rep)
              | Inr (floatingIP, createdNew) \<Rightarrow> awaitAllocation A n req floatingIP createdNew
            }
        })"

section \<open>Release, list, delete and token\<close>

definition release_matches :: "FIPReleaseRequest \<Rightarrow> FloatingIP \<Rightarrow> bool" where
  "release_matches req fip \<longleftrightarrow>
     (rl_IPAddress req = [] \<or> f_ip fip = rl_IPAddress req) \<and>
     (rl_FloatingIPGroup req = [] \<or> label (f_labels fip) floatingipGroupLabel = rl_FloatingIPGroup req) \<and>
     serviceAlreadyExists (f_labels fip) (rl_ServiceName req) (rl_ServiceNamespace req)"

definition FIPReleaseHandler :: "'w api \<Rightarrow> FIPReleaseRequest option \<Rightarrow> ('w, reply) state" where
  "FIPReleaseHandler A body =
     (case body of
        None \<Rightarrow> State_Monad.return (JSONError 400 ''Invalid request body'')
      | Some req \<Rightarrow> do {
          p \<leftarrow> lookupProject A (rl_Project req);
          case p of
            Inl rep \<Rightarrow> State_Monad.return rep
          | Inr project \<Rightarrow> do {
              l \<leftarrow> ListFipsMatching A (pr_ns project)
                     [(projectNameLabel, rl_Project req), (clusterNameLabel, rl_Cluster req)];
              case l of
                Inl e \<Rightarrow> State_Monad.return (JSONError 500 (ErrText A e))
              | Inr items \<Rightarrow>
                  (case find (release_matches req) items of
                     None \<Rightarrow> State_Monad.return (JSONError 404 ''no floatingip found to release'')
                   | Some fip \<Rightarrow> do {
                       u \<leftarrow> updateFloatingIP A fip (releaseMutate (rl_ServiceName req) (rl_ServiceNamespace req));
                       State_Monad.return (case u of
                          Inl err \<Rightarrow> writeUpdateError err
                        | Inr _ \<Rightarrow> ReleaseReply ''released'' ''Floating IP released successfully'')
                     })
            }
        })"

definition service_ids :: "(string, string) gomap \<Rightarrow> string list" where
  "service_ids labels =
     remdups (map (\<lambda>key. TrimSuffix (TrimPrefix key ''rancher.k8s.binbash.org/service-'') ''-name'')
                (filter svc_name_key (keys labels)))"

definition list_entry :: "FloatingIP \<Rightarrow> string \<Rightarrow> string \<Rightarrow> FIPListEntry" where
  "list_entry item ip serviceID =
     \<lparr>le_Project = label (f_labels item) projectNameLabel, le_Cluster = label (f_labels item) clusterNameLabel,
      le_FloatingIPPool = f_pool item,
      le_ServiceNamespace = label (f_labels item) (''rancher.k8s.binbash.org/service-'' @ serviceID @ ''-namespace''),
      le_ServiceName = label (f_labels item) (''rancher.k8s.binbash.org/service-'' @ serviceID @ ''-name''),
      le_IPAddress = ip, le_FloatingIPGroup = label (f_labels item) floatingipGroupLabel\<rparr>"

definition list_item :: "FIPListRequest \<Rightarrow> FloatingIP \<Rightarrow> FIPListEntry list" where
  "list_item req item =
     (if f_pool item \<noteq> ls_FloatingIPPool req then []
      else case f_spec_ip item of
          None \<Rightarrow> []
        | Some ip \<Rightarrow>
            if label (f_labels item) clusterNameLabel = ls_Cluster req \<or> f_assigned item = None
            then map (list_entry item ip) (service_ids (mof (f_labels item)))
            else [])"

definition FIPListHandler :: "'w api \<Rightarrow> FIPListRequest option \<Rightarrow> ('w, reply) state" where
  "FIPListHandler A body =
     (case body of
        None \<Rightarrow> State_Monad.return (JSONError 400 ''Invalid request body'')
      | Some req \<Rightarrow> do {
          p \<leftarrow> lookupProject A (ls_Project req);
          case p of
            Inl rep \<Rightarrow> State_Monad.return rep
          | Inr project \<Rightarrow> do {
              l \<leftarrow> ListFipsMatching A (pr_ns project) [(projectNameLabel, ls_Project req)];
              State_Monad.return (case l of
                 Inl e \<Rightarrow> JSONError 500 ''failed to list floating IPs''
               | Inr items \<Rightarrow>
                   ListReply \<lparr>lr_ClientSecret = ls_ClientSecret req, lr_Cluster = ls_Cluster req,
                     lr_Project = ls_Project req, lr_FloatingIPs = concat (map (list_item req) items)\<rparr>)
            }
        })"

definition FIPDeleteHandler :: "'w api \<Rightarrow> FIPDeleteRequest option \<Rightarrow> ('w, reply) state" where
  "FIPDeleteHandler A body =
     (case body of
        None \<Rightarrow> State_Monad.return (JSONError 400 ''Invalid request body'')
      | Some req \<Rightarrow> do {
          p \<leftarrow> lookupProject A (dl_Project req);
          case p of
            Inl rep \<Rightarrow> State_Monad.return rep
          | Inr project \<Rightarrow> do {
              l \<leftarrow> ListFips A (pr_ns project);
              case l of
                Inl e \<Rightarrow> State_Monad.return (JSONError 500 (ErrText A e))
              | Inr items \<Rightarrow>
                  (case find (\<lambda>fip. f_spec_ip fip = Some (dl_IPAddress req)) items of
                     None \<Rightarrow> State_Monad.return (JSONError 404 ''no floatingip found to delete'')
                   | Some fip \<Rightarrow> do {
                       d \<leftarrow> RemoveFip A (f_ns fip) (f_name fip);
                       State_Monad.return (case d of
                          Some e \<Rightarrow> JSONError 500 (ErrText A e)
                        | None \<Rightarrow> DeleteReply ''deleted'' ''Floating IP deleted successfully'')
                     })
            }
        })"

definition TokenHandler ::
  "(jwt_claims \<Rightarrow> 'priv \<Rightarrow> kerr + string) \<Rightarrow> 'priv \<Rightarrow> ('w, int) state \<Rightarrow> string option \<Rightarrow> ('w, reply) state" where
  "TokenHandler SignedString privateKey clock body =
     (case body of
        None \<Rightarrow> State_Monad.return (JSONError 400 ''Invalid request body'')
      | Some clientID \<Rightarrow>
          if clientID = [] then State_Monad.return (JSONError 400 ''clientID is required'')
          else do {
            t1 \<leftarrow> clock;
            t2 \<leftarrow> clock;
            State_Monad.return (case GenerateJWT SignedString t1 t2 privateKey clientID 3600000000000 of
               Inl e \<Rightarrow> JSONError 500 ''Failed to generate token''
             | Inr (token, expiresAt) \<Rightarrow> TokenReply token expiresAt)
          })"

end
