(* ===== verification/Api_Handlers_Props.thy ===== *)
theory Api_Handlers_Props
  imports Api_Handlers Api_Labels_Props Api_Auth_Props
begin

text \<open>
  What the handlers of the HTTP API do to the cluster. The guarantees are stated for every relation
  \<open>R\<close> between worlds that the other calls respect, so they hold under any interference by other
  replicas and the manager; the failures of the code are concrete runs.
\<close>

section \<open>Calls that only look\<close>

definition reads_move :: "('w \<Rightarrow> 'w \<Rightarrow> bool) \<Rightarrow> 'w api \<Rightarrow> bool" where
  "reads_move R A \<longleftrightarrow>
     moves R (ListProjects A) \<and> (\<forall>ns. moves R (ListFips A ns)) \<and> (\<forall>ns n. moves R (FetchFip A ns n)) \<and>
     (\<forall>n. moves R (FetchPool A n)) \<and> moves R (CtxErr A) \<and> (\<forall>ns n. moves R (WatchGet A ns n)) \<and>
     (\<forall>ns n v. moves R (OpenWatch A ns n v)) \<and> moves R (NextEvent A) \<and> (\<forall>d. moves R (Sleep A d))"

lemma reads_moveD [moves_intro]:
  assumes "reads_move R A"
  shows "moves R (ListProjects A)" "moves R (ListFips A ns)" "moves R (FetchFip A ns n)" "moves R (FetchPool A n)"
    "moves R (CtxErr A)" "moves R (WatchGet A ns n)" "moves R (OpenWatch A ns n v)" "moves R (NextEvent A)" "moves R (Sleep A d)"
  using assms by (simp_all add: reads_move_def)

lemma moves_watch_event [moves_intro]:
  "moves R a \<Longrightarrow> moves R b \<Longrightarrow> (\<And>e. moves R (c e)) \<Longrightarrow> (\<And>f. moves R (d f)) \<Longrightarrow> moves R x \<Longrightarrow>
   moves R (case ev of CtxDone \<Rightarrow> a | WatchClosed \<Rightarrow> b | WatchError e \<Rightarrow> c e | WatchFip f \<Rightarrow> d f | WatchOther \<Rightarrow> x)"
  by (cases ev) auto

lemma consumeWatch_moves: "preorder_rel R \<Longrightarrow> reads_move R A \<Longrightarrow> moves R (consumeWatch A n waitGroup)"
  by (induction n) (auto intro!: moves_intro)

lemma watch_loop_moves:
  assumes "preorder_rel R" "reads_move R A"
  shows "moves R (watch_loop A n waitGroup ns name delay)"
proof (induction n arbitrary: delay)
  case 0
  then show ?case using assms by (auto intro!: moves_intro)
next
  case (Suc n)
  have "moves R (after_failure A delay e (watch_loop A n waitGroup ns name (nextReconnectDelay delay)))" for e
    unfolding after_failure_def by (intro moves_intro assms Suc)
  then show ?case unfolding watch_loop.simps
    by (intro moves_intro assms Suc consumeWatch_moves)
qed

lemma WatchFloatingIP_moves: "preorder_rel R \<Longrightarrow> reads_move R A \<Longrightarrow> moves R (WatchFloatingIP A n fip)"
  by (simp add: WatchFloatingIP_def watch_loop_moves)

lemma lookups_move:
  assumes "preorder_rel R" "reads_move R A"
  shows "moves R (lookupProject A n)" "moves R (findServiceFIP A p req)" "moves R (findPinnedFIP A p req)"
  unfolding lookupProject_def findServiceFIP_def findPinnedFIP_def by (intro moves_intro assms)+

section \<open>Claims are written under a guard\<close>

text \<open>\<open>R\<close> allows the write of \<open>mutate fresh\<close> right after \<open>fresh\<close> was read and found claimable.\<close>

definition guarded_write :: "('w \<Rightarrow> 'w \<Rightarrow> bool) \<Rightarrow> 'w api \<Rightarrow> (FloatingIP \<Rightarrow> bool) \<Rightarrow> (FloatingIP \<Rightarrow> FloatingIP) \<Rightarrow> bool" where
  "guarded_write R A claimable mutate \<longleftrightarrow>
     (\<forall>ns n w fresh w'. run_state (FetchFip A ns n) w = (Inr fresh, w') \<longrightarrow> claimable fresh \<longrightarrow>
        R w' (snd (run_state (WriteFip A (mutate fresh)) w')))"

lemma guarded_write_mono:
  "guarded_write R A P mutate \<Longrightarrow> (\<And>f. Q f \<Longrightarrow> P f) \<Longrightarrow> guarded_write R A Q mutate"
  by (simp add: guarded_write_def)

lemma update_moves:
  assumes "preorder_rel R" "reads_move R A" "api_retry_ok A" "guarded_write R A claimable mutate"
  shows "moves R (updateFloatingIPIf A desired claimable mutate)"
  unfolding updateFloatingIPIf_def
proof (intro moves_retry assms)
  show "moves R (update_attempt A desired claimable mutate)"
    unfolding moves_def
  proof
    fix w
    obtain r w1 where r: "run_state (FetchFip A (f_ns desired) (f_name desired)) w = (r, w1)"
      by (cases "run_state (FetchFip A (f_ns desired) (f_name desired)) w")
    have "R w w1" using assms(2) r by (intro movesD [of R "FetchFip A (f_ns desired) (f_name desired)"]) (simp_all add: reads_moveD)
    moreover have "R w1 (snd (run_state (WriteFip A (mutate fresh)) w1))" if "r = Inr fresh" "claimable fresh" for fresh
      using assms(4) r that unfolding guarded_write_def by simp
    ultimately show "R w (snd (run_state (update_attempt A desired claimable mutate) w))"
      using assms(1) r by (cases r) (auto simp: update_attempt_def preorder_rel_def transp_def)
  qed
qed

lemma claimable_by_request: "fipClaimableByRequest f c g \<Longrightarrow> fipClaimableByCluster f c"
  by (auto simp: fipClaimableByRequest_def fipClaimableByCluster_def Let_def split: if_splits)

lemma claimPinned_moves:
  assumes "preorder_rel R" "reads_move R A" "api_retry_ok A"
    and "guarded_write R A (\<lambda>f. fipClaimableByCluster f (rq_Cluster req)) (claimLabels project req)"
  shows "moves R (claimPinned A project req existing)"
  unfolding claimPinned_def by (intro moves_intro assms update_moves)

lemma requestSpecificIP_moves:
  assumes "preorder_rel R" "reads_move R A" "api_retry_ok A" "\<And>g f. moves R (CreateFip A g f)"
    and "guarded_write R A (\<lambda>f. fipClaimableByCluster f (rq_Cluster req)) (claimLabels project req)"
  shows "moves R (requestSpecificIP A project req)"
  unfolding requestSpecificIP_def createSpecificIP_def adoptPinned_def Let_def
  by (intro moves_intro assms(1-4) lookups_move claimPinned_moves assms(5))

lemma claimCandidates_moves:
  assumes "preorder_rel R" "reads_move R A" "api_retry_ok A"
    and "guarded_write R A (\<lambda>f. fipClaimableByCluster f (rq_Cluster req)) (claimLabels project req)"
  shows "moves R (claimCandidates A project req items)"
proof (induction items)
  case Nil
  then show ?case using assms(1) by (auto intro: moves_intro)
next
  case (Cons x items)
  have "guarded_write R A (\<lambda>f. fipClaimableByRequest f (rq_Cluster req) (rq_FloatingIPGroup req)) (claimLabels project req)"
    by (rule guarded_write_mono [OF assms(4)]) (rule claimable_by_request)
  then show ?case unfolding claimCandidates.simps by (intro moves_intro assms(1-3) Cons update_moves)
qed

lemma no_group_match: "rq_FloatingIPGroup req = [] \<Longrightarrow> find (group_match req) items = None"
  by (simp add: find_None_iff group_match_def)

lemma requestAnyIP_moves:
  assumes "preorder_rel R" "reads_move R A" "api_retry_ok A" "\<And>g f. moves R (CreateFip A g f)"
    and "guarded_write R A (\<lambda>f. fipClaimableByCluster f (rq_Cluster req)) (claimLabels project req)"
    and "rq_FloatingIPGroup req = [] \<or> guarded_write R A (\<lambda>f. True) (claimLabels project req)"
  shows "moves R (requestAnyIP A project req)"
proof (cases "rq_FloatingIPGroup req = []")
  case True
  show ?thesis
    unfolding requestAnyIP_def no_group_match [OF True] option.case
    by (intro moves_intro assms(1-4) claimCandidates_moves assms(5))
next
  case False
  with assms(6) have "guarded_write R A (\<lambda>f. True) (claimLabels project req)" by simp
  then show ?thesis
    unfolding requestAnyIP_def updateFloatingIP_def
    by (intro moves_intro assms(1-4) claimCandidates_moves update_moves assms(5))
qed

lemma obtainFIP_moves:
  assumes "preorder_rel R" "reads_move R A" "api_retry_ok A" "\<And>g f. moves R (CreateFip A g f)"
    and "guarded_write R A (\<lambda>f. fipClaimableByCluster f (rq_Cluster req)) (claimLabels project req)"
    and "rq_FloatingIPGroup req = [] \<or> rq_IPAddress req \<noteq> [] \<or> guarded_write R A (\<lambda>f. True) (claimLabels project req)"
  shows "moves R (obtainFIP A project req)"
proof -
  have any: "moves R (requestAnyIP A project req)" if "\<not> rq_IPAddress req \<noteq> []"
    using assms(6) that by (intro requestAnyIP_moves [OF assms(1-5)]) simp
  show ?thesis
    unfolding obtainFIP_def by (intro moves_intro assms(1-5) lookups_move requestSpecificIP_moves any)
qed

text \<open>
  C6. Outside the group path a claim never takes a FloatingIP away from another cluster: in every request without a group, and in every
  request for a pinned address, an existing FloatingIP is written only with the request's labels
  added to an object that was read in the same attempt and carried no cluster or the cluster of
  the request. Everything else that obtaining the FloatingIP does is reading and creating; stated
  for every relation between worlds that these calls and guarded writes respect. Requests with a group and without an address are excluded
  by hypothesis: there the handler does relabel a FloatingIP of another cluster (\<open>group_claim_steals\<close>).
\<close>

theorem claims_are_guarded:
  assumes "preorder_rel R" and "api_retry_ok A" and "reads_move R A" and "\<And>g f. moves R (CreateFip A g f)"
    and "\<And>ns n w fresh w'. run_state (FetchFip A ns n) w = (Inr fresh, w') \<Longrightarrow>
       label (f_labels fresh) clusterNameLabel \<in> {[], rq_Cluster req} \<Longrightarrow>
       R w' (snd (run_state (WriteFip A (fst (applyFIPRequestLabels fresh (pr_name project) (rq_Cluster req)
         (rq_ServiceName req) (rq_ServiceNamespace req) (rq_FloatingIPGroup req)))) w'))"
    and "rq_FloatingIPGroup req = [] \<or> rq_IPAddress req \<noteq> []"
  shows "R w (snd (run_state (obtainFIP A project req) w))"
proof -
  have "guarded_write R A (\<lambda>f. fipClaimableByCluster f (rq_Cluster req)) (claimLabels project req)"
    using assms(5) by (simp add: guarded_write_def fipClaimableByCluster_def claimLabels_def Let_def)
  from obtainFIP_moves [OF assms(1,3,2,4) this] assms(6) show ?thesis by (auto simp: moves_def)
qed

text \<open>In the world in memory: the labels of every FloatingIP that another cluster holds stay as they are.\<close>

definition keyed :: "amem \<Rightarrow> bool" where
  "keyed w \<longleftrightarrow> (\<forall>k f. map_of (a_fips w) k = Some f \<longrightarrow> k = (f_ns f, f_name f))"

definition foreign_kept :: "string \<Rightarrow> amem \<Rightarrow> amem \<Rightarrow> bool" where
  "foreign_kept c w w' \<longleftrightarrow> (keyed w \<longrightarrow> keyed w' \<and>
     (\<forall>k f. map_of (a_fips w) k = Some f \<longrightarrow> label (f_labels f) clusterNameLabel \<notin> {[], c} \<longrightarrow>
        (\<exists>f'. map_of (a_fips w') k = Some f' \<and> f_labels f' = f_labels f)))"

lemma foreign_kept_preorder: "preorder_rel (foreign_kept c)"
  unfolding preorder_rel_def reflp_def transp_def foreign_kept_def by (auto; metis)

lemma foreign_kept_same: "a_fips w' = a_fips w \<Longrightarrow> foreign_kept c w w'"
  by (simp add: foreign_kept_def keyed_def)

lemma foreign_kept_update:
  assumes "keyed w \<Longrightarrow> k = (f_ns f, f_name f)" "a_fips w' = AList.update k f (a_fips w)"
    and "\<And>g. keyed w \<Longrightarrow> map_of (a_fips w) k = Some g \<Longrightarrow> label (f_labels g) clusterNameLabel \<in> {[], c} \<or> f_labels f = f_labels g"
  shows "foreign_kept c w w'"
  using assms unfolding foreign_kept_def keyed_def by (auto split: if_splits)

lemma mem_reads_move: "reads_move (foreign_kept c) mem_api"
proof -
  have "moves (foreign_kept c) (WatchGet mem_api ns n)" for ns n
    unfolding moves_def
  proof
    fix w
    show "foreign_kept c w (snd (run_state (WatchGet mem_api ns n) w))"
    proof (cases "\<exists>f ip. map_of (a_fips w) (ns, n) = Some f \<and> a_grant w = Some ip \<and> f_ip f = []")
      case True
      then obtain f ip where f: "map_of (a_fips w) (ns, n) = Some f" "a_grant w = Some ip" "f_ip f = []" by blast
      show ?thesis
        by (rule foreign_kept_update [of _ "(ns, n)" "f\<lparr>f_ip := ip, f_rv := Suc (f_rv f)\<rparr>"])
           (use f in \<open>auto simp: mem_api_def amem_watch_get_def Let_def keyed_def\<close>)
    next
      case False
      then show ?thesis
        by (intro foreign_kept_same) (auto simp: mem_api_def amem_watch_get_def Let_def split: option.splits)
    qed
  qed
  moreover have "moves (foreign_kept c) (NextEvent mem_api)" "moves (foreign_kept c) (Sleep mem_api d)" for d
    by (auto simp: moves_def mem_api_def intro!: foreign_kept_same)
  moreover have "moves (foreign_kept c) (ListProjects mem_api)" "moves (foreign_kept c) (ListFips mem_api ns)"
    "moves (foreign_kept c) (FetchFip mem_api ns n)" "moves (foreign_kept c) (FetchPool mem_api n)"
    "moves (foreign_kept c) (CtxErr mem_api)" "moves (foreign_kept c) (OpenWatch mem_api ns n v)" for ns n v
    by (auto simp: moves_def mem_api_def intro!: foreign_kept_same)
  ultimately show ?thesis by (simp add: reads_move_def)
qed

lemma mem_create_moves: "moves (foreign_kept c) (CreateFip mem_api g f)"
  unfolding moves_def
proof
  fix w :: amem
  let ?f = "f\<lparr>f_name := if f_name f = [] then g @ dec (a_counter w) else f_name f, f_rv := 1\<rparr>"
  show "foreign_kept c w (snd (run_state (CreateFip mem_api g f) w))"
  proof (cases "map_of (a_fips w) (f_ns f, f_name ?f)")
    case (Some x)
    then show ?thesis by (intro foreign_kept_same) (simp add: mem_api_def amem_create_def Let_def)
  next
    case None
    then show ?thesis
      by (intro foreign_kept_update [of _ "(f_ns f, f_name ?f)" ?f]) (simp_all add: mem_api_def amem_create_def Let_def)
  qed
qed

lemma mem_write_moves:
  assumes "run_state (FetchFip mem_api ns n) w = (Inr fresh, w')" "label (f_labels fresh) clusterNameLabel \<in> {[], c}"
  shows "foreign_kept c w' (snd (run_state (WriteFip mem_api (fst (applyFIPRequestLabels fresh p cl sn sns grp))) w'))"
proof -
  obtain l where a: "fst (applyFIPRequestLabels fresh p cl sn sns grp) = fresh\<lparr>f_labels := l\<rparr>"
    by (simp add: applyFIPRequestLabels_def case_prod_beta)
  have f: "map_of (a_fips w') (ns, n) = Some fresh"
    using assms(1) by (auto simp: mem_api_def of_option_def split: option.splits)
  let ?k = "(f_ns fresh, f_name fresh)" and ?g = "fresh\<lparr>f_labels := l, f_rv := Suc (f_rv fresh)\<rparr>"
  show ?thesis
  proof (cases "\<exists>cur. map_of (a_fips w') ?k = Some cur \<and> f_rv cur = f_rv fresh")
    case True
    then obtain cur where cur: "map_of (a_fips w') ?k = Some cur" "f_rv cur = f_rv fresh" by blast
    have same: "cur = fresh" if "keyed w'"
    proof -
      have "?k = (ns, n)" using that f unfolding keyed_def by fastforce
      with cur f show ?thesis by simp
    qed
    show ?thesis unfolding a
      by (rule foreign_kept_update [of _ ?k ?g])
         (use cur assms(2) same in \<open>auto simp: mem_api_def amem_write_def Let_def\<close>)
  next
    case False
    then show ?thesis unfolding a
      by (intro foreign_kept_same) (auto simp: mem_api_def amem_write_def Let_def split: option.splits)
  qed
qed

definition shop :: project where
  "shop = \<lparr>pr_name = ''shop'', pr_ns = ''local''\<rparr>"

definition web_request :: FIPRequest where
  "web_request = \<lparr>rq_ClientSecret = ''s'', rq_Cluster = ''c1'', rq_Project = ''shop'', rq_FloatingIPPool = ''lab'',
     rq_ServiceNamespace = ''front'', rq_ServiceName = ''web'', rq_IPAddress = [], rq_FloatingIPGroup = []\<rparr>"

definition shop_fip :: "string \<Rightarrow> string \<Rightarrow> string \<Rightarrow> FloatingIP" where
  "shop_fip name cluster ip = \<lparr>f_ns = ''local'', f_name = name, f_labels = Some ((projectNameLabel, ''shop'') #
       (if cluster = [] then [] else [(clusterNameLabel, cluster)])), f_finalizers = [], f_deleted = False, f_created = 0,
     f_rv = 4, f_spec_ip = Some ip, f_pool = ''lab'', f_ip = ip, f_state = ''Allocated'', f_assigned = None, f_conditions = []\<rparr>"

definition shop_world :: "FloatingIP list \<Rightarrow> amem" where
  "shop_world fips = \<lparr>a_projects = [shop], a_secrets = [], a_fips = map (\<lambda>f. ((f_ns f, f_name f), f)) fips,
     a_pools = [(''lab'', \<lparr>p_name = ''lab'', p_rv = 1, p_config = Some \<lparr>Family = ''IPv4'', Subnet = ''10.0.0.0/24'',
        Pool_Start = ''10.0.0.2'', Pool_End = ''10.0.0.9'', Pool_Exclude = []\<rparr>, p_allocated = None, p_used = 0, p_available = 8\<rparr>),
      (''edge'', \<lparr>p_name = ''edge'', p_rv = 1, p_config = Some \<lparr>Family = ''IPv4'', Subnet = ''192.168.7.0/24'',
        Pool_Start = ''192.168.7.2'', Pool_End = ''192.168.7.9'', Pool_Exclude = []\<rparr>, p_allocated = None, p_used = 0, p_available = 8\<rparr>)],
     a_counter = 7, a_left = 5, a_grant = Some ''10.0.0.8''\<rparr>"

theorem claims_are_guarded_witness:
  "let w = shop_world [shop_fip ''fip-a'' ''c2'' ''10.0.0.2'', shop_fip ''fip-b'' [] ''10.0.0.3''];
       (r, w') = run_state (obtainFIP mem_api shop web_request) w
   in foreign_kept ''c1'' w w' \<and> (case r of Inr (f, new) \<Rightarrow> f_name f = ''fip-b'' \<and> \<not> new | Inl e \<Rightarrow> False)"
proof -
  let ?w = "shop_world [shop_fip ''fip-a'' ''c2'' ''10.0.0.2'', shop_fip ''fip-b'' [] ''10.0.0.3'']"
  have c: "rq_Cluster web_request = ''c1''" "rq_FloatingIPGroup web_request = []" by (simp_all add: web_request_def)
  have "foreign_kept ''c1'' ?w (snd (run_state (obtainFIP mem_api shop web_request) ?w))"
    by (rule claims_are_guarded [OF foreign_kept_preorder mem_api_retry mem_reads_move mem_create_moves])
       (simp_all only: c mem_write_moves simp_thms)
  moreover have "case fst (run_state (obtainFIP mem_api shop web_request) ?w) of
      Inr (f, new) \<Rightarrow> f_name f = ''fip-b'' \<and> \<not> new | Inl e \<Rightarrow> False" by code_simp
  ultimately show ?thesis by (simp add: Let_def case_prod_beta)
qed

section \<open>Results of a program\<close>

text \<open>A predicate on the results a program can have, with one rule per construct.\<close>

definition yields :: "('a \<Rightarrow> bool) \<Rightarrow> ('w, 'a) state \<Rightarrow> bool" where
  "yields P m \<longleftrightarrow> (\<forall>w. P (fst (run_state m w)))"

lemma yields_bind_result:
  "yields Q m \<Longrightarrow> (\<And>x. Q x \<Longrightarrow> yields P (k x)) \<Longrightarrow> yields P (State_Monad.bind m k)"
  by (simp add: yields_def case_prod_beta)

lemma yields_bind: "(\<And>x. yields P (k x)) \<Longrightarrow> yields P (State_Monad.bind m k)"
  by (simp add: yields_def case_prod_beta)

lemma yields_return: "P x \<Longrightarrow> yields P (State_Monad.return x)"
  by (simp add: yields_def)

lemma yields_if: "(b \<Longrightarrow> yields P m) \<Longrightarrow> (\<not> b \<Longrightarrow> yields P n) \<Longrightarrow> yields P (if b then m else n)"
  by simp

lemma yields_sum:
  "(\<And>e. x = Inl e \<Longrightarrow> yields P (m e)) \<Longrightarrow> (\<And>a. x = Inr a \<Longrightarrow> yields P (n a)) \<Longrightarrow>
   yields P (case x of Inl e \<Rightarrow> m e | Inr a \<Rightarrow> n a)"
  by (cases x) auto

lemma yields_option:
  "(x = None \<Longrightarrow> yields P m) \<Longrightarrow> (\<And>a. x = Some a \<Longrightarrow> yields P (n a)) \<Longrightarrow>
   yields P (case x of None \<Rightarrow> m | Some a \<Rightarrow> n a)"
  by (cases x) auto

lemmas yields_intro = yields_return yields_bind yields_if yields_sum yields_option

section \<open>Where the handlers fall short\<close>

text \<open>
  A request deletes other projects' addresses: \<open>FIPDeleteHandler\<close> looks the address up in the namespace of the
  project, which the projects of one cluster share, without looking at the project label. Here
  the client of project \<open>blog\<close> deletes the FloatingIP that is labelled with project \<open>shop\<close>, and a
  release of the same address by \<open>blog\<close> is refused.
\<close>

theorem delete_crosses_projects:
  "let w = (shop_world [shop_fip ''fip-a'' ''c1'' ''10.0.0.2''])\<lparr>a_projects := [shop, \<lparr>pr_name = ''blog'', pr_ns = ''local''\<rparr>]\<rparr>;
       del = run_state (FIPDeleteHandler mem_api (Some \<lparr>dl_ClientSecret = ''b'', dl_Project = ''blog'', dl_IPAddress = ''10.0.0.2''\<rparr>)) w;
       rel = run_state (FIPReleaseHandler mem_api (Some \<lparr>rl_ClientSecret = ''b'', rl_Cluster = ''c1'', rl_Project = ''blog'',
               rl_FloatingIPPool = ''lab'', rl_ServiceNamespace = [], rl_ServiceName = [], rl_IPAddress = ''10.0.0.2'',
               rl_FloatingIPGroup = []\<rparr>)) w
   in reply_code (fst del) = 200 \<and> a_fips (snd del) = [] \<and> reply_code (fst rel) = 404"
  by code_simp

text \<open>
  A request may be answered from the wrong pool: when the project has an unassigned FloatingIP, a
  request without a pinned address gets it whatever pool the request names. Here a request for
  pool \<open>edge\<close> is approved with an address of pool \<open>lab\<close> and the subnet of \<open>edge\<close>.
\<close>

theorem request_ignores_pool:
  "let w = shop_world [shop_fip ''fip-b'' [] ''10.0.0.3''];
       r = fst (run_state (FIPRequestHandler mem_api 9 (Some (web_request\<lparr>rq_FloatingIPPool := ''edge''\<rparr>))) w)
   in (case r of
         Some (FIPReply a) \<Rightarrow> rs_FloatingIPPool a = ''edge'' \<and> rs_IPAddress a = ''10.0.0.3'' \<and> rs_Subnet a = ''192.168.7.0/24''
       | _ \<Rightarrow> False)"
  by code_simp

text \<open>
  Interference between the list and the read of a request with a group: the cluster's own last
  service releases the FloatingIP, and a request of cluster \<open>c2\<close> claims it.
\<close>

definition grouped_fip :: FloatingIP where
  "grouped_fip = (shop_fip ''fip-a'' ''c1'' ''10.0.0.2'')
     \<lparr>f_labels := Some [(projectNameLabel, ''shop''), (clusterNameLabel, ''c1''), (svc_key 0 FName, ''web''),
        (svc_key 0 FNamespace, ''front''), (floatingipGroupLabel, ''g'')],
      f_assigned := Some \<lparr>ClusterName = ''c1'', ProjectName = ''shop'', FloatingIPGroup = ''g'', SharedKey = ''k'',
        Services = [\<lparr>ServiceNamespace = ''front'', ServiceName = ''web''\<rparr>]\<rparr>\<rparr>"

definition reclaimed_fip :: FloatingIP where
  "reclaimed_fip =
     (fst (applyFIPRequestLabels (releaseMutate ''web'' ''front'' grouped_fip) ''shop'' ''c2'' ''db'' ''back'' []))\<lparr>f_rv := 6\<rparr>"

definition racing_api :: "amem api" where
  "racing_api = mem_api\<lparr>FetchFip := \<lambda>ns n. State (\<lambda>w. (Inr reclaimed_fip, w\<lparr>a_fips := [((ns, n), reclaimed_fip)]\<rparr>))\<rparr>"

text \<open>
  A request with a group can take a FloatingIP away from another cluster: the branch that reuses a
  FloatingIP of the same group writes its labels without looking at the cluster of the object it
  has just read. When the FloatingIP was released and claimed by cluster \<open>c2\<close> after the list,
  the request of \<open>c1\<close> succeeds and relabels it to \<open>c1\<close>, while the service of \<open>c2\<close> is still registered on it.
\<close>

theorem group_claim_steals:
  "let req = web_request\<lparr>rq_ServiceName := ''api'', rq_FloatingIPGroup := ''g''\<rparr>;
       (r, w') = run_state (obtainFIP racing_api shop req) (shop_world [grouped_fip])
   in label (f_labels reclaimed_fip) clusterNameLabel = ''c2'' \<and> \<not> fipClaimableByCluster reclaimed_fip ''c1'' \<and> \<not> isl r \<and>
      (case map_of (a_fips w') (''local'', ''fip-a'') of
         Some f \<Rightarrow> label (f_labels f) clusterNameLabel = ''c1'' \<and>
           parseServicesFromLabels (f_labels f) =
             [\<lparr>ServiceNamespace = ''back'', ServiceName = ''db''\<rparr>, \<lparr>ServiceNamespace = ''front'', ServiceName = ''api''\<rparr>]
       | None \<Rightarrow> False)"
  by code_simp

end
