(* ===== verification/Lb_Env.thy ===== *)
theory Lb_Env
  imports Api_Env
begin

text \<open>
  The environment of the load balancer controller (\<open>src/lbcontroller\<close>), the program that runs in
  each downstream cluster and is the client of the HTTP API: the Kubernetes objects it reads and writes, the
  calls it makes, and its HTTP client (\<open>lbcontroller/pkg/ipam/client.go\<close>).

  The Kubernetes clients, the informer's cache, the HTTP transport, the JSON decoders, the retry helper and the mutexes
  are fields of a record \<open>lbenv\<close>. A call may change the whole state, the controller's own included, because several
  workers run at the same time.
\<close>

section \<open>Objects\<close>

record Service =
  sv_ns :: string
  sv_name :: string
  sv_annotations :: labels
  sv_labels :: labels
  sv_finalizers :: "string list"
  sv_deleted :: bool
  sv_type :: string
  sv_ingress :: nat
  sv_rv :: string

text \<open>A label selector of a pool: the labels that must match, and further expressions as opaque text.\<close>

record LabelSelector =
  sl_matchLabels :: "(string, string) gomap"
  sl_expressions :: "string list"

record ServiceAllocation =
  al_namespaces :: "string list"
  al_namespaceSelectors :: "LabelSelector list"
  al_serviceSelectors :: "LabelSelector list"

record IPAddressPool =
  ap_name :: string
  ap_ns :: string
  ap_addresses :: "string list"
  ap_allocateTo :: "ServiceAllocation option"

record L2Advertisement =
  la_name :: string
  la_ns :: string
  la_pools :: "string list"
  la_interfaces :: "string list"

record AddressPool =
  pp_aggregation :: string
  pp_pool :: string
  pp_subnet :: string

record ServiceGroup =
  sg_name :: string
  sg_ns :: string
  sg_v4pools :: "AddressPool list"
  sg_v6pools :: "AddressPool list"

record Secret =
  sec_name :: string
  sec_data :: "(string, string) gomap"

definition sdata :: "Secret \<Rightarrow> string \<Rightarrow> string" where
  "sdata secret k = getz [] (sec_data secret) k"

definition ann :: "Service \<Rightarrow> string \<Rightarrow> string" where
  "ann svc k = label (sv_annotations svc) k"

section \<open>The state and the calls\<close>

text \<open>The client of the HTTP API; its connection pool and CA bundle belong to the transport.\<close>

record Client =
  cl_apiURL :: string
  cl_clientID :: string

text \<open>The controller's own state: the clients per project with the Secret values they were built
  from, the snapshots of deleted Services, and the work queue's requests for later.\<close>

record ipamClientEntry =
  ce_apiURL :: string
  ce_clientID :: string
  ce_client :: Client

record 'w lbsys =
  lb_clients :: "(string, ipamClientEntry) gomap"
  lb_tombstones :: "(string, Service) gomap"
  lb_world :: 'w

type_synonym ('w, 'a) lbact = "('w lbsys, 'a) state"

record 'w lbenv =
  GetSvc :: "string \<Rightarrow> string \<Rightarrow> ('w, kerr + Service) lbact"
  UpdateSvc :: "Service \<Rightarrow> ('w, kerr + Service) lbact"
  ListSvcs :: "string \<Rightarrow> LabelSelector option \<Rightarrow> ('w, kerr + Service list) lbact"
  SvcByIndex :: "string \<Rightarrow> ('w, kerr + Service option list) lbact"
  SvcByKey :: "string \<Rightarrow> ('w, kerr + Service option) lbact"
  SvcRetry :: "('w, kerr option) lbact \<Rightarrow> ('w, kerr option) lbact"
  GetNamespace :: "string \<Rightarrow> ('w, kerr + labels) lbact"
  GetSecretObj :: "string \<Rightarrow> string \<Rightarrow> ('w, kerr + Secret) lbact"
  GetConfigMap :: "string \<Rightarrow> string \<Rightarrow> ('w, kerr + (string, string) gomap) lbact"
  GetIPAddressPool :: "string \<Rightarrow> string \<Rightarrow> ('w, kerr + IPAddressPool) lbact"
  GetIPAddressPools :: "string \<Rightarrow> ('w, kerr + IPAddressPool list) lbact"
  CreateIPAddressPool :: "IPAddressPool \<Rightarrow> ('w, kerr option) lbact"
  UpdateIPAddressPool :: "IPAddressPool \<Rightarrow> ('w, kerr option) lbact"
  DeleteIPAddressPool :: "string \<Rightarrow> string \<Rightarrow> ('w, kerr option) lbact"
  CreateL2Advertisement :: "L2Advertisement \<Rightarrow> ('w, kerr option) lbact"
  DeleteL2Advertisement :: "string \<Rightarrow> string \<Rightarrow> ('w, kerr option) lbact"
  GetServiceGroups :: "string \<Rightarrow> ('w, kerr + ServiceGroup list) lbact"
  CreateServiceGroup :: "ServiceGroup \<Rightarrow> ('w, kerr option) lbact"
  DeleteServiceGroup :: "string \<Rightarrow> string \<Rightarrow> ('w, kerr option) lbact"
  Http :: "string \<Rightarrow> string \<Rightarrow> string \<Rightarrow> (string, string) gomap \<Rightarrow> ('w, kerr + nat \<times> (kerr + string)) lbact"
  UrlErr :: "string \<Rightarrow> kerr option"
  DecodeToken :: "string \<Rightarrow> kerr + string"
  DecodeFIP :: "string \<Rightarrow> kerr + FIPResponse"
  DecodeRelease :: "string \<Rightarrow> kerr + string"
  DecodeList :: "string \<Rightarrow> kerr + FIPListEntry list"
  SelectorAsSelector :: "LabelSelector \<Rightarrow> kerr + (labels \<Rightarrow> bool)"
  IsDNS1123Subdomain :: "string \<Rightarrow> bool"
  SvcKeyFunc :: "Service \<Rightarrow> string option"
  SplitSvcKey :: "string \<Rightarrow> (string \<times> string) option"
  LockAddr :: "string \<Rightarrow> ('w, unit) lbact"
  UnlockAddr :: "string \<Rightarrow> ('w, unit) lbact"
  Eventf :: "Service \<Rightarrow> string \<Rightarrow> ('w, unit) lbact"
  AddAfter :: "string \<Rightarrow> nat \<Rightarrow> ('w, unit) lbact"
  BaseErrText :: "kerr \<Rightarrow> string"

text \<open>
  \<open>Http method url token body\<close> sends a JSON object of strings and returns the status code with the
  body or the error of reading it. The text of a wrapped error is the context, a colon and the text of the
  error, as \<open>fmt.Errorf\<close> writes it.
\<close>

fun err_text :: "'w lbenv \<Rightarrow> kerr \<Rightarrow> string" where
  "err_text L (Errorf m) = m"
| "err_text L (Wrap m e) = m @ '': '' @ err_text L e"
| "err_text L e = BaseErrText L e"

text \<open>\<open>strings.Contains\<close> and \<open>strings.ReplaceAll\<close> of one character, \<open>strings.Trim\<close> of one character.\<close>

fun str_contains :: "string \<Rightarrow> string \<Rightarrow> bool" where
  "str_contains [] sub = (sub = [])"
| "str_contains (c # s) sub = (prefix sub (c # s) \<or> str_contains s sub)"

definition str_replace :: "char \<Rightarrow> char \<Rightarrow> string \<Rightarrow> string" where
  "str_replace a b s = map (\<lambda>c. if c = a then b else c) s"

definition str_trim :: "char \<Rightarrow> string \<Rightarrow> string" where
  "str_trim a s = rev (dropWhile (\<lambda>c. c = a) (rev (dropWhile (\<lambda>c. c = a) s)))"

section \<open>The HTTP client\<close>

definition NewClientWithCA :: "string \<Rightarrow> string \<Rightarrow> kerr + Client" where
  "NewClientWithCA apiURL clientID =
     (if apiURL = [] then Inl (Errorf ''IPAM API URL is not configured'')
      else Inr \<lparr>cl_apiURL = apiURL, cl_clientID = clientID\<rparr>)"

definition getToken :: "'w lbenv \<Rightarrow> Client \<Rightarrow> ('w, kerr + string) lbact" where
  "getToken L c =
     (let url = cl_apiURL c @ ''/auth/token'' in
      case UrlErr L url of
        Some e \<Rightarrow> State_Monad.return (Inl (Wrap ''request error'' e))
      | None \<Rightarrow> do {
          r \<leftarrow> Http L ''POST'' url [] [(''clientID'', cl_clientID c)];
          State_Monad.return (case r of
             Inl e \<Rightarrow> Inl (Wrap ''client error'' e)
           | Inr (code, b) \<Rightarrow>
               if code \<noteq> 200 then Inl (Errorf (''status code '' @ dec code))
               else case b of
                   Inl e \<Rightarrow> Inl (Wrap ''response error'' e)
                 | Inr body \<Rightarrow>
                     (case DecodeToken L body of
                        Inl e \<Rightarrow> Inl (Wrap ''response unmarshal error'' e)
                      | Inr token \<Rightarrow> Inr token))
        })"

text \<open>The body of a request or release for one Service; the group is left out when it is empty.\<close>

definition fip_body ::
  "string \<Rightarrow> string \<Rightarrow> string \<Rightarrow> string \<Rightarrow> string \<Rightarrow> string \<Rightarrow> string \<Rightarrow> string \<Rightarrow> (string, string) gomap" where
  "fip_body clientSecret cluster project pool ns name ipaddr grp =
     [(''clientSecret'', clientSecret), (''cluster'', cluster), (''project'', project), (''floatingippool'', pool),
      (''servicenamespace'', ns), (''servicename'', name), (''ipaddr'', ipaddr)] @
     (if grp \<noteq> [] then [(''floatingipgroup'', grp)] else [])"

text \<open>What the client demands of an approved answer.\<close>

definition checkFIPResponse ::
  "string \<Rightarrow> string \<Rightarrow> string \<Rightarrow> string \<Rightarrow> string \<Rightarrow> string \<Rightarrow> string \<Rightarrow> FIPResponse \<Rightarrow> kerr + string \<times> string \<times> string" where
  "checkFIPResponse clientSecret cluster project pool ns name grp r =
     (if rs_ClientSecret r \<noteq> clientSecret then Inl (Errorf ''failed to request FIP: client secret mismatch'')
      else if rs_Status r \<noteq> ''approved'' then Inl (Errorf (''failed to request FIP: status '' @ rs_Status r))
      else if rs_Cluster r \<noteq> cluster then Inl (Errorf ''failed to request FIP: cluster mismatch'')
      else if rs_Project r \<noteq> project then Inl (Errorf ''failed to request FIP: project mismatch'')
      else if rs_FloatingIPPool r \<noteq> pool then Inl (Errorf ''failed to request FIP: floating IP pool mismatch'')
      else if rs_ServiceNamespace r \<noteq> ns then Inl (Errorf ''failed to request FIP: service namespace mismatch'')
      else if rs_ServiceName r \<noteq> name then Inl (Errorf ''failed to request FIP: service name mismatch'')
      else if rs_IPAddress r = [] then Inl (Errorf ''failed to request FIP: IP address is empty'')
      else if rs_FloatingIPGroup r \<noteq> grp then Inl (Errorf ''failed to request FIP: floatingip-group name mismatch'')
      else Inr (rs_IPAddress r, rs_Subnet r, rs_SharedKey r))"

definition RequestFIP ::
  "'w lbenv \<Rightarrow> Client \<Rightarrow> string \<Rightarrow> string \<Rightarrow> string \<Rightarrow> string \<Rightarrow> string \<Rightarrow> string \<Rightarrow> string \<Rightarrow> string \<Rightarrow>
   ('w, kerr + string \<times> string \<times> string) lbact" where
  "RequestFIP L c clientSecret cluster project pool ns name ipaddr grp = do {
     t \<leftarrow> getToken L c;
     case t of
       Inl e \<Rightarrow> State_Monad.return (Inl (Wrap ''failed to get token for FIP request'' e))
     | Inr token \<Rightarrow>
         (let url = cl_apiURL c @ ''/fip/request'' in
          case UrlErr L url of
            Some e \<Rightarrow> State_Monad.return (Inl (Wrap ''failed to create FIP request'' e))
          | None \<Rightarrow> do {
              r \<leftarrow> Http L ''POST'' url token (fip_body clientSecret cluster project pool ns name ipaddr grp);
              State_Monad.return (case r of
                 Inl e \<Rightarrow> Inl (Wrap ''failed to request FIP'' e)
               | Inr (code, Inl e) \<Rightarrow> Inl (Wrap ''failed to read FIP response body'' e)
               | Inr (code, Inr body) \<Rightarrow>
                   (case DecodeFIP L body of
                      Inl e \<Rightarrow> Inl (Wrap ''failed to unmarshal FIP response'' e)
                    | Inr resp \<Rightarrow>
                        if code \<noteq> 200 then
                          (if str_contains body ''quota exceeded'' then Inl (Errorf ''failed to request FIP: quota exceeded'')
                           else Inl (Errorf (''failed to request FIP: status code '' @ dec code @ '' ('' @ body @ '')'')))
                        else checkFIPResponse clientSecret cluster project pool ns name grp resp))
            })
   }"

definition ReleaseFIP ::
  "'w lbenv \<Rightarrow> Client \<Rightarrow> string \<Rightarrow> string \<Rightarrow> string \<Rightarrow> string \<Rightarrow> string \<Rightarrow> string \<Rightarrow> string \<Rightarrow> string \<Rightarrow>
   ('w, kerr option) lbact" where
  "ReleaseFIP L c clientSecret cluster project pool ns name ipaddr grp = do {
     t \<leftarrow> getToken L c;
     case t of
       Inl e \<Rightarrow> State_Monad.return (Some (Wrap ''failed to get token for FIP release'' e))
     | Inr token \<Rightarrow>
         (let url = cl_apiURL c @ ''/fip/release'' in
          case UrlErr L url of
            Some e \<Rightarrow> State_Monad.return (Some (Wrap ''failed to create FIP release request'' e))
          | None \<Rightarrow> do {
              r \<leftarrow> Http L ''POST'' url token (fip_body clientSecret cluster project pool ns name ipaddr grp);
              State_Monad.return (case r of
                 Inl e \<Rightarrow> Some (Wrap ''failed to release FIP'' e)
               | Inr (code, b) \<Rightarrow>
                   if code = 404 \<or> code = 410 then None
                   else if code \<noteq> 200 then Some (Errorf (''failed to release FIP: status code '' @ dec code))
                   else case b of
                       Inl e \<Rightarrow> Some (Wrap ''failed to read FIP release response body'' e)
                     | Inr body \<Rightarrow>
                         (case DecodeRelease L body of
                            Inl e \<Rightarrow> Some (Wrap ''failed to unmarshal FIP release response'' e)
                          | Inr status \<Rightarrow>
                              if status \<noteq> ''released'' then Some (Errorf (''failed to release FIP: status '' @ status)) else None))
            })
   }"

definition ListFIPs ::
  "'w lbenv \<Rightarrow> Client \<Rightarrow> string \<Rightarrow> string \<Rightarrow> string \<Rightarrow> string \<Rightarrow> ('w, kerr + FIPListEntry list) lbact" where
  "ListFIPs L c clientSecret cluster project pool = do {
     t \<leftarrow> getToken L c;
     case t of
       Inl e \<Rightarrow> State_Monad.return (Inl (Wrap ''failed to get token for FIP list request'' e))
     | Inr token \<Rightarrow>
         (let url = cl_apiURL c @ ''/fip/list'' in
          case UrlErr L url of
            Some e \<Rightarrow> State_Monad.return (Inl (Wrap ''failed to create FIP list request'' e))
          | None \<Rightarrow> do {
              r \<leftarrow> Http L ''POST'' url token
                     [(''clientSecret'', clientSecret), (''cluster'', cluster), (''project'', project), (''floatingippool'', pool)];
              State_Monad.return (case r of
                 Inl e \<Rightarrow> Inl (Wrap ''failed to get FloatingIP list'' e)
               | Inr (code, b) \<Rightarrow>
                   if code \<noteq> 200 then Inl (Errorf (''failed to get FloatingIP list: status code '' @ dec code))
                   else case b of
                       Inl e \<Rightarrow> Inl (Wrap ''failed to decode response'' e)
                     | Inr body \<Rightarrow>
                         (case DecodeList L body of
                            Inl e \<Rightarrow> Inl (Wrap ''failed to decode response'' e)
                          | Inr fips \<Rightarrow> Inr fips))
            })
   }"

definition DeleteFIP :: "'w lbenv \<Rightarrow> Client \<Rightarrow> string \<Rightarrow> string \<Rightarrow> string \<Rightarrow> ('w, kerr option) lbact" where
  "DeleteFIP L c clientSecret project ipaddr = do {
     t \<leftarrow> getToken L c;
     case t of
       Inl e \<Rightarrow> State_Monad.return (Some (Wrap ''failed to get token for FIP delete request'' e))
     | Inr token \<Rightarrow>
         (let url = cl_apiURL c @ ''/fip/delete'' in
          case UrlErr L url of
            Some e \<Rightarrow> State_Monad.return (Some (Wrap ''failed to create FIP delete request'' e))
          | None \<Rightarrow> do {
              r \<leftarrow> Http L ''DELETE'' url token [(''clientSecret'', clientSecret), (''project'', project), (''ipaddr'', ipaddr)];
              State_Monad.return (case r of
                 Inl e \<Rightarrow> Some (Wrap ''failed to delete ip address'' e)
               | Inr (code, b) \<Rightarrow>
                   if code \<noteq> 200 then Some (Errorf (''failed to delete ip address: status code '' @ dec code)) else None)
            })
   }"

end
