(* ===== verification/Lb_Controller.thy ===== *)
theory Lb_Controller
  imports Lb_Env
begin

text \<open>
  The reconciler of the load balancer controller, \<open>lbcontroller/internal/controller/controller.go\<close>, up to and
  including the cleanup of a Service: the annotations that record an allocation, the update helper, the
  checks whether an address is shared, and the deletion path. The allocation path is in \<open>Lb_Allocate\<close>.

  Log lines are left out. Where the source adds text after a wrapped error
  (\<open>"...: %w (listing ...: %v)"\<close>) the model keeps the text before it; such errors are only logged.
\<close>

section \<open>Names\<close>

definition lbFinalizer :: string where
  "lbFinalizer = ''rancher.k8s.binbash.org/floatingip-cleanup''"

definition floatingIPAnnotation :: string where
  "floatingIPAnnotation = ''rancher.k8s.binbash.org/floatingip''"

definition floatingIPRequestAnnotation :: string where
  "floatingIPRequestAnnotation = ''rancher.k8s.binbash.org/floatingip-request''"

definition projectAnnotation :: string where
  "projectAnnotation = ''rancher.k8s.binbash.org/floatingip-project''"

definition cleanupProgressAnnotation :: string where
  "cleanupProgressAnnotation = ''rancher.k8s.binbash.org/floatingip-cleanup''"

definition cleanupStageResourcesDeleted :: string where
  "cleanupStageResourcesDeleted = ''resources-deleted''"

definition cleanupStageReleased :: string where
  "cleanupStageReleased = ''released''"

definition deferredRequeueDelay :: nat where
  "deferredRequeueDelay = 5 * 60"

lemmas lb_names = lbFinalizer_def floatingIPAnnotation_def floatingIPRequestAnnotation_def projectAnnotation_def
  cleanupProgressAnnotation_def cleanupStageResourcesDeleted_def cleanupStageReleased_def

section \<open>Go's error returns\<close>

text \<open>\<open>x, err := m; if err != nil { return h(err) }\<close>, for a call with and without a result.\<close>

definition try_with :: "('s, 'e + 'a) state \<Rightarrow> ('e \<Rightarrow> 'r) \<Rightarrow> ('a \<Rightarrow> ('s, 'r) state) \<Rightarrow> ('s, 'r) state" where
  "try_with m h f = do {
     r \<leftarrow> m;
     case r of Inl e \<Rightarrow> State_Monad.return (h e) | Inr x \<Rightarrow> f x
   }"

definition check_with :: "('s, kerr option) state \<Rightarrow> (kerr \<Rightarrow> 'r) \<Rightarrow> ('s, 'r) state \<Rightarrow> ('s, 'r) state" where
  "check_with m h n = do {
     r \<leftarrow> m;
     case r of Some e \<Rightarrow> State_Monad.return (h e) | None \<Rightarrow> n
   }"

text \<open>\<open>err != nil && !errors.IsNotFound(err)\<close>.\<close>

definition but_not_found :: "('s, kerr option) state \<Rightarrow> ('s, kerr option) state" where
  "but_not_found m = do {
     r \<leftarrow> m;
     State_Monad.return (case r of Some e \<Rightarrow> if IsNotFound e then None else Some e | None \<Rightarrow> None)
   }"

section \<open>What a Service records\<close>

fun lbContainsString :: "string list \<Rightarrow> string \<Rightarrow> bool" where
  "lbContainsString [] s = False"
| "lbContainsString (item # items) s = (if item = s then True else lbContainsString items s)"

text \<open>Only the first occurrence goes.\<close>

fun lbRemoveString :: "string list \<Rightarrow> string \<Rightarrow> string list" where
  "lbRemoveString [] s = []"
| "lbRemoveString (item # items) s = (if item = s then items else item # lbRemoveString items s)"

definition has_ann :: "Service \<Rightarrow> string \<Rightarrow> bool" where
  "has_ann svc k = has_label (sv_annotations svc) k"

definition set_ann :: "string \<Rightarrow> string \<Rightarrow> Service \<Rightarrow> Service" where
  "set_ann k v svc = svc\<lparr>sv_annotations := Some (AList.update k v (mof (sv_annotations svc)))\<rparr>"

definition del_ann :: "string \<Rightarrow> Service \<Rightarrow> Service" where
  "del_ann k svc = svc\<lparr>sv_annotations := map_option (AList.delete k) (sv_annotations svc)\<rparr>"

definition cleanupStageReached :: "string \<Rightarrow> string \<Rightarrow> bool" where
  "cleanupStageReached progress stage =
     (if progress = cleanupStageReleased then True
      else stage = cleanupStageResourcesDeleted \<and> progress = cleanupStageResourcesDeleted)"

definition hasFloatingIPRecord :: "Service \<Rightarrow> bool" where
  "hasFloatingIPRecord svc \<longleftrightarrow>
     lbContainsString (sv_finalizers svc) lbFinalizer \<or>
     ann svc floatingIPAnnotation \<noteq> [] \<or>
     ann svc floatingIPRequestAnnotation \<noteq> [] \<or>
     ann svc cleanupProgressAnnotation \<noteq> []"

definition serviceNeedsFloatingIP :: "Service \<Rightarrow> bool" where
  "serviceNeedsFloatingIP svc \<longleftrightarrow> sv_type svc = ''LoadBalancer''"

definition same_service :: "Service \<Rightarrow> Service \<Rightarrow> bool" where
  "same_service a b \<longleftrightarrow> sv_ns a = sv_ns b \<and> sv_name a = sv_name b"

definition svc_id :: "Service \<Rightarrow> string" where
  "svc_id svc = sv_ns svc @ ''/'' @ sv_name svc"

section \<open>Names and ranges of an address\<close>

definition poolNameForAddress :: "'w lbenv \<Rightarrow> string \<Rightarrow> string" where
  "poolNameForAddress L ipAddress =
     (case ParseIP ipAddress of
        Some ip \<Rightarrow>
          if To4 ip = None then
            (let legacy = ''ip6-'' @ str_replace (CHR '':'') (CHR ''.'') ipAddress in
             if IsDNS1123Subdomain L legacy then legacy
             else let sanitized = str_trim (CHR ''-'') (str_replace (CHR '':'') (CHR ''-'') (ip_string ip))
                  in ''ip6-'' @ (if sanitized = [] then ''0'' else sanitized))
          else ''ip4-'' @ ipAddress
      | None \<Rightarrow> ''ip4-'' @ ipAddress)"

definition addressCIDR :: "string \<Rightarrow> string" where
  "addressCIDR ipAddress =
     (case ParseIP ipAddress of
        Some ip \<Rightarrow> if To4 ip = None then ipAddress @ ''/128'' else ipAddress @ ''/32''
      | None \<Rightarrow> ipAddress @ ''/32'')"

fun poolContainsAddress :: "string list \<Rightarrow> netIP \<Rightarrow> bool" where
  "poolContainsAddress [] ip = False"
| "poolContainsAddress (address # addresses) ip =
     (case ParseCIDR address of
        Some cidr \<Rightarrow> if ipnet_contains cidr ip then True else poolContainsAddress addresses ip
      | None \<Rightarrow>
          (case ParseIP address of
             Some single \<Rightarrow> if ip_equal single ip then True else poolContainsAddress addresses ip
           | None \<Rightarrow> poolContainsAddress addresses ip))"

text \<open>The Secret of a project is checked before any address is asked for.\<close>

fun missing_key :: "Secret \<Rightarrow> string list \<Rightarrow> string option" where
  "missing_key secret [] = None"
| "missing_key secret (k # ks) = (if sdata secret k = [] then Some k else missing_key secret ks)"

definition validateProjectConfig :: "Secret \<Rightarrow> string \<Rightarrow> kerr option" where
  "validateProjectConfig secret fipPoolName =
     (let lbType = sdata secret ''loadBalancerType'' in
      if lbType \<noteq> ''metallb'' \<and> lbType \<noteq> ''purelb''
      then Some (Errorf (''Secret '' @ sec_name secret @ '' has unsupported loadBalancerType''))
      else case missing_key secret [''apiUrl'', ''clientSecret'', ''cluster'', ''project''] of
          Some key \<Rightarrow> Some (Errorf (''Secret '' @ sec_name secret @ '' is missing required key '' @ key))
        | None \<Rightarrow>
            if fipPoolName = []
            then Some (Errorf (''Secret '' @ sec_name secret @ '' has no floatingIPPool and the Service requests no static-network''))
            else None)"

section \<open>Clients, projects and updates\<close>

definition ipamClientFor :: "string \<Rightarrow> Secret \<Rightarrow> ('w, kerr + Client) lbact" where
  "ipamClientFor projectID secret = State (\<lambda>s.
     let apiURL = sdata secret ''apiUrl''; clientID = ''client-'' @ sdata secret ''cluster'';
         build = (case NewClientWithCA apiURL clientID of
             Inl e \<Rightarrow> (Inl e, s)
           | Inr client \<Rightarrow>
               (Inr client, s\<lparr>lb_clients := AList.update projectID
                  \<lparr>ce_apiURL = apiURL, ce_clientID = clientID, ce_client = client\<rparr> (lb_clients s)\<rparr>))
     in case map_of (lb_clients s) projectID of
          Some entry \<Rightarrow> if ce_apiURL entry = apiURL \<and> ce_clientID entry = clientID then (Inr (ce_client entry), s) else build
        | None \<Rightarrow> build)"

definition secret_name :: "string \<Rightarrow> string" where
  "secret_name projectId = ''rancher-fip-config-'' @ projectId"

text \<open>The calls of the client with the values of the project's Secret.\<close>

definition request_with :: "'w lbenv \<Rightarrow> Client \<Rightarrow> Secret \<Rightarrow> string \<Rightarrow> Service \<Rightarrow> string \<Rightarrow> string \<Rightarrow>
    ('w, kerr + string \<times> string \<times> string) lbact" where
  "request_with L c secret fipPoolName svc ipaddr grp =
     RequestFIP L c (sdata secret ''clientSecret'') (sdata secret ''cluster'') (sdata secret ''project'') fipPoolName
       (sv_ns svc) (sv_name svc) ipaddr grp"

definition release_with :: "'w lbenv \<Rightarrow> Client \<Rightarrow> Secret \<Rightarrow> string \<Rightarrow> Service \<Rightarrow> string \<Rightarrow> string \<Rightarrow> ('w, kerr option) lbact" where
  "release_with L c secret fipPoolName svc ipaddr grp =
     ReleaseFIP L c (sdata secret ''clientSecret'') (sdata secret ''cluster'') (sdata secret ''project'') fipPoolName
       (sv_ns svc) (sv_name svc) ipaddr grp"

definition list_with :: "'w lbenv \<Rightarrow> Client \<Rightarrow> Secret \<Rightarrow> string \<Rightarrow> ('w, kerr + FIPListEntry list) lbact" where
  "list_with L c secret fipPoolName =
     ListFIPs L c (sdata secret ''clientSecret'') (sdata secret ''cluster'') (sdata secret ''project'') fipPoolName"

definition getProjectIDFromAppNamespace :: "'w lbenv \<Rightarrow> string \<Rightarrow> ('w, kerr + string) lbact" where
  "getProjectIDFromAppNamespace L app = do {
     r \<leftarrow> GetNamespace L app;
     State_Monad.return (case r of
        Inl e \<Rightarrow> if IsNotFound e then Inr [] else Inl (Wrap (''failed to get namespace '' @ app) e)
      | Inr ls \<Rightarrow> Inr (label ls ''rancher.k8s.binbash.org/project-name''))
   }"

definition deletionProjectID :: "'w lbenv \<Rightarrow> string \<Rightarrow> Service \<Rightarrow> ('w, kerr + string) lbact" where
  "deletionProjectID L app svc =
     (if ann svc projectAnnotation \<noteq> [] then State_Monad.return (Inr (ann svc projectAnnotation))
      else if ann svc floatingIPRequestAnnotation \<noteq> [] then State_Monad.return (Inr (ann svc floatingIPRequestAnnotation))
      else try_with (getProjectIDFromAppNamespace L app) Inl (\<lambda>projectId.
        if projectId \<noteq> [] then State_Monad.return (Inr projectId)
        else do {
          r \<leftarrow> GetNamespace L (sv_ns svc);
          State_Monad.return (case r of
             Inl e \<Rightarrow> if IsNotFound e then Inr [] else Inl (Wrap (''failed to get namespace '' @ sv_ns svc) e)
           | Inr ls \<Rightarrow> Inr (label ls ''field.cattle.io/projectId''))
        }))"

text \<open>
  One attempt of \<open>updateService\<close>: read, let \<open>mutate\<close> decide, write. The callers do not use the object that
  the source returns beside the error.
\<close>

definition svc_attempt :: "'w lbenv \<Rightarrow> string \<Rightarrow> string \<Rightarrow> (Service \<Rightarrow> bool \<times> Service) \<Rightarrow> ('w, kerr option) lbact" where
  "svc_attempt L ns name mutate =
     try_with (GetSvc L ns name) Some (\<lambda>currentSvc.
       case mutate currentSvc of
         (changed, svcToUpdate) \<Rightarrow>
           if \<not> changed then State_Monad.return None
           else try_with (UpdateSvc L svcToUpdate) Some (\<lambda>_. State_Monad.return None))"

definition updateService :: "'w lbenv \<Rightarrow> string \<Rightarrow> string \<Rightarrow> (Service \<Rightarrow> bool \<times> Service) \<Rightarrow> ('w, kerr option) lbact" where
  "updateService L ns name mutate = SvcRetry L (svc_attempt L ns name mutate)"

definition put_ann :: "string \<Rightarrow> string \<Rightarrow> Service \<Rightarrow> bool \<times> Service" where
  "put_ann k v svc = (if ann svc k = v then (False, svc) else (True, set_ann k v svc))"

definition markAllocationPending :: "'w lbenv \<Rightarrow> Service \<Rightarrow> string \<Rightarrow> ('w, kerr option) lbact" where
  "markAllocationPending L svc projectId =
     updateService L (sv_ns svc) (sv_name svc) (put_ann floatingIPRequestAnnotation projectId)"

definition recordCleanupProgress :: "'w lbenv \<Rightarrow> Service \<Rightarrow> string \<Rightarrow> ('w, kerr option) lbact" where
  "recordCleanupProgress L svc stage = do {
     r \<leftarrow> but_not_found (updateService L (sv_ns svc) (sv_name svc) (put_ann cleanupProgressAnnotation stage));
     State_Monad.return (map_option (Wrap (''failed to record cleanup progress '' @ stage @ '' on service '' @ svc_id svc)) r)
   }"

definition drop_ann :: "string \<Rightarrow> Service \<Rightarrow> bool \<times> Service" where
  "drop_ann k svc = (if has_ann svc k then (True, del_ann k svc) else (False, svc))"

definition clearAllocationPending :: "'w lbenv \<Rightarrow> Service \<Rightarrow> ('w, unit) lbact" where
  "clearAllocationPending L svc = do {
     _ \<leftarrow> updateService L (sv_ns svc) (sv_name svc) (drop_ann floatingIPRequestAnnotation);
     State_Monad.return ()
   }"

definition drop_finalizer :: "Service \<Rightarrow> bool \<times> Service" where
  "drop_finalizer svc =
     (if \<not> lbContainsString (sv_finalizers svc) lbFinalizer then (False, svc)
      else (True, svc\<lparr>sv_finalizers := lbRemoveString (sv_finalizers svc) lbFinalizer\<rparr>))"

definition lbRemoveFinalizer :: "'w lbenv \<Rightarrow> Service \<Rightarrow> ('w, kerr option) lbact" where
  "lbRemoveFinalizer L svc = do {
     r \<leftarrow> but_not_found (updateService L (sv_ns svc) (sv_name svc) drop_finalizer);
     State_Monad.return (map_option (Wrap (''failed to remove finalizer from service '' @ svc_id svc)) r)
   }"

definition abandonDeletion :: "'w lbenv \<Rightarrow> Service \<Rightarrow> string \<Rightarrow> ('w, kerr option) lbact" where
  "abandonDeletion L svc ipAddress = do {
     _ \<leftarrow> (if ipAddress \<noteq> [] then Eventf L svc ''OrphanedFloatingIP'' else State_Monad.return ());
     lbRemoveFinalizer L svc
   }"

definition requeueAfter :: "'w lbenv \<Rightarrow> Service \<Rightarrow> nat \<Rightarrow> ('w, unit) lbact" where
  "requeueAfter L svc delay = (case SvcKeyFunc L svc of None \<Rightarrow> State_Monad.return () | Some key \<Rightarrow> AddAfter L key delay)"

section \<open>Is the address shared?\<close>

fun lookupServiceFloatingIP :: "FIPListEntry list \<Rightarrow> string \<Rightarrow> string \<Rightarrow> string \<Rightarrow> string option" where
  "lookupServiceFloatingIP [] cluster ns name = None"
| "lookupServiceFloatingIP (fip # fips) cluster ns name =
     (if le_Cluster fip = cluster \<and> le_ServiceNamespace fip = ns \<and> le_ServiceName fip = name
      then Some (le_IPAddress fip) else lookupServiceFloatingIP fips cluster ns name)"

definition ownsFloatingIP :: "FIPListEntry list \<Rightarrow> string \<Rightarrow> string \<Rightarrow> string \<Rightarrow> string \<Rightarrow> bool" where
  "ownsFloatingIP fips cluster ns name ipAddress \<longleftrightarrow> lookupServiceFloatingIP fips cluster ns name = Some ipAddress"

text \<open>The index holds objects of the cache; an entry that is not a Service is \<open>None\<close>.\<close>

fun indexed_in_use :: "'w lbenv \<Rightarrow> Service \<Rightarrow> string \<Rightarrow> Service option list \<Rightarrow> ('w, kerr + bool) lbact" where
  "indexed_in_use L svc ipAddress [] = State_Monad.return (Inr False)"
| "indexed_in_use L svc ipAddress (None # objs) = indexed_in_use L svc ipAddress objs"
| "indexed_in_use L svc ipAddress (Some other # objs) =
     (if same_service other svc then indexed_in_use L svc ipAddress objs
      else do {
        r \<leftarrow> GetSvc L (sv_ns other) (sv_name other);
        case r of
          Inl e \<Rightarrow>
            if IsNotFound e then indexed_in_use L svc ipAddress objs
            else State_Monad.return (Inl (Wrap (''failed to get service '' @ svc_id other @ '' while checking address '' @ ipAddress) e))
        | Inr live \<Rightarrow>
            if ann live floatingIPAnnotation = ipAddress \<and> serviceNeedsFloatingIP live then State_Monad.return (Inr True)
            else indexed_in_use L svc ipAddress objs
      })"

definition addressInUse :: "'w lbenv \<Rightarrow> Service \<Rightarrow> string \<Rightarrow> ('w, kerr + bool) lbact" where
  "addressInUse L svc ipAddress =
     (if ipAddress = [] then State_Monad.return (Inr False)
      else try_with (SvcByIndex L ipAddress) (\<lambda>e. Inl (Wrap (''failed to look up services using address '' @ ipAddress) e))
             (indexed_in_use L svc ipAddress))"

fun selectors_of :: "'w lbenv \<Rightarrow> LabelSelector list \<Rightarrow> kerr + (labels \<Rightarrow> bool) list" where
  "selectors_of L [] = Inr []"
| "selectors_of L (s # ss) =
     (case SelectorAsSelector L s of
        Inl e \<Rightarrow> Inl e
      | Inr p \<Rightarrow> (case selectors_of L ss of Inl e \<Rightarrow> Inl e | Inr ps \<Rightarrow> Inr (p # ps)))"

definition admits :: "Service \<Rightarrow> (labels \<Rightarrow> bool) list \<Rightarrow> Service \<Rightarrow> bool" where
  "admits svc selectors other \<longleftrightarrow>
     \<not> same_service other svc \<and> serviceNeedsFloatingIP other \<and> \<not> sv_deleted other \<and>
     (selectors = [] \<or> list_ex (\<lambda>p. p (sv_labels other)) selectors)"

fun namespaces_in_use :: "'w lbenv \<Rightarrow> Service \<Rightarrow> LabelSelector option \<Rightarrow> (labels \<Rightarrow> bool) list \<Rightarrow> string list \<Rightarrow>
    ('w, kerr + bool) lbact" where
  "namespaces_in_use L svc opt selectors [] = State_Monad.return (Inr False)"
| "namespaces_in_use L svc opt selectors (namespace # namespaces) =
     try_with (ListSvcs L namespace opt) (\<lambda>e. Inl (Wrap (''failed to list services in namespace '' @ namespace) e))
       (\<lambda>items. if list_ex (admits svc selectors) items then State_Monad.return (Inr True)
                else namespaces_in_use L svc opt selectors namespaces)"

definition metalLBAddressInUse :: "'w lbenv \<Rightarrow> string \<Rightarrow> Service \<Rightarrow> string \<Rightarrow> ('w, kerr + bool) lbact" where
  "metalLBAddressInUse L app svc poolName = do {
     r \<leftarrow> GetIPAddressPool L poolName app;
     case r of
       Inl e \<Rightarrow>
         State_Monad.return (if IsNotFound e then Inr False
           else Inl (Wrap (''failed to get IPAddressPool '' @ app @ ''/'' @ poolName) e))
     | Inr pool \<Rightarrow>
         (case ap_allocateTo pool of
            None \<Rightarrow> State_Monad.return (Inr True)
          | Some a \<Rightarrow>
              if al_namespaceSelectors a \<noteq> [] then State_Monad.return (Inr True)
              else case selectors_of L (al_serviceSelectors a) of
                  Inl e \<Rightarrow> State_Monad.return (Inl (Wrap (''invalid ServiceSelector on IPAddressPool '' @ app @ ''/'' @ poolName) e))
                | Inr selectors \<Rightarrow>
                    namespaces_in_use L svc
                      (case al_serviceSelectors a of [s] \<Rightarrow> Some s | _ \<Rightarrow> None) selectors (al_namespaces a))
   }"

fun listed_in_use :: "'w lbenv \<Rightarrow> Service \<Rightarrow> string \<Rightarrow> string \<Rightarrow> FIPListEntry list \<Rightarrow> ('w, kerr + bool) lbact" where
  "listed_in_use L svc cluster ipAddress [] = State_Monad.return (Inr False)"
| "listed_in_use L svc cluster ipAddress (fip # fips) =
     (if le_Cluster fip \<noteq> cluster \<or> le_IPAddress fip \<noteq> ipAddress then listed_in_use L svc cluster ipAddress fips
      else if le_ServiceNamespace fip = sv_ns svc \<and> le_ServiceName fip = sv_name svc then
        listed_in_use L svc cluster ipAddress fips
      else do {
        r \<leftarrow> GetSvc L (le_ServiceNamespace fip) (le_ServiceName fip);
        case r of
          Inl e \<Rightarrow>
            if IsNotFound e then listed_in_use L svc cluster ipAddress fips
            else State_Monad.return (Inl (Wrap (''failed to get service '' @ le_ServiceNamespace fip @ ''/'' @ le_ServiceName fip
                   @ '' listed for address '' @ ipAddress) e))
        | Inr other \<Rightarrow>
            if sv_deleted other \<or> \<not> serviceNeedsFloatingIP other then listed_in_use L svc cluster ipAddress fips
            else State_Monad.return (Inr True)
      })"

definition ipamAddressInUse :: "'w lbenv \<Rightarrow> Service \<Rightarrow> string \<Rightarrow> Secret \<Rightarrow> string \<Rightarrow> string \<Rightarrow> ('w, kerr + bool) lbact" where
  "ipamAddressInUse L svc projectId secret ipAddress fipPoolName =
     try_with (ipamClientFor projectId secret) (\<lambda>e. Inl (Wrap ''failed to create IPAM client'' e)) (\<lambda>c.
     try_with (list_with L c secret fipPoolName) (\<lambda>e. Inl (Wrap (''failed to list floating IPs for '' @ svc_id svc) e))
       (listed_in_use L svc (sdata secret ''cluster'') ipAddress))"

definition sharedPoolInUse ::
  "'w lbenv \<Rightarrow> string \<Rightarrow> Service \<Rightarrow> string \<Rightarrow> Secret \<Rightarrow> string \<Rightarrow> string \<Rightarrow> string \<Rightarrow> ('w, kerr + bool) lbact" where
  "sharedPoolInUse L app svc projectId secret ipAddress poolName fipPoolName =
     (if sdata secret ''loadBalancerType'' = ''metallb'' then
        try_with (metalLBAddressInUse L app svc poolName) Inl (\<lambda>inUse.
          if inUse then State_Monad.return (Inr True)
          else ipamAddressInUse L svc projectId secret ipAddress fipPoolName)
      else ipamAddressInUse L svc projectId secret ipAddress fipPoolName)"

text \<open>The decision that the deletion and the cleanup of a vanished Service share.\<close>

definition sharedAddress ::
  "'w lbenv \<Rightarrow> string \<Rightarrow> Service \<Rightarrow> string \<Rightarrow> Secret \<Rightarrow> string \<Rightarrow> string \<Rightarrow> string \<Rightarrow> ('w, kerr + bool) lbact" where
  "sharedAddress L app svc projectId secret ipAddress poolName fipPoolName =
     try_with (addressInUse L svc ipAddress) Inl (\<lambda>shared.
       if shared then State_Monad.return (Inr True)
       else sharedPoolInUse L app svc projectId secret ipAddress poolName fipPoolName)"

text \<open>The lock of an address, held until the end of the block.\<close>

definition lockAddress :: "'w lbenv \<Rightarrow> string \<Rightarrow> ('w, 'a) lbact \<Rightarrow> ('w, 'a) lbact" where
  "lockAddress L ipAddress m =
     (if ipAddress = [] then m
      else do {
        _ \<leftarrow> LockAddr L ipAddress;
        r \<leftarrow> m;
        _ \<leftarrow> UnlockAddr L ipAddress;
        State_Monad.return r
      })"

section \<open>Releasing\<close>

text \<open>Withdrawing the announcement and the pool; \<open>what\<close> is the end of the error text.\<close>

definition withdraw :: "'w lbenv \<Rightarrow> string \<Rightarrow> Secret \<Rightarrow> string \<Rightarrow> string \<Rightarrow> ('w, kerr option) lbact" where
  "withdraw L app secret poolName what =
     (if sdata secret ''loadBalancerType'' = ''metallb'' then
        check_with (but_not_found (DeleteL2Advertisement L poolName app))
          (\<lambda>e. Some (Wrap (''failed to delete L2Advertisement '' @ poolName @ what) e))
          (check_with (but_not_found (DeleteIPAddressPool L poolName app))
             (\<lambda>e. Some (Wrap (''failed to delete IPAddressPool '' @ poolName @ what) e)) (State_Monad.return None))
      else if sdata secret ''loadBalancerType'' = ''purelb'' then
        check_with (but_not_found (DeleteServiceGroup L poolName app))
          (\<lambda>e. Some (Wrap (''failed to delete ServiceGroup '' @ poolName @ what) e)) (State_Monad.return None)
      else State_Monad.return None)"

definition releaseVanishedAllocation ::
  "'w lbenv \<Rightarrow> string \<Rightarrow> Service \<Rightarrow> string \<Rightarrow> Secret \<Rightarrow> string \<Rightarrow> string \<Rightarrow> string \<Rightarrow> ('w, kerr option) lbact" where
  "releaseVanishedAllocation L app svc projectId secret ipAddress poolName fipPoolName =
     lockAddress L ipAddress
       (try_with (sharedAddress L app svc projectId secret ipAddress poolName fipPoolName) Some (\<lambda>shared.
        check_with (if shared then State_Monad.return None
                    else withdraw L app secret poolName ('' of vanished service '' @ svc_id svc)) Some
       (try_with (ipamClientFor projectId secret)
          (\<lambda>e. Some (Wrap (''failed to create IPAM client while cleaning up vanished service '' @ svc_id svc) e)) (\<lambda>c.
        check_with (release_with L c secret fipPoolName svc ipAddress [])
          (\<lambda>e. Some (Wrap (''failed to release FloatingIP '' @ ipAddress @ '' of vanished service '' @ svc_id svc) e))
          (State_Monad.return None)))))"

text \<open>The pool of a Service: its own request or the default of the project.\<close>

definition fip_pool_name :: "Service \<Rightarrow> Secret \<Rightarrow> string" where
  "fip_pool_name svc secret =
     (let p = ann svc ''rancher.k8s.binbash.org/static-network'' in if p = [] then sdata secret ''floatingIPPool'' else p)"

text \<open>The address to clean up: the recorded one, or the one the IPAM lists for a pending request.\<close>

definition recoverPending :: "'w lbenv \<Rightarrow> Service \<Rightarrow> string \<Rightarrow> Secret \<Rightarrow> string \<Rightarrow> ('w, kerr + string) lbact" where
  "recoverPending L svc projectId secret fipPoolName =
     (let ipAddress = ann svc floatingIPAnnotation in
      if ipAddress = [] \<and> ann svc floatingIPRequestAnnotation \<noteq> [] then
        try_with (ipamClientFor projectId secret) (\<lambda>e. Inl (Wrap ''failed to create IPAM client'' e)) (\<lambda>c.
        try_with (list_with L c secret fipPoolName)
          (\<lambda>e. Inl (Wrap (''failed to list floating IPs for '' @ svc_id svc) e)) (\<lambda>fips.
          State_Monad.return (Inr (case lookupServiceFloatingIP fips (sdata secret ''cluster'') (sv_ns svc) (sv_name svc) of
             Some recoveredIP \<Rightarrow> recoveredIP | None \<Rightarrow> ipAddress))))
      else State_Monad.return (Inr ipAddress))"

text \<open>Withdraw, then release, each step recorded.\<close>

definition withdraw_stage ::
  "'w lbenv \<Rightarrow> string \<Rightarrow> Service \<Rightarrow> Secret \<Rightarrow> string \<Rightarrow> bool \<Rightarrow> ('w, kerr option) lbact" where
  "withdraw_stage L app svc secret poolName shared =
     (let progress = ann svc cleanupProgressAnnotation in
      if \<not> cleanupStageReached progress cleanupStageReleased \<and> \<not> shared \<and>
         \<not> cleanupStageReached progress cleanupStageResourcesDeleted
      then check_with (withdraw L app secret poolName []) Some (recordCleanupProgress L svc cleanupStageResourcesDeleted)
      else State_Monad.return None)"

definition release_stage ::
  "'w lbenv \<Rightarrow> Service \<Rightarrow> string \<Rightarrow> Secret \<Rightarrow> string \<Rightarrow> string \<Rightarrow> ('w, kerr option) lbact" where
  "release_stage L svc projectId secret ipAddress fipPoolName =
     (if cleanupStageReached (ann svc cleanupProgressAnnotation) cleanupStageReleased then State_Monad.return None
      else try_with (ipamClientFor projectId secret) (\<lambda>e. Some (Wrap ''failed to create IPAM client'' e)) (\<lambda>c.
        check_with (release_with L c secret fipPoolName svc ipAddress [])
          (\<lambda>e. Some (Wrap ''failed to release FIP'' e))
          (recordCleanupProgress L svc cleanupStageReleased)))"

definition drop_records :: "Service \<Rightarrow> bool \<times> Service" where
  "drop_records svc =
     (case drop_ann floatingIPAnnotation svc of (c1, s1) \<Rightarrow>
      case drop_ann floatingIPRequestAnnotation s1 of (c2, s2) \<Rightarrow>
      case drop_ann cleanupProgressAnnotation s2 of (c3, s3) \<Rightarrow> (c1 \<or> c2 \<or> c3, s3))"

definition forget_stage :: "'w lbenv \<Rightarrow> Service \<Rightarrow> string \<Rightarrow> ('w, kerr option) lbact" where
  "forget_stage L svc ipAddress =
     (if ipAddress \<noteq> [] \<or> ann svc floatingIPRequestAnnotation \<noteq> [] \<or> ann svc cleanupProgressAnnotation \<noteq> [] then do {
        r \<leftarrow> but_not_found (updateService L (sv_ns svc) (sv_name svc) drop_records);
        State_Monad.return (map_option (Wrap (''failed to remove floatingip annotations from service '' @ svc_id svc)) r)
      }
      else State_Monad.return None)"

definition cleanupLocked ::
  "'w lbenv \<Rightarrow> string \<Rightarrow> Service \<Rightarrow> string \<Rightarrow> Secret \<Rightarrow> string \<Rightarrow> string \<Rightarrow> ('w, kerr option) lbact" where
  "cleanupLocked L app svc projectId secret ipAddress fipPoolName =
     (let poolName = poolNameForAddress L ipAddress in
      check_with
        (if ipAddress \<noteq> [] then
           try_with (sharedAddress L app svc projectId secret ipAddress poolName fipPoolName) Some (\<lambda>shared.
           check_with (withdraw_stage L app svc secret poolName shared) Some
             (release_stage L svc projectId secret ipAddress fipPoolName))
         else State_Monad.return None) Some
     (check_with (forget_stage L svc ipAddress) Some
        (lbRemoveFinalizer L svc)))"

text \<open>The cleanup once the project is known: without its Secret the deletion is abandoned.\<close>

definition cleanupInProject :: "'w lbenv \<Rightarrow> string \<Rightarrow> Service \<Rightarrow> string \<Rightarrow> ('w, kerr option) lbact" where
  "cleanupInProject L app svc projectId =
     (let secretName = secret_name projectId in do {
        r \<leftarrow> GetSecretObj L app secretName;
        case r of
          Inl e \<Rightarrow>
            if IsNotFound e then abandonDeletion L svc (ann svc floatingIPAnnotation)
            else State_Monad.return (Some (Wrap (''failed to get secret '' @ secretName) e))
        | Inr secret \<Rightarrow>
            let fipPoolName = fip_pool_name svc secret in
            try_with (recoverPending L svc projectId secret fipPoolName) Some (\<lambda>ipAddress.
              if ipAddress \<noteq> [] \<and> ParseIP ipAddress = None
              then State_Monad.return (Some (Errorf (''failed to parse allocated IP address: '' @ ipAddress)))
              else lockAddress L ipAddress (cleanupLocked L app svc projectId secret ipAddress fipPoolName))
      })"

definition reconcileDeletion :: "'w lbenv \<Rightarrow> string \<Rightarrow> Service \<Rightarrow> ('w, kerr option) lbact" where
  "reconcileDeletion L app svc =
     (if \<not> hasFloatingIPRecord svc then State_Monad.return None
      else try_with (deletionProjectID L app svc) Some (\<lambda>projectId.
        if projectId = [] then abandonDeletion L svc (ann svc floatingIPAnnotation)
        else cleanupInProject L app svc projectId))"

end
