(* ===== verification/Trace_Logic.thy ===== *)
theory Trace_Logic
  imports Lb_Controller
begin

text \<open>
  A Hoare logic over the histories of a stateful program: \<open>lg\<close> reads a log of events off the state, and a triple speaks of
  everything that was logged since some starting point. \<open>safe G\<close>: every event was allowed by \<open>G\<close> when it happened;
  \<open>emits lg B\<close>: a program causes events of kind \<open>B\<close> only; \<open>stable lg K\<close>: it keeps the property \<open>K\<close> of the history.
  The load balancer controller, its page and the cluster manager use it with their own events.
\<close>

text \<open>A call that adds \<open>f r\<close> to the log when it returns \<open>r\<close>.\<close>

definition logs :: "('s \<Rightarrow> 'e list) \<Rightarrow> ('s, 'a) state \<Rightarrow> ('a \<Rightarrow> 'e list) \<Rightarrow> bool" where
  "logs lg m f \<longleftrightarrow> (\<forall>s r s'. run_state m s = (r, s') \<longrightarrow> lg s' = lg s @ f r)"

section \<open>Hoare triples over histories\<close>

text \<open>\<open>P\<close> and \<open>Q\<close> speak of everything logged since some starting point.\<close>

definition hoare :: "('s \<Rightarrow> 'e list) \<Rightarrow> ('e list \<Rightarrow> bool) \<Rightarrow> ('s, 'a) state \<Rightarrow> ('a \<Rightarrow> 'e list \<Rightarrow> bool) \<Rightarrow> bool" where
  "hoare lg P m Q \<longleftrightarrow>
     (\<forall>s r s' h. run_state m s = (r, s') \<longrightarrow> P h \<longrightarrow>
        (\<exists>tr. lg s' = lg s @ tr \<and> Q r (h @ tr)))"

named_theorems hoare_intro \<open>the rules of the logic that follow the program text\<close>

lemma hoareD:
  "hoare lg P m Q \<Longrightarrow> run_state m s = (r, s') \<Longrightarrow> P h \<Longrightarrow> \<exists>tr. lg s' = lg s @ tr \<and> Q r (h @ tr)"
  by (auto simp: hoare_def)

lemma hoare_return [hoare_intro]: "(\<And>h. P h \<Longrightarrow> Q x h) \<Longrightarrow> hoare lg P (State_Monad.return x) Q"
  by (auto simp: hoare_def)

lemma hoare_bind:
  assumes "hoare lg P m R" "\<And>x. hoare lg (R x) (f x) Q"
  shows "hoare lg P (State_Monad.bind m f) Q"
  unfolding hoare_def
proof (intro allI impI)
  fix s r s' h
  assume "run_state (State_Monad.bind m f) s = (r, s')" and P: "P h"
  then obtain x s1 where m: "run_state m s = (x, s1)" and f: "run_state (f x) s1 = (r, s')"
    by (auto split: prod.splits)
  from hoareD [OF assms(1) m P] obtain tr1
    where 1: "lg s1 = lg s @ tr1" and R: "R x (h @ tr1)" by blast
  from hoareD [OF assms(2) f R] obtain tr2
    where 2: "lg s' = lg s1 @ tr2" and Q: "Q r ((h @ tr1) @ tr2)" by blast
  from 1 2 Q show "\<exists>tr. lg s' = lg s @ tr \<and> Q r (h @ tr)"
    by (intro exI [of _ "tr1 @ tr2"]) simp
qed

lemma hoare_weaken:
  "hoare lg P' m Q' \<Longrightarrow> (\<And>h. P h \<Longrightarrow> P' h) \<Longrightarrow> (\<And>r h. Q' r h \<Longrightarrow> Q r h) \<Longrightarrow> hoare lg P m Q"
  by (fastforce simp: hoare_def)

lemma hoare_post: "hoare lg P m Q' \<Longrightarrow> (\<And>r h. Q' r h \<Longrightarrow> Q r h) \<Longrightarrow> hoare lg P m Q"
  by (rule hoare_weaken)

lemma hoare_pre: "hoare lg P' m Q \<Longrightarrow> (\<And>h. P h \<Longrightarrow> P' h) \<Longrightarrow> hoare lg P m Q"
  by (rule hoare_weaken)

lemma hoare_conj: "hoare lg P m Q \<Longrightarrow> hoare lg P' m Q' \<Longrightarrow> hoare lg (\<lambda>h. P h \<and> P' h) m (\<lambda>r h. Q r h \<and> Q' r h)"
  unfolding hoare_def by (metis same_append_eq)

lemma hoare_both: "hoare lg P m Q \<Longrightarrow> hoare lg P m Q' \<Longrightarrow> hoare lg P m (\<lambda>r h. Q r h \<and> Q' r h)"
  unfolding hoare_def by (metis same_append_eq)

lemma hoare_assume: "(C \<Longrightarrow> hoare lg P m Q) \<Longrightarrow> hoare lg (\<lambda>h. P h \<and> C) m Q"
  by (auto simp: hoare_def)

lemma hoare_if [hoare_intro]: "(b \<Longrightarrow> hoare lg P m Q) \<Longrightarrow> (\<not> b \<Longrightarrow> hoare lg P m' Q) \<Longrightarrow> hoare lg P (if b then m else m') Q"
  by simp

lemma hoare_option [hoare_intro]:
  "(v = None \<Longrightarrow> hoare lg P m Q) \<Longrightarrow> (\<And>x. v = Some x \<Longrightarrow> hoare lg P (f x) Q) \<Longrightarrow>
   hoare lg P (case v of None \<Rightarrow> m | Some x \<Rightarrow> f x) Q"
  by (cases v) auto

lemma hoare_sum [hoare_intro]:
  "(\<And>x. v = Inl x \<Longrightarrow> hoare lg P (f x) Q) \<Longrightarrow> (\<And>x. v = Inr x \<Longrightarrow> hoare lg P (g x) Q) \<Longrightarrow>
   hoare lg P (case v of Inl x \<Rightarrow> f x | Inr x \<Rightarrow> g x) Q"
  by (cases v) auto

lemma hoare_prod [hoare_intro]:
  "(\<And>x y. v = (x, y) \<Longrightarrow> hoare lg P (f x y) Q) \<Longrightarrow> hoare lg P (case v of (x, y) \<Rightarrow> f x y) Q"
  by (cases v) auto

lemma hoare_let [hoare_intro]: "hoare lg P (f v) Q \<Longrightarrow> hoare lg P (Let v f) Q"
  by simp

lemma hoare_try:
  assumes "hoare lg P m R" "\<And>e h. R (Inl e) h \<Longrightarrow> Q (g e) h" "\<And>x. hoare lg (R (Inr x)) (f x) Q"
  shows "hoare lg P (try_with m g f) Q"
  unfolding try_with_def
proof (rule hoare_bind [OF assms(1)])
  fix r
  show "hoare lg (R r) (case r of Inl e \<Rightarrow> State_Monad.return (g e) | Inr x \<Rightarrow> f x) Q"
    using assms(2,3) by (cases r) (auto intro!: hoare_return)
qed

lemma hoare_check:
  assumes "hoare lg P m R" "\<And>e h. R (Some e) h \<Longrightarrow> Q (g e) h" "hoare lg (R None) n Q"
  shows "hoare lg P (check_with m g n) Q"
  unfolding check_with_def
proof (rule hoare_bind [OF assms(1)])
  fix r
  show "hoare lg (R r) (case r of Some e \<Rightarrow> State_Monad.return (g e) | None \<Rightarrow> n) Q"
    using assms(2,3) by (cases r) (auto intro!: hoare_return)
qed

lemma hoare_logs: "logs lg m f \<Longrightarrow> (\<And>h r. P h \<Longrightarrow> Q r (h @ f r)) \<Longrightarrow> hoare lg P m Q"
  unfolding hoare_def logs_def by blast

lemma hoare_logs_result:
  assumes "logs lg m f" "\<And>s r s'. run_state m s = (r, s') \<Longrightarrow> C r" "\<And>h r. P h \<Longrightarrow> C r \<Longrightarrow> Q r (h @ f r)"
  shows "hoare lg P m Q"
  using assms unfolding hoare_def logs_def by meson

lemma hoare_silent: "(\<And>s r s'. run_state m s = (r, s') \<Longrightarrow> lg s' = lg s) \<Longrightarrow> hoare lg P m (\<lambda>_. P)"
  unfolding hoare_def by (metis append_Nil2)

text \<open>The retry helper: the last run counts, the earlier ones only have to keep the precondition.\<close>

lemma hoare_attempts:
  assumes "attempts f s r s'" "P h" "hoare lg P f Q" "\<forall>e h. IsConflict e \<longrightarrow> Q (Some e) h \<longrightarrow> P h"
  shows "\<exists>tr. lg s' = lg s @ tr \<and> Q r (h @ tr)"
  using assms
proof (induction arbitrary: h rule: attempts.induct)
  case (once f s r s')
  from hoareD [OF once(3,1,2)] show ?case .
next
  case (again f s e s1 r s')
  from hoareD [OF again.prems(2) again.hyps(1) again.prems(1)] obtain tr1
    where 1: "lg s1 = lg s @ tr1" and Q: "Q (Some e) (h @ tr1)" by blast
  from again.prems(3) again.hyps(2) Q have "P (h @ tr1)" by blast
  from again.IH [OF this again.prems(2,3)] obtain tr2
    where "lg s' = lg s1 @ tr2" "Q r ((h @ tr1) @ tr2)" by blast
  with 1 show ?case by (intro exI [of _ "tr1 @ tr2"]) simp
qed

section \<open>Safe histories\<close>

text \<open>Every event was allowed by \<open>G\<close> when it happened.\<close>

definition safe :: "('e list \<Rightarrow> 'e \<Rightarrow> bool) \<Rightarrow> 'e list \<Rightarrow> bool" where
  "safe G h \<longleftrightarrow> (\<forall>pre ev post. h = pre @ ev # post \<longrightarrow> G pre ev)"

lemma safe_Nil [simp]: "safe G []"
  by (simp add: safe_def)

lemma safe_snoc: "safe G (h @ [e]) \<longleftrightarrow> safe G h \<and> G h e"
proof
  assume a: "safe G (h @ [e])"
  have "safe G h" unfolding safe_def
  proof (intro allI impI)
    fix pre ev post assume "h = pre @ ev # post"
    then have "h @ [e] = pre @ ev # (post @ [e])" by simp
    with a show "G pre ev" unfolding safe_def by blast
  qed
  moreover have "G h e" using a unfolding safe_def by blast
  ultimately show "safe G h \<and> G h e" ..
next
  assume a: "safe G h \<and> G h e"
  show "safe G (h @ [e])" unfolding safe_def
  proof (intro allI impI)
    fix pre ev post assume e: "h @ [e] = pre @ ev # post"
    show "G pre ev"
    proof (cases post rule: rev_cases)
      case Nil
      with e a show ?thesis by simp
    next
      case (snoc ys y)
      with e have "h = pre @ ev # ys" by simp
      with a show ?thesis unfolding safe_def by blast
    qed
  qed
qed

lemma safe_mono: "safe G h \<Longrightarrow> (\<And>h e. G h e \<Longrightarrow> G' h e) \<Longrightarrow> safe G' h"
  unfolding safe_def by blast

lemma safe_append_all: "safe G h \<Longrightarrow> \<forall>h e. B e \<longrightarrow> G h e \<Longrightarrow> list_all B tr \<Longrightarrow> safe G (h @ tr)"
proof (induction tr arbitrary: h)
  case (Cons e tr)
  then have "safe G (h @ [e])" by (simp add: safe_snoc)
  from Cons.IH [OF this Cons.prems(2)] Cons.prems(3) show ?case by simp
qed simp

section \<open>Events of a kind\<close>

text \<open>A program that only emits events of kind \<open>B\<close>, and the properties of histories such events keep.\<close>

definition emits :: "('s \<Rightarrow> 'e list) \<Rightarrow> ('e \<Rightarrow> bool) \<Rightarrow> ('s, 'a) state \<Rightarrow> bool" where
  "emits lg B m \<longleftrightarrow> (\<forall>P. (\<forall>h e. P h \<longrightarrow> B e \<longrightarrow> P (h @ [e])) \<longrightarrow> hoare lg P m (\<lambda>_. P))"

definition keeps :: "('e \<Rightarrow> bool) \<Rightarrow> ('e list \<Rightarrow> bool) \<Rightarrow> bool" where
  "keeps B P \<longleftrightarrow> (\<forall>h e. P h \<longrightarrow> B e \<longrightarrow> P (h @ [e]))"

lemma keeps_append: "keeps B P \<Longrightarrow> P h \<Longrightarrow> list_all B tr \<Longrightarrow> P (h @ tr)"
proof (induction tr arbitrary: h)
  case (Cons e tr)
  then have "P (h @ [e])" by (simp add: keeps_def)
  from Cons.IH [OF Cons.prems(1) this] Cons.prems(3) show ?case by simp
qed simp

lemma emitsD: "emits lg B m \<Longrightarrow> keeps B P \<Longrightarrow> hoare lg P m (\<lambda>_. P)"
  unfolding emits_def keeps_def by blast

lemma emitsI: "(\<And>P. keeps B P \<Longrightarrow> hoare lg P m (\<lambda>_. P)) \<Longrightarrow> emits lg B m"
  unfolding emits_def keeps_def by blast

lemma keeps_safe: "(\<And>h e. B e \<Longrightarrow> G h e) \<Longrightarrow> keeps B (safe G)"
  by (auto simp: keeps_def safe_snoc)

lemma keeps_conj: "keeps B P \<Longrightarrow> keeps B Q \<Longrightarrow> keeps B (\<lambda>h. P h \<and> Q h)"
  by (auto simp: keeps_def)

lemma keeps_const: "keeps B (\<lambda>h. C)"
  by (auto simp: keeps_def)

lemma keeps_imp: "keeps B Q \<Longrightarrow> keeps B (\<lambda>h. C \<longrightarrow> Q h)"
  by (auto simp: keeps_def)

lemma emits_mono: "emits lg B m \<Longrightarrow> (\<And>e. B e \<Longrightarrow> B' e) \<Longrightarrow> emits lg B' m"
  unfolding emits_def by blast

lemma emits_all: "emits lg B m \<Longrightarrow> run_state m s = (r, s') \<Longrightarrow> \<exists>tr. lg s' = lg s @ tr \<and> list_all B tr"
  using hoareD [of lg "list_all B" m "\<lambda>_. list_all B" s r s' "[]"] by (auto dest: emitsD [of _ _ _ "list_all B"] simp: keeps_def)

named_theorems emits_intro \<open>programs that only emit events of a kind\<close>

lemma emits_return [emits_intro]: "emits lg B (State_Monad.return x)"
  by (rule emitsI) (rule hoare_return)

lemma emits_bind [emits_intro]: "emits lg B m \<Longrightarrow> (\<And>x. emits lg B (f x)) \<Longrightarrow> emits lg B (State_Monad.bind m f)"
  by (rule emitsI, rule hoare_bind [OF emitsD emitsD])

lemma emits_if [emits_intro]: "(b \<Longrightarrow> emits lg B m) \<Longrightarrow> (\<not> b \<Longrightarrow> emits lg B m') \<Longrightarrow> emits lg B (if b then m else m')"
  by simp

lemma emits_option [emits_intro]:
  "emits lg B m \<Longrightarrow> (\<And>x. emits lg B (f x)) \<Longrightarrow> emits lg B (case v of None \<Rightarrow> m | Some x \<Rightarrow> f x)"
  by (cases v) auto

lemma emits_sum [emits_intro]:
  "(\<And>x. emits lg B (f x)) \<Longrightarrow> (\<And>x. emits lg B (g x)) \<Longrightarrow> emits lg B (case v of Inl x \<Rightarrow> f x | Inr x \<Rightarrow> g x)"
  by (cases v) auto

lemma emits_prod [emits_intro]: "(\<And>x y. emits lg B (f x y)) \<Longrightarrow> emits lg B (case v of (x, y) \<Rightarrow> f x y)"
  by (cases v) auto

lemma emits_let [emits_intro]: "emits lg B (f v) \<Longrightarrow> emits lg B (Let v f)"
  by simp

lemma emits_try [emits_intro]: "emits lg B m \<Longrightarrow> (\<And>x. emits lg B (f x)) \<Longrightarrow> emits lg B (try_with m g f)"
  unfolding try_with_def by (intro emits_intro)

lemma emits_check [emits_intro]: "emits lg B m \<Longrightarrow> emits lg B n \<Longrightarrow> emits lg B (check_with m g n)"
  unfolding check_with_def by (intro emits_intro)

lemma emits_but_not_found [emits_intro]: "emits lg B m \<Longrightarrow> emits lg B (but_not_found m)"
  unfolding but_not_found_def by (intro emits_intro)

lemma emits_logs: "logs lg m f \<Longrightarrow> (\<And>r. list_all B (f r)) \<Longrightarrow> emits lg B m"
  by (rule emitsI, erule hoare_logs, erule keeps_append)

section \<open>Parts that keep one property of the history\<close>

definition stable :: "('s \<Rightarrow> 'e list) \<Rightarrow> ('e list \<Rightarrow> bool) \<Rightarrow> ('s, 'a) state \<Rightarrow> bool" where
  "stable lg K m \<longleftrightarrow> hoare lg K m (\<lambda>_. K)"

named_theorems stable_intro \<open>programs that keep a property of the history\<close>

lemma stable_emits: "emits lg B m \<Longrightarrow> keeps B K \<Longrightarrow> stable lg K m"
  unfolding stable_def by (rule emitsD)

lemma stable_return [stable_intro]: "stable lg K (State_Monad.return x)"
  unfolding stable_def by (rule hoare_return)

lemma stable_bind [stable_intro]: "stable lg K m \<Longrightarrow> (\<And>x. stable lg K (f x)) \<Longrightarrow> stable lg K (State_Monad.bind m f)"
  unfolding stable_def by (rule hoare_bind)

lemma stable_if [stable_intro]: "(b \<Longrightarrow> stable lg K m) \<Longrightarrow> (\<not> b \<Longrightarrow> stable lg K m') \<Longrightarrow> stable lg K (if b then m else m')"
  by simp

lemma stable_option [stable_intro]:
  "stable lg K m \<Longrightarrow> (\<And>x. stable lg K (f x)) \<Longrightarrow> stable lg K (case v of None \<Rightarrow> m | Some x \<Rightarrow> f x)"
  by (cases v) auto

lemma stable_sum [stable_intro]:
  "(\<And>x. stable lg K (f x)) \<Longrightarrow> (\<And>x. stable lg K (g x)) \<Longrightarrow> stable lg K (case v of Inl x \<Rightarrow> f x | Inr x \<Rightarrow> g x)"
  by (cases v) auto

lemma stable_let [stable_intro]: "stable lg K (f v) \<Longrightarrow> stable lg K (Let v f)"
  by simp

lemma stable_try [stable_intro]: "stable lg K m \<Longrightarrow> (\<And>x. stable lg K (f x)) \<Longrightarrow> stable lg K (try_with m g f)"
  unfolding try_with_def by (intro stable_intro)

lemma stable_check [stable_intro]: "stable lg K m \<Longrightarrow> stable lg K n \<Longrightarrow> stable lg K (check_with m g n)"
  unfolding check_with_def by (intro stable_intro)

end
