(* ===== verification/Api_Cleanup.thy ===== *)
theory Api_Cleanup
  imports Trace_Logic Api_Handlers_Props
begin

text \<open>
  What a request to the HTTP API creates and removes: the handler of requests creates at most one FloatingIP, and removes at most
  one, the one its own creation returned, when the wait for the address was ended. Stated over a log of the creations
  and removals that were sent; every other call is arbitrary.
\<close>

section \<open>Creations and removals\<close>

datatype apiev = Made FloatingIP | Removed string string "kerr option"

definition untouched :: "('w \<Rightarrow> apiev list) \<Rightarrow> 'w \<Rightarrow> 'w \<Rightarrow> bool" where
  "untouched lg w w' \<longleftrightarrow> lg w' = lg w"

text \<open>
  \<open>lg\<close> reads a log off the world: a creation that succeeded adds the object it returned, every removal adds what it was asked to
  remove and its answer, and no other call adds anything. The retry helper runs its function again only after a conflict.
\<close>

definition api_observes :: "'w api \<Rightarrow> ('w \<Rightarrow> apiev list) \<Rightarrow> bool" where
  "api_observes A lg \<longleftrightarrow>
     api_retry_ok A \<and> reads_move (untouched lg) A \<and> (\<forall>f. moves (untouched lg) (WriteFip A f)) \<and>
     (\<forall>g f. logs lg (CreateFip A g f) (\<lambda>r. case r of Inr x \<Rightarrow> [Made x] | Inl e \<Rightarrow> [])) \<and>
     (\<forall>ns n. logs lg (RemoveFip A ns n) (\<lambda>r. [Removed ns n r]))"

lemma untouched_preorder: "preorder_rel (untouched lg)"
  by (auto simp: preorder_rel_def reflp_def transp_def untouched_def)

lemma hoare_untouched: "moves (untouched lg) m \<Longrightarrow> hoare lg P m (\<lambda>_. P)"
  by (rule hoare_silent) (auto simp: untouched_def dest: movesD)

text \<open>What is in the log when a FloatingIP is in hand.\<close>

definition in_hand :: "'e + FloatingIP \<times> bool \<Rightarrow> apiev list \<Rightarrow> bool" where
  "in_hand x h \<longleftrightarrow> h = (case x of Inl e \<Rightarrow> [] | Inr (f, new) \<Rightarrow> if new then [Made f] else [])"

lemma in_hand_simps [simp]:
  "in_hand (Inl e) h \<longleftrightarrow> h = []" "in_hand (Inr (f, True)) h \<longleftrightarrow> h = [Made f]" "in_hand (Inr (f, False)) h \<longleftrightarrow> h = []"
  by (simp_all add: in_hand_def)

lemma in_hand_map: "in_hand p h \<Longrightarrow> in_hand (case p of Inl e \<Rightarrow> Inl (k e) | Inr x \<Rightarrow> Inr x) h"
  by (cases p) (auto simp: in_hand_def)

text \<open>The log and the reply of a request.\<close>

definition request_log :: "reply option \<Rightarrow> apiev list \<Rightarrow> bool" where
  "request_log r tr \<longleftrightarrow>
     tr = [] \<or> (\<exists>f. tr = [Made f]) \<or>
     (\<exists>f q. tr = [Made f, Removed (f_ns f) (f_name f) q] \<and>
        (r = Some NoReply \<or> r = Some (JSONError 504 ''timeout waiting for IP allocation'')))"

locale api_observed =
  fixes A :: "'w api" and lg :: "'w \<Rightarrow> apiev list"
  assumes obs: "api_observes A lg"
begin

lemma quiet_laws:
  "preorder_rel (untouched lg)" "reads_move (untouched lg) A" "api_retry_ok A" "guarded_write (untouched lg) A P mutate"
  using obs by (simp_all add: api_observes_def untouched_preorder guarded_write_def moves_def)

lemma create: "hoare lg (\<lambda>h. h = []) (CreateFip A g f) (\<lambda>r h. h = (case r of Inr x \<Rightarrow> [Made x] | Inl e \<Rightarrow> []))"
  by (rule hoare_logs [where f = "\<lambda>r. case r of Inr x \<Rightarrow> [Made x] | Inl e \<Rightarrow> []"]) (use obs in \<open>auto simp: api_observes_def\<close>)

lemma remove: "hoare lg (\<lambda>h. h = [Made f]) (RemoveFip A ns n) (\<lambda>r h. h = [Made f, Removed ns n r])"
  by (rule hoare_logs [where f = "\<lambda>r. [Removed ns n r]"]) (use obs in \<open>auto simp: api_observes_def\<close>)

lemmas looks = lookups_move [OF quiet_laws(1,2), THEN hoare_untouched]

lemma old_triples:
  "hoare lg (\<lambda>h. h = []) (claimPinned A project req existing) in_hand"
  "hoare lg (\<lambda>h. h = []) (adoptPinned A project req err) in_hand"
proof -
  have c: "hoare lg (\<lambda>h. h = []) (updateFloatingIPIf A existing P mutate) (\<lambda>_ h. h = [])" for existing P mutate
    by (rule hoare_untouched [OF update_moves [OF quiet_laws]])
  show "hoare lg (\<lambda>h. h = []) (claimPinned A project req existing) in_hand"
    unfolding claimPinned_def
    by (intro hoare_option hoare_return hoare_bind [OF c]) (auto split: sum.split)
  show "hoare lg (\<lambda>h. h = []) (adoptPinned A project req err) in_hand"
    unfolding adoptPinned_def
    by (intro hoare_return hoare_bind [OF looks(3)]) (auto split: sum.split option.split)
qed

lemma fetch: "hoare lg P (FetchFip A ns n) (\<lambda>_. P)" "hoare lg P (ListFips A ns) (\<lambda>_. P)" "hoare lg P (FetchPool A n) (\<lambda>_. P)"
  by (rule hoare_untouched, rule reads_moveD [OF quiet_laws(2)])+

lemma createSpecificIP_triple: "hoare lg (\<lambda>h. h = []) (createSpecificIP A project req) in_hand"
  unfolding createSpecificIP_def Let_def
proof (rule hoare_bind [OF create], rule hoare_sum)
  show "c = Inr fip \<Longrightarrow> hoare lg (\<lambda>h. h = (case c of Inr x \<Rightarrow> [Made x] | Inl e \<Rightarrow> [])) (State_Monad.return (Inr (fip, True))) in_hand" for c fip
    by (rule hoare_return) simp
  show "c = Inl err \<Longrightarrow> hoare lg (\<lambda>h. h = (case c of Inr x \<Rightarrow> [Made x] | Inl e \<Rightarrow> []))
     (if IsAlreadyExists err then do {
           g \<leftarrow> FetchFip A (pr_ns project) (specificFIPName (rq_FloatingIPPool req) (rq_IPAddress req));
           case g of
             Inr existing \<Rightarrow>
               State_Monad.return
                 (if f_spec_ip existing \<noteq> Some (rq_IPAddress req) \<or> f_pool existing \<noteq> rq_FloatingIPPool req
                  then Inl (ErrHTTP 409 ''floating IP request conflicts with an existing object, retry the request'')
                  else Inr (existing, False))
           | Inl getErr \<Rightarrow>
               if \<not> IsNotFound getErr
               then State_Monad.return (Inl (ErrHTTP 500 ''failed to read the existing floating IP''))
               else adoptPinned A project req err
         }
         else adoptPinned A project req err) in_hand" for c err
    by (simp, intro conjI impI hoare_bind [OF fetch(1)] hoare_sum hoare_if hoare_return old_triples) auto
qed

lemma requestSpecificIP_triple: "hoare lg (\<lambda>h. h = []) (requestSpecificIP A project req) in_hand"
proof -
  have "hoare lg (in_hand c) (case c of Inl e \<Rightarrow> State_Monad.return (Inl e)
         | Inr (created, createdNew) \<Rightarrow>
             if createdNew then State_Monad.return (Inr (created, True)) else claimPinned A project req created) in_hand"
    for c :: "kerr + FloatingIP \<times> bool"
  proof (cases c)
    case (Inr x)
    then show ?thesis by (cases x; cases "snd x") (auto intro!: hoare_return intro: hoare_pre [OF old_triples(1)])
  qed (auto intro!: hoare_return)
  note created = hoare_bind [OF createSpecificIP_triple this]
  show ?thesis unfolding requestSpecificIP_def
    by (intro hoare_bind [OF looks(3)] hoare_sum hoare_option hoare_return created old_triples) auto
qed

lemma requestAnyIP_triple: "hoare lg (\<lambda>h. h = []) (requestAnyIP A project req) in_hand"
proof -
  have upd: "hoare lg P (updateFloatingIP A f mutate) (\<lambda>_. P)" for P f mutate
    unfolding updateFloatingIP_def by (rule hoare_untouched [OF update_moves [OF quiet_laws]])
  have claim: "hoare lg P (claimCandidates A project req items) (\<lambda>_. P)" for P items
    by (rule hoare_untouched [OF claimCandidates_moves [OF quiet_laws]])
  have new: "hoare lg (\<lambda>h. h = []) (do { c \<leftarrow> CreateFip A ''fip-'' (new_fip project req [] None);
                  State_Monad.return (case c of
                     Inl err \<Rightarrow> Inl (writeHandlerError (createErrorToHTTP A err)) | Inr fip \<Rightarrow> Inr (fip, True)) }) in_hand"
    by (intro hoare_bind [OF create] hoare_return) (auto split: sum.splits)
  show ?thesis unfolding requestAnyIP_def
    by (intro hoare_bind [OF fetch(2)] hoare_bind [OF upd] hoare_bind [OF claim] hoare_sum hoare_option hoare_return new)
      (auto split: sum.split)
qed

lemma obtainFIP_triple: "hoare lg (\<lambda>h. h = []) (obtainFIP A project req) in_hand"
  unfolding obtainFIP_def
  by (intro hoare_bind [OF looks(2)] hoare_bind [OF requestSpecificIP_triple] hoare_sum hoare_option hoare_if hoare_return
        requestAnyIP_triple) (auto intro: in_hand_map)

lemma await_triple: "hoare lg (in_hand (Inr (f, new) :: reply + FloatingIP \<times> bool)) (awaitAllocation A n req f new) request_log"
proof -
  let ?I = "in_hand (Inr (f, new) :: reply + FloatingIP \<times> bool)"
  let ?C = "\<lambda>h. h = [] \<or> (\<exists>f. h = [Made f]) \<or> (\<exists>f q. h = [Made f, Removed (f_ns f) (f_name f) q])"
  have watch: "hoare lg P (WatchFloatingIP A n f) (\<lambda>_. P)" for P
    by (rule hoare_untouched [OF WatchFloatingIP_moves [OF quiet_laws(1,2)]])
  have clean: "hoare lg ?I (if new then RemoveFip A (f_ns f) (f_name f) else State_Monad.return None) (\<lambda>_. ?C)"
    by (cases new) (auto intro!: hoare_return hoare_weaken [OF remove])
  have ended: "hoare lg ?I (do {
         _ \<leftarrow> (if new then RemoveFip A (f_ns f) (f_name f) else State_Monad.return None);
         State_Monad.return (Some (if err = Canceled then NoReply else JSONError 504 ''timeout waiting for IP allocation''))
       }) request_log" for err
    by (rule hoare_bind [OF clean]) (auto intro!: hoare_return simp: request_log_def)
  have kept: "?I h \<Longrightarrow> request_log r h" for r h
    by (cases new) (auto simp: request_log_def)
  show ?thesis unfolding awaitAllocation_def
  proof (rule hoare_bind [OF watch])
    fix r
    show "hoare lg ?I (case r of WatchGot finalFip \<Rightarrow> do {
         p \<leftarrow> FetchPool A (rq_FloatingIPPool req);
         State_Monad.return (Some (case p of
            Inl e \<Rightarrow> JSONError 500 ''failed to get floatingippool subnet'' | Inr fipPool \<Rightarrow> approve req finalFip fipPool)) }
      | WatchFailed e \<Rightarrow> State_Monad.return (Some (JSONError 500 ''failed to get ip address''))
      | WatchEnded err \<Rightarrow> do {
         _ \<leftarrow> (if new then RemoveFip A (f_ns f) (f_name f) else State_Monad.return None);
         State_Monad.return (Some (if err = Canceled then NoReply else JSONError 504 ''timeout waiting for IP allocation'')) }
      | WatchMore \<Rightarrow> State_Monad.return None) request_log"
      by (cases r; simp only: watch_result.case; intro ended hoare_bind [OF fetch(3)] hoare_return kept; assumption)
  qed
qed

lemma request_triple: "hoare lg (\<lambda>h. h = []) (FIPRequestHandler A n body) request_log"
proof -
  have step: "hoare lg (in_hand x) (case x of Inl rep \<Rightarrow> State_Monad.return (Some rep)
      | Inr (floatingIP, createdNew) \<Rightarrow> awaitAllocation A n req floatingIP createdNew) request_log" for x :: "reply + FloatingIP \<times> bool" and req
    by (cases x) (auto intro!: hoare_return await_triple simp: request_log_def)
  show ?thesis unfolding FIPRequestHandler_def
    by (intro hoare_option hoare_return hoare_bind [OF looks(1)] hoare_sum hoare_bind [OF obtainFIP_triple step])
      (auto simp: request_log_def)
qed

end

section \<open>A log beside any world\<close>

text \<open>Every environment can be observed: its calls run beside a log.\<close>

definition beside :: "('w, 'a) state \<Rightarrow> ('a \<Rightarrow> apiev list) \<Rightarrow> (apiev list \<times> 'w, 'a) state" where
  "beside m ev = State (\<lambda>(l, w). case run_state m w of (r, w') \<Rightarrow> (r, (l @ ev r, w')))"

definition watched :: "'w api \<Rightarrow> (apiev list \<times> 'w) api" where
  "watched A =
     \<lparr>ListProjects = beside (ListProjects A) (\<lambda>_. []), GetSecret = (\<lambda>ns n. beside (GetSecret A ns n) (\<lambda>_. [])),
      CreateSecret = (\<lambda>ns n d. beside (CreateSecret A ns n d) (\<lambda>_. [])), ListFips = (\<lambda>ns. beside (ListFips A ns) (\<lambda>_. [])),
      ListFipsMatching = (\<lambda>ns m. beside (ListFipsMatching A ns m) (\<lambda>_. [])), FetchFip = (\<lambda>ns n. beside (FetchFip A ns n) (\<lambda>_. [])),
      WriteFip = (\<lambda>f. beside (WriteFip A f) (\<lambda>_. [])),
      CreateFip = (\<lambda>g f. beside (CreateFip A g f) (\<lambda>r. case r of Inr x \<Rightarrow> [Made x] | Inl e \<Rightarrow> [])),
      RemoveFip = (\<lambda>ns n. beside (RemoveFip A ns n) (\<lambda>r. [Removed ns n r])), FetchPool = (\<lambda>n. beside (FetchPool A n) (\<lambda>_. [])),
      Retry = sum_retry 7, CtxErr = beside (CtxErr A) (\<lambda>_. []), WatchGet = (\<lambda>ns n. beside (WatchGet A ns n) (\<lambda>_. [])),
      OpenWatch = (\<lambda>ns n v. beside (OpenWatch A ns n v) (\<lambda>_. [])), NextEvent = beside (NextEvent A) (\<lambda>_. []),
      Sleep = (\<lambda>d. beside (Sleep A d) (\<lambda>_. [])), ErrText = ErrText A\<rparr>"

lemma beside_logs: "logs fst (beside m ev) ev"
  by (auto simp: logs_def beside_def split: prod.splits)

lemma beside_untouched: "moves (untouched fst) (beside m (\<lambda>_. []))"
  by (auto simp: moves_def untouched_def beside_def split: prod.splits)

lemma watched_observes: "api_observes (watched A) fst"
  unfolding api_observes_def reads_move_def api_retry_ok_def
  by (simp only: watched_def api.select_convs) (intro conjI allI impI beside_logs beside_untouched sum_retry_tries)

interpretation watched: api_observed "watched A" fst for A
  by unfold_locales (rule watched_observes)

text \<open>
  C23. The request handler removes nothing but what this very request created: it has at most one creation that succeeds, and it sends
  at most one removal, after that creation and for the namespace and name of the object the creation returned, and
  only when the wait for the address was ended by the timeout (reply 504) or by the client. A FloatingIP that was found, adopted
  or created by others is never removed. The answers of all calls are arbitrary.
\<close>

theorem cleanup_spares_existing:
  assumes "api_observes A lg" and "run_state (FIPRequestHandler A n body) w = (r, w')"
  shows "\<exists>tr. lg w' = lg w @ tr \<and>
    (tr = [] \<or> (\<exists>f. tr = [Made f]) \<or>
     (\<exists>f q. tr = [Made f, Removed (f_ns f) (f_name f) q] \<and>
        (r = Some NoReply \<or> r = Some (JSONError 504 ''timeout waiting for IP allocation''))))"
  using hoareD [OF api_observed.request_triple [OF api_observed.intro [OF assms(1)]] assms(2), of "[]"]
  by (simp add: request_log_def)

text \<open>A request that creates a FloatingIP, waits in vain and removes it.\<close>

definition vain_run :: "reply option \<times> apiev list \<times> amem" where
  "vain_run = run_state (FIPRequestHandler (watched mem_api) 9 (Some web_request)) ([], (shop_world [])\<lparr>a_left := 1, a_grant := None\<rparr>)"

theorem cleanup_spares_existing_witness:
  "case vain_run of (r, tr, w') \<Rightarrow> length tr = 2 \<and> r = Some (JSONError 504 ''timeout waiting for IP allocation'') \<and>
     (\<exists>f q. tr = [Made f, Removed (f_ns f) (f_name f) q]) \<and> a_fips w' = []"
proof -
  obtain r tr w' where run: "vain_run = (r, tr, w')" by (cases vain_run)
  from cleanup_spares_existing [OF watched_observes run [unfolded vain_run_def]]
  have tr: "tr = [] \<or> (\<exists>f. tr = [Made f]) \<or> (\<exists>f q. tr = [Made f, Removed (f_ns f) (f_name f) q])" by auto
  have "case vain_run of (r, tr, w') \<Rightarrow> length tr = 2 \<and> r = Some (JSONError 504 ''timeout waiting for IP allocation'') \<and> a_fips w' = []"
    by code_simp
  with tr show ?thesis unfolding run prod.case by fastforce
qed

end
