(* ===== verification/Service_Register.thy ===== *)
theory Service_Register
  imports Prelude
begin

text \<open>
  The contract between the API server, which writes the services of a FloatingIP into its labels, and the
  manager, which reads them: a register of services. A claim adds its service at the end unless
  it is there, a release takes it out, and the register is free exactly when no service is in it.
  Every claim uses up an index, so the invariant says how many more claims fit.
\<close>

datatype ('c, 'v) register_op = Claim 'c | Drop 'v

locale service_register =
  fixes fits :: "nat \<Rightarrow> 's \<Rightarrow> bool"
    and services :: "'s \<Rightarrow> 'v list"
    and free :: "'s \<Rightarrow> bool"
    and valid :: "'c \<Rightarrow> bool"
    and subject :: "'c \<Rightarrow> 'v"
    and claim :: "'c \<Rightarrow> 's \<Rightarrow> 's"
    and release :: "'v \<Rightarrow> 's \<Rightarrow> 's"
  assumes services_claim:
      "fits (Suc n) s \<Longrightarrow> valid c \<Longrightarrow>
       services (claim c s) = (if subject c \<in> set (services s) then services s else services s @ [subject c])"
    and services_release: "fits n s \<Longrightarrow> services (release v s) = removeAll v (services s)"
    and fits_claim: "fits (Suc n) s \<Longrightarrow> valid c \<Longrightarrow> fits n (claim c s)"
    and fits_release: "fits n s \<Longrightarrow> fits n (release v s)"
    and free_iff: "fits n s \<Longrightarrow> free s \<longleftrightarrow> services s = []"
    and fits_less: "fits (Suc n) s \<Longrightarrow> fits n s"
begin

fun perform :: "('c, 'v) register_op \<Rightarrow> 's \<Rightarrow> 's" where
  "perform (Claim c) s = claim c s"
| "perform (Drop v) s = release v s"

fun track :: "('c, 'v) register_op \<Rightarrow> 'v list \<Rightarrow> 'v list" where
  "track (Claim c) vs = (if subject c \<in> set vs then vs else vs @ [subject c])"
| "track (Drop v) vs = removeAll v vs"

fun sound :: "('c, 'v) register_op \<Rightarrow> bool" where
  "sound (Claim c) \<longleftrightarrow> valid c"
| "sound (Drop v) \<longleftrightarrow> True"

lemma perform_step: "fits (Suc n) s \<Longrightarrow> sound x \<Longrightarrow> fits n (perform x s) \<and> services (perform x s) = track x (services s)"
  by (cases x) (auto simp: services_claim services_release fits_claim fits_release fits_less)

lemma history:
  "fits (length ops + n) s \<Longrightarrow> list_all sound ops \<Longrightarrow>
   fits n (fold perform ops s) \<and> services (fold perform ops s) = fold track ops (services s)"
proof (induction ops arbitrary: s)
  case (Cons x ops)
  then have "fits (length ops + n) (perform x s)" "services (perform x s) = track x (services s)"
    using perform_step [of "length ops + n" s x] by auto
  with Cons show ?case by simp
qed simp

lemma history_services: "fits (length ops) s \<Longrightarrow> list_all sound ops \<Longrightarrow> services (fold perform ops s) = fold track ops (services s)"
  using history [of ops 0 s] by simp

lemma history_free: "fits (length ops) s \<Longrightarrow> list_all sound ops \<Longrightarrow> free (fold perform ops s) \<longleftrightarrow> fold track ops (services s) = []"
  using history [of ops 0 s] free_iff [of 0 "fold perform ops s"] by simp

text \<open>The services in the register are those whose last request was a claim, or that were there and never named.\<close>

lemma track_mem:
  "v \<in> set (track x vs) \<longleftrightarrow> (case x of Claim c \<Rightarrow> v = subject c \<or> v \<in> set vs | Drop u \<Rightarrow> v \<noteq> u \<and> v \<in> set vs)"
  by (cases x) auto

fun last_word :: "'v \<Rightarrow> ('c, 'v) register_op list \<Rightarrow> bool \<Rightarrow> bool" where
  "last_word v [] b = b"
| "last_word v (Claim c # ops) b = last_word v ops (v = subject c \<or> b)"
| "last_word v (Drop u # ops) b = last_word v ops (v \<noteq> u \<and> b)"

lemma fold_track_mem: "v \<in> set (fold track ops vs) \<longleftrightarrow> last_word v ops (v \<in> set vs)"
proof (induction ops arbitrary: vs)
  case (Cons x ops)
  have "last_word v ops (v \<in> set (track x vs)) \<longleftrightarrow> last_word v (x # ops) (v \<in> set vs)"
    by (cases x) (simp_all only: last_word.simps track_mem register_op.case)
  then show ?case by (simp add: Cons.IH)
qed simp

lemma track_distinct: "distinct vs \<Longrightarrow> distinct (track x vs)"
  by (cases x) (auto simp: distinct_removeAll)

lemma fold_track_distinct: "distinct vs \<Longrightarrow> distinct (fold track ops vs)"
  by (induction ops arbitrary: vs) (auto simp: track_distinct)

end

end
