(* ===== verification/Api_Register.thy ===== *)
theory Api_Register
  imports Api_Labels_Props Service_Register
begin

text \<open>
  The labels of a FloatingIP as a register of services: the claims of \<open>applyFIPRequestLabels\<close> and the
  releases of \<open>releaseMutate\<close>, in any order and by any clients, against the reader
  \<open>parseServicesFromLabels\<close> of the manager.
\<close>

record label_claim =
  lc_project :: string
  lc_cluster :: string
  lc_service :: AssignedService
  lc_group :: string

definition label_room :: "nat \<Rightarrow> FloatingIP \<Rightarrow> bool" where
  "label_room n fip \<longleftrightarrow>
     (\<exists>xs. registers (mof (f_labels fip)) xs \<and> next_index xs + n \<le> 2 ^ 63 \<and>
        (\<forall>svc \<in> set (map snd xs). ServiceName svc \<noteq> []) \<and> (label (f_labels fip) clusterNameLabel = [] \<longleftrightarrow> xs = []))"

definition label_services :: "FloatingIP \<Rightarrow> AssignedService list" where
  "label_services fip = parseServicesFromLabels (f_labels fip)"

definition label_free :: "FloatingIP \<Rightarrow> bool" where
  "label_free fip \<longleftrightarrow> label (f_labels fip) clusterNameLabel = []"

definition claim_valid :: "label_claim \<Rightarrow> bool" where
  "claim_valid c \<longleftrightarrow> lc_cluster c \<noteq> [] \<and> ServiceName (lc_service c) \<noteq> []"

definition claim_labels :: "label_claim \<Rightarrow> FloatingIP \<Rightarrow> FloatingIP" where
  "claim_labels c fip =
     fst (applyFIPRequestLabels fip (lc_project c) (lc_cluster c) (ServiceName (lc_service c)) (ServiceNamespace (lc_service c)) (lc_group c))"

definition drop_labels :: "AssignedService \<Rightarrow> FloatingIP \<Rightarrow> FloatingIP" where
  "drop_labels svc = releaseMutate (ServiceName svc) (ServiceNamespace svc)"

lemma label_services_register:
  "registers (mof (f_labels fip)) xs \<Longrightarrow> \<forall>svc \<in> set (map snd xs). ServiceName svc \<noteq> [] \<Longrightarrow> label_services fip = map snd xs"
  using registers_nonempty_parse [of "mof (f_labels fip)" xs] by (simp add: label_services_def parse_mof)

lemma service_eta: "\<lparr>ServiceNamespace = ServiceNamespace svc, ServiceName = ServiceName svc\<rparr> = svc"
  by (cases svc) simp

lemma claim_labels_register:
  assumes "registers (mof (f_labels fip)) xs" "next_index xs < 2 ^ 63"
  shows "registers (mof (f_labels (claim_labels c fip))) (claim_service xs (lc_service c))"
    "label (f_labels (claim_labels c fip)) clusterNameLabel = lc_cluster c"
proof -
  let ?svc = "lc_service c"
  let ?r = "request_labels (mof (f_labels fip)) (lc_project c) (lc_cluster c) (ServiceName ?svc) (ServiceNamespace ?svc) (lc_group c)"
  have l: "f_labels (claim_labels c fip) = Some (fst ?r)"
    by (simp add: claim_labels_def applyFIPRequestLabels_def case_prod_beta)
  show "registers (mof (f_labels (claim_labels c fip))) (claim_service xs ?svc)"
    using request_labels_registers(1) [OF assms, of _ _ "ServiceName ?svc" "ServiceNamespace ?svc"] unfolding l service_eta by simp
  show "label (f_labels (claim_labels c fip)) clusterNameLabel = lc_cluster c"
    using request_labels_others(2) [OF assms] unfolding l by (simp add: label_def getz_def)
qed

lemma next_index_claim: "next_index (claim_service xs svc) \<le> Suc (next_index xs)"
  by (simp add: claim_service_def next_index_def)

lemma release_labels_nil: "release_labels [] name ns = []"
  by (simp add: release_labels_def drop_service_def has_services_def getz_def)

lemma drop_labels_mof: "mof (f_labels (drop_labels svc fip)) = release_labels (mof (f_labels fip)) (ServiceName svc) (ServiceNamespace svc)"
  by (cases "f_labels fip") (simp_all add: drop_labels_def releaseMutate_def release_labels_nil)

lemma drop_labels_register:
  assumes "registers (mof (f_labels fip)) xs"
  shows "registers (mof (f_labels (drop_labels svc fip))) (release_service xs svc)"
    "label (f_labels (drop_labels svc fip)) clusterNameLabel =
       (if release_service xs svc = [] then [] else label (f_labels fip) clusterNameLabel)"
  using release_labels_registers(1,2) [OF assms, of "ServiceName svc" "ServiceNamespace svc", unfolded service_eta]
  by (simp_all add: drop_labels_mof label_def getz_def)

lemma next_index_filter:
  assumes "sorted_wrt (<) (map fst xs)" shows "next_index (filter P xs) \<le> next_index xs"
proof (cases "filter P xs = []")
  case False
  then have "last (filter P xs) \<in> set xs" by (metis last_in_set filter_is_subset subsetD)
  moreover from this obtain ys y where "xs = ys @ [y]" by (metis empty_iff list.set(1) rev_exhaust)
  ultimately have "fst (last (filter P xs)) \<le> fst (last xs)" using assms by (auto simp: sorted_wrt_append less_imp_le)
  with False show ?thesis by (auto simp: next_index_def)
qed (simp add: next_index_def)

lemma release_service_map: "map snd (release_service xs svc) = removeAll svc (map snd xs)"
  by (simp add: release_service_def removeAll_filter_not_eq filter_map comp_def) (metis)

lemma label_roomE:
  assumes "label_room n fip"
  obtains xs where "registers (mof (f_labels fip)) xs" "next_index xs + n \<le> 2 ^ 63"
    "\<forall>svc \<in> set (map snd xs). ServiceName svc \<noteq> []" "label (f_labels fip) clusterNameLabel = [] \<longleftrightarrow> xs = []"
    "label_services fip = map snd xs"
  using assms label_services_register unfolding label_room_def by blast

lemma label_roomI:
  assumes "registers (mof (f_labels fip)) xs" "next_index xs + n \<le> 2 ^ 63"
    "\<forall>svc \<in> set (map snd xs). ServiceName svc \<noteq> []" "label (f_labels fip) clusterNameLabel = [] \<longleftrightarrow> xs = []"
  shows "label_room n fip"
  using assms unfolding label_room_def by blast

interpretation labels: service_register label_room label_services label_free claim_valid lc_service claim_labels drop_labels
proof
  fix n fip c svc
  show "label_services (claim_labels c fip) = (if lc_service c \<in> set (label_services fip) then label_services fip else label_services fip @ [lc_service c])"
    and "label_room n (claim_labels c fip)" if room: "label_room (Suc n) fip" and valid: "claim_valid c"
  proof -
    obtain xs where xs: "registers (mof (f_labels fip)) xs" "next_index xs + Suc n \<le> 2 ^ 63"
      "\<forall>svc \<in> set (map snd xs). ServiceName svc \<noteq> []" "label_services fip = map snd xs"
      using room by (rule label_roomE)
    have n: "next_index xs < 2 ^ 63" using xs(2) by simp
    note r = claim_labels_register [OF xs(1) n, of c]
    have ne: "\<forall>svc \<in> set (map snd (claim_service xs (lc_service c))). ServiceName svc \<noteq> []"
      using xs(3) valid by (auto simp: claim_service_def claim_valid_def)
    show "label_services (claim_labels c fip) = (if lc_service c \<in> set (label_services fip) then label_services fip else label_services fip @ [lc_service c])"
      unfolding label_services_register [OF r(1) ne] xs(4) by (simp add: claim_service_def)
    have "claim_service xs (lc_service c) \<noteq> []" by (auto simp: claim_service_def)
    with r ne show "label_room n (claim_labels c fip)"
      using next_index_claim [of xs "lc_service c"] xs(2) valid by (intro label_roomI) (auto simp: claim_valid_def)
  qed
  show "label_services (drop_labels svc fip) = removeAll svc (label_services fip)" and "label_room n (drop_labels svc fip)"
    if room: "label_room n fip"
  proof -
    obtain xs where xs: "registers (mof (f_labels fip)) xs" "next_index xs + n \<le> 2 ^ 63"
      "\<forall>svc \<in> set (map snd xs). ServiceName svc \<noteq> []" "label (f_labels fip) clusterNameLabel = [] \<longleftrightarrow> xs = []"
      "label_services fip = map snd xs"
      using room by (rule label_roomE)
    note r = drop_labels_register [OF xs(1), of svc]
    have ne: "\<forall>s \<in> set (map snd (release_service xs svc)). ServiceName s \<noteq> []" using xs(3) by (auto simp: release_service_def)
    show "label_services (drop_labels svc fip) = removeAll svc (label_services fip)"
      unfolding label_services_register [OF r(1) ne] xs(5) by (rule release_service_map)
    have "next_index (release_service xs svc) \<le> next_index xs"
      unfolding release_service_def by (rule next_index_filter) (use xs(1) in \<open>simp add: registers_def\<close>)
    then have "next_index (release_service xs svc) + n \<le> 2 ^ 63" using xs(2) by simp
    moreover have "label (f_labels (drop_labels svc fip)) clusterNameLabel = [] \<longleftrightarrow> release_service xs svc = []"
      unfolding r(2) using xs(4) by (auto simp: release_service_def)
    ultimately show "label_room n (drop_labels svc fip)" by (intro label_roomI [OF r(1) _ ne])
  qed
  show "label_free fip \<longleftrightarrow> label_services fip = []" if "label_room n fip"
    using that by (rule label_roomE) (simp add: label_free_def)
  show "label_room n fip" if "label_room (Suc n) fip"
    using that unfolding label_room_def by fastforce
qed

text \<open>The requests on one FloatingIP, in the order in which their updates are persisted.\<close>

fun perform_request :: "(label_claim, AssignedService) register_op \<Rightarrow> FloatingIP \<Rightarrow> FloatingIP" where
  "perform_request (Claim c) fip =
     fst (applyFIPRequestLabels fip (lc_project c) (lc_cluster c) (ServiceName (lc_service c)) (ServiceNamespace (lc_service c)) (lc_group c))"
| "perform_request (Drop svc) fip = releaseMutate (ServiceName svc) (ServiceNamespace svc) fip"

fun request_valid :: "(label_claim, AssignedService) register_op \<Rightarrow> bool" where
  "request_valid (Claim c) \<longleftrightarrow> lc_cluster c \<noteq> [] \<and> ServiceName (lc_service c) \<noteq> []"
| "request_valid (Drop svc) \<longleftrightarrow> True"

text \<open>Whether the last request that names the service claimed it.\<close>

fun still_claimed :: "AssignedService \<Rightarrow> (label_claim, AssignedService) register_op list \<Rightarrow> bool \<Rightarrow> bool" where
  "still_claimed svc [] b = b"
| "still_claimed svc (Claim c # ops) b = still_claimed svc ops (svc = lc_service c \<or> b)"
| "still_claimed svc (Drop u # ops) b = still_claimed svc ops (svc \<noteq> u \<and> b)"

lemma perform_request_labels: "perform_request x = labels.perform x"
  by (cases x) (simp_all add: fun_eq_iff claim_labels_def drop_labels_def)

lemma request_valid_labels: "request_valid x = labels.sound x"
  by (cases x) (simp_all add: claim_valid_def)

lemma still_claimed_labels: "still_claimed svc ops b = labels.last_word svc ops b"
  by (induction svc ops b rule: still_claimed.induct) simp_all

lemma empty_labels_room: "mof (f_labels fip) = [] \<Longrightarrow> n \<le> 2 ^ 63 \<Longrightarrow> label_room n fip"
  by (intro label_roomI [of _ "[]"]) (simp_all add: registers_def next_index_def label_def getz_def)

text \<open>
  C38. The manager sees exactly the services that were claimed and not released: however many requests
  of whatever clusters claim and release services on a FloatingIP that starts without labels, in whatever
  order their updates are persisted, the manager reads a service from the labels exactly when the
  last request that names it was a claim, no service twice, and the FloatingIP carries no
  cluster label, and so is free for any cluster, exactly when no service is left.
\<close>

theorem services_follow_requests:
  assumes "mof (f_labels fip) = []" and "length ops \<le> 2 ^ 63" and "list_all request_valid ops"
  defines "svcs \<equiv> parseServicesFromLabels (f_labels (fold perform_request ops fip))"
  shows "(svc \<in> set svcs \<longleftrightarrow> still_claimed svc ops False) \<and> distinct svcs \<and>
    (label (f_labels (fold perform_request ops fip)) clusterNameLabel = [] \<longleftrightarrow> svcs = [])"
proof -
  have room: "label_room (length ops) fip" using assms(1,2) by (rule empty_labels_room)
  have valid: "list_all labels.sound ops" using assms(3) by (simp add: list_all_iff request_valid_labels)
  have p: "perform_request = labels.perform" by (intro ext fun_cong [OF perform_request_labels])
  have start: "label_services fip = []" using label_services_register [of fip "[]"] assms(1) by (simp add: registers_def)
  have svcs: "svcs = fold labels.track ops []"
    using labels.history_services [OF room valid] unfolding svcs_def p start by (simp add: label_services_def)
  show ?thesis
    using labels.history_free [OF room valid] labels.fold_track_mem [of svc ops "[]"] labels.fold_track_distinct [of "[]" ops]
    unfolding svcs start p still_claimed_labels by (simp add: label_free_def)
qed

theorem services_follow_requests_witness:
  "let web = \<lparr>ServiceNamespace = ''shop'', ServiceName = ''web''\<rparr>; db = \<lparr>ServiceNamespace = ''shop'', ServiceName = ''db''\<rparr>;
       c = (\<lambda>s. Claim \<lparr>lc_project = ''p'', lc_cluster = ''c1'', lc_service = s, lc_group = ''g''\<rparr>);
       fip = claimed_fip\<lparr>f_labels := None\<rparr>;
       svcs = parseServicesFromLabels (f_labels (fold perform_request [c web, c db, Drop web] fip))
   in db \<in> set svcs \<and> web \<notin> set svcs"
proof -
  let ?web = "\<lparr>ServiceNamespace = ''shop'', ServiceName = ''web''\<rparr>" and ?db = "\<lparr>ServiceNamespace = ''shop'', ServiceName = ''db''\<rparr>"
  let ?c = "\<lambda>s. Claim \<lparr>lc_project = ''p'', lc_cluster = ''c1'', lc_service = s, lc_group = ''g''\<rparr>"
  let ?ops = "[?c ?web, ?c ?db, Drop ?web]"
  have h: "mof (f_labels (claimed_fip\<lparr>f_labels := None\<rparr>)) = []" "length ?ops \<le> 2 ^ 63" "list_all request_valid ?ops" by simp_all
  show ?thesis using services_follow_requests [OF h, of ?db] services_follow_requests [OF h, of ?web] by (simp add: Let_def)
qed

end
