(* ===== verification/Lb_Allocate.thy ===== *)
theory Lb_Allocate
  imports Lb_Controller
begin

text \<open>
  The allocation path of the load balancer controller's reconciler and the controller around it:
  reading the project's configuration, obtaining an address (recorded, recovered or requested), publishing it
  through MetalLB or PureLB, writing the record on the Service, and undoing what a failed reconcile created;
  then the event handlers, the snapshots of deleted Services and the work loop.
\<close>

section \<open>The configuration of the project\<close>

record allocCtx =
  cx_project :: string
  cx_secret :: Secret
  cx_pool :: string
  cx_interface :: string

text \<open>\<open>Inl r\<close>: the reconcile returns \<open>r\<close> here.\<close>

definition prepareAllocation :: "'w lbenv \<Rightarrow> string \<Rightarrow> Service \<Rightarrow> ('w, kerr option + allocCtx) lbact" where
  "prepareAllocation L app svc =
     try_with (GetNamespace L (sv_ns svc)) (\<lambda>e. Inl (Some (Wrap (''failed to get namespace '' @ sv_ns svc) e))) (\<lambda>ns.
     try_with (getProjectIDFromAppNamespace L app) (\<lambda>e. Inl (Some e)) (\<lambda>appProject.
       case (if appProject \<noteq> [] then Some appProject else map_of (mof ns) ''field.cattle.io/projectId'') of
         None \<Rightarrow> do { _ \<leftarrow> requeueAfter L svc deferredRequeueDelay; State_Monad.return (Inl None) }
       | Some projectId \<Rightarrow> let secretName = secret_name projectId in do {
           r \<leftarrow> GetSecretObj L app secretName;
           case r of
             Inl e \<Rightarrow>
               if IsNotFound e then do { _ \<leftarrow> requeueAfter L svc deferredRequeueDelay; State_Monad.return (Inl None) }
               else State_Monad.return (Inl (Some (Wrap (''failed to get secret '' @ secretName) e)))
           | Inr secret \<Rightarrow>
               try_with (GetConfigMap L app ''network-interface-mappings'')
                 (\<lambda>e. Inl (Some (Wrap ''failed to get configmap network-interface-mappings'' e))) (\<lambda>configMap.
                 let fipPoolName = fip_pool_name svc secret in
                 if validateProjectConfig secret fipPoolName \<noteq> None then do {
                   _ \<leftarrow> Eventf L svc ''InvalidConfiguration'';
                   _ \<leftarrow> requeueAfter L svc deferredRequeueDelay;
                   State_Monad.return (Inl None)
                 }
                 else State_Monad.return (case map_of configMap fipPoolName of
                     None \<Rightarrow> Inl (Some (Errorf (''no network interface found for floating ip pool '' @ fipPoolName)))
                   | Some networkInterface \<Rightarrow>
                       Inr \<lparr>cx_project = projectId, cx_secret = secret, cx_pool = fipPoolName, cx_interface = networkInterface\<rparr>))
         }))"

section \<open>Obtaining the address\<close>

text \<open>The address with what came with it, whether it was held before, and the project to record.\<close>

record obtained =
  ob_ip :: string
  ob_subnet :: string
  ob_sharedKey :: string
  ob_adopting :: bool
  ob_project :: string

definition adopted :: "Service \<Rightarrow> string \<Rightarrow> string \<Rightarrow> obtained" where
  "adopted svc ip project =
     \<lparr>ob_ip = ip, ob_subnet = ann svc ''rancher.k8s.binbash.org/floatingip-subnet'', ob_sharedKey = [],
      ob_adopting = True, ob_project = project\<rparr>"

text \<open>\<open>Inr None\<close>: nothing is held, an address has to be requested.\<close>

definition recoverAllocation :: "'w lbenv \<Rightarrow> Client \<Rightarrow> allocCtx \<Rightarrow> Service \<Rightarrow> ('w, kerr option + obtained option) lbact" where
  "recoverAllocation L c cx svc =
     (let recorded = ann svc floatingIPAnnotation; pendingProject = ann svc floatingIPRequestAnnotation in
      if recorded \<noteq> [] then State_Monad.return (Inr (Some (adopted svc recorded [])))
      else if sv_ingress svc > 0 \<or> pendingProject \<noteq> [] then
        try_with (list_with L c (cx_secret cx) (cx_pool cx))
          (\<lambda>e. Inl (Some (Wrap (''failed to list floating IPs for '' @ svc_id svc) e))) (\<lambda>fips.
          State_Monad.return
            (case lookupServiceFloatingIP fips (sdata (cx_secret cx) ''cluster'') (sv_ns svc) (sv_name svc) of
               Some recoveredIP \<Rightarrow> Inr (Some (adopted svc recoveredIP pendingProject))
             | None \<Rightarrow> if sv_ingress svc > 0 then Inl None else Inr None))
      else State_Monad.return (Inr None))"

text \<open>A refusal: report it, drop the marker, try again later.\<close>

definition refuse :: "'w lbenv \<Rightarrow> Service \<Rightarrow> string \<Rightarrow> ('w, kerr option + obtained) lbact" where
  "refuse L svc reason = do {
     _ \<leftarrow> Eventf L svc reason;
     _ \<leftarrow> clearAllocationPending L svc;
     _ \<leftarrow> requeueAfter L svc deferredRequeueDelay;
     State_Monad.return (Inl None)
   }"

definition requestFailed ::
  "'w lbenv \<Rightarrow> Client \<Rightarrow> allocCtx \<Rightarrow> Service \<Rightarrow> string \<Rightarrow> kerr \<Rightarrow> ('w, kerr option + obtained) lbact" where
  "requestFailed L c cx svc ipAddress err =
     (if str_contains (err_text L err) ''quota exceeded'' then refuse L svc ''QuotaExceeded''
      else if str_contains (err_text L err) ''denied the request'' then refuse L svc ''RequestDenied''
      else if ipAddress \<noteq> [] \<and> str_contains (err_text L err) ''IP address is already assigned'' then
        try_with (list_with L c (cx_secret cx) (cx_pool cx)) (\<lambda>listErr. Inl (Some (Wrap ''failed to request FIP'' err))) (\<lambda>fips.
          if ownsFloatingIP fips (sdata (cx_secret cx) ''cluster'') (sv_ns svc) (sv_name svc) ipAddress
          then State_Monad.return (Inr \<lparr>ob_ip = ipAddress, ob_subnet = [], ob_sharedKey = [], ob_adopting = True,
                                       ob_project = cx_project cx\<rparr>)
          else refuse L svc ''StaticIPConflict'')
      else State_Monad.return (Inl (Some (Wrap ''failed to request FIP'' err))))"

definition requestAllocation ::
  "'w lbenv \<Rightarrow> Client \<Rightarrow> allocCtx \<Rightarrow> Service \<Rightarrow> string \<Rightarrow> ('w, kerr option + obtained) lbact" where
  "requestAllocation L c cx svc grp =
     (let ipAddress = ann svc ''rancher.k8s.binbash.org/static-ip'' in
      check_with (markAllocationPending L svc (cx_project cx))
        (\<lambda>e. Inl (if IsNotFound e then None
                  else Some (Wrap (''failed to record pending FloatingIP allocation for '' @ svc_id svc) e)))
        (do {
           r \<leftarrow> request_with L c (cx_secret cx) (cx_pool cx) svc ipAddress grp;
           case r of
             Inr (ip, subnet, sharedKey) \<Rightarrow>
               State_Monad.return (Inr \<lparr>ob_ip = ip, ob_subnet = subnet, ob_sharedKey = sharedKey, ob_adopting = False,
                                       ob_project = cx_project cx\<rparr>)
           | Inl err \<Rightarrow> requestFailed L c cx svc ipAddress err
         }))"

definition obtainAddress ::
  "'w lbenv \<Rightarrow> Client \<Rightarrow> allocCtx \<Rightarrow> Service \<Rightarrow> string \<Rightarrow> ('w, kerr option + obtained) lbact" where
  "obtainAddress L c cx svc grp =
     try_with (recoverAllocation L c cx svc) Inl (\<lambda>held.
       case held of
         Some ob \<Rightarrow> State_Monad.return (Inr ob)
       | None \<Rightarrow> requestAllocation L c cx svc grp)"

section \<open>Publishing through MetalLB\<close>

text \<open>
  After a failure: an address this reconcile requested is given back; an adopted one stays. The result is
  the error to return.
\<close>

definition undoRequest ::
  "'w lbenv \<Rightarrow> Client \<Rightarrow> allocCtx \<Rightarrow> Service \<Rightarrow> string \<Rightarrow> obtained \<Rightarrow> string \<Rightarrow> (string \<Rightarrow> kerr) \<Rightarrow> ('w, kerr) lbact" where
  "undoRequest L c cx svc grp ob during mk =
     (if ob_adopting ob then State_Monad.return (mk [])
      else do {
        r \<leftarrow> release_with L c (cx_secret cx) (cx_pool cx) svc (ob_ip ob) grp;
        State_Monad.return (case r of
           None \<Rightarrow> mk []
         | Some errRelease \<Rightarrow>
             mk (''failed to release FIP during '' @ during @ '' cleanup: '' @ err_text L errRelease @ '', original error''))
      })"

text \<open>The error to return: the context of the failed call, or the one of a failed release.\<close>

definition in_context :: "string \<Rightarrow> kerr \<Rightarrow> string \<Rightarrow> kerr" where
  "in_context msg err other = Wrap (if other = [] then msg else other) err"

text \<open>
  In the overlap branch the source's \<open>err\<close> is shadowed by the \<open>nil\<close> error of \<open>GetIPAddressPools\<close>, so the \<open>%w\<close>
  verb formats \<open>nil\<close>.
\<close>

definition in_nil_context :: "string \<Rightarrow> string \<Rightarrow> kerr" where
  "in_nil_context msg other = Errorf ((if other = [] then msg else other) @ '': %!w(<nil>)'')"

text \<open>With a group the pool may exist already; the namespace is added to it.\<close>

definition joinExistingPool :: "'w lbenv \<Rightarrow> string \<Rightarrow> Service \<Rightarrow> string \<Rightarrow> string \<Rightarrow> ('w, kerr + bool) lbact" where
  "joinExistingPool L app svc grp poolName =
     (if grp = [] then State_Monad.return (Inr False)
      else do {
        r \<leftarrow> GetIPAddressPool L poolName app;
        case r of
          Inl e \<Rightarrow> State_Monad.return (Inr False)
        | Inr existingPool \<Rightarrow>
            (case ap_allocateTo existingPool of
               None \<Rightarrow> State_Monad.return (Inl Panic)
             | Some a \<Rightarrow>
                 if sv_ns svc \<in> set (al_namespaces a) then State_Monad.return (Inr True)
                 else check_with
                   (UpdateIPAddressPool L (existingPool\<lparr>ap_allocateTo := Some (a\<lparr>al_namespaces := al_namespaces a @ [sv_ns svc]\<rparr>)\<rparr>))
                   (\<lambda>e. Inl (Wrap ''failed to update IPAddressPool'' e)) (State_Monad.return (Inr True)))
      })"

definition pool_for :: "string \<Rightarrow> Service \<Rightarrow> string \<Rightarrow> string \<Rightarrow> string \<Rightarrow> IPAddressPool" where
  "pool_for app svc grp poolName ip =
     \<lparr>ap_name = poolName, ap_ns = app, ap_addresses = [addressCIDR ip],
      ap_allocateTo = Some \<lparr>al_namespaces = [sv_ns svc], al_namespaceSelectors = [],
        al_serviceSelectors = [\<lparr>sl_matchLabels =
          (if grp \<noteq> [] then [(''rancher.k8s.binbash.org/servicegroup'', grp)]
           else [(''rancher.k8s.binbash.org/service'', sv_name svc), (''rancher.k8s.binbash.org/servicenamespace'', sv_ns svc)]),
          sl_expressions = []\<rparr>]\<rparr>\<rparr>"

text \<open>The first pool that covers the address makes way, when no other Service uses the address.\<close>

definition replacePool ::
  "'w lbenv \<Rightarrow> Client \<Rightarrow> string \<Rightarrow> allocCtx \<Rightarrow> Service \<Rightarrow> string \<Rightarrow> obtained \<Rightarrow> IPAddressPool \<Rightarrow> IPAddressPool \<Rightarrow>
   ('w, kerr + bool) lbact" where
  "replacePool L c app cx svc grp ob pool p =
     try_with (addressInUse L svc (ob_ip ob)) (\<lambda>e. Inl (in_nil_context ''failed to create IPAddressPool'' [])) (\<lambda>inUse.
       if inUse then do {
         _ \<leftarrow> Eventf L svc ''AddressInUse'';
         State_Monad.return (Inl (in_nil_context ''failed to create IPAddressPool'' []))
       }
       else do {
         advErr \<leftarrow> DeleteL2Advertisement L (ap_name p) app;
         poolErr \<leftarrow> DeleteIPAddressPool L (ap_name p) app;
         if advErr \<noteq> None \<or> poolErr \<noteq> None then do {
           e \<leftarrow> undoRequest L c cx svc grp ob ''CreateIPAddressPool'' (in_nil_context ''failed to create IPAddressPool'');
           State_Monad.return (Inl e)
         }
         else do {
           r \<leftarrow> CreateIPAddressPool L pool;
           State_Monad.return (case r of
              None \<Rightarrow> Inr True
            | Some e \<Rightarrow> if IsAlreadyExists e then Inr False else Inl (Wrap ''failed to create IPAddressPool'' e))
         }
       })"

definition createPool ::
  "'w lbenv \<Rightarrow> Client \<Rightarrow> string \<Rightarrow> allocCtx \<Rightarrow> Service \<Rightarrow> string \<Rightarrow> obtained \<Rightarrow> netIP \<Rightarrow> string \<Rightarrow> ('w, kerr + bool) lbact" where
  "createPool L c app cx svc grp ob ip poolName =
     (let pool = pool_for app svc grp poolName (ob_ip ob) in do {
        r \<leftarrow> CreateIPAddressPool L pool;
        case r of
          None \<Rightarrow> State_Monad.return (Inr True)
        | Some err \<Rightarrow>
            if IsAlreadyExists err then State_Monad.return (Inr False)
            else if str_contains (err_text L err) ''overlaps with already defined CIDR'' then
              try_with (GetIPAddressPools L app) (\<lambda>e. Inl (Wrap ''failed to get IPAddressPools'' e)) (\<lambda>pools.
                case find (\<lambda>p. poolContainsAddress (ap_addresses p) ip) pools of
                  None \<Rightarrow> State_Monad.return (Inr False)
                | Some p \<Rightarrow> replacePool L c app cx svc grp ob pool p)
            else do {
              e \<leftarrow> undoRequest L c cx svc grp ob ''CreateIPAddressPool'' (in_context ''failed to create IPAddressPool'' err);
              State_Monad.return (Inl e)
            }
      })"

definition createAdvertisement ::
  "'w lbenv \<Rightarrow> Client \<Rightarrow> string \<Rightarrow> allocCtx \<Rightarrow> Service \<Rightarrow> string \<Rightarrow> obtained \<Rightarrow> string \<Rightarrow> ('w, kerr option) lbact" where
  "createAdvertisement L c app cx svc grp ob poolName = do {
     r \<leftarrow> CreateL2Advertisement L \<lparr>la_name = poolName, la_ns = app, la_pools = [poolName], la_interfaces = [cx_interface cx]\<rparr>;
     case r of
       None \<Rightarrow> State_Monad.return None
     | Some err \<Rightarrow>
         if IsAlreadyExists err then State_Monad.return None
         else try_with (addressInUse L svc (ob_ip ob)) (\<lambda>e. Some (Wrap ''failed to create L2Advertisement'' err)) (\<lambda>inUse.
           if inUse then do {
             _ \<leftarrow> Eventf L svc ''AddressInUse'';
             State_Monad.return (Some (Wrap ''failed to create L2Advertisement'' err))
           }
           else check_with (DeleteIPAddressPool L poolName app)
             (\<lambda>errDelete. Some (Wrap (''failed to delete IPAddressPool during CreateL2Advertisement cleanup: ''
                                       @ err_text L errDelete @ '', original error'') err))
             (do {
                e \<leftarrow> undoRequest L c cx svc grp ob ''CreateL2Advertisement'' (in_context ''failed to create L2Advertisement'' err);
                State_Monad.return (Some e)
              }))
   }"

text \<open>The result tells whether this reconcile created the pool.\<close>

definition publishMetalLB ::
  "'w lbenv \<Rightarrow> Client \<Rightarrow> string \<Rightarrow> allocCtx \<Rightarrow> Service \<Rightarrow> string \<Rightarrow> obtained \<Rightarrow> netIP \<Rightarrow> string \<Rightarrow> ('w, kerr + bool) lbact" where
  "publishMetalLB L c app cx svc grp ob ip poolName =
     try_with (joinExistingPool L app svc grp poolName) Inl (\<lambda>poolAlreadyExists.
       if poolAlreadyExists then State_Monad.return (Inr False)
       else try_with (createPool L c app cx svc grp ob ip poolName) Inl (\<lambda>createdPool.
         check_with (createAdvertisement L c app cx svc grp ob poolName) Inl (State_Monad.return (Inr createdPool))))"

section \<open>Publishing through PureLB\<close>

definition group_for :: "string \<Rightarrow> obtained \<Rightarrow> netIP \<Rightarrow> string \<Rightarrow> ServiceGroup" where
  "group_for app ob ip poolName =
     (let addressPool = \<lparr>pp_aggregation = ''default'', pp_pool = addressCIDR (ob_ip ob), pp_subnet = ob_subnet ob\<rparr> in
      if To4 ip \<noteq> None then \<lparr>sg_name = poolName, sg_ns = app, sg_v4pools = [addressPool], sg_v6pools = []\<rparr>
      else \<lparr>sg_name = poolName, sg_ns = app, sg_v4pools = [], sg_v6pools = [addressPool]\<rparr>)"

definition existingServiceGroup :: "'w lbenv \<Rightarrow> string \<Rightarrow> string \<Rightarrow> obtained \<Rightarrow> string \<Rightarrow> ('w, kerr + bool) lbact" where
  "existingServiceGroup L app grp ob poolName =
     (if grp \<noteq> [] \<or> (ob_adopting ob \<and> ob_subnet ob = []) then
        try_with (GetServiceGroups L app) (\<lambda>e. Inl (Wrap ''failed to get ServiceGroups'' e)) (\<lambda>groups.
          State_Monad.return (Inr (list_ex (\<lambda>sg. sg_name sg = poolName) groups)))
      else State_Monad.return (Inr False))"

definition publishPureLB ::
  "'w lbenv \<Rightarrow> Client \<Rightarrow> string \<Rightarrow> allocCtx \<Rightarrow> Service \<Rightarrow> string \<Rightarrow> obtained \<Rightarrow> netIP \<Rightarrow> string \<Rightarrow> ('w, kerr + bool) lbact" where
  "publishPureLB L c app cx svc grp ob ip poolName =
     try_with (existingServiceGroup L app grp ob poolName) Inl (\<lambda>found.
       if found then State_Monad.return (Inr False)
       else if ob_adopting ob \<and> ob_subnet ob = [] then do {
         _ \<leftarrow> Eventf L svc ''MissingServiceGroupSubnet'';
         State_Monad.return (Inr False)
       }
       else do {
         r \<leftarrow> CreateServiceGroup L (group_for app ob ip poolName);
         case r of
           None \<Rightarrow> State_Monad.return (Inr True)
         | Some err \<Rightarrow>
             if IsAlreadyExists err then State_Monad.return (Inr False)
             else try_with (addressInUse L svc (ob_ip ob)) (\<lambda>e. Inl (Wrap ''failed to create ServiceGroup'' err)) (\<lambda>inUse.
               if inUse then do {
                 _ \<leftarrow> Eventf L svc ''AddressInUse'';
                 State_Monad.return (Inl (Wrap ''failed to create ServiceGroup'' err))
               }
               else do {
                 e \<leftarrow> undoRequest L c cx svc grp ob ''CreateServiceGroup'' (in_context ''failed to create ServiceGroup'' err);
                 State_Monad.return (Inl e)
               })
       })"

definition publish ::
  "'w lbenv \<Rightarrow> Client \<Rightarrow> string \<Rightarrow> allocCtx \<Rightarrow> Service \<Rightarrow> string \<Rightarrow> obtained \<Rightarrow> netIP \<Rightarrow> string \<Rightarrow> ('w, kerr + bool) lbact" where
  "publish L c app cx svc grp ob ip poolName =
     (if sdata (cx_secret cx) ''loadBalancerType'' = ''metallb'' then publishMetalLB L c app cx svc grp ob ip poolName
      else if sdata (cx_secret cx) ''loadBalancerType'' = ''purelb'' then publishPureLB L c app cx svc grp ob ip poolName
      else State_Monad.return (Inr False))"

section \<open>Recording the allocation\<close>

text \<open>Assignments that report whether they changed anything, in sequence.\<close>

definition put_label :: "string \<Rightarrow> string \<Rightarrow> Service \<Rightarrow> bool \<times> Service" where
  "put_label k v svc =
     (if label (sv_labels svc) k = v then (False, svc)
      else (True, svc\<lparr>sv_labels := Some (AList.update k v (mof (sv_labels svc)))\<rparr>))"

definition put_ann_if :: "bool \<Rightarrow> string \<Rightarrow> string \<Rightarrow> Service \<Rightarrow> bool \<times> Service" where
  "put_ann_if b k v svc = (if b then put_ann k v svc else (False, svc))"

definition add_finalizer :: "Service \<Rightarrow> bool \<times> Service" where
  "add_finalizer svc =
     (if lbContainsString (sv_finalizers svc) lbFinalizer then (False, svc)
      else (True, svc\<lparr>sv_finalizers := sv_finalizers svc @ [lbFinalizer]\<rparr>))"

definition and_then :: "(Service \<Rightarrow> bool \<times> Service) \<Rightarrow> (Service \<Rightarrow> bool \<times> Service) \<Rightarrow> Service \<Rightarrow> bool \<times> Service" where
  "and_then f g svc = (case f svc of (c1, s1) \<Rightarrow> case g s1 of (c2, s2) \<Rightarrow> (c1 \<or> c2, s2))"

definition share_ann :: "string \<Rightarrow> obtained \<Rightarrow> string \<Rightarrow> Service \<Rightarrow> bool \<times> Service" where
  "share_ann lbType ob poolName svc =
     (let shares = ann svc ''rancher.k8s.binbash.org/floatingip-group'' \<noteq> [] \<and> ob_sharedKey ob \<noteq> [] in
      if lbType = ''metallb'' then put_ann_if shares ''metallb.io/allow-shared-ip'' (ob_sharedKey ob) svc
      else if lbType = ''purelb'' then
        and_then (put_ann ''purelb.io/service-group'' poolName) (put_ann_if shares ''purelb.io/allow-shared-ip'' (ob_sharedKey ob)) svc
      else (False, svc))"

definition record_allocation :: "string \<Rightarrow> string \<Rightarrow> obtained \<Rightarrow> string \<Rightarrow> Service \<Rightarrow> bool \<times> Service" where
  "record_allocation lbType grp ob poolName svc =
     and_then (\<lambda>s. put_label ''rancher.k8s.binbash.org/service'' (sv_name s) s)
    (and_then (\<lambda>s. put_label ''rancher.k8s.binbash.org/servicenamespace'' (sv_ns s) s)
    (and_then (\<lambda>s. if grp \<noteq> [] then put_label ''rancher.k8s.binbash.org/servicegroup'' grp s else (False, s))
    (and_then (put_ann floatingIPAnnotation (ob_ip ob))
    (and_then (drop_ann floatingIPRequestAnnotation)
    (and_then (put_ann_if (ob_subnet ob \<noteq> []) ''rancher.k8s.binbash.org/floatingip-subnet'' (ob_subnet ob))
    (and_then (put_ann_if (ob_project ob \<noteq> []) projectAnnotation (ob_project ob))
    (and_then (share_ann lbType ob poolName) add_finalizer))))))) svc"

definition removePublished :: "'w lbenv \<Rightarrow> string \<Rightarrow> Secret \<Rightarrow> string \<Rightarrow> kerr \<Rightarrow> ('w, kerr option) lbact" where
  "removePublished L app secret poolName err =
     (let failed = (\<lambda>what e. Some (Wrap (''failed to delete '' @ what @ '' during finalizer update cleanup: ''
                                          @ err_text L e @ '', original error'') err)) in
      if sdata secret ''loadBalancerType'' = ''metallb'' then
        check_with (DeleteL2Advertisement L poolName app) (failed ''L2Advertisement'')
          (check_with (DeleteIPAddressPool L poolName app) (failed ''IPAddressPool'') (State_Monad.return None))
      else if sdata secret ''loadBalancerType'' = ''purelb'' then
        check_with (DeleteServiceGroup L poolName app) (failed ''ServiceGroup'') (State_Monad.return None)
      else State_Monad.return None)"

definition undoAllocation ::
  "'w lbenv \<Rightarrow> Client \<Rightarrow> string \<Rightarrow> allocCtx \<Rightarrow> Service \<Rightarrow> string \<Rightarrow> obtained \<Rightarrow> string \<Rightarrow> bool \<Rightarrow> kerr \<Rightarrow>
   ('w, kerr option) lbact" where
  "undoAllocation L c app cx svc grp ob poolName createdPool err =
     (let failed = ''failed to add finalizer, label and annotation to service '' @ svc_id svc in
      try_with (addressInUse L svc (ob_ip ob)) (\<lambda>e. Some (Wrap failed err)) (\<lambda>inUse.
        if inUse then State_Monad.return (Some (Wrap failed err))
        else check_with (if createdPool then removePublished L app (cx_secret cx) poolName err else State_Monad.return None) Some
          (do {
             e \<leftarrow> undoRequest L c cx svc grp ob ''finalizer update'' (in_context failed err);
             State_Monad.return (Some e)
           })))"

text \<open>
  The record is written last. When the Service is gone by then, its allocation is released; if that fails the address
  is put on the object in hand, which the caller keeps as a snapshot.
\<close>

definition finishAllocation ::
  "'w lbenv \<Rightarrow> Client \<Rightarrow> string \<Rightarrow> allocCtx \<Rightarrow> Service \<Rightarrow> string \<Rightarrow> obtained \<Rightarrow> string \<Rightarrow> bool \<Rightarrow>
   ('w, kerr option \<times> Service) lbact" where
  "finishAllocation L c app cx svc grp ob poolName createdPool = do {
     r \<leftarrow> updateService L (sv_ns svc) (sv_name svc)
            (record_allocation (sdata (cx_secret cx) ''loadBalancerType'') grp ob poolName);
     case r of
       None \<Rightarrow> State_Monad.return (None, svc)
     | Some err \<Rightarrow>
         if IsNotFound err then
           (if ob_ip ob = [] then State_Monad.return (None, svc)
            else do {
              e \<leftarrow> releaseVanishedAllocation L app svc (cx_project cx) (cx_secret cx) (ob_ip ob) poolName (cx_pool cx);
              State_Monad.return (case e of
                 Some cleanupErr \<Rightarrow> (Some cleanupErr, set_ann floatingIPAnnotation (ob_ip ob) svc)
               | None \<Rightarrow> (None, svc))
            })
         else do {
           e \<leftarrow> undoAllocation L c app cx svc grp ob poolName createdPool err;
           State_Monad.return (e, svc)
         }
   }"

text \<open>From the configuration to the record.\<close>

definition allocateIn :: "'w lbenv \<Rightarrow> string \<Rightarrow> Service \<Rightarrow> allocCtx \<Rightarrow> ('w, kerr option \<times> Service) lbact" where
  "allocateIn L app svc cx =
     (let grp = ann svc ''rancher.k8s.binbash.org/floatingip-group'' in
      try_with (ipamClientFor (cx_project cx) (cx_secret cx)) (\<lambda>e. (Some (Wrap ''failed to create IPAM client'' e), svc)) (\<lambda>c.
      try_with (obtainAddress L c cx svc grp) (\<lambda>r. (r, svc)) (\<lambda>ob.
        case ParseIP (ob_ip ob) of
          None \<Rightarrow> State_Monad.return (Some (Errorf (''failed to parse allocated IP address: '' @ ob_ip ob)), svc)
        | Some ip \<Rightarrow>
            let poolName = poolNameForAddress L (ob_ip ob) in
            try_with (publish L c app cx svc grp ob ip poolName) (\<lambda>e. (Some e, svc)) (\<lambda>createdPool.
              finishAllocation L c app cx svc grp ob poolName createdPool))))"

definition reconcileAllocation :: "'w lbenv \<Rightarrow> string \<Rightarrow> Service \<Rightarrow> ('w, kerr option \<times> Service) lbact" where
  "reconcileAllocation L app svc = try_with (prepareAllocation L app svc) (\<lambda>r. (r, svc)) (allocateIn L app svc)"

text \<open>\<open>reconciler.reconcile\<close>: the error and the Service object in hand.\<close>

definition lbReconcile :: "'w lbenv \<Rightarrow> string \<Rightarrow> Service \<Rightarrow> ('w, kerr option \<times> Service) lbact" where
  "lbReconcile L app svc =
     (if sv_deleted svc \<or> (sv_type svc \<noteq> ''LoadBalancer'' \<and> hasFloatingIPRecord svc) then do {
        r \<leftarrow> reconcileDeletion L app svc;
        State_Monad.return (r, svc)
      }
      else if sv_type svc \<noteq> ''LoadBalancer'' then State_Monad.return (None, svc)
      else reconcileAllocation L app svc)"

section \<open>The controller\<close>

definition rememberTombstone :: "'w lbenv \<Rightarrow> Service \<Rightarrow> ('w, unit) lbact" where
  "rememberTombstone L svc =
     (if \<not> lbContainsString (sv_finalizers svc) lbFinalizer \<and> ann svc floatingIPAnnotation = [] \<and>
         ann svc floatingIPRequestAnnotation = []
      then State_Monad.return ()
      else case SvcKeyFunc L svc of
          None \<Rightarrow> State_Monad.return ()
        | Some key \<Rightarrow> State (\<lambda>s. ((), s\<lparr>lb_tombstones := AList.update key svc (lb_tombstones s)\<rparr>)))"

definition peekTombstone :: "string \<Rightarrow> ('w, Service option) lbact" where
  "peekTombstone key = State (\<lambda>s. (map_of (lb_tombstones s) key, s))"

definition takeTombstone :: "string \<Rightarrow> ('w, Service option) lbact" where
  "takeTombstone key = State (\<lambda>s. (map_of (lb_tombstones s) key, s\<lparr>lb_tombstones := AList.delete key (lb_tombstones s)\<rparr>))"

text \<open>
  \<open>Controller.reconcile\<close>. The snapshot is a pointer into the map, so the deletion mark set here stays in
  the map when the cleanup fails. A panic leaves the function at once.
\<close>

definition reconcileKey :: "'w lbenv \<Rightarrow> string \<Rightarrow> string \<Rightarrow> ('w, kerr option) lbact" where
  "reconcileKey L app key =
     (case SplitSvcKey L key of
        None \<Rightarrow> State_Monad.return None
      | Some _ \<Rightarrow>
          try_with (SvcByKey L key) Some (\<lambda>obj.
            case obj of
              None \<Rightarrow> do {
                t \<leftarrow> peekTombstone key;
                case t of
                  None \<Rightarrow> State_Monad.return None
                | Some snap \<Rightarrow> do {
                    let svc = snap\<lparr>sv_deleted := True\<rparr>;
                    _ \<leftarrow> State (\<lambda>s. ((), s\<lparr>lb_tombstones := AList.update key svc (lb_tombstones s)\<rparr>));
                    r \<leftarrow> lbReconcile L app svc;
                    case r of
                      (Some e, _) \<Rightarrow> State_Monad.return (Some e)
                    | (None, _) \<Rightarrow> do { _ \<leftarrow> takeTombstone key; State_Monad.return None }
                  }
              }
            | Some svc \<Rightarrow> do {
                _ \<leftarrow> takeTombstone key;
                r \<leftarrow> lbReconcile L app svc;
                case r of
                  (Some e, svc') \<Rightarrow>
                    if e = Panic then State_Monad.return (Some Panic)
                    else do { _ \<leftarrow> rememberTombstone L svc'; State_Monad.return (Some e) }
                | (None, _) \<Rightarrow> State_Monad.return None
              }))"

section \<open>Events\<close>

definition indexServiceByFloatingIP :: "Service option \<Rightarrow> string list" where
  "indexServiceByFloatingIP obj =
     (case obj of
        None \<Rightarrow> []
      | Some svc \<Rightarrow> let ipAddress = ann svc floatingIPAnnotation in if ipAddress \<noteq> [] then [ipAddress] else [])"

definition reconcileAnnotations :: "string list" where
  "reconcileAnnotations =
     [floatingIPAnnotation, ''rancher.k8s.binbash.org/floatingip-group'', ''rancher.k8s.binbash.org/static-ip'',
      ''rancher.k8s.binbash.org/static-network'', projectAnnotation]"

definition serviceNeedsReconcile :: "Service \<Rightarrow> Service \<Rightarrow> bool" where
  "serviceNeedsReconcile oldSvc newSvc =
     (if sv_deleted newSvc then True
      else if sv_type newSvc \<noteq> ''LoadBalancer'' then sv_type oldSvc = ''LoadBalancer'' \<or> hasFloatingIPRecord newSvc
      else if sv_type oldSvc \<noteq> ''LoadBalancer'' then True
      else if sv_rv oldSvc = sv_rv newSvc then True
      else if lbContainsString (sv_finalizers oldSvc) lbFinalizer \<noteq> lbContainsString (sv_finalizers newSvc) lbFinalizer then True
      else list_ex (\<lambda>a. ann oldSvc a \<noteq> ann newSvc a) reconcileAnnotations)"

text \<open>The keys an event puts on the queue; \<open>None\<close> for an object that is not a Service.\<close>

definition lbEnqueue :: "'w lbenv \<Rightarrow> Service \<Rightarrow> string list" where
  "lbEnqueue L svc = (case SvcKeyFunc L svc of None \<Rightarrow> [] | Some key \<Rightarrow> [key])"

definition addFunc :: "'w lbenv \<Rightarrow> Service option \<Rightarrow> string list" where
  "addFunc L obj =
     (case obj of
        None \<Rightarrow> []
      | Some service \<Rightarrow>
          if sv_type service = ''LoadBalancer'' \<or> hasFloatingIPRecord service then lbEnqueue L service else [])"

definition updateFunc :: "'w lbenv \<Rightarrow> Service option \<Rightarrow> Service option \<Rightarrow> string list" where
  "updateFunc L oldObj newObj =
     (case (oldObj, newObj) of
        (Some oldSvc, Some service) \<Rightarrow> if serviceNeedsReconcile oldSvc service then lbEnqueue L service else []
      | _ \<Rightarrow> [])"

datatype deleteEvent = DeletedSvc Service | DeletedFinalStateUnknown "Service option" | DeletedOther

definition deleteFunc :: "'w lbenv \<Rightarrow> deleteEvent \<Rightarrow> ('w, string list) lbact" where
  "deleteFunc L obj =
     (case obj of
        DeletedSvc service \<Rightarrow> State_Monad.return (lbEnqueue L service)
      | DeletedFinalStateUnknown (Some service) \<Rightarrow> do {
          _ \<leftarrow> rememberTombstone L service;
          State_Monad.return (lbEnqueue L service)
        }
      | DeletedFinalStateUnknown None \<Rightarrow> State_Monad.return []
      | DeletedOther \<Rightarrow> State_Monad.return [])"

end
