(* ===== verification/Lb_Trace.thy ===== *)
theory Lb_Trace
  imports Lb_Allocate Trace_Logic
begin

text \<open>
  What the load balancer controller does, seen from outside: a trace of the calls it makes, and a Hoare logic over traces.

  \<open>observes L lg\<close> says that \<open>lg\<close> reads a log off the outside world to which every call of the environment \<open>L\<close> adds
  exactly what it did, and that a Service is found under its own name: the Services it read, wrote or did not find, the pools it read, made and removed, the
  messages it sent with their answers. Beyond that the calls are arbitrary. Every world can be
  extended by such a log, so the hypothesis does not restrict the environment; it gives the theorems a vocabulary. The
  retry helper is constrained as documented: it runs its function again only after a conflict.
\<close>

section \<open>Events\<close>

datatype lbev =
    SvcRead string string Service
  | SvcMissing string string
  | SvcDeleted string string "kerr option"
  | SvcWritten Service
  | PoolRead string IPAddressPool
  | SecretRead string "Secret option"
  | Sent string "(string, string) gomap" "kerr + nat \<times> (kerr + string)"
  | AdvGone string
  | PoolGone string
  | GroupGone string
  | PoolMade IPAddressPool
  | PoolChanged IPAddressPool
  | AdvMade L2Advertisement
  | GroupMade ServiceGroup
  | Reported Service string

type_synonym trace = "lbev list"

text \<open>The logic of \<open>Trace_Logic\<close>, with the log in the controller's world.\<close>

abbreviation logs :: "('w \<Rightarrow> trace) \<Rightarrow> ('w, 'a) lbact \<Rightarrow> ('a \<Rightarrow> trace) \<Rightarrow> bool" where
  "logs lg \<equiv> Trace_Logic.logs (\<lambda>s. lg (lb_world s))"

abbreviation hoare :: "('w \<Rightarrow> trace) \<Rightarrow> (trace \<Rightarrow> bool) \<Rightarrow> ('w, 'a) lbact \<Rightarrow> ('a \<Rightarrow> trace \<Rightarrow> bool) \<Rightarrow> bool" where
  "hoare lg \<equiv> Trace_Logic.hoare (\<lambda>s. lg (lb_world s))"

abbreviation emits :: "('w \<Rightarrow> trace) \<Rightarrow> (lbev \<Rightarrow> bool) \<Rightarrow> ('w, 'a) lbact \<Rightarrow> bool" where
  "emits lg \<equiv> Trace_Logic.emits (\<lambda>s. lg (lb_world s))"

abbreviation stable :: "('w \<Rightarrow> trace) \<Rightarrow> (trace \<Rightarrow> bool) \<Rightarrow> ('w, 'a) lbact \<Rightarrow> bool" where
  "stable lg \<equiv> Trace_Logic.stable (\<lambda>s. lg (lb_world s))"

text \<open>A removal counts when it succeeded or found nothing to remove.\<close>

definition gone :: "kerr option \<Rightarrow> bool" where
  "gone r = (case r of None \<Rightarrow> True | Some e \<Rightarrow> IsNotFound e)"

definition observes :: "'w lbenv \<Rightarrow> ('w \<Rightarrow> trace) \<Rightarrow> bool" where
  "observes L lg \<longleftrightarrow>
     (\<forall>ns n s svc s'. run_state (GetSvc L ns n) s = (Inr svc, s') \<longrightarrow> sv_ns svc = ns \<and> sv_name svc = n) \<and>
     (\<forall>ns n. logs lg (GetSvc L ns n) (\<lambda>r. case r of Inr svc \<Rightarrow> [SvcRead ns n svc]
        | Inl e \<Rightarrow> if IsNotFound e then [SvcMissing ns n] else [])) \<and>
     (\<forall>svc. logs lg (UpdateSvc L svc) (\<lambda>r. case r of Inr _ \<Rightarrow> [SvcWritten svc]
        | Inl e \<Rightarrow> if IsNotFound e then [SvcMissing (sv_ns svc) (sv_name svc)] else [])) \<and>
     (\<forall>ns sel. logs lg (ListSvcs L ns sel) (\<lambda>r. case r of Inr items \<Rightarrow> map (\<lambda>x. SvcRead (sv_ns x) (sv_name x) x) items | Inl e \<Rightarrow> [])) \<and>
     (\<forall>ip. logs lg (SvcByIndex L ip) (\<lambda>_. [])) \<and> (\<forall>k. logs lg (SvcByKey L k) (\<lambda>_. [])) \<and>
     (\<forall>f s r s'. run_state (SvcRetry L f) s = (r, s') \<longrightarrow> attempts f s r s') \<and>
     (\<forall>n. logs lg (GetNamespace L n) (\<lambda>_. [])) \<and> (\<forall>ns n. logs lg (GetSecretObj L ns n) (\<lambda>r. [SecretRead n (case r of Inr secret \<Rightarrow> Some secret | Inl e \<Rightarrow> None)])) \<and>
     (\<forall>ns n. logs lg (GetConfigMap L ns n) (\<lambda>_. [])) \<and>
     (\<forall>n ns. logs lg (GetIPAddressPool L n ns) (\<lambda>r. case r of Inr p \<Rightarrow> [PoolRead n p] | Inl e \<Rightarrow> [])) \<and>
     (\<forall>ns. logs lg (GetIPAddressPools L ns) (\<lambda>r. case r of Inr ps \<Rightarrow> map (\<lambda>p. PoolRead (ap_name p) p) ps | Inl e \<Rightarrow> [])) \<and>
     (\<forall>p. logs lg (CreateIPAddressPool L p) (\<lambda>_. [PoolMade p])) \<and> (\<forall>p. logs lg (UpdateIPAddressPool L p) (\<lambda>_. [PoolChanged p])) \<and>
     (\<forall>n ns. logs lg (DeleteIPAddressPool L n ns) (\<lambda>r. if gone r then [PoolGone n] else [])) \<and>
     (\<forall>a. logs lg (CreateL2Advertisement L a) (\<lambda>_. [AdvMade a])) \<and>
     (\<forall>n ns. logs lg (DeleteL2Advertisement L n ns) (\<lambda>r. if gone r then [AdvGone n] else [])) \<and>
     (\<forall>ns. logs lg (GetServiceGroups L ns) (\<lambda>_. [])) \<and> (\<forall>g. logs lg (CreateServiceGroup L g) (\<lambda>_. [GroupMade g])) \<and>
     (\<forall>n ns. logs lg (DeleteServiceGroup L n ns) (\<lambda>r. if gone r then [GroupGone n] else [])) \<and>
     (\<forall>m url t b. logs lg (Http L m url t b) (\<lambda>r. [Sent url b r])) \<and>
     (\<forall>ip. logs lg (LockAddr L ip) (\<lambda>_. [])) \<and> (\<forall>ip. logs lg (UnlockAddr L ip) (\<lambda>_. [])) \<and>
     (\<forall>svc x. logs lg (Eventf L svc x) (\<lambda>_. [Reported svc x])) \<and> (\<forall>k d. logs lg (AddAfter L k d) (\<lambda>_. []))"

lemma observes_logs:
  assumes "observes L lg"
  shows "logs lg (GetSvc L ns n) (\<lambda>r. case r of Inr svc \<Rightarrow> [SvcRead ns n svc] | Inl e \<Rightarrow> if IsNotFound e then [SvcMissing ns n] else [])"
    "logs lg (UpdateSvc L svc) (\<lambda>r. case r of Inr _ \<Rightarrow> [SvcWritten svc]
       | Inl e \<Rightarrow> if IsNotFound e then [SvcMissing (sv_ns svc) (sv_name svc)] else [])"
    "logs lg (ListSvcs L ns sel) (\<lambda>r. case r of Inr items \<Rightarrow> map (\<lambda>x. SvcRead (sv_ns x) (sv_name x) x) items | Inl e \<Rightarrow> [])"
    "logs lg (SvcByIndex L ip) (\<lambda>_. [])" "logs lg (SvcByKey L k) (\<lambda>_. [])"
    "logs lg (GetNamespace L n) (\<lambda>_. [])" "logs lg (GetSecretObj L ns n) (\<lambda>r. [SecretRead n (case r of Inr secret \<Rightarrow> Some secret | Inl e \<Rightarrow> None)])"
    "logs lg (GetConfigMap L ns n) (\<lambda>_. [])"
    "logs lg (GetIPAddressPool L n ns) (\<lambda>r. case r of Inr p \<Rightarrow> [PoolRead n p] | Inl e \<Rightarrow> [])"
    "logs lg (GetIPAddressPools L ns) (\<lambda>r. case r of Inr ps \<Rightarrow> map (\<lambda>p. PoolRead (ap_name p) p) ps | Inl e \<Rightarrow> [])"
    "logs lg (CreateIPAddressPool L p) (\<lambda>_. [PoolMade p])" "logs lg (UpdateIPAddressPool L p) (\<lambda>_. [PoolChanged p])"
    "logs lg (DeleteIPAddressPool L n ns) (\<lambda>r. if gone r then [PoolGone n] else [])"
    "logs lg (CreateL2Advertisement L a) (\<lambda>_. [AdvMade a])"
    "logs lg (DeleteL2Advertisement L n ns) (\<lambda>r. if gone r then [AdvGone n] else [])"
    "logs lg (GetServiceGroups L ns) (\<lambda>_. [])" "logs lg (CreateServiceGroup L g) (\<lambda>_. [GroupMade g])"
    "logs lg (DeleteServiceGroup L n ns) (\<lambda>r. if gone r then [GroupGone n] else [])"
    "logs lg (Http L m url t b) (\<lambda>r. [Sent url b r])" "logs lg (LockAddr L ip) (\<lambda>_. [])" "logs lg (UnlockAddr L ip) (\<lambda>_. [])"
    "logs lg (Eventf L svc x) (\<lambda>_. [Reported svc x])" "logs lg (AddAfter L k d) (\<lambda>_. [])"
  using assms by (simp_all only: observes_def)

lemma observes_retry: "observes L lg \<Longrightarrow> run_state (SvcRetry L f) s = (r, s') \<Longrightarrow> attempts f s r s'"
  by (simp only: observes_def)

lemma observes_get: "observes L lg \<Longrightarrow> run_state (GetSvc L ns n) s = (Inr svc, s') \<Longrightarrow> sv_ns svc = ns \<and> sv_name svc = n"
  by (simp only: observes_def)

section \<open>The calls of the controller\<close>

lemma hoare_ipamClientFor: "hoare lg P (ipamClientFor p secret) (\<lambda>_. P)"
  by (rule hoare_silent)
    (auto simp: ipamClientFor_def Let_def split: option.splits sum.splits if_splits)

lemma hoare_retry:
  assumes "observes L lg" "hoare lg P f Q" "\<And>e h. IsConflict e \<Longrightarrow> Q (Some e) h \<Longrightarrow> P h"
  shows "hoare lg P (SvcRetry L f) Q"
  unfolding hoare_def
proof (intro allI impI)
  fix s r s' h
  assume "run_state (SvcRetry L f) s = (r, s')" and "P h"
  from observes_retry [OF assms(1) this(1)] this(2) assms(2)
  show "\<exists>tr. lg (lb_world s') = lg (lb_world s) @ tr \<and> Q r (h @ tr)"
    using assms(3) by (intro hoare_attempts) auto
qed

lemma emits_ipamClientFor [emits_intro]: "emits lg B (ipamClientFor p secret)"
  by (rule emitsI) (rule hoare_ipamClientFor)

lemma emits_retry [emits_intro]: "observes L lg \<Longrightarrow> emits lg B f \<Longrightarrow> emits lg B (SvcRetry L f)"
  by (rule emitsI, rule hoare_retry) (auto dest: emitsD)

end
