(* ===== verification/Lb_Events.thy ===== *)
theory Lb_Events
  imports Lb_Trace
begin

text \<open>
  Which events the parts of the load balancer controller's reconciler can cause: lemmas \<open>emits\<close> for the parts that only read
  or only keep records, and triples for the parts whose result depends on what they saw (the check for
  other users of an address, withdrawing, releasing, requesting, updating a Service).
\<close>

section \<open>Kinds of events\<close>

fun is_release :: "lbev \<Rightarrow> bool" where
  "is_release (Sent url b r) = suffix ''/fip/release'' url"
| "is_release _ = False"

fun is_request :: "lbev \<Rightarrow> bool" where
  "is_request (Sent url b r) = suffix ''/fip/request'' url"
| "is_request _ = False"

fun harmless :: "lbev \<Rightarrow> bool" where
  "harmless (Sent url b r) = (\<not> suffix ''/fip/release'' url \<and> \<not> suffix ''/fip/request'' url)"
| "harmless (SvcRead ns n svc) = True"
| "harmless (SvcMissing ns n) = True"
| "harmless (PoolRead n p) = True"
| "harmless (SecretRead n s) = True"
| "harmless (Reported svc x) = True"
| "harmless _ = False"

fun is_write :: "lbev \<Rightarrow> bool" where
  "is_write (SvcWritten svc) = True"
| "is_write _ = False"

definition record_keeping :: "lbev \<Rightarrow> bool" where
  "record_keeping e \<longleftrightarrow> harmless e \<or> is_write e"

lemma record_keeping_simps [simp]:
  "harmless e \<Longrightarrow> record_keeping e" "record_keeping (SvcWritten svc)"
  by (auto simp: record_keeping_def)

lemma harmless_not: "harmless e \<Longrightarrow> \<not> is_release e" "harmless e \<Longrightarrow> \<not> is_request e" "harmless e \<Longrightarrow> \<not> is_write e"
  by (cases e; simp)+

lemma record_keeping_not: "record_keeping e \<Longrightarrow> \<not> is_release e" "record_keeping e \<Longrightarrow> \<not> is_request e"
  unfolding record_keeping_def by (cases e; simp)+

lemma suffix_paths [simp]:
  "\<not> suffix ''/fip/release'' (a @ ''/auth/token'')" "\<not> suffix ''/fip/request'' (a @ ''/auth/token'')"
  "\<not> suffix ''/fip/release'' (a @ ''/fip/list'')" "\<not> suffix ''/fip/request'' (a @ ''/fip/list'')"
  "\<not> suffix ''/fip/release'' (a @ ''/fip/request'')" "\<not> suffix ''/fip/request'' (a @ ''/fip/release'')"
  by (simp_all add: suffix_to_prefix)

lemma keeps_subset: "keeps B P \<Longrightarrow> (\<And>e. B' e \<Longrightarrow> B e) \<Longrightarrow> keeps B' P"
  by (auto simp: keeps_def)

lemma keeps_in: "keeps B (\<lambda>h. x \<in> set h)"
  by (auto simp: keeps_def)

lemma keeps_mem: "keeps B (\<lambda>h. \<exists>e \<in> set h. F e)"
  by (auto simp: keeps_def)

text \<open>What an update leaves behind: nothing to do, a write, or an error.\<close>

definition updated ::
  "(trace \<Rightarrow> bool) \<Rightarrow> string \<Rightarrow> string \<Rightarrow> (Service \<Rightarrow> bool \<times> Service) \<Rightarrow> kerr option \<Rightarrow> trace \<Rightarrow> bool" where
  "updated P ns n mutate r h \<longleftrightarrow>
     (case r of
        Some e \<Rightarrow> P h \<and> (IsNotFound e \<longrightarrow> SvcMissing ns n \<in> set h)
      | None \<Rightarrow> \<exists>h0 cur. P h0 \<and> sv_ns cur = ns \<and> sv_name cur = n \<and>
          (if fst (mutate cur) then h = h0 @ [SvcRead ns n cur, SvcWritten (snd (mutate cur))] else h = h0 @ [SvcRead ns n cur]))"

lemma updated_same:
  "P h0 \<Longrightarrow> \<not> fst (mutate cur) \<Longrightarrow> updated P (sv_ns cur) (sv_name cur) mutate None (h0 @ [SvcRead (sv_ns cur) (sv_name cur) cur])"
  unfolding updated_def by (simp, intro exI [of _ h0] conjI exI [of _ cur]) simp_all

text \<open>An answer the client takes as a release, and the pool of an address being withdrawn.\<close>

definition release_accepted :: "'w lbenv \<Rightarrow> kerr + nat \<times> (kerr + string) \<Rightarrow> bool" where
  "release_accepted L res \<longleftrightarrow>
     (case res of
        Inl e \<Rightarrow> False
      | Inr (code, b) \<Rightarrow> code = 404 \<or> code = 410 \<or> code = 200 \<and> (\<exists>body. b = Inr body \<and> DecodeRelease L body = Inr ''released''))"

text \<open>An answer that grants the address \<open>ip\<close>, and an answer with the list \<open>fips\<close>.\<close>

definition answers :: "'w lbenv \<Rightarrow> string \<Rightarrow> kerr + nat \<times> (kerr + string) \<Rightarrow> bool" where
  "answers L ip res \<longleftrightarrow> (\<exists>body resp. res = Inr (200, Inr body) \<and> DecodeFIP L body = Inr resp \<and> rs_IPAddress resp = ip)"

definition list_answer :: "'w lbenv \<Rightarrow> FIPListEntry list \<Rightarrow> trace \<Rightarrow> bool" where
  "list_answer L fips h \<longleftrightarrow>
     (\<exists>url b body. suffix ''/fip/list'' url \<and> Sent url b (Inr (200, Inr body)) \<in> set h \<and> DecodeList L body = Inr fips)"

text \<open>
  Another user of the address was seen: a Service other than \<open>svc\<close> of type LoadBalancer that carries the address, or that is not
  being deleted and is either listed by the IPAM for the address or admitted by the selectors of the pool \<open>pool\<close>; or this pool was
  read and its rules do not tell who may use it.
\<close>

definition listed_for :: "'w lbenv \<Rightarrow> string \<Rightarrow> string \<Rightarrow> string \<Rightarrow> trace \<Rightarrow> bool" where
  "listed_for L ip ns n h \<longleftrightarrow> (\<exists>fips fip. list_answer L fips h \<and> fip \<in> set fips \<and> le_IPAddress fip = ip \<and>
     le_ServiceNamespace fip = ns \<and> le_ServiceName fip = n)"

definition pool_rules :: "'w lbenv \<Rightarrow> string \<Rightarrow> (labels \<Rightarrow> bool) list \<Rightarrow> trace \<Rightarrow> bool" where
  "pool_rules L pool sels h \<longleftrightarrow> (\<exists>q a. PoolRead pool q \<in> set h \<and> ap_allocateTo q = Some a \<and> selectors_of L (al_serviceSelectors a) = Inr sels)"

definition admitted :: "'w lbenv \<Rightarrow> string \<Rightarrow> Service \<Rightarrow> trace \<Rightarrow> bool" where
  "admitted L pool p h \<longleftrightarrow> (\<exists>sels. pool_rules L pool sels h \<and> (sels = [] \<or> list_ex (\<lambda>f. f (sv_labels p)) sels))"

definition open_pool :: "IPAddressPool \<Rightarrow> bool" where
  "open_pool q \<longleftrightarrow> (case ap_allocateTo q of None \<Rightarrow> True | Some a \<Rightarrow> al_namespaceSelectors a \<noteq> [])"

definition peer_found :: "'w lbenv \<Rightarrow> Service \<Rightarrow> string \<Rightarrow> string \<Rightarrow> trace \<Rightarrow> bool" where
  "peer_found L svc ip pool h \<longleftrightarrow>
     (\<exists>ns n p. SvcRead ns n p \<in> set h \<and> (ns \<noteq> sv_ns svc \<or> n \<noteq> sv_name svc) \<and> serviceNeedsFloatingIP p \<and>
        (ann p floatingIPAnnotation = ip \<or> \<not> sv_deleted p \<and> (listed_for L ip ns n h \<or> admitted L pool p h))) \<or>
     (\<exists>q. PoolRead pool q \<in> set h \<and> open_pool q)"

lemma evidence_later:
  "list_answer L fips h \<Longrightarrow> list_answer L fips (h @ [e])" "listed_for L ip ns n h \<Longrightarrow> listed_for L ip ns n (h @ [e])"
  "pool_rules L pool sels h \<Longrightarrow> pool_rules L pool sels (h @ [e])" "admitted L pool p h \<Longrightarrow> admitted L pool p (h @ [e])"
proof -
  show 1: "list_answer L fips h \<Longrightarrow> list_answer L fips (h @ [e])" for fips
    by (auto simp: list_answer_def)
  show "listed_for L ip ns n h \<Longrightarrow> listed_for L ip ns n (h @ [e])"
    unfolding listed_for_def using 1 by blast
  show 2: "pool_rules L pool sels h \<Longrightarrow> pool_rules L pool sels (h @ [e])" for sels
    unfolding pool_rules_def by auto
  show "admitted L pool p h \<Longrightarrow> admitted L pool p (h @ [e])"
    unfolding admitted_def using 2 by blast
qed

lemma evidence_append:
  "list_answer L fips h \<Longrightarrow> list_answer L fips (h @ tr)" "pool_rules L pool sels h \<Longrightarrow> pool_rules L pool sels (h @ tr)"
  by (auto simp: list_answer_def pool_rules_def)

lemma peer_found_read:
  assumes "SvcRead ns n p \<in> set h" "ns \<noteq> sv_ns svc \<or> n \<noteq> sv_name svc" "serviceNeedsFloatingIP p"
    and "ann p floatingIPAnnotation = ip \<or> \<not> sv_deleted p \<and> (listed_for L ip ns n h \<or> admitted L pool p h)"
  shows "peer_found L svc ip pool h"
  unfolding peer_found_def using assms by blast

lemma peer_found_pool: "PoolRead pool q \<in> set h \<Longrightarrow> open_pool q \<Longrightarrow> peer_found L svc ip pool h"
  unfolding peer_found_def by blast

lemma peer_found_keeps: "keeps B (peer_found L svc ip pool)"
  unfolding keeps_def
proof (intro allI impI)
  fix h e assume "peer_found L svc ip pool h"
  then show "peer_found L svc ip pool (h @ [e])"
    unfolding peer_found_def by (auto intro: evidence_later)
qed

definition withdrawn :: "Secret \<Rightarrow> string \<Rightarrow> trace \<Rightarrow> bool" where
  "withdrawn secret pool h \<longleftrightarrow>
     (sdata secret ''loadBalancerType'' = ''metallb'' \<longrightarrow> AdvGone pool \<in> set h \<and> PoolGone pool \<in> set h) \<and>
     (sdata secret ''loadBalancerType'' = ''purelb'' \<longrightarrow> GroupGone pool \<in> set h)"

text \<open>Anything but a release or a request.\<close>

definition quiet :: "lbev \<Rightarrow> bool" where
  "quiet e \<longleftrightarrow> \<not> is_release e \<and> \<not> is_request e"

section \<open>Parts that only read\<close>

text \<open>The interface between the reconciler and its environment: calls that are observed.\<close>

locale observed =
  fixes L :: "'w lbenv" and lg :: "'w \<Rightarrow> trace"
  assumes obs: "observes L lg"
begin

lemmas call = observes_logs [OF obs]

lemma read_calls [emits_intro]:
  "emits lg harmless (GetSvc L ns n)" "emits lg harmless (ListSvcs L ns sel)" "emits lg harmless (SvcByIndex L ip)"
  "emits lg harmless (SvcByKey L k)" "emits lg harmless (GetNamespace L n)" "emits lg harmless (GetSecretObj L ns n)"
  "emits lg harmless (GetConfigMap L ns n)" "emits lg harmless (GetIPAddressPool L n ns)" "emits lg harmless (GetIPAddressPools L ns)"
  "emits lg harmless (GetServiceGroups L ns)" "emits lg harmless (LockAddr L ip)" "emits lg harmless (UnlockAddr L ip)"
  "emits lg harmless (Eventf L svc x)" "emits lg harmless (AddAfter L k d)"
  by (rule emits_logs, rule call, force simp: list_all_iff split: sum.splits)+

lemma send_harmless:
  "\<not> suffix ''/fip/release'' url \<Longrightarrow> \<not> suffix ''/fip/request'' url \<Longrightarrow> emits lg harmless (Http L m url t b)"
  by (rule emits_logs, rule call) simp

lemma token_list [emits_intro]:
  "emits lg harmless (getToken L c)" "emits lg harmless (ListFIPs L c cs cl pr po)" "emits lg harmless (list_with L c secret po)"
  unfolding list_with_def ListFIPs_def getToken_def
  by (intro emits_intro send_harmless suffix_paths)+

lemma in_use_emits [emits_intro]:
  "emits lg harmless (indexed_in_use L svc ip objs)" "emits lg harmless (addressInUse L svc ip)"
  "emits lg harmless (namespaces_in_use L svc opt sels nss)" "emits lg harmless (metalLBAddressInUse L app svc pool)"
  "emits lg harmless (listed_in_use L svc cl ip fips)" "emits lg harmless (ipamAddressInUse L svc p secret ip po)"
  "emits lg harmless (sharedPoolInUse L app svc p secret ip pool po)" "emits lg harmless (sharedAddress L app svc p secret ip pool po)"
proof -
  show 1: "emits lg harmless (indexed_in_use L svc ip objs)" for svc ip objs
  proof (induction objs)
    case (Cons obj objs)
    then show ?case by (cases obj) (auto simp only: indexed_in_use.simps intro!: emits_intro)
  qed (simp add: emits_return)
  show 2: "emits lg harmless (namespaces_in_use L svc opt sels nss)" for svc opt sels nss
    by (induction nss) (auto simp only: namespaces_in_use.simps intro!: emits_intro)
  show 3: "emits lg harmless (listed_in_use L svc cl ip fips)" for svc cl ip fips
    by (induction fips) (auto simp only: listed_in_use.simps intro!: emits_intro)
  show 4: "emits lg harmless (addressInUse L svc ip)" for svc ip unfolding addressInUse_def by (intro emits_intro 1)
  show 5: "emits lg harmless (metalLBAddressInUse L app svc pool)" for svc pool
    unfolding metalLBAddressInUse_def by (intro emits_intro 2)
  show 6: "emits lg harmless (ipamAddressInUse L svc p secret ip po)" for svc p secret ip po
    unfolding ipamAddressInUse_def by (intro emits_intro 3)
  show 7: "emits lg harmless (sharedPoolInUse L app svc p secret ip pool po)" for svc p secret ip pool po
    unfolding sharedPoolInUse_def by (intro emits_intro 5 6)
  show "emits lg harmless (sharedAddress L app svc p secret ip pool po)"
    unfolding sharedAddress_def by (intro emits_intro 4 7)
qed

section \<open>Updating a Service\<close>

lemma get_triple:
  "hoare lg P (GetSvc L ns n) (\<lambda>r h. case r of
      Inr svc \<Rightarrow> sv_ns svc = ns \<and> sv_name svc = n \<and> (\<exists>h0. P h0 \<and> h = h0 @ [SvcRead ns n svc])
    | Inl e \<Rightarrow> \<exists>h0. P h0 \<and> h = h0 @ (if IsNotFound e then [SvcMissing ns n] else []))"
  by (rule hoare_logs_result [OF call(1), where C = "\<lambda>r. \<forall>svc. r = Inr svc \<longrightarrow> sv_ns svc = ns \<and> sv_name svc = n"])
    (auto dest: observes_get [OF obs] split: sum.splits)

lemma attempt_triple:
  assumes keep: "keeps harmless P" and mut: "\<forall>svc. sv_ns (snd (mutate svc)) = sv_ns svc \<and> sv_name (snd (mutate svc)) = sv_name svc"
  shows "hoare lg P (svc_attempt L ns n mutate) (updated P ns n mutate)"
proof -
  let ?got = "\<lambda>r h. case r of
      Inr svc \<Rightarrow> sv_ns svc = ns \<and> sv_name svc = n \<and> (\<exists>h0. P h0 \<and> h = h0 @ [SvcRead ns n svc])
    | Inl e \<Rightarrow> \<exists>h0. P h0 \<and> h = h0 @ (if IsNotFound e then [SvcMissing ns n] else [])"
  have p: "P (h0 @ [SvcMissing ns n])" "P (h0 @ [SvcRead ns n c])" if "P h0" for h0 c
    using keep that by (auto simp: keeps_def)
  have w: "hoare lg (?got (Inr cur)) (try_with (UpdateSvc L (snd (mutate cur))) Some (\<lambda>_. State_Monad.return None))
             (updated P ns n mutate)" if "fst (mutate cur)" for cur
  proof (rule hoare_try)
    let ?wrote = "\<lambda>r h. case r of
        Inr _ \<Rightarrow> \<exists>h0. P h0 \<and> sv_ns cur = ns \<and> sv_name cur = n \<and> h = h0 @ [SvcRead ns n cur, SvcWritten (snd (mutate cur))]
      | Inl e \<Rightarrow> P h \<and> (IsNotFound e \<longrightarrow> SvcMissing ns n \<in> set h)"
    have q: "P (h0 @ [SvcRead ns n cur, SvcMissing ns n])" if "P h0" for h0
      using keep p(2) [OF that, of cur] by (auto simp: keeps_def dest: spec [of _ "h0 @ [SvcRead ns n cur]"])
    show "hoare lg (?got (Inr cur)) (UpdateSvc L (snd (mutate cur))) ?wrote"
      by (rule hoare_logs [OF call(2)]) (use p q mut in \<open>auto split: sum.splits\<close>)
    show "updated P ns n mutate (Some e) h" if "?wrote (Inl e) h" for e h using that by (auto simp: updated_def)
    show "hoare lg (?wrote (Inr x)) (State_Monad.return None) (updated P ns n mutate)" for x
      by (rule hoare_return) (use \<open>fst (mutate cur)\<close> in \<open>auto simp: updated_def\<close>)
  qed
  show ?thesis unfolding svc_attempt_def
  proof (rule hoare_try [OF get_triple])
    show "updated P ns n mutate (Some e) h" if "?got (Inl e) h" for e h
      using that p by (auto simp: updated_def split: if_splits)
    show "hoare lg (?got (Inr cur)) (case mutate cur of (changed, svcToUpdate) \<Rightarrow>
            if \<not> changed then State_Monad.return None
            else try_with (UpdateSvc L svcToUpdate) Some (\<lambda>_. State_Monad.return None)) (updated P ns n mutate)" for cur
      using w [of cur] by (cases "mutate cur") (auto intro!: hoare_return updated_same)
  qed
qed

lemma update_triple:
  assumes "keeps harmless P" "\<forall>svc. sv_ns (snd (mutate svc)) = sv_ns svc \<and> sv_name (snd (mutate svc)) = sv_name svc"
  shows "hoare lg P (updateService L ns n mutate) (updated P ns n mutate)"
  unfolding updateService_def
  by (rule hoare_retry [OF obs attempt_triple [OF assms]]) (auto simp: updated_def)

section \<open>Messages\<close>

lemma message_triple:
  assumes "keeps harmless P"
  shows "hoare lg P (getToken L c) (\<lambda>_. P)"
  by (rule emitsD [OF token_list(1) assms])

lemma release_triple:
  assumes keep: "keeps harmless P"
  shows "hoare lg P (ReleaseFIP L c cs cl pr po ns na ip g)
    (\<lambda>r h. r \<noteq> None \<and> P h \<or>
       (\<exists>h0 res. P h0 \<and> h = h0 @ [Sent (cl_apiURL c @ ''/fip/release'') (fip_body cs cl pr po ns na ip g) res] \<and>
          (r = None \<longrightarrow> release_accepted L res)))" (is "hoare lg P _ ?Q")
proof -
  let ?sent = "\<lambda>res h. \<exists>h0. P h0 \<and> h = h0 @ [Sent (cl_apiURL c @ ''/fip/release'') (fip_body cs cl pr po ns na ip g) res]"
  have send: "hoare lg P (Http L m (cl_apiURL c @ ''/fip/release'') t (fip_body cs cl pr po ns na ip g)) ?sent" for m t
    by (rule hoare_logs [OF call(19)]) auto
  show ?thesis unfolding ReleaseFIP_def Let_def
    by (rule hoare_bind [OF message_triple [OF keep]], intro hoare_intro hoare_bind [OF send])
      (auto simp: release_accepted_def split: sum.splits prod.splits if_splits)
qed

lemma request_triple:
  assumes keep: "keeps harmless P"
  shows "hoare lg P (RequestFIP L c cs cl pr po ns na ip g)
    (\<lambda>r h. (\<exists>e. r = Inl e) \<and> P h \<or>
       (\<exists>h0 res. P h0 \<and> h = h0 @ [Sent (cl_apiURL c @ ''/fip/request'') (fip_body cs cl pr po ns na ip g) res] \<and>
          (\<forall>x. r = Inr x \<longrightarrow> answers L (fst x) res)))" (is "hoare lg P _ ?Q")
proof -
  let ?sent = "\<lambda>res h. \<exists>h0. P h0 \<and> h = h0 @ [Sent (cl_apiURL c @ ''/fip/request'') (fip_body cs cl pr po ns na ip g) res]"
  have send: "hoare lg P (Http L m (cl_apiURL c @ ''/fip/request'') t (fip_body cs cl pr po ns na ip g)) ?sent" for m t
    by (rule hoare_logs [OF call(19)]) auto
  have answer: "checkFIPResponse cs' cl' pr' po' ns' na' g' resp = Inr (a, sub, key) \<Longrightarrow> DecodeFIP L body = Inr resp \<Longrightarrow>
      answers L a (Inr (200, Inr body))" for cs' cl' pr' po' ns' na' g' resp a sub key body
    by (auto simp: answers_def checkFIPResponse_def split: if_splits)
  show ?thesis unfolding RequestFIP_def Let_def
    by (rule hoare_bind [OF message_triple [OF keep]], intro hoare_intro hoare_bind [OF send])
      (auto intro: answer split: sum.splits prod.splits if_splits)
qed

lemma list_triple:
  assumes keep: "keeps harmless P"
  shows "hoare lg P (list_with L c secret po) (\<lambda>r h. P h \<and> (\<forall>fips. r = Inr fips \<longrightarrow> list_answer L fips h))"
proof -
  let ?sent = "\<lambda>res h. P h \<and> (\<exists>url b. suffix ''/fip/list'' url \<and> Sent url b res \<in> set h)"
  have send: "hoare lg P (Http L m (cl_apiURL c @ ''/fip/list'') t b) ?sent" for m t b
    by (rule hoare_logs [OF call(19)]) (use keep in \<open>auto simp: keeps_def suffix_def; force\<close>)
  show ?thesis unfolding list_with_def ListFIPs_def Let_def
    by (rule hoare_bind [OF message_triple [OF keep]], intro hoare_intro hoare_bind [OF send])
      (auto simp: list_answer_def split: sum.splits prod.splits if_splits)
qed

section \<open>Other users of an address\<close>

lemma indexed_evidence:
  "hoare lg (\<lambda>h. True) (indexed_in_use L svc ip objs) (\<lambda>r h. r = Inr True \<longrightarrow> peer_found L svc ip pool h)"
proof (induction objs)
  case Nil
  then show ?case by (auto intro!: hoare_return)
next
  case (Cons obj objs)
  show ?case
  proof (cases obj)
    case None
    with Cons show ?thesis by simp
  next
    case (Some other)
    have *: "hoare lg P (indexed_in_use L svc ip objs) (\<lambda>r h. r = Inr True \<longrightarrow> peer_found L svc ip pool h)" for P
      by (rule hoare_pre [OF Cons]) simp
    show ?thesis unfolding Some indexed_in_use.simps
      by (intro hoare_intro * hoare_bind [OF hoare_logs [OF call(1), where Q = "\<lambda>r h. \<forall>live. r = Inr live \<longrightarrow>
             SvcRead (sv_ns other) (sv_name other) live \<in> set h" and P = "\<lambda>h. True"]])
        (auto simp: same_service_def intro: peer_found_read)
  qed
qed

lemma namespaces_evidence:
  "hoare lg (pool_rules L pool sels) (namespaces_in_use L svc opt sels nss) (\<lambda>r h. r = Inr True \<longrightarrow> peer_found L svc ip pool h)"
proof (induction nss)
  case Nil
  then show ?case by (auto intro!: hoare_return)
next
  case (Cons ns nss)
  let ?R = "\<lambda>r h. pool_rules L pool sels h \<and> (\<forall>items. r = Inr items \<longrightarrow> (\<forall>x \<in> set items. SvcRead (sv_ns x) (sv_name x) x \<in> set h))"
  have *: "hoare lg (?R r) (namespaces_in_use L svc opt sels nss) (\<lambda>r h. r = Inr True \<longrightarrow> peer_found L svc ip pool h)" for r
    by (rule hoare_pre [OF Cons]) simp
  have 1: "hoare lg (pool_rules L pool sels) (ListSvcs L ns opt) ?R"
    by (rule hoare_logs [OF call(3)]) (auto intro: evidence_append split: sum.splits)
  have 2: "peer_found L svc ip pool h" if "?R (Inr items) h" "list_ex (admits svc sels) items" for items h
  proof -
    from that(2) obtain x where x: "x \<in> set items" "admits svc sels x" by (auto simp: list_ex_iff)
    with that(1) show ?thesis
      by (auto simp: admits_def same_service_def admitted_def intro!: peer_found_read [of "sv_ns x" "sv_name x" x])
  qed
  show ?case unfolding namespaces_in_use.simps
    by (rule hoare_try [OF 1], simp, intro hoare_if hoare_return *) (use 2 in blast)
qed

lemma metalLB_evidence:
  "hoare lg (\<lambda>h. True) (metalLBAddressInUse L app svc pool) (\<lambda>r h. r = Inr True \<longrightarrow> peer_found L svc ip pool h)"
proof -
  let ?R = "\<lambda>r h. \<forall>q. r = Inr q \<longrightarrow> PoolRead pool q \<in> set h"
  let ?Q = "\<lambda>r h. r = Inr True \<longrightarrow> peer_found L svc ip pool h"
  have 1: "hoare lg (\<lambda>h. True) (GetIPAddressPool L pool app) ?R"
    by (rule hoare_logs [OF call(9)]) simp
  have 2: "hoare lg (\<lambda>h. PoolRead pool q \<in> set h) (namespaces_in_use L svc opt sels nss) ?Q"
    if "ap_allocateTo q = Some a" "selectors_of L (al_serviceSelectors a) = Inr sels" for q a sels opt nss
    by (rule hoare_pre [OF namespaces_evidence]) (use that in \<open>auto simp: pool_rules_def\<close>)
  have 3: "peer_found L svc ip pool h" if "?R (Inr q) h" "open_pool q" for q h
    using that by (auto intro: peer_found_pool)
  show ?thesis unfolding metalLBAddressInUse_def
  proof (rule hoare_bind [OF 1])
    fix r
    show "hoare lg (?R r) (case r of Inl e \<Rightarrow> State_Monad.return (if IsNotFound e then Inr False
           else Inl (Wrap (''failed to get IPAddressPool '' @ app @ ''/'' @ pool) e))
       | Inr q \<Rightarrow> (case ap_allocateTo q of None \<Rightarrow> State_Monad.return (Inr True)
          | Some a \<Rightarrow> if al_namespaceSelectors a \<noteq> [] then State_Monad.return (Inr True)
              else case selectors_of L (al_serviceSelectors a) of
                  Inl e \<Rightarrow> State_Monad.return (Inl (Wrap (''invalid ServiceSelector on IPAddressPool '' @ app @ ''/'' @ pool) e))
                | Inr selectors \<Rightarrow> namespaces_in_use L svc
                      (case al_serviceSelectors a of [s] \<Rightarrow> Some s | _ \<Rightarrow> None) selectors (al_namespaces a))) ?Q"
      by (cases r) (auto split: option.split sum.split simp: open_pool_def intro!: hoare_return 2 3)
  qed
qed

lemma listed_evidence:
  "hoare lg (\<lambda>h. \<exists>all. list_answer L all h \<and> set fips \<subseteq> set all) (listed_in_use L svc cl ip fips)
     (\<lambda>r h. r = Inr True \<longrightarrow> peer_found L svc ip pool h)"
proof (induction fips)
  case Nil
  then show ?case by (auto intro!: hoare_return)
next
  case (Cons fip fips)
  let ?P = "\<lambda>h. \<exists>all. list_answer L all h \<and> set (fip # fips) \<subseteq> set all"
  let ?n = "le_ServiceNamespace fip" and ?m = "le_ServiceName fip"
  let ?R = "\<lambda>r h. ?P h \<and> (\<forall>live. r = Inr live \<longrightarrow> SvcRead ?n ?m live \<in> set h)"
  have *: "hoare lg ?P (listed_in_use L svc cl ip fips) (\<lambda>r h. r = Inr True \<longrightarrow> peer_found L svc ip pool h)"
    by (rule hoare_pre [OF Cons]) auto
  have 0: "hoare lg (?R r) (listed_in_use L svc cl ip fips) (\<lambda>r h. r = Inr True \<longrightarrow> peer_found L svc ip pool h)" for r
    by (rule hoare_pre [OF *]) simp
  have k: "?P (h @ tr)" if "?P h" for h tr
    using that evidence_append(1) by blast
  have 1: "hoare lg ?P (GetSvc L ?n ?m) ?R"
    by (rule hoare_logs [OF call(1)]) (use k in \<open>auto split: sum.splits\<close>)
  have 2: "peer_found L svc ip pool h" if "?R (Inr live) h" "\<not> sv_deleted live" "serviceNeedsFloatingIP live"
      "le_IPAddress fip = ip" "?n \<noteq> sv_ns svc \<or> ?m \<noteq> sv_name svc" for live h
    using that by (intro peer_found_read [of ?n ?m live]) (auto simp: listed_for_def)
  show ?case unfolding listed_in_use.simps
    by (intro hoare_if * hoare_bind [OF 1] hoare_sum hoare_return 0) (use 2 in auto)
qed

lemma shared_evidence:
  "hoare lg (\<lambda>h. True) (sharedAddress L app svc p secret ip pool po) (\<lambda>r h. r = Inr True \<longrightarrow> peer_found L svc ip pool h)"
proof -
  let ?Q = "\<lambda>r h. r = Inr True \<longrightarrow> peer_found L svc ip pool h"
  have 1: "hoare lg P (indexed_in_use L svc ip objs) ?Q" for P objs
    by (rule hoare_pre [OF indexed_evidence]) simp
  have 2: "hoare lg P (metalLBAddressInUse L app svc pool) ?Q" for P
    by (rule hoare_pre [OF metalLB_evidence]) simp
  have 3: "hoare lg (\<lambda>h. True \<and> (\<forall>l. Inr fips = Inr l \<longrightarrow> list_answer L l h)) (listed_in_use L svc cl ip fips) ?Q" for cl fips
    by (rule hoare_pre [OF listed_evidence]) auto
  have t: "keeps harmless (\<lambda>h. True)" by (rule keeps_const)
  have a: "hoare lg P m (\<lambda>_ _. True)" if "emits lg harmless m" for P and m :: "('w, 'b) lbact"
    by (rule hoare_weaken [OF emitsD [OF that t]]) auto
  have 4: "hoare lg P (addressInUse L svc ip) ?Q" for P
    unfolding addressInUse_def by (intro hoare_intro hoare_try [OF a] 1) (auto intro: emits_intro)
  have c: "hoare lg P (ipamClientFor p secret) (\<lambda>r h. True)" for P by (rule hoare_weaken [OF hoare_ipamClientFor [of lg P]]) auto
  have 5: "hoare lg P (ipamAddressInUse L svc p secret ip po) ?Q" for P
    unfolding ipamAddressInUse_def by (intro hoare_try [OF c] hoare_try [OF list_triple [OF t]] 3) auto
  have 6: "hoare lg P (sharedPoolInUse L app svc p secret ip pool po) ?Q" for P
    unfolding sharedPoolInUse_def by (intro hoare_intro hoare_try [OF 2] 5) auto
  show ?thesis unfolding sharedAddress_def by (intro hoare_intro hoare_try [OF 4] 6) auto
qed

section \<open>Withdrawing\<close>

lemma delete_triples:
  assumes "keeps quiet P"
  shows "hoare lg P (but_not_found (DeleteL2Advertisement L n ns)) (\<lambda>r h. P h \<and> (r = None \<longrightarrow> AdvGone n \<in> set h))"
    "hoare lg P (but_not_found (DeleteIPAddressPool L n ns)) (\<lambda>r h. P h \<and> (r = None \<longrightarrow> PoolGone n \<in> set h))"
    "hoare lg P (but_not_found (DeleteServiceGroup L n ns)) (\<lambda>r h. P h \<and> (r = None \<longrightarrow> GroupGone n \<in> set h))"
proof -
  have p: "P (h @ [AdvGone n])" "P (h @ [PoolGone n])" "P (h @ [GroupGone n])" if "P h" for h
    using assms that by (auto simp: keeps_def quiet_def)
  have *: "hoare lg P (but_not_found m) (\<lambda>r h. P h \<and> (r = None \<longrightarrow> x \<in> set h))"
    if "logs lg m (\<lambda>r. if gone r then [x] else [])" "\<And>h. P h \<Longrightarrow> P (h @ [x])" for m x
    unfolding but_not_found_def
    by (rule hoare_bind [OF hoare_logs [OF that(1), where Q = "\<lambda>r h. P h \<and> (gone r \<longrightarrow> x \<in> set h)"]])
      (use that(2) in \<open>auto simp: gone_def intro!: hoare_return split: option.splits if_splits\<close>)
  show "hoare lg P (but_not_found (DeleteL2Advertisement L n ns)) (\<lambda>r h. P h \<and> (r = None \<longrightarrow> AdvGone n \<in> set h))"
    by (rule * [OF call(15) p(1)])
  show "hoare lg P (but_not_found (DeleteIPAddressPool L n ns)) (\<lambda>r h. P h \<and> (r = None \<longrightarrow> PoolGone n \<in> set h))"
    by (rule * [OF call(13) p(2)])
  show "hoare lg P (but_not_found (DeleteServiceGroup L n ns)) (\<lambda>r h. P h \<and> (r = None \<longrightarrow> GroupGone n \<in> set h))"
    by (rule * [OF call(18) p(3)])
qed

lemma withdraw_triple:
  assumes "keeps quiet P"
  shows "hoare lg P (withdraw L app secret pool what) (\<lambda>r h. P h \<and> (r = None \<longrightarrow> withdrawn secret pool h))"
proof -
  have k: "keeps quiet (\<lambda>h. P h \<and> AdvGone pool \<in> set h)" using assms by (auto simp: keeps_def)
  show ?thesis unfolding withdraw_def
    by (intro hoare_intro hoare_check [OF delete_triples(1) [OF assms]] hoare_check [OF delete_triples(3) [OF assms]]
          hoare_check [OF hoare_pre [OF delete_triples(2) [OF k]]])
      (auto simp: withdrawn_def)
qed

section \<open>Parts without a message to the IPAM\<close>

lemma quiet_calls [emits_intro]:
  "emits lg quiet (UpdateSvc L svc)" "emits lg quiet (CreateIPAddressPool L p)" "emits lg quiet (UpdateIPAddressPool L p)"
  "emits lg quiet (DeleteIPAddressPool L n ns)" "emits lg quiet (CreateL2Advertisement L a)"
  "emits lg quiet (DeleteL2Advertisement L n ns)" "emits lg quiet (CreateServiceGroup L g)" "emits lg quiet (DeleteServiceGroup L n ns)"
  by (rule emits_logs, rule call, auto simp: quiet_def list_all_iff split: sum.splits)+

lemma quiet_harmless: "emits lg harmless m \<Longrightarrow> emits lg quiet m"
  by (erule emits_mono) (simp add: quiet_def harmless_not)

lemmas quiet_reads [emits_intro] =
  read_calls [THEN quiet_harmless] token_list [THEN quiet_harmless] in_use_emits [THEN quiet_harmless]

lemma quiet_updates [emits_intro]:
  "emits lg quiet (updateService L ns n mutate)" "emits lg quiet (markAllocationPending L svc p)"
  "emits lg quiet (recordCleanupProgress L svc st)" "emits lg quiet (clearAllocationPending L svc)"
  "emits lg quiet (lbRemoveFinalizer L svc)" "emits lg quiet (abandonDeletion L svc ip)" "emits lg quiet (requeueAfter L svc d)"
  "emits lg quiet (forget_stage L svc ip)" "emits lg quiet (withdraw L app secret pool what)"
  "emits lg quiet (withdraw_stage L app svc secret pool shared)"
  unfolding withdraw_stage_def withdraw_def forget_stage_def abandonDeletion_def lbRemoveFinalizer_def clearAllocationPending_def
    recordCleanupProgress_def markAllocationPending_def updateService_def svc_attempt_def requeueAfter_def
  by (intro emits_intro obs)+

lemma quiet_parts [emits_intro]:
  "emits lg harmless (getProjectIDFromAppNamespace L app)" "emits lg harmless (deletionProjectID L app svc)"
  "emits lg harmless (recoverPending L svc p secret po)" "emits lg harmless (recoverAllocation L c cx svc)"
  "emits lg harmless (requeueAfter L svc d)" "emits lg harmless (prepareAllocation L app svc)"
  unfolding prepareAllocation_def requeueAfter_def recoverAllocation_def recoverPending_def deletionProjectID_def getProjectIDFromAppNamespace_def
  by (intro emits_intro)+

lemmas quiet_parts' [emits_intro] = quiet_parts [THEN quiet_harmless]

lemma quiet_publish [emits_intro]:
  "emits lg quiet (joinExistingPool L app svc grp pool)" "emits lg quiet (existingServiceGroup L app grp ob pool)"
  "emits lg quiet (removePublished L app secret pool err)" "emits lg quiet (refuse L svc why)"
  "emits lg quiet (requestFailed L c cx svc ip err)"
  unfolding joinExistingPool_def existingServiceGroup_def removePublished_def requestFailed_def refuse_def
  by (intro emits_intro)+

section \<open>Locks and guarded updates\<close>

lemma lock_triple: "hoare lg P m Q \<Longrightarrow> hoare lg P (lockAddress L ip m) Q"
proof -
  assume m: "hoare lg P m Q"
  have s: "hoare lg R (LockAddr L ip) (\<lambda>_. R)" "hoare lg R (UnlockAddr L ip) (\<lambda>_. R)" for R
    by (rule hoare_logs [OF call(20)], simp, rule hoare_logs [OF call(21)], simp)
  show ?thesis unfolding lockAddress_def
    by (intro hoare_if m hoare_bind [OF s(1)] hoare_bind [OF m] hoare_bind [OF s(2)] hoare_return)
qed

lemma lock_emits [emits_intro]: "emits lg harmless m \<Longrightarrow> emits lg harmless (lockAddress L ip m)"
  by (rule emitsI, rule lock_triple, erule emitsD)

text \<open>An update whose write the guard allows keeps the history safe.\<close>

lemma update_safe:
  assumes keep: "keeps harmless (\<lambda>h. safe G h \<and> R h)" and R: "keeps (\<lambda>_. True) R"
    and mut: "\<forall>svc. sv_ns (snd (mutate svc)) = sv_ns svc \<and> sv_name (snd (mutate svc)) = sv_name svc"
    and allow: "\<And>h cur. R h \<Longrightarrow> fst (mutate cur) \<Longrightarrow> sv_ns cur = ns \<Longrightarrow> sv_name cur = n \<Longrightarrow>
                  G (h @ [SvcRead ns n cur]) (SvcWritten (snd (mutate cur)))"
  shows "hoare lg (\<lambda>h. safe G h \<and> R h) (updateService L ns n mutate) (\<lambda>_ h. safe G h \<and> R h)"
proof (rule hoare_post [OF update_triple [OF keep mut]])
  fix r h assume u: "updated (\<lambda>h. safe G h \<and> R h) ns n mutate r h"
  show "safe G h \<and> R h"
  proof (cases r)
    case (Some e)
    with u show ?thesis by (simp add: updated_def)
  next
    case None
    with u obtain h0 cur where h0: "safe G h0 \<and> R h0" and id: "sv_ns cur = ns" "sv_name cur = n"
      and h: "if fst (mutate cur) then h = h0 @ [SvcRead ns n cur, SvcWritten (snd (mutate cur))] else h = h0 @ [SvcRead ns n cur]"
      by (auto simp: updated_def)
    from keep h0 have 1: "safe G (h0 @ [SvcRead ns n cur]) \<and> R (h0 @ [SvcRead ns n cur])" by (auto simp: keeps_def)
    show ?thesis
    proof (cases "fst (mutate cur)")
      case True
      with h have h: "h = (h0 @ [SvcRead ns n cur]) @ [SvcWritten (snd (mutate cur))]" by simp
      from 1 allow [OF conjunct2 [OF h0] True id] have "safe G h" unfolding h safe_snoc by simp
      moreover from 1 R have "R h" unfolding h by (auto simp: keeps_def)
      ultimately show ?thesis ..
    next
      case False
      with h 1 show ?thesis by simp
    qed
  qed
qed

end

end
