(* ===== verification/Lb_Props.thy ===== *)
theory Lb_Props
  imports Lb_Events
begin

text \<open>
  Properties of the load balancer controller's reconciler, as conditions on the order of its calls: an address is
  withdrawn before it is released, the finalizer stays until the release was answered, an address is
  requested only once and only with a marker stored, and an address in use is never given back.
\<close>

section \<open>What the updates change\<close>

lemma ann_set [simp]: "ann (set_ann k v svc) k' = (if k' = k then v else ann svc k')"
  by (simp add: ann_def set_ann_def label_def getz_update)

lemma ann_del [simp]: "ann (del_ann k svc) k' = (if k' = k then [] else ann svc k')"
  by (cases "sv_annotations svc") (simp_all add: ann_def del_ann_def label_def getz_def)

lemma field_simps_svc [simp]:
  "sv_ns (set_ann k v svc) = sv_ns svc" "sv_name (set_ann k v svc) = sv_name svc" "sv_finalizers (set_ann k v svc) = sv_finalizers svc"
  "sv_ns (del_ann k svc) = sv_ns svc" "sv_name (del_ann k svc) = sv_name svc" "sv_finalizers (del_ann k svc) = sv_finalizers svc"
  by (simp_all add: set_ann_def del_ann_def)

lemma mutations_name:
  "sv_ns (snd (put_ann k v svc)) = sv_ns svc \<and> sv_name (snd (put_ann k v svc)) = sv_name svc"
  "sv_ns (snd (drop_ann k svc)) = sv_ns svc \<and> sv_name (snd (drop_ann k svc)) = sv_name svc"
  "sv_ns (snd (drop_finalizer svc)) = sv_ns svc \<and> sv_name (snd (drop_finalizer svc)) = sv_name svc"
  "sv_ns (snd (drop_records svc)) = sv_ns svc \<and> sv_name (snd (drop_records svc)) = sv_name svc"
  by (simp_all add: put_ann_def drop_ann_def drop_finalizer_def drop_records_def split: prod.splits)

lemma mutations_finalizers:
  "sv_finalizers (snd (put_ann k v svc)) = sv_finalizers svc"
  "sv_finalizers (snd (drop_ann k svc)) = sv_finalizers svc"
  "sv_finalizers (snd (drop_records svc)) = sv_finalizers svc"
  by (simp_all add: put_ann_def drop_ann_def drop_records_def split: prod.splits)

lemma ipaddr_of_body [simp]: "getz [] (fip_body cs cl pr po ns na ip g) ''ipaddr'' = ip"
  by (simp add: fip_body_def getz_def)

section \<open>Withdrawn before released\<close>

text \<open>
  When a release of an address is sent, the cleanup had withdrawn it: the advertisement and the pool (or the
  ServiceGroup) of the address are gone, or were gone in an earlier run, or another user of the address was seen.
\<close>

definition release_guard :: "'w lbenv \<Rightarrow> Service \<Rightarrow> trace \<Rightarrow> lbev \<Rightarrow> bool" where
  "release_guard L svc pre ev =
     (case ev of
        Sent url body res \<Rightarrow>
          suffix ''/fip/release'' url \<longrightarrow>
          (let ip = getz [] body ''ipaddr'' in
           cleanupStageReached (ann svc cleanupProgressAnnotation) cleanupStageResourcesDeleted \<or> peer_found L svc ip (poolNameForAddress L ip) pre \<or>
           (\<exists>n secret. SecretRead n (Some secret) \<in> set pre \<and> withdrawn secret (poolNameForAddress L ip) pre))
      | _ \<Rightarrow> True)"

lemma release_guard_quiet: "quiet e \<Longrightarrow> release_guard L svc h e"
  by (cases e) (auto simp: release_guard_def quiet_def)

lemma withdrawn_keeps: "keeps B (withdrawn secret pool)"
  by (auto simp: keeps_def withdrawn_def)

context observed
begin

lemma cleanup_withdraws:
  fixes svc :: Service
  defines "S \<equiv> safe (release_guard L svc)"
  shows "hoare lg (\<lambda>h. S h \<and> SecretRead n (Some secret) \<in> set h) (cleanupLocked L app svc p secret ip po) (\<lambda>_. S)"
proof -
  let ?pool = "poolNameForAddress L ip"
  let ?reached = "cleanupStageReached (ann svc cleanupProgressAnnotation) cleanupStageResourcesDeleted"
  define P where "P = (\<lambda>h. S h \<and> SecretRead n (Some secret) \<in> set h)"
  define ok where "ok = (\<lambda>h. ?reached \<or> peer_found L svc ip ?pool h \<or> withdrawn secret ?pool h)"
  have S: "keeps quiet S" unfolding S_def by (rule keeps_safe) (rule release_guard_quiet)
  then have P: "keeps quiet P" by (auto simp: keeps_def P_def)
  have ok: "keeps B ok" for B unfolding ok_def
    using peer_found_keeps [of B L svc ip ?pool] withdrawn_keeps [of B secret ?pool] by (auto simp: keeps_def)
  have Ph: "keeps harmless P" by (rule keeps_subset [OF P]) (simp add: quiet_def harmless_not)
  have 1: "hoare lg P (sharedAddress L app svc p secret ip ?pool po) (\<lambda>r h. P h \<and> (r = Inr True \<longrightarrow> peer_found L svc ip ?pool h))"
    by (rule hoare_both [OF emitsD [OF in_use_emits(8) Ph] hoare_pre [OF shared_evidence]]) simp
  have 2: "hoare lg (\<lambda>h. P h \<and> (shared \<longrightarrow> peer_found L svc ip ?pool h)) (withdraw_stage L app svc secret ?pool shared)
             (\<lambda>r h. P h \<and> (r = None \<longrightarrow> ok h))" for shared
  proof -
    have rec: "hoare lg (\<lambda>h. P h \<and> withdrawn secret ?pool h) (recordCleanupProgress L svc cleanupStageResourcesDeleted)
        (\<lambda>r h. P h \<and> withdrawn secret ?pool h)"
      by (rule emitsD [OF quiet_updates(3) keeps_conj [OF P withdrawn_keeps]])
    show ?thesis unfolding withdraw_stage_def Let_def
      by (intro hoare_if hoare_return hoare_check [OF hoare_pre [OF withdraw_triple [OF P]]]
            hoare_weaken [OF rec])
        (auto simp: ok_def cleanupStageReached_def)
  qed
  have 3: "hoare lg (\<lambda>h. P h \<and> ok h) (release_stage L svc p secret ip po) (\<lambda>_. S)"
  proof -
    have k: "keeps harmless (\<lambda>h. P h \<and> ok h)" by (rule keeps_conj [OF Ph ok])
    have sent: "S h" if h: "h = h0 @ [Sent url (fip_body cs cl pr po ns na ip g) res]" and a: "P h0 \<and> ok h0" for h h0 url cs cl pr po ns na g res
      using a unfolding h S_def safe_snoc P_def ok_def by (auto simp: release_guard_def)
    have rel: "hoare lg (\<lambda>h. P h \<and> ok h) (release_with L c secret po svc ip []) (\<lambda>_. S)" for c
      unfolding release_with_def by (rule hoare_post [OF release_triple [OF k]]) (auto simp: P_def intro: sent)
    show ?thesis unfolding release_stage_def
      by (intro hoare_if hoare_return hoare_try [OF hoare_ipamClientFor] hoare_check [OF rel] emitsD [OF quiet_updates(3) S])
        (auto simp: P_def)
  qed
  have 4: "hoare lg P (if ip \<noteq> [] then try_with (sharedAddress L app svc p secret ip ?pool po) Some (\<lambda>shared.
           check_with (withdraw_stage L app svc secret ?pool shared) Some (release_stage L svc p secret ip po))
         else State_Monad.return None) (\<lambda>_. S)"
  proof (intro hoare_if hoare_return)
    show "hoare lg P (try_with (sharedAddress L app svc p secret ip ?pool po) Some (\<lambda>shared.
           check_with (withdraw_stage L app svc secret ?pool shared) Some (release_stage L svc p secret ip po))) (\<lambda>_. S)"
    proof (rule hoare_try [OF 1])
      fix shared
      show "hoare lg (\<lambda>h. P h \<and> (Inr shared = Inr True \<longrightarrow> peer_found L svc ip ?pool h))
          (check_with (withdraw_stage L app svc secret ?pool shared) Some (release_stage L svc p secret ip po)) (\<lambda>_. S)"
        by (rule hoare_check [OF hoare_pre [OF 2] _ hoare_pre [OF 3]]) (auto simp: P_def)
    qed (simp add: P_def)
  qed (simp add: P_def)
  show ?thesis unfolding cleanupLocked_def Let_def
    using 4 unfolding P_def
    by (rule hoare_check [OF _ _ hoare_check [OF emitsD [OF quiet_updates(8) S] _ emitsD [OF quiet_updates(5) S]]])
qed

lemma deletion_withdraws:
  "hoare lg (\<lambda>h. h = []) (reconcileDeletion L app svc) (\<lambda>_. safe (release_guard L svc))"
proof -
  let ?S = "safe (release_guard L svc)"
  have S: "keeps quiet ?S" by (rule keeps_safe) (rule release_guard_quiet)
  have Sh: "keeps harmless ?S" by (rule keeps_subset [OF S]) (simp add: quiet_def harmless_not)
  have sec: "hoare lg ?S (GetSecretObj L app nm)
      (\<lambda>r h. ?S h \<and> SecretRead nm (case r of Inr secret \<Rightarrow> Some secret | Inl e \<Rightarrow> None) \<in> set h)" for nm
    by (rule hoare_logs [OF call(7)]) (auto simp: safe_snoc release_guard_def)
  have k: "keeps harmless (\<lambda>h. ?S h \<and> x \<in> set h)" for x using Sh by (auto simp: keeps_def)
  have ab: "hoare lg (\<lambda>h. ?S h \<and> C h) (abandonDeletion L svc (ann svc floatingIPAnnotation)) (\<lambda>_. ?S)" for C
    by (rule hoare_pre [OF emitsD [OF quiet_updates(6) S]]) simp
  have clean: "hoare lg ?S (cleanupInProject L app svc p) (\<lambda>_. ?S)" for p
    unfolding cleanupInProject_def Let_def
    by (rule hoare_bind [OF sec], intro hoare_sum hoare_if hoare_return ab hoare_try [OF emitsD [OF quiet_parts(3) k]] lock_triple)
      (auto intro: hoare_pre [OF cleanup_withdraws])
  show ?thesis unfolding reconcileDeletion_def
    by (rule hoare_pre [where P' = ?S], intro hoare_if hoare_return hoare_try [OF emitsD [OF quiet_parts(2) Sh]]
          emitsD [OF quiet_updates(6) S] clean) auto
qed

end

section \<open>The finalizer stays until the release is answered\<close>

text \<open>The address a Service records is settled: released with an accepted answer, now or in an earlier run, or reported as orphaned.\<close>

definition settled :: "'w lbenv \<Rightarrow> Service \<Rightarrow> trace \<Rightarrow> bool" where
  "settled L svc h \<longleftrightarrow>
     cleanupStageReached (ann svc cleanupProgressAnnotation) cleanupStageReleased \<or>
     (\<exists>e \<in> set h. case e of
        Sent url body res \<Rightarrow> suffix ''/fip/release'' url \<and> getz [] body ''ipaddr'' = ann svc floatingIPAnnotation \<and> release_accepted L res
      | Reported svc' x \<Rightarrow> svc' = svc \<and> x = ''OrphanedFloatingIP''
      | _ \<Rightarrow> False)"

definition finalizer_guard :: "'w lbenv \<Rightarrow> Service \<Rightarrow> trace \<Rightarrow> lbev \<Rightarrow> bool" where
  "finalizer_guard L svc pre ev =
     (case ev of
        SvcWritten w \<Rightarrow>
          (case last pre of
             SvcRead ns n cur \<Rightarrow> length (sv_finalizers w) < length (sv_finalizers cur) \<longrightarrow> settled L svc pre
           | _ \<Rightarrow> True)
      | _ \<Rightarrow> True)"

lemma finalizer_guard_other: "\<not> is_write e \<Longrightarrow> finalizer_guard L svc h e"
  by (cases e) (auto simp: finalizer_guard_def)

lemma settled_keeps: "keeps B (settled L svc)"
  unfolding settled_def keeps_def by auto

context observed
begin

lemma withdraw_no_write: "emits lg (\<lambda>e. \<not> is_write e) (withdraw L app secret pool what)"
proof -
  have "emits lg (\<lambda>e. \<not> is_write e) (DeleteIPAddressPool L n ns)" "emits lg (\<lambda>e. \<not> is_write e) (DeleteL2Advertisement L n ns)"
    "emits lg (\<lambda>e. \<not> is_write e) (DeleteServiceGroup L n ns)" for n ns
    by (rule emits_logs, rule call, auto)+
  then show ?thesis unfolding withdraw_def by (intro emits_intro)
qed

lemma finalizer_updates:
  fixes svc :: Service
  defines "S \<equiv> safe (finalizer_guard L svc)"
  assumes R: "keeps (\<lambda>_. True) R"
  shows "hoare lg (\<lambda>h. S h \<and> R h) (recordCleanupProgress L svc st) (\<lambda>_ h. S h \<and> R h)"
    "hoare lg (\<lambda>h. S h \<and> R h) (forget_stage L svc ip) (\<lambda>_ h. S h \<and> R h)"
    "hoare lg (\<lambda>h. S h \<and> settled L svc h) (lbRemoveFinalizer L svc) (\<lambda>_. S)"
proof -
  have k: "keeps harmless (\<lambda>h. safe (finalizer_guard L svc) h \<and> R' h)" if "keeps (\<lambda>_. True) R'" for R'
    by (rule keeps_conj [OF keeps_safe keeps_subset [OF that]]) (auto intro: finalizer_guard_other dest: harmless_not)
  have u: "hoare lg (\<lambda>h. S h \<and> R h) (updateService L ns n mutate) (\<lambda>_ h. S h \<and> R h)"
    if "\<forall>svc. sv_finalizers (snd (mutate svc)) = sv_finalizers svc"
       "\<forall>svc. sv_ns (snd (mutate svc)) = sv_ns svc \<and> sv_name (snd (mutate svc)) = sv_name svc" for ns n mutate
    unfolding S_def by (rule update_safe [OF k [OF R] R that(2)]) (simp add: finalizer_guard_def that(1))
  have v: "hoare lg (\<lambda>h. S h \<and> settled L svc h) (updateService L ns n drop_finalizer) (\<lambda>_ h. S h \<and> settled L svc h)" for ns n
    unfolding S_def
    by (rule update_safe [OF k [OF settled_keeps] settled_keeps])
      (auto simp: finalizer_guard_def mutations_name settled_def)
  show "hoare lg (\<lambda>h. S h \<and> R h) (recordCleanupProgress L svc st) (\<lambda>_ h. S h \<and> R h)"
    unfolding recordCleanupProgress_def but_not_found_def
    by (intro hoare_bind [OF hoare_bind [OF u]] hoare_return) (simp_all add: mutations_finalizers mutations_name)
  show "hoare lg (\<lambda>h. S h \<and> R h) (forget_stage L svc ip) (\<lambda>_ h. S h \<and> R h)"
    unfolding forget_stage_def but_not_found_def
    by (intro hoare_if hoare_bind [OF hoare_bind [OF u]] hoare_return) (simp_all add: mutations_finalizers mutations_name)
  show "hoare lg (\<lambda>h. S h \<and> settled L svc h) (lbRemoveFinalizer L svc) (\<lambda>_. S)"
    unfolding lbRemoveFinalizer_def but_not_found_def
    by (intro hoare_bind [OF hoare_bind [OF v]] hoare_return) simp_all
qed

lemma deletion_keeps_finalizer:
  assumes ip: "ann svc floatingIPAnnotation \<noteq> []"
  shows "hoare lg (\<lambda>h. h = []) (reconcileDeletion L app svc) (\<lambda>_. safe (finalizer_guard L svc))"
proof -
  let ?S = "safe (finalizer_guard L svc)" and ?ip = "ann svc floatingIPAnnotation"
  note upd = finalizer_updates [where svc = svc]
  have S: "keeps (\<lambda>e. \<not> is_write e) ?S" by (rule keeps_safe) (rule finalizer_guard_other)
  have Sh: "keeps harmless ?S" by (rule keeps_subset [OF S]) (simp add: harmless_not)
  have T: "keeps (\<lambda>_. True) (\<lambda>h. True)" by (simp add: keeps_def)
  have ab: "hoare lg ?S (abandonDeletion L svc ?ip) (\<lambda>_. ?S)"
  proof -
    have ev: "hoare lg ?S (Eventf L svc ''OrphanedFloatingIP'') (\<lambda>_ h. ?S h \<and> settled L svc h)"
      by (rule hoare_logs [OF call(22)]) (simp add: safe_snoc finalizer_guard_def settled_def)
    show ?thesis unfolding abandonDeletion_def using ip by (simp, intro hoare_bind [OF ev] upd(3) [OF T])
  qed
  have wd: "hoare lg ?S (withdraw_stage L app svc secret pool shared) (\<lambda>_. ?S)" for secret pool shared
    unfolding withdraw_stage_def Let_def
    by (intro hoare_if hoare_return hoare_check [OF emitsD [OF withdraw_no_write S]] hoare_weaken [OF upd(1) [OF T]]) auto
  have rel: "hoare lg ?S (release_stage L svc p secret ?ip po) (\<lambda>r h. ?S h \<and> (r = None \<longrightarrow> settled L svc h))" for p secret po
  proof -
    have sent: "hoare lg ?S (release_with L c secret po svc ?ip []) (\<lambda>r h. ?S h \<and> (r = None \<longrightarrow> settled L svc h))" for c
      unfolding release_with_def
      by (rule hoare_post [OF release_triple [OF Sh]]) (auto simp: safe_snoc finalizer_guard_def settled_def)
    show ?thesis unfolding release_stage_def
      by (intro hoare_if hoare_return hoare_try [OF hoare_ipamClientFor] hoare_check [OF sent]
            hoare_weaken [OF upd(1) [OF settled_keeps]]) (auto simp: settled_def)
  qed
  have clean: "hoare lg ?S (cleanupLocked L app svc p secret ?ip po) (\<lambda>_. ?S)" for p secret po
    unfolding cleanupLocked_def Let_def
    by (rule hoare_check [where R = "\<lambda>r h. ?S h \<and> (r = None \<longrightarrow> settled L svc h)"],
        simp add: ip, intro hoare_try [OF emitsD [OF in_use_emits(8) Sh]] hoare_check [OF wd] rel)
      (auto intro!: hoare_check [OF upd(2) [OF settled_keeps]] upd(3) [OF T])
  have rec: "hoare lg ?S (recoverPending L svc p secret po) (\<lambda>r h. ?S h \<and> r = Inr ?ip)" for p secret po
    using ip by (simp add: recoverPending_def Let_def hoare_return)
  have proj: "hoare lg ?S (cleanupInProject L app svc p) (\<lambda>_. ?S)" for p
    unfolding cleanupInProject_def Let_def
    by (intro hoare_bind [OF emitsD [OF read_calls(6) Sh]] hoare_sum hoare_if hoare_return ab hoare_try [OF rec] lock_triple)
      (auto intro!: hoare_assume clean)
  show ?thesis unfolding reconcileDeletion_def
    by (rule hoare_pre [where P' = ?S], intro hoare_if hoare_return hoare_try [OF emitsD [OF quiet_parts(2) Sh]] ab proj) auto
qed

text \<open>A deletion that reports no error has settled the address.\<close>

lemma deletion_settles:
  assumes ip: "ann svc floatingIPAnnotation \<noteq> []"
  shows "hoare lg (\<lambda>h. True) (reconcileDeletion L app svc) (\<lambda>r h. r = None \<longrightarrow> settled L svc h)"
proof -
  let ?ip = "ann svc floatingIPAnnotation" and ?Q = "\<lambda>r h. r = None \<longrightarrow> settled L svc h"
  have any: "hoare lg P m (\<lambda>_ _. True)" if "emits lg quiet m" for P and m :: "('w, 'b) lbact"
    by (rule hoare_weaken [OF emitsD [OF that keeps_const [of _ True]]]) auto
  have keep: "hoare lg (settled L svc) m (\<lambda>_. settled L svc)" if "emits lg quiet m" for m :: "('w, 'b) lbact"
    by (rule emitsD [OF that settled_keeps])
  have ab: "hoare lg P (abandonDeletion L svc ?ip) ?Q" for P
  proof -
    have ev: "hoare lg P (Eventf L svc ''OrphanedFloatingIP'') (\<lambda>_. settled L svc)"
      by (rule hoare_logs [OF call(22)]) (simp add: settled_def)
    show ?thesis unfolding abandonDeletion_def using ip
      by (simp, intro hoare_bind [OF ev] hoare_post [OF keep [OF quiet_updates(5)]]) simp
  qed
  have rel: "hoare lg P (release_stage L svc p secret ?ip po) ?Q" for P p secret po
  proof -
    have sent: "hoare lg (\<lambda>h. True) (release_with L c secret po svc ?ip []) ?Q" for c
      unfolding release_with_def
      by (rule hoare_post [OF release_triple [OF keeps_const]]) (auto simp: settled_def)
    have noted: "hoare lg (settled L svc) (recordCleanupProgress L svc st) ?Q" for st
      by (rule hoare_post [OF keep [OF quiet_updates(3)]]) simp
    show ?thesis unfolding release_stage_def
      by (intro hoare_if hoare_return hoare_try [OF any [OF emits_ipamClientFor]] hoare_check [OF hoare_pre [OF sent]] hoare_pre [OF noted])
        (auto simp: settled_def)
  qed
  have clean: "hoare lg P (cleanupLocked L app svc p secret ?ip po) ?Q" for P p secret po
    unfolding cleanupLocked_def Let_def
    by (rule hoare_check [where R = ?Q], simp add: ip,
        intro hoare_try [OF any [OF quiet_harmless [OF in_use_emits(8)]]] hoare_check [OF any [OF quiet_updates(10)]] rel)
      (auto intro!: hoare_check [OF hoare_pre [OF keep [OF quiet_updates(8)]]] hoare_weaken [OF keep [OF quiet_updates(5)]])
  have rec: "hoare lg P (recoverPending L svc p secret po) (\<lambda>r h. r = Inr ?ip)" for P p secret po
    using ip by (simp add: recoverPending_def Let_def hoare_return)
  have proj: "hoare lg P (cleanupInProject L app svc p) ?Q" for P p
    unfolding cleanupInProject_def Let_def
    by (intro hoare_bind [OF any [OF quiet_harmless [OF read_calls(6)]]] hoare_sum hoare_if hoare_return ab hoare_try [OF rec] lock_triple)
      (auto intro!: hoare_assume [where P = "\<lambda>_. True", simplified] clean)
  show ?thesis unfolding reconcileDeletion_def
    by (intro hoare_if hoare_return hoare_try [OF any [OF quiet_harmless [OF quiet_parts(2)]]] ab proj)
      (use ip in \<open>auto simp: hasFloatingIPRecord_def\<close>)
qed

end

section \<open>Requests and give-backs of the allocation path\<close>

text \<open>
  The conditions on a message of the allocation path. A request: the Service records no address, no request was sent before in this run,
  and the Service was read or written with the marker of the project whose Secret was read. A
  release: the IPAM granted the very address that is released to a request of this run; or the Service was found
  gone in this run, and the address is the one it records or the one the IPAM listed for it.
\<close>

definition marked :: "Service \<Rightarrow> string \<Rightarrow> trace \<Rightarrow> bool" where
  "marked svc p h \<longleftrightarrow> (\<exists>w. ann w floatingIPRequestAnnotation = p \<and> sv_ns w = sv_ns svc \<and> sv_name w = sv_name svc \<and>
     (SvcRead (sv_ns svc) (sv_name svc) w \<in> set h \<or> SvcWritten w \<in> set h))"

definition requested :: "trace \<Rightarrow> bool" where
  "requested h \<longleftrightarrow> (\<exists>e \<in> set h. is_request e)"

definition request_guard :: "Service \<Rightarrow> trace \<Rightarrow> lbev \<Rightarrow> bool" where
  "request_guard svc pre ev \<longleftrightarrow>
     (is_request ev \<longrightarrow>
        ann svc floatingIPAnnotation = [] \<and> \<not> requested pre \<and>
        (\<exists>p secret. SecretRead (secret_name p) (Some secret) \<in> set pre \<and> marked svc p pre))"

definition granted :: "'w lbenv \<Rightarrow> string \<Rightarrow> trace \<Rightarrow> bool" where
  "granted L ip h \<longleftrightarrow> (\<exists>url b res. suffix ''/fip/request'' url \<and> Sent url b res \<in> set h \<and> answers L ip res)"

definition held :: "'w lbenv \<Rightarrow> Service \<Rightarrow> string \<Rightarrow> trace \<Rightarrow> bool" where
  "held L svc ip h \<longleftrightarrow> ann svc floatingIPAnnotation = ip \<or>
     (\<exists>fips fip. list_answer L fips h \<and> fip \<in> set fips \<and> le_ServiceNamespace fip = sv_ns svc \<and> le_ServiceName fip = sv_name svc \<and>
        le_IPAddress fip = ip)"

definition giveback_guard :: "'w lbenv \<Rightarrow> Service \<Rightarrow> trace \<Rightarrow> lbev \<Rightarrow> bool" where
  "giveback_guard L svc pre ev \<longleftrightarrow>
     (case ev of
        Sent url body res \<Rightarrow>
          suffix ''/fip/release'' url \<longrightarrow>
          (let ip = getz [] body ''ipaddr'' in
           granted L ip pre \<or> (SvcMissing (sv_ns svc) (sv_name svc) \<in> set pre \<and> held L svc ip pre))
      | _ \<Rightarrow> True)"

definition alloc_guard :: "'w lbenv \<Rightarrow> Service \<Rightarrow> trace \<Rightarrow> lbev \<Rightarrow> bool" where
  "alloc_guard L svc pre ev \<longleftrightarrow> request_guard svc pre ev \<and> giveback_guard L svc pre ev"

text \<open>How an address came into hand: granted in this run, or held by the Service.\<close>

definition accounted :: "'w lbenv \<Rightarrow> Service \<Rightarrow> obtained \<Rightarrow> trace \<Rightarrow> bool" where
  "accounted L svc ob h \<longleftrightarrow> (if ob_adopting ob then held L svc (ob_ip ob) h else granted L (ob_ip ob) h)"

lemmas alloc_guard_defs = alloc_guard_def request_guard_def giveback_guard_def

lemma alloc_guard_quiet: "quiet e \<Longrightarrow> alloc_guard L svc h e"
  by (cases e) (auto simp: alloc_guard_defs quiet_def)

lemma granted_keeps: "keeps B (granted L ip)"
  unfolding keeps_def granted_def by auto

lemma held_keeps: "keeps B (held L svc ip)"
  unfolding keeps_def held_def list_answer_def by auto

lemma accounted_keeps: "keeps B (accounted L svc ob)"
  using granted_keeps [of B L "ob_ip ob"] held_keeps [of B L svc "ob_ip ob"] unfolding accounted_def keeps_def by simp

lemma lookup_listed:
  "lookupServiceFloatingIP fips cl ns n = Some ip \<Longrightarrow>
   \<exists>fip \<in> set fips. le_ServiceNamespace fip = ns \<and> le_ServiceName fip = n \<and> le_IPAddress fip = ip"
  by (induction fips) (auto split: if_splits)

lemma held_listed:
  "list_answer L fips h \<Longrightarrow> lookupServiceFloatingIP fips cl (sv_ns svc) (sv_name svc) = Some ip \<Longrightarrow> held L svc ip h"
  unfolding held_def by (blast dest: lookup_listed)

lemma requested_keeps: "keeps B requested"
  unfolding requested_def by (rule keeps_mem)

lemma marked_keeps: "keeps B (marked svc p)"
  unfolding keeps_def marked_def by auto

lemma marked_read:
  "SvcRead (sv_ns svc) (sv_name svc) w \<in> set h \<Longrightarrow> sv_ns w = sv_ns svc \<Longrightarrow> sv_name w = sv_name svc \<Longrightarrow>
   marked svc (ann w floatingIPRequestAnnotation) h"
  unfolding marked_def by blast

lemma marked_written:
  "SvcWritten w \<in> set h \<Longrightarrow> sv_ns w = sv_ns svc \<Longrightarrow> sv_name w = sv_name svc \<Longrightarrow> marked svc (ann w floatingIPRequestAnnotation) h"
  unfolding marked_def by blast

lemma request_guardI:
  "ann svc floatingIPAnnotation = [] \<Longrightarrow> \<not> requested pre \<Longrightarrow>
   SecretRead (secret_name p) (Some secret) \<in> set pre \<Longrightarrow> marked svc p pre \<Longrightarrow> request_guard svc pre ev"
  unfolding request_guard_def by blast

lemma and_then_name:
  assumes "\<forall>svc. sv_ns (snd (f svc)) = sv_ns svc \<and> sv_name (snd (f svc)) = sv_name svc"
    "\<forall>svc. sv_ns (snd (g svc)) = sv_ns svc \<and> sv_name (snd (g svc)) = sv_name svc"
  shows "sv_ns (snd (and_then f g svc)) = sv_ns svc \<and> sv_name (snd (and_then f g svc)) = sv_name svc"
  using assms by (simp add: and_then_def case_prod_beta)

lemma record_allocation_name:
  "\<forall>svc. sv_ns (snd (record_allocation lb grp ob pool svc)) = sv_ns svc \<and> sv_name (snd (record_allocation lb grp ob pool svc)) = sv_name svc"
  unfolding record_allocation_def
  by (intro allI and_then_name)
    (auto simp: put_label_def put_ann_if_def share_ann_def add_finalizer_def mutations_name Let_def intro!: and_then_name)

context observed
begin

lemma prepare_triple:
  assumes "keeps harmless P"
  shows "hoare lg P (prepareAllocation L app svc)
    (\<lambda>r h. P h \<and> (\<forall>cx. r = Inr cx \<longrightarrow> SecretRead (secret_name (cx_project cx)) (Some (cx_secret cx)) \<in> set h))"
proof -
  let ?Q = "\<lambda>r h. \<forall>cx. r = Inr cx \<longrightarrow> SecretRead (secret_name (cx_project cx)) (Some (cx_secret cx)) \<in> set h"
  have a: "hoare lg R m (\<lambda>_ _. True)" if "emits lg harmless m" for R and m :: "('w, 'b) lbact"
    by (rule hoare_weaken [OF emitsD [OF that keeps_const [of _ True]]]) auto
  have sec: "hoare lg R (GetSecretObj L app nm) (\<lambda>r h. SecretRead nm (case r of Inr secret \<Rightarrow> Some secret | Inl e \<Rightarrow> None) \<in> set h)" for R nm
    by (rule hoare_logs [OF call(7)]) auto
  have skip: "hoare lg R (do { _ \<leftarrow> m; State_Monad.return (Inl x) }) ?Q" if "emits lg harmless m" for R m x
    by (intro hoare_bind [OF a [OF that]] hoare_return) simp
  have skip2: "hoare lg R (do { _ \<leftarrow> m; _ \<leftarrow> m'; State_Monad.return (Inl x) }) ?Q"
    if "emits lg harmless m" "emits lg harmless m'" for R m m' x
    by (intro hoare_bind [OF a [OF that(1)]] skip that(2))
  have "hoare lg P (prepareAllocation L app svc) ?Q"
    unfolding prepareAllocation_def Let_def
    by (intro hoare_try [OF a [OF read_calls(5)]] hoare_try [OF a [OF quiet_parts(1)]] hoare_option hoare_bind [OF sec] hoare_sum
          hoare_if skip skip2 hoare_return emits_intro hoare_try [OF emitsD [OF read_calls(7) keeps_in]])
      (auto split: option.splits)
  with emitsD [OF quiet_parts(6) assms] show ?thesis by (rule hoare_both)
qed

text \<open>Obtaining an address: safe, and the address is granted in this run or held by the Service.\<close>

lemma alloc_keeps:
  "keeps quiet (safe (alloc_guard L svc))" "keeps harmless (safe (alloc_guard L svc))"
  "keeps harmless (\<lambda>h. safe (alloc_guard L svc) h \<and> \<not> requested h)"
proof -
  show "keeps quiet (safe (alloc_guard L svc))" by (rule keeps_safe) (rule alloc_guard_quiet)
  then show k: "keeps harmless (safe (alloc_guard L svc))" by (rule keeps_subset) (simp add: quiet_def harmless_not)
  show "keeps harmless (\<lambda>h. safe (alloc_guard L svc) h \<and> \<not> requested h)"
    using k unfolding keeps_def requested_def by (auto dest: harmless_not)
qed

lemma recover_triple:
  "keeps harmless P \<Longrightarrow> hoare lg P (recoverAllocation L c cx svc)
     (\<lambda>r h. P h \<and> (r = Inr None \<longrightarrow> ann svc floatingIPAnnotation = []) \<and> (\<forall>ob. r = Inr (Some ob) \<longrightarrow> accounted L svc ob h))"
  unfolding recoverAllocation_def Let_def
  by (intro hoare_if hoare_return hoare_try [OF list_triple])
    (auto simp: adopted_def accounted_def held_def [of _ _ "ann svc floatingIPAnnotation"] intro: held_listed split: option.splits if_splits)

lemma requestFailed_triple:
  "keeps quiet P \<Longrightarrow> hoare lg P (requestFailed L c cx svc ip err) (\<lambda>r h. P h \<and> (\<forall>ob. r = Inr ob \<longrightarrow> accounted L svc ob h))"
proof -
  assume P: "keeps quiet P"
  have h: "keeps harmless P" by (rule keeps_subset [OF P]) (simp add: quiet_def harmless_not)
  have r: "hoare lg (\<lambda>h. P h \<and> C h) (refuse L svc why) (\<lambda>r h. P h \<and> (\<forall>ob. r = Inr ob \<longrightarrow> accounted L svc ob h))" for C why
    unfolding refuse_def
    by (rule hoare_pre [where P' = P], intro hoare_bind [OF emitsD [OF quiet_reads(13) P]] hoare_bind [OF emitsD [OF quiet_updates(4) P]]
          hoare_bind [OF emitsD [OF quiet_updates(7) P]] hoare_return) auto
  show ?thesis unfolding requestFailed_def
    by (intro hoare_if hoare_pre [OF r [of "\<lambda>_. True"]] hoare_return hoare_try [OF list_triple [OF h]])
      (auto simp: ownsFloatingIP_def accounted_def intro: held_listed)
qed

lemma marker_triple:
  assumes P: "keeps record_keeping P"
  shows "hoare lg P (markAllocationPending L svc p) (\<lambda>r h. P h \<and> (r = None \<longrightarrow> marked svc p h))"
  unfolding markAllocationPending_def
proof (rule hoare_post [OF update_triple])
  show "keeps harmless P" by (rule keeps_subset [OF P]) simp
  show "\<forall>svc. sv_ns (snd (put_ann floatingIPRequestAnnotation p svc)) = sv_ns svc \<and>
      sv_name (snd (put_ann floatingIPRequestAnnotation p svc)) = sv_name svc" by (simp add: mutations_name)
  fix r h assume u: "updated P (sv_ns svc) (sv_name svc) (put_ann floatingIPRequestAnnotation p) r h"
  have k: "P (h0 @ [SvcRead ns n cur])" "P (h0 @ [SvcRead ns n cur, SvcWritten w])" if "P h0" for h0 ns n cur w
    using keeps_append [OF P that, of "[SvcRead ns n cur]"] keeps_append [OF P that, of "[SvcRead ns n cur, SvcWritten w]"] by simp_all
  show "P h \<and> (r = None \<longrightarrow> marked svc p h)"
  proof (cases r)
    case (Some e)
    with u show ?thesis by (simp add: updated_def)
  next
    case None
    with u obtain h0 cur where h0: "P h0" and id: "sv_ns cur = sv_ns svc" "sv_name cur = sv_name svc"
      and h: "if ann cur floatingIPRequestAnnotation \<noteq> p
              then h = h0 @ [SvcRead (sv_ns svc) (sv_name svc) cur, SvcWritten (set_ann floatingIPRequestAnnotation p cur)]
              else h = h0 @ [SvcRead (sv_ns svc) (sv_name svc) cur]"
      by (auto simp: updated_def put_ann_def split: if_splits)
    show ?thesis
    proof (cases "ann cur floatingIPRequestAnnotation = p")
      case True
      with h k(1) [OF h0] id marked_read [of svc cur h] show ?thesis by simp
    next
      case False
      with h k(2) [OF h0] id marked_written [of "set_ann floatingIPRequestAnnotation p cur" h svc] show ?thesis by simp
    qed
  qed
qed

lemma obtain_triple:
  assumes sec: "n = secret_name (cx_project cx)"
  shows "hoare lg (\<lambda>h. (safe (alloc_guard L svc) h \<and> \<not> requested h) \<and> SecretRead n (Some secret) \<in> set h)
    (obtainAddress L c cx svc grp)
    (\<lambda>r h. safe (alloc_guard L svc) h \<and> (\<forall>ob. r = Inr ob \<longrightarrow> accounted L svc ob h))"
proof -
  let ?S = "safe (alloc_guard L svc)"
  let ?P = "\<lambda>h. (?S h \<and> \<not> requested h) \<and> SecretRead n (Some secret) \<in> set h"
  let ?Q = "\<lambda>r h. ?S h \<and> (\<forall>ob. r = Inr ob \<longrightarrow> accounted L svc ob h)"
  let ?M = "\<lambda>h. ?P h \<and> marked svc (cx_project cx) h"
  have kP: "keeps record_keeping ?P"
    unfolding keeps_def requested_def
    by (auto simp: safe_snoc record_keeping_not intro!: alloc_guard_quiet simp: quiet_def)
  have kPh: "keeps harmless ?P" by (rule keeps_subset [OF kP]) simp
  have kM: "keeps harmless ?M" by (rule keeps_conj [OF kPh marked_keeps])
  show ?thesis
  proof (cases "ann svc floatingIPAnnotation = []")
    case True
    let ?sent = "\<lambda>r h. ?S h \<and> (\<forall>x. r = Inr x \<longrightarrow> granted L (fst x) h)"
    have guard: "?S (h0 @ [Sent (url @ ''/fip/request'') b res])" if "?M h0" for h0 url b res
      using that True by (auto simp: safe_snoc alloc_guard_def giveback_guard_def sec intro: request_guardI)
    have grant: "granted L ip (h0 @ [Sent (url @ ''/fip/request'') b res])" if "answers L ip res" for ip h0 url b res
      using that by (auto simp: granted_def suffix_def)
    have req: "hoare lg ?M (request_with L c (cx_secret cx) po svc ip grp) ?sent" for po ip
      unfolding request_with_def
      by (rule hoare_post [OF request_triple [OF kM]]) (auto intro: guard grant)
    have fail: "hoare lg (?sent r) (requestFailed L c cx svc ip err) ?Q" for r ip err
      by (rule hoare_weaken [OF requestFailed_triple [OF alloc_keeps(1)]]) auto
    have "hoare lg ?P (requestAllocation L c cx svc grp) ?Q"
      unfolding requestAllocation_def Let_def
      by (intro hoare_check [OF marker_triple [OF kP]] hoare_pre [OF hoare_bind [OF req]] hoare_sum hoare_prod hoare_return fail)
        (auto simp: accounted_def)
    then show ?thesis unfolding obtainAddress_def
      by (intro hoare_try [OF recover_triple [OF kPh]] hoare_option hoare_return) (auto intro: hoare_pre)
  next
    case False
    then show ?thesis unfolding obtainAddress_def
      by (intro hoare_try [OF recover_triple [OF kPh]] hoare_option hoare_return) (auto simp: hoare_def)
  qed
qed

text \<open>Publishing and finishing keep the history safe.\<close>

lemma undo_stable:
  fixes svc :: Service and ob :: obtained
  defines "K \<equiv> \<lambda>h. safe (alloc_guard L svc) h \<and> accounted L svc ob h"
  shows "keeps quiet K" "stable lg K (undoRequest L c cx svc grp ob during mk)"
proof -
  show q: "keeps quiet K" unfolding K_def by (intro keeps_conj accounted_keeps alloc_keeps)
  have h: "keeps harmless K" by (rule keeps_subset [OF q]) (simp add: quiet_def harmless_not)
  have rel: "stable lg K (release_with L c secret po svc (ob_ip ob) grp)" if "\<not> ob_adopting ob" for secret po
  proof -
    have "K (h0 @ [Sent (url @ ''/fip/release'') (fip_body cs cl pr po' ns na (ob_ip ob) g) res])" if "K h0" for h0 url cs cl pr po' ns na g res
      using \<open>K h0\<close> \<open>\<not> ob_adopting ob\<close> granted_keeps [of "\<lambda>_. True" L "ob_ip ob"]
      by (auto simp: K_def safe_snoc alloc_guard_defs accounted_def keeps_def)
    then show ?thesis
      unfolding release_with_def stable_def by (intro hoare_post [OF release_triple [OF h]]) auto
  qed
  show "stable lg K (undoRequest L c cx svc grp ob during mk)"
    unfolding undoRequest_def by (intro stable_intro rel)
qed

lemma publish_stable:
  fixes svc :: Service and ob :: obtained
  defines "K \<equiv> \<lambda>h. safe (alloc_guard L svc) h \<and> accounted L svc ob h"
  shows "stable lg K (publish L c app cx svc grp ob ip pool)"
    "stable lg K (undoAllocation L c app cx svc grp ob pool created err)"
proof -
  note undo = undo_stable(2) [of svc ob, folded K_def]
  note q = undo_stable(1) [of svc ob, folded K_def]
  note e = stable_emits [OF _ q]
  note calls = quiet_calls [THEN e] quiet_reads [THEN e] quiet_publish [THEN e]
  show "stable lg K (publish L c app cx svc grp ob ip pool)"
    unfolding publish_def publishMetalLB_def publishPureLB_def createPool_def replacePool_def createAdvertisement_def
    by (intro stable_intro undo calls)
  show "stable lg K (undoAllocation L c app cx svc grp ob pool created err)"
    unfolding undoAllocation_def by (intro stable_intro undo calls)
qed

lemma vanished_stable:
  fixes svc :: Service and ob :: obtained
  defines "K \<equiv> \<lambda>h. (safe (alloc_guard L svc) h \<and> accounted L svc ob h) \<and> SvcMissing (sv_ns svc) (sv_name svc) \<in> set h"
  shows "hoare lg K (releaseVanishedAllocation L app svc p secret (ob_ip ob) pool po) (\<lambda>_. K)"
proof -
  have q: "keeps quiet K" unfolding K_def by (intro keeps_conj keeps_in accounted_keeps alloc_keeps)
  have h: "keeps harmless K" by (rule keeps_subset [OF q]) (simp add: quiet_def harmless_not)
  have "K (h0 @ [Sent (url @ ''/fip/release'') (fip_body cs cl pr po' ns na (ob_ip ob) g) res])" if "K h0" for h0 url cs cl pr po' ns na g res
    using \<open>K h0\<close> accounted_keeps [of "\<lambda>_. True" L svc ob]
    by (auto simp: K_def safe_snoc alloc_guard_defs accounted_def keeps_def split: if_splits)
  then have rel: "stable lg K (release_with L c secret po svc (ob_ip ob) grp)" for c grp
    unfolding release_with_def stable_def by (intro hoare_post [OF release_triple [OF h]]) auto
  note e = stable_emits [OF _ q]
  show ?thesis unfolding releaseVanishedAllocation_def stable_def [symmetric]
    unfolding stable_def
    by (rule lock_triple, fold stable_def,
        intro stable_intro rel e [OF quiet_reads(25)] e [OF quiet_updates(9)] e [OF emits_ipamClientFor])
qed

lemma finish_safe:
  "hoare lg (\<lambda>h. safe (alloc_guard L svc) h \<and> accounted L svc ob h)
     (finishAllocation L c app cx svc grp ob pool created) (\<lambda>_. safe (alloc_guard L svc))"
proof -
  let ?S = "safe (alloc_guard L svc)" and ?id = "SvcMissing (sv_ns svc) (sv_name svc)"
  let ?K = "\<lambda>h. ?S h \<and> accounted L svc ob h"
  have q: "keeps quiet ?K" by (rule undo_stable)
  have h: "keeps harmless ?K" by (rule keeps_subset [OF q]) (simp add: quiet_def harmless_not)
  have upd: "hoare lg ?K (updateService L (sv_ns svc) (sv_name svc) (record_allocation lb grp ob pool))
      (\<lambda>r h. ?K h \<and> (\<forall>e. r = Some e \<and> IsNotFound e \<longrightarrow> ?id \<in> set h))" for lb
    by (rule hoare_both [OF emitsD [OF quiet_updates(1) q] hoare_post [OF update_triple [OF h record_allocation_name]]])
      (auto simp: updated_def)
  have van: "hoare lg (\<lambda>h. ?K h \<and> (\<forall>e. r = Some e \<and> IsNotFound e \<longrightarrow> ?id \<in> set h))
      (releaseVanishedAllocation L app svc p secret (ob_ip ob) pool po) (\<lambda>_. ?S)"
    if "r = Some err" "IsNotFound err" for r err p secret po
    by (rule hoare_weaken [OF vanished_stable]) (use that in auto)
  have undo: "hoare lg (\<lambda>h. ?K h \<and> C h) (undoAllocation L c app cx svc grp ob pool created err) (\<lambda>_. ?S)" for C err
    by (rule hoare_weaken [OF publish_stable(2) [of svc ob, unfolded stable_def]]) auto
  show ?thesis unfolding finishAllocation_def
    by (rule hoare_bind [OF upd], intro hoare_option hoare_if hoare_return hoare_bind [OF undo] hoare_bind [OF van]) auto
qed

lemma allocation_safe: "hoare lg (\<lambda>h. h = []) (reconcileAllocation L app svc) (\<lambda>_. safe (alloc_guard L svc))"
proof -
  let ?S = "safe (alloc_guard L svc)"
  let ?N = "\<lambda>h. ?S h \<and> \<not> requested h"
  have pub: "hoare lg (\<lambda>h. ?S h \<and> (\<forall>ob'. (Inr ob :: kerr option + obtained) = Inr ob' \<longrightarrow> accounted L svc ob' h))
      (publish L c app cx svc grp ob ip pool) (\<lambda>_ h. ?S h \<and> accounted L svc ob h)" for c cx grp ob ip pool
    by (rule hoare_pre [OF publish_stable(1) [of svc ob, unfolded stable_def]]) auto
  have alloc: "hoare lg (\<lambda>h. ?N h \<and> SecretRead (secret_name (cx_project cx)) (Some (cx_secret cx)) \<in> set h)
      (allocateIn L app svc cx) (\<lambda>_. ?S)" for cx
    unfolding allocateIn_def Let_def
    by (intro hoare_try [OF hoare_ipamClientFor] hoare_try [OF obtain_triple [OF refl]] hoare_option hoare_return
          hoare_try [OF pub] finish_safe) auto
  have "hoare lg ?N (reconcileAllocation L app svc) (\<lambda>_. ?S)"
    unfolding reconcileAllocation_def
    by (rule hoare_try [OF prepare_triple [OF alloc_keeps(3)] _ hoare_pre [OF alloc]]) auto
  then show ?thesis by (rule hoare_pre) (simp add: requested_def)
qed

lemma deletion_no_request: "emits lg (\<lambda>e. \<not> is_request e) (reconcileDeletion L app svc)"
proof -
  have q: "emits lg (\<lambda>e. \<not> is_request e) m" if "emits lg quiet m" for m :: "('w, 'b) lbact"
    by (rule emits_mono [OF that]) (simp add: quiet_def)
  have h: "emits lg (\<lambda>e. \<not> is_request e) (Http L m (cl_apiURL c @ ''/fip/release'') t b)" for m c t b
    by (rule emits_logs [OF call(19)]) simp
  have rel: "emits lg (\<lambda>e. \<not> is_request e) (release_with L c secret po svc ip g)" for c secret po ip g
    unfolding release_with_def ReleaseFIP_def Let_def by (intro emits_intro h q)
  have lock: "emits lg (\<lambda>e. \<not> is_request e) (lockAddress L ip m)" if "emits lg (\<lambda>e. \<not> is_request e) m" for ip and m :: "('w, 'b) lbact"
    by (rule emitsI, rule lock_triple, rule emitsD [OF that])
  show ?thesis
    unfolding reconcileDeletion_def cleanupInProject_def cleanupLocked_def release_stage_def Let_def
    by (intro emits_intro lock rel q)
qed

end

end
