(* ===== verification/Lb_Traced.thy ===== *)
theory Lb_Traced
  imports Lb_Events
begin

text \<open>
  Every environment of the load balancer controller can be observed: \<open>traced L\<close> is the environment \<open>L\<close> with a log beside its
  world, to which each call adds what it did. The retry helper is written out as client-go documents it,
  with the five steps of \<open>serviceUpdateBackoff\<close>, and a Service that is read carries the name it was asked for.
\<close>

section \<open>Retrying\<close>

fun opt_retry :: "nat \<Rightarrow> ('s, kerr option) state \<Rightarrow> ('s, kerr option) state" where
  "opt_retry 0 f = f"
| "opt_retry (Suc n) f = do {
     r \<leftarrow> f;
     case r of
       None \<Rightarrow> State_Monad.return None
     | Some e \<Rightarrow> if IsConflict e then opt_retry n f else State_Monad.return (Some e)
   }"

lemma opt_retry_attempts: "run_state (opt_retry n f) s = (r, s') \<Longrightarrow> attempts f s r s'"
proof (induction n arbitrary: s)
  case 0
  then show ?case by (simp add: attempts.once)
next
  case (Suc n)
  obtain r1 s1 where f: "run_state f s = (r1, s1)" by (cases "run_state f s")
  show ?case
  proof (cases "\<exists>e. r1 = Some e \<and> IsConflict e")
    case True
    then obtain e where "r1 = Some e" "IsConflict e" by blast
    with Suc f show ?thesis by (auto intro: attempts.again)
  next
    case False
    with Suc.prems f have "r = r1 \<and> s' = s1" by (auto split: option.splits)
    with f show ?thesis by (auto intro: attempts.once)
  qed
qed

definition serviceUpdateSteps :: nat where
  "serviceUpdateSteps = 5"

section \<open>A log beside the world\<close>

definition with_log :: "('w, 'a) lbact \<Rightarrow> ('a \<Rightarrow> trace) \<Rightarrow> (trace \<times> 'w, 'a) lbact" where
  "with_log m ev = State (\<lambda>s.
     case run_state m \<lparr>lb_clients = lb_clients s, lb_tombstones = lb_tombstones s, lb_world = snd (lb_world s)\<rparr> of
       (r, t) \<Rightarrow> (r, \<lparr>lb_clients = lb_clients t, lb_tombstones = lb_tombstones t, lb_world = (fst (lb_world s) @ ev r, lb_world t)\<rparr>))"

definition named :: "string \<Rightarrow> string \<Rightarrow> kerr + Service \<Rightarrow> kerr + Service" where
  "named ns n r = (case r of Inl e \<Rightarrow> Inl e | Inr svc \<Rightarrow> Inr (svc\<lparr>sv_ns := ns, sv_name := n\<rparr>))"

definition traced :: "'w lbenv \<Rightarrow> (trace \<times> 'w) lbenv" where
  "traced L =
     \<lparr>GetSvc = (\<lambda>ns n. with_log (do { r \<leftarrow> GetSvc L ns n; State_Monad.return (named ns n r) })
        (\<lambda>r. case r of Inr svc \<Rightarrow> [SvcRead ns n svc] | Inl e \<Rightarrow> if IsNotFound e then [SvcMissing ns n] else [])),
      UpdateSvc = (\<lambda>svc. with_log (UpdateSvc L svc)
        (\<lambda>r. case r of Inr _ \<Rightarrow> [SvcWritten svc] | Inl e \<Rightarrow> if IsNotFound e then [SvcMissing (sv_ns svc) (sv_name svc)] else [])),
      ListSvcs = (\<lambda>ns sel. with_log (ListSvcs L ns sel)
        (\<lambda>r. case r of Inr items \<Rightarrow> map (\<lambda>x. SvcRead (sv_ns x) (sv_name x) x) items | Inl e \<Rightarrow> [])),
      SvcByIndex = (\<lambda>ip. with_log (SvcByIndex L ip) (\<lambda>_. [])),
      SvcByKey = (\<lambda>k. with_log (SvcByKey L k) (\<lambda>_. [])),
      SvcRetry = opt_retry (serviceUpdateSteps - 1),
      GetNamespace = (\<lambda>n. with_log (GetNamespace L n) (\<lambda>_. [])),
      GetSecretObj = (\<lambda>ns n. with_log (GetSecretObj L ns n)
        (\<lambda>r. [SecretRead n (case r of Inr secret \<Rightarrow> Some secret | Inl e \<Rightarrow> None)])),
      GetConfigMap = (\<lambda>ns n. with_log (GetConfigMap L ns n) (\<lambda>_. [])),
      GetIPAddressPool = (\<lambda>n ns. with_log (GetIPAddressPool L n ns) (\<lambda>r. case r of Inr p \<Rightarrow> [PoolRead n p] | Inl e \<Rightarrow> [])),
      GetIPAddressPools = (\<lambda>ns. with_log (GetIPAddressPools L ns) (\<lambda>r. case r of Inr ps \<Rightarrow> map (\<lambda>p. PoolRead (ap_name p) p) ps | Inl e \<Rightarrow> [])),
      CreateIPAddressPool = (\<lambda>p. with_log (CreateIPAddressPool L p) (\<lambda>_. [PoolMade p])),
      UpdateIPAddressPool = (\<lambda>p. with_log (UpdateIPAddressPool L p) (\<lambda>_. [PoolChanged p])),
      DeleteIPAddressPool = (\<lambda>n ns. with_log (DeleteIPAddressPool L n ns) (\<lambda>r. if gone r then [PoolGone n] else [])),
      CreateL2Advertisement = (\<lambda>a. with_log (CreateL2Advertisement L a) (\<lambda>_. [AdvMade a])),
      DeleteL2Advertisement = (\<lambda>n ns. with_log (DeleteL2Advertisement L n ns) (\<lambda>r. if gone r then [AdvGone n] else [])),
      GetServiceGroups = (\<lambda>ns. with_log (GetServiceGroups L ns) (\<lambda>_. [])),
      CreateServiceGroup = (\<lambda>g. with_log (CreateServiceGroup L g) (\<lambda>_. [GroupMade g])),
      DeleteServiceGroup = (\<lambda>n ns. with_log (DeleteServiceGroup L n ns) (\<lambda>r. if gone r then [GroupGone n] else [])),
      Http = (\<lambda>m url t b. with_log (Http L m url t b) (\<lambda>r. [Sent url b r])),
      UrlErr = UrlErr L, DecodeToken = DecodeToken L, DecodeFIP = DecodeFIP L, DecodeRelease = DecodeRelease L,
      DecodeList = DecodeList L, SelectorAsSelector = SelectorAsSelector L, IsDNS1123Subdomain = IsDNS1123Subdomain L,
      SvcKeyFunc = SvcKeyFunc L, SplitSvcKey = SplitSvcKey L,
      LockAddr = (\<lambda>ip. with_log (LockAddr L ip) (\<lambda>_. [])), UnlockAddr = (\<lambda>ip. with_log (UnlockAddr L ip) (\<lambda>_. [])),
      Eventf = (\<lambda>svc x. with_log (Eventf L svc x) (\<lambda>_. [Reported svc x])),
      AddAfter = (\<lambda>k d. with_log (AddAfter L k d) (\<lambda>_. [])), BaseErrText = BaseErrText L\<rparr>"

lemma with_log_logs: "logs fst (with_log m ev) ev"
  by (auto simp: logs_def with_log_def split: prod.splits)

lemma with_log_get:
  "run_state (with_log (do { r \<leftarrow> m; State_Monad.return (named ns n r) }) ev) s = (Inr svc, s') \<Longrightarrow> sv_ns svc = ns \<and> sv_name svc = n"
  by (auto simp: with_log_def named_def split: prod.splits sum.splits)

lemma traced_observes: "observes (traced L) fst"
  unfolding observes_def
  by (simp only: traced_def lbenv.select_convs)
    (intro conjI allI impI with_log_logs opt_retry_attempts;
     (assumption | erule conjunct1 [OF with_log_get] | erule conjunct2 [OF with_log_get]))

interpretation traced: observed "traced L" fst for L
  by unfold_locales (rule traced_observes)

end
