(* ===== verification/Mem_Lb.thy ===== *)
theory Mem_Lb
  imports Lb_Traced
begin

text \<open>
  One concrete world for the load balancer controller: Services with optimistic locking on the resource version, Secrets,
  MetalLB and PureLB objects in memory, an IPAM that grants addresses from a list and keeps a list of
  claims, and the log that \<open>observes\<close> asks for. It shows that the hypotheses on the environment can be met, and the
  witnesses run on it.
\<close>

record lmem =
  m_svcs :: "(string \<times> string, Service) gomap"
  m_namespaces :: "(string, labels) gomap"
  m_secrets :: "(string \<times> string, Secret) gomap"
  m_configs :: "(string \<times> string, (string, string) gomap) gomap"
  m_pools :: "(string, IPAddressPool) gomap"
  m_advs :: "(string, L2Advertisement) gomap"
  m_groups :: "(string, ServiceGroup) gomap"
  m_claims :: "FIPListEntry list"
  m_free :: "string list"
  m_log :: trace

section \<open>Messages as text\<close>

definition fields :: "string list \<Rightarrow> string" where
  "fields xs = join '','' xs"

definition enc_entry :: "FIPListEntry \<Rightarrow> string" where
  "enc_entry e = fields [le_Project e, le_Cluster e, le_FloatingIPPool e, le_ServiceNamespace e, le_ServiceName e, le_IPAddress e, le_FloatingIPGroup e]"

definition dec_entry :: "string \<Rightarrow> FIPListEntry" where
  "dec_entry s = (let f = split_on (CHR '','') s in
     \<lparr>le_Project = f ! 0, le_Cluster = f ! 1, le_FloatingIPPool = f ! 2, le_ServiceNamespace = f ! 3, le_ServiceName = f ! 4,
      le_IPAddress = f ! 5, le_FloatingIPGroup = f ! 6\<rparr>)"

definition dec_list :: "string \<Rightarrow> FIPListEntry list" where
  "dec_list s = (if s = [] then [] else map dec_entry (split_on (CHR '';'') s))"

definition dec_fip :: "string \<Rightarrow> FIPResponse" where
  "dec_fip s = (let f = split_on (CHR '','') s @ replicate 11 [] in
     \<lparr>rs_ClientSecret = f ! 0, rs_Status = f ! 1, rs_Cluster = f ! 2, rs_Project = f ! 3, rs_FloatingIPPool = f ! 4,
      rs_ServiceNamespace = f ! 5, rs_ServiceName = f ! 6, rs_IPAddress = f ! 7, rs_Subnet = f ! 8, rs_FloatingIPGroup = f ! 9,
      rs_SharedKey = f ! 10\<rparr>)"

definition claim_of :: "(string, string) gomap \<Rightarrow> string \<Rightarrow> FIPListEntry" where
  "claim_of b ip =
     \<lparr>le_Project = getz [] b ''project'', le_Cluster = getz [] b ''cluster'', le_FloatingIPPool = getz [] b ''floatingippool'',
      le_ServiceNamespace = getz [] b ''servicenamespace'', le_ServiceName = getz [] b ''servicename'', le_IPAddress = ip,
      le_FloatingIPGroup = getz [] b ''floatingipgroup''\<rparr>"

definition claimed_by :: "(string, string) gomap \<Rightarrow> FIPListEntry \<Rightarrow> bool" where
  "claimed_by b e \<longleftrightarrow>
     le_Cluster e = getz [] b ''cluster'' \<and> le_ServiceNamespace e = getz [] b ''servicenamespace'' \<and>
     le_ServiceName e = getz [] b ''servicename'' \<and> le_IPAddress e = getz [] b ''ipaddr''"

definition mem_http :: "string \<Rightarrow> (string, string) gomap \<Rightarrow> lmem \<Rightarrow> (kerr + nat \<times> (kerr + string)) \<times> lmem" where
  "mem_http url b w =
     (if suffix ''/auth/token'' url then (Inr (200, Inr ''token''), w)
      else if suffix ''/fip/list'' url then (Inr (200, Inr (join '';'' (map enc_entry (m_claims w)))), w)
      else if suffix ''/fip/request'' url then
        (case m_free w of
           [] \<Rightarrow> (Inr (403, Inr ''quota exceeded''), w)
         | ip # rest \<Rightarrow>
             (Inr (200, Inr (fields [getz [] b ''clientSecret'', ''approved'', getz [] b ''cluster'', getz [] b ''project'',
                getz [] b ''floatingippool'', getz [] b ''servicenamespace'', getz [] b ''servicename'', ip, ''10.0.0.0/24'',
                getz [] b ''floatingipgroup'', []])),
              w\<lparr>m_free := rest, m_claims := m_claims w @ [claim_of b ip]\<rparr>))
      else if suffix ''/fip/release'' url then
        (if list_ex (claimed_by b) (m_claims w)
         then (Inr (200, Inr ''released''), w\<lparr>m_claims := filter (\<lambda>e. \<not> claimed_by b e) (m_claims w)\<rparr>)
         else (Inr (404, Inr []), w))
      else (Inr (404, Inr []), w))"

section \<open>The cluster\<close>

definition dns_char :: "char \<Rightarrow> bool" where
  "dns_char c = (let k = (of_char c :: nat) in (48 \<le> k \<and> k \<le> 57) \<or> (97 \<le> k \<and> k \<le> 122))"

definition dns_label :: "string \<Rightarrow> bool" where
  "dns_label s \<longleftrightarrow> s \<noteq> [] \<and> dns_char (hd s) \<and> dns_char (last s) \<and> list_all (\<lambda>c. dns_char c \<or> c = CHR ''-'') s"

definition dns_subdomain :: "string \<Rightarrow> bool" where
  "dns_subdomain s \<longleftrightarrow> length s \<le> 253 \<and> list_all dns_label (split_on (CHR ''.'') s)"

definition matches :: "LabelSelector \<Rightarrow> labels \<Rightarrow> bool" where
  "matches sel ls = list_all (\<lambda>(k, v). map_of (mof ls) k = Some v) (sl_matchLabels sel)"

definition write_svc :: "Service \<Rightarrow> lmem \<Rightarrow> (kerr + Service) \<times> lmem" where
  "write_svc svc w =
     (let k = (sv_ns svc, sv_name svc) in
      case map_of (m_svcs w) k of
        None \<Rightarrow> (Inl NotFound, w)
      | Some cur \<Rightarrow>
          if sv_rv svc \<noteq> sv_rv cur then (Inl Conflict, w)
          else let svc' = svc\<lparr>sv_rv := CHR ''i'' # sv_rv cur\<rparr>
               in (Inr svc', w\<lparr>m_svcs := (if sv_deleted svc' \<and> sv_finalizers svc' = [] then AList.delete k (m_svcs w)
                                          else AList.update k svc' (m_svcs w))\<rparr>))"

text \<open>A call on the world that adds to the log.\<close>

definition logged :: "(lmem \<Rightarrow> 'a \<times> lmem) \<Rightarrow> ('a \<Rightarrow> trace) \<Rightarrow> (lmem, 'a) lbact" where
  "logged f ev = State (\<lambda>s. case f (lb_world s) of (r, w) \<Rightarrow> (r, s\<lparr>lb_world := w\<lparr>m_log := m_log (lb_world s) @ ev r\<rparr>\<rparr>))"

definition found :: "'a option \<Rightarrow> kerr + 'a" where
  "found x = (case x of None \<Rightarrow> Inl NotFound | Some v \<Rightarrow> Inr v)"

definition removing :: "bool \<Rightarrow> kerr option" where
  "removing present = (if present then None else Some NotFound)"

definition creating :: "bool \<Rightarrow> kerr option" where
  "creating present = (if present then Some AlreadyExists else None)"

definition svc_named :: "string \<Rightarrow> string \<Rightarrow> lmem \<Rightarrow> Service option" where
  "svc_named ns n w = find (\<lambda>svc. sv_ns svc = ns \<and> sv_name svc = n) (map snd (m_svcs w))"

definition mem_lb :: "lmem lbenv" where
  "mem_lb =
     \<lparr>GetSvc = (\<lambda>ns n. logged (\<lambda>w. (found (svc_named ns n w), w))
        (\<lambda>r. case r of Inr svc \<Rightarrow> [SvcRead ns n svc] | Inl e \<Rightarrow> if IsNotFound e then [SvcMissing ns n] else [])),
      UpdateSvc = (\<lambda>svc. logged (write_svc svc)
        (\<lambda>r. case r of Inr _ \<Rightarrow> [SvcWritten svc] | Inl e \<Rightarrow> if IsNotFound e then [SvcMissing (sv_ns svc) (sv_name svc)] else [])),
      ListSvcs = (\<lambda>ns sel. logged (\<lambda>w. (Inr (filter (\<lambda>x. (ns = [] \<or> sv_ns x = ns) \<and>
          (case sel of None \<Rightarrow> True | Some s \<Rightarrow> matches s (sv_labels x))) (map snd (m_svcs w))), w))
        (\<lambda>r. case r of Inr items \<Rightarrow> map (\<lambda>x. SvcRead (sv_ns x) (sv_name x) x) items | Inl e \<Rightarrow> [])),
      SvcByIndex = (\<lambda>ip. logged (\<lambda>w. (Inr (map Some (filter (\<lambda>x. ann x floatingIPAnnotation = ip) (map snd (m_svcs w)))), w)) (\<lambda>_. [])),
      SvcByKey = (\<lambda>k. logged (\<lambda>w. (Inr (find (\<lambda>x. svc_id x = k) (map snd (m_svcs w))), w)) (\<lambda>_. [])),
      SvcRetry = opt_retry 4,
      GetNamespace = (\<lambda>n. logged (\<lambda>w. (found (map_of (m_namespaces w) n), w)) (\<lambda>_. [])),
      GetSecretObj = (\<lambda>ns n. logged (\<lambda>w. (found (map_of (m_secrets w) (ns, n)), w))
        (\<lambda>r. [SecretRead n (case r of Inr secret \<Rightarrow> Some secret | Inl e \<Rightarrow> None)])),
      GetConfigMap = (\<lambda>ns n. logged (\<lambda>w. (found (map_of (m_configs w) (ns, n)), w)) (\<lambda>_. [])),
      GetIPAddressPool = (\<lambda>n ns. logged (\<lambda>w. (found (map_of (m_pools w) n), w)) (\<lambda>r. case r of Inr p \<Rightarrow> [PoolRead n p] | Inl e \<Rightarrow> [])),
      GetIPAddressPools = (\<lambda>ns. logged (\<lambda>w. (Inr (map snd (m_pools w)), w)) (\<lambda>r. case r of Inr ps \<Rightarrow> map (\<lambda>p. PoolRead (ap_name p) p) ps | Inl e \<Rightarrow> [])),
      CreateIPAddressPool = (\<lambda>p. logged (\<lambda>w. (creating (ap_name p \<in> set (keys (m_pools w))),
          if ap_name p \<in> set (keys (m_pools w)) then w else w\<lparr>m_pools := AList.update (ap_name p) p (m_pools w)\<rparr>)) (\<lambda>_. [PoolMade p])),
      UpdateIPAddressPool = (\<lambda>p. logged (\<lambda>w. (removing (ap_name p \<in> set (keys (m_pools w))),
          if ap_name p \<in> set (keys (m_pools w)) then w\<lparr>m_pools := AList.update (ap_name p) p (m_pools w)\<rparr> else w)) (\<lambda>_. [PoolChanged p])),
      DeleteIPAddressPool = (\<lambda>n ns. logged (\<lambda>w. (removing (n \<in> set (keys (m_pools w))), w\<lparr>m_pools := AList.delete n (m_pools w)\<rparr>))
        (\<lambda>r. if gone r then [PoolGone n] else [])),
      CreateL2Advertisement = (\<lambda>a. logged (\<lambda>w. (creating (la_name a \<in> set (keys (m_advs w))),
          if la_name a \<in> set (keys (m_advs w)) then w else w\<lparr>m_advs := AList.update (la_name a) a (m_advs w)\<rparr>)) (\<lambda>_. [AdvMade a])),
      DeleteL2Advertisement = (\<lambda>n ns. logged (\<lambda>w. (removing (n \<in> set (keys (m_advs w))), w\<lparr>m_advs := AList.delete n (m_advs w)\<rparr>))
        (\<lambda>r. if gone r then [AdvGone n] else [])),
      GetServiceGroups = (\<lambda>ns. logged (\<lambda>w. (Inr (map snd (m_groups w)), w)) (\<lambda>_. [])),
      CreateServiceGroup = (\<lambda>g. logged (\<lambda>w. (creating (sg_name g \<in> set (keys (m_groups w))),
          if sg_name g \<in> set (keys (m_groups w)) then w else w\<lparr>m_groups := AList.update (sg_name g) g (m_groups w)\<rparr>)) (\<lambda>_. [GroupMade g])),
      DeleteServiceGroup = (\<lambda>n ns. logged (\<lambda>w. (removing (n \<in> set (keys (m_groups w))), w\<lparr>m_groups := AList.delete n (m_groups w)\<rparr>))
        (\<lambda>r. if gone r then [GroupGone n] else [])),
      Http = (\<lambda>m url t b. logged (mem_http url b) (\<lambda>r. [Sent url b r])),
      UrlErr = (\<lambda>url. None), DecodeToken = Inr, DecodeFIP = (\<lambda>s. Inr (dec_fip s)), DecodeRelease = Inr,
      DecodeList = (\<lambda>s. Inr (dec_list s)), SelectorAsSelector = (\<lambda>sel. Inr (matches sel)), IsDNS1123Subdomain = dns_subdomain,
      SvcKeyFunc = (\<lambda>svc. Some (svc_id svc)),
      SplitSvcKey = (\<lambda>k. case split_on (CHR ''/'') k of [ns, n] \<Rightarrow> Some (ns, n) | [n] \<Rightarrow> Some ([], n) | _ \<Rightarrow> None),
      LockAddr = (\<lambda>ip. logged (\<lambda>w. ((), w)) (\<lambda>_. [])), UnlockAddr = (\<lambda>ip. logged (\<lambda>w. ((), w)) (\<lambda>_. [])),
      Eventf = (\<lambda>svc x. logged (\<lambda>w. ((), w)) (\<lambda>_. [Reported svc x])),
      AddAfter = (\<lambda>k d. logged (\<lambda>w. ((), w)) (\<lambda>_. [])), BaseErrText = (\<lambda>e. ''error'')\<rparr>"

lemma logged_logs: "logs m_log (logged f ev) ev"
  by (auto simp: logs_def logged_def split: prod.splits)

lemma svc_named_id: "svc_named ns n w = Some svc \<Longrightarrow> sv_ns svc = ns \<and> sv_name svc = n"
  by (auto simp: svc_named_def find_Some_iff)

lemma logged_get:
  "run_state (logged (\<lambda>w. (found (svc_named ns n w), w)) ev) s = (Inr svc, s') \<Longrightarrow> sv_ns svc = ns \<and> sv_name svc = n"
  by (auto simp: logged_def found_def split: option.splits dest: svc_named_id)

lemma mem_observes: "observes mem_lb m_log"
  unfolding observes_def
  by (simp only: mem_lb_def lbenv.select_convs) (intro conjI allI impI logged_logs opt_retry_attempts; (assumption | erule conjunct1 [OF logged_get] | erule conjunct2 [OF logged_get]))

interpretation mem: observed mem_lb m_log
  by unfold_locales (rule mem_observes)

end
