(* ===== verification/Lb_Correct.thy ===== *)
theory Lb_Correct
  imports Lb_Props Mem_Lb
begin

text \<open>
  The theorems on the load balancer controller's reconciler, with runs on the world of \<open>Mem_Lb\<close> as witnesses.
\<close>

section \<open>Two Services\<close>

definition demo_secret :: Secret where
  "demo_secret = \<lparr>sec_name = ''rancher-fip-config-p1'',
     sec_data = [(''apiUrl'', ''https://fip''), (''clientSecret'', ''s3''), (''cluster'', ''c1''), (''project'', ''p1''),
       (''floatingIPPool'', ''pool''), (''loadBalancerType'', ''metallb'')]\<rparr>"

text \<open>A Service without an address, and one that is deleted with its address.\<close>

definition new_svc :: Service where
  "new_svc = \<lparr>sv_ns = ''web'', sv_name = ''shop'', sv_annotations = None, sv_labels = None, sv_finalizers = [], sv_deleted = False,
     sv_type = ''LoadBalancer'', sv_ingress = 0, sv_rv = ''1''\<rparr>"

definition old_svc :: Service where
  "old_svc = \<lparr>sv_ns = ''web'', sv_name = ''old'',
     sv_annotations = Some [(floatingIPAnnotation, ''10.0.0.5''), (projectAnnotation, ''p1'')], sv_labels = None,
     sv_finalizers = [lbFinalizer], sv_deleted = True, sv_type = ''LoadBalancer'', sv_ingress = 1, sv_rv = ''1''\<rparr>"

definition demo_sys :: "lmem lbsys" where
  "demo_sys = \<lparr>lb_clients = [], lb_tombstones = [],
     lb_world = \<lparr>m_svcs = [((''web'', ''shop''), new_svc), ((''web'', ''old''), old_svc)],
       m_namespaces = [(''fip'', None), (''web'', Some [(''field.cattle.io/projectId'', ''p1'')])],
       m_secrets = [((''fip'', ''rancher-fip-config-p1''), demo_secret)],
       m_configs = [((''fip'', ''network-interface-mappings''), [(''pool'', ''eth0'')])],
       m_pools = [], m_advs = [], m_groups = [],
       m_claims = [\<lparr>le_Project = ''p1'', le_Cluster = ''c1'', le_FloatingIPPool = ''pool'', le_ServiceNamespace = ''web'',
         le_ServiceName = ''old'', le_IPAddress = ''10.0.0.5'', le_FloatingIPGroup = []\<rparr>],
       m_free = [''10.0.0.7''], m_log = []\<rparr>\<rparr>"

section \<open>The order of the calls\<close>



text \<open>
  C35. A Service with a recorded address keeps the finalizer until the address is settled: in the cleanup, a write that shortens the
  finalizers of the object just read comes after the IPAM accepted the release of this address in this run (404 and 410 count: it is released
  already), or the Service carries the mark of an earlier release, or the address was reported as orphaned: the event
  \<open>OrphanedFloatingIP\<close> on this Service, with which the code gives the address up without a release.
\<close>

theorem finalizer_until_released:
  assumes "observes L lg" and "ann svc floatingIPAnnotation \<noteq> []"
    and "run_state (reconcileDeletion L app svc) s = (r, s')"
  shows "\<exists>tr. lg (lb_world s') = lg (lb_world s) @ tr \<and> safe (finalizer_guard L svc) tr"
  using hoareD [OF observed.deletion_keeps_finalizer [OF observed.intro [OF assms(1)] assms(2)] assms(3), of "[]"] by simp

theorem finalizer_until_released_witness:
  "\<exists>tr. m_log (lb_world (snd (run_state (reconcileDeletion mem_lb ''fip'' old_svc) demo_sys))) = m_log (lb_world demo_sys) @ tr \<and>
     safe (finalizer_guard mem_lb old_svc) tr \<and> list_ex is_write tr"
proof -
  obtain r s' where run: "run_state (reconcileDeletion mem_lb ''fip'' old_svc) demo_sys = (r, s')"
    by (cases "run_state (reconcileDeletion mem_lb ''fip'' old_svc) demo_sys")
  have "ann old_svc floatingIPAnnotation \<noteq> []" by code_simp
  from finalizer_until_released [OF mem_observes this run] obtain tr
    where tr: "m_log (lb_world s') = m_log (lb_world demo_sys) @ tr" and safe: "safe (finalizer_guard mem_lb old_svc) tr" by blast
  have "list_ex is_write (m_log (lb_world (snd (run_state (reconcileDeletion mem_lb ''fip'' old_svc) demo_sys))))"
    by code_simp
  with run tr have "list_ex is_write tr" by (simp add: demo_sys_def)
  with run tr safe show ?thesis by auto
qed

text \<open>
  C34. One reconcile sends at most one request for an address, only for a Service that records no address, and only after the
  Service was seen or written with the marker of the project the request is made under, so that a crash right after the
  request leaves a trace on the Service.
\<close>

theorem requests_are_marked:
  assumes "observes L lg" and "run_state (lbReconcile L app svc) s = (r, s')"
  shows "\<exists>tr. lg (lb_world s') = lg (lb_world s) @ tr \<and> safe (request_guard svc) tr"
proof -
  note obs = observed.intro [OF assms(1)]
  have "hoare lg (\<lambda>h. h = []) (lbReconcile L app svc) (\<lambda>_. safe (request_guard svc))"
    unfolding lbReconcile_def
  proof (intro hoare_if hoare_return hoare_bind)
    show "hoare lg (\<lambda>h. h = []) (reconcileDeletion L app svc) (\<lambda>_. safe (request_guard svc))"
      by (rule hoare_pre [OF emitsD [OF observed.deletion_no_request [OF obs] keeps_safe]]) (auto simp: request_guard_def)
    show "hoare lg (\<lambda>h. h = []) (reconcileAllocation L app svc) (\<lambda>_. safe (request_guard svc))"
      by (rule hoare_post [OF observed.allocation_safe [OF obs]], erule safe_mono) (simp add: alloc_guard_def)
  qed auto
  from hoareD [OF this assms(2), of "[]"] show ?thesis by simp
qed

theorem requests_are_marked_witness:
  "\<exists>tr. m_log (lb_world (snd (run_state (lbReconcile mem_lb ''fip'' new_svc) demo_sys))) = m_log (lb_world demo_sys) @ tr \<and>
     safe (request_guard new_svc) tr \<and> list_ex is_request tr"
proof -
  obtain r s' where run: "run_state (lbReconcile mem_lb ''fip'' new_svc) demo_sys = (r, s')"
    by (cases "run_state (lbReconcile mem_lb ''fip'' new_svc) demo_sys")
  from requests_are_marked [OF mem_observes run] obtain tr
    where tr: "m_log (lb_world s') = m_log (lb_world demo_sys) @ tr" and safe: "safe (request_guard new_svc) tr" by blast
  have "list_ex is_request (m_log (lb_world (snd (run_state (lbReconcile mem_lb ''fip'' new_svc) demo_sys))))"
    by code_simp
  with run tr have "list_ex is_request tr" by (simp add: demo_sys_def)
  with run tr safe show ?thesis by auto
qed

text \<open>
  C33. Reconciling a live LoadBalancer Service sends the release of an address in two cases only, and then for exactly that address: the IPAM
  granted the address to a request sent earlier in this very run; or this run found the Service gone, and the
  address is the one the Service records, or one the IPAM listed in this run for this very Service (an adopted address).
\<close>

theorem held_address_kept:
  assumes "observes L lg" and "\<not> sv_deleted svc" and "sv_type svc = ''LoadBalancer''"
    and "run_state (lbReconcile L app svc) s = (r, s')"
  shows "\<exists>tr. lg (lb_world s') = lg (lb_world s) @ tr \<and> safe (giveback_guard L svc) tr"
proof -
  have "run_state (reconcileAllocation L app svc) s = (r, s')" using assms(2-4) by (simp add: lbReconcile_def)
  from hoareD [OF observed.allocation_safe [OF observed.intro [OF assms(1)]] this, of "[]"] obtain tr
    where "lg (lb_world s') = lg (lb_world s) @ tr" "safe (alloc_guard L svc) tr" by auto
  then show ?thesis by (auto intro: safe_mono simp: alloc_guard_def)
qed

text \<open>The Service disappears while the address is granted: the release is sent after the Service was found missing.\<close>

definition ghost :: Service where
  "ghost = new_svc\<lparr>sv_name := ''ghost'', sv_annotations := Some [(floatingIPAnnotation, ''10.0.0.9'')]\<rparr>"

theorem held_address_kept_witness:
  "\<exists>tr. m_log (lb_world (snd (run_state (lbReconcile mem_lb ''fip'' ghost) demo_sys))) = m_log (lb_world demo_sys) @ tr \<and>
     safe (giveback_guard mem_lb ghost) tr \<and> list_ex is_release tr"
proof -
  obtain r s' where run: "run_state (lbReconcile mem_lb ''fip'' ghost) demo_sys = (r, s')"
    by (cases "run_state (lbReconcile mem_lb ''fip'' ghost) demo_sys")
  have "\<not> sv_deleted ghost" "sv_type ghost = ''LoadBalancer''" by (simp_all add: ghost_def new_svc_def)
  from held_address_kept [OF mem_observes this run] obtain tr
    where tr: "m_log (lb_world s') = m_log (lb_world demo_sys) @ tr" and safe: "safe (giveback_guard mem_lb ghost) tr" by blast
  have "list_ex is_release (m_log (lb_world (snd (run_state (lbReconcile mem_lb ''fip'' ghost) demo_sys))))"
    by code_simp
  with run tr have "list_ex is_release tr" by (simp add: demo_sys_def)
  with run tr safe show ?thesis by auto
qed

end
