(* ===== verification/Lb_Contract.thy ===== *)
theory Lb_Contract
  imports Lb_Correct Api_Handlers_Props
begin

text \<open>
  The load balancer controller against its surroundings: the answers of the HTTP API and what the client makes of them, the snapshots of
  deleted Services, the ranges and names of the pools, and what the record on a Service means to the pool.
\<close>

section \<open>Client and server\<close>

text \<open>
  The client of the load balancer controller understands the HTTP API: an answer of the request handler with an address is
  accepted by the client that sent the request, with the address, the subnet and the shared key of the answer, exactly when the
  group in the answer is the group the client asked for.
\<close>

theorem client_accepts_approval:
  assumes "run_state (FIPRequestHandler A n (Some req)) w = (Some (FIPReply r), w')"
  shows "checkFIPResponse (rq_ClientSecret req) (rq_Cluster req) (rq_Project req) (rq_FloatingIPPool req)
      (rq_ServiceNamespace req) (rq_ServiceName req) (rq_FloatingIPGroup req) r =
    (if rs_FloatingIPGroup r = rq_FloatingIPGroup req then Inr (rs_IPAddress r, rs_Subnet r, rs_SharedKey r)
     else Inl (Errorf ''failed to request FIP: floatingip-group name mismatch''))"
proof -
  let ?ok = "\<lambda>rep. \<forall>r. rep = Some (FIPReply r) \<longrightarrow> (\<exists>f p. approve req f p = FIPReply r \<and> f_ip f \<noteq> [])"
  let ?no = "\<lambda>x. \<forall>r. x \<noteq> Inl (FIPReply r)"
  have watch: "yields (\<lambda>x. \<forall>f. x = WatchGot f \<longrightarrow> f_ip f \<noteq> []) (WatchFloatingIP A n f)" for f
    unfolding yields_def
  proof (intro allI impI)
    fix v g assume "fst (run_state (WatchFloatingIP A n f) v) = WatchGot g"
    then have "fip_allocated (waitForFloatingIPGroup f) g"
      unfolding WatchFloatingIP_def by (metis prod.collapse watch_loop_got)
    then show "f_ip g \<noteq> []" by (auto simp: fip_allocated_def split: if_splits)
  qed
  have await: "yields ?ok (awaitAllocation A n req f c)" for f c
    unfolding awaitAllocation_def
    by (rule yields_bind_result [OF watch])
      (auto simp: yields_def case_prod_beta split: watch_result.splits sum.splits)
  have prod: "yields ?ok (case x of (f, c) \<Rightarrow> awaitAllocation A n req f c)" for x
    by (cases x) (simp only: prod.case await)
  have err: "writeHandlerError e \<noteq> FIPReply r" for e r by (induction e) auto
  have any: "yields ?no (requestAnyIP A project req)" for project
    unfolding requestAnyIP_def
    by (intro yields_bind yields_sum yields_option yields_return)
      (auto simp: err writeUpdateError_def split: sum.splits)
  have "yields ?no (lookupProject A name)" "yields ?no (obtainFIP A project req)" for name project
    unfolding lookupProject_def obtainFIP_def
    by (auto intro!: yields_intro any simp: err split: sum.splits option.splits)
  then have "yields ?ok (FIPRequestHandler A n (Some req))"
    unfolding FIPRequestHandler_def option.case
    by (intro yields_bind_result [where Q = ?no] yields_sum yields_return prod) simp_all
  with assms obtain f p where "approve req f p = FIPReply r" "f_ip f \<noteq> []" unfolding yields_def by (metis fst_conv)
  then show ?thesis by (auto simp: approve_def checkFIPResponse_def)
qed

theorem client_accepts_approval_witness:
  "case fst (run_state (FIPRequestHandler mem_api 9 (Some web_request)) (shop_world [shop_fip ''fip-b'' [] ''10.0.0.3''])) of
     Some (FIPReply r) \<Rightarrow>
       checkFIPResponse ''s'' ''c1'' ''shop'' ''lab'' ''front'' ''web'' [] r = Inr (''10.0.0.3'', ''10.0.0.0/24'', [])
   | _ \<Rightarrow> False"
proof -
  let ?w = "shop_world [shop_fip ''fip-b'' [] ''10.0.0.3'']"
  let ?run = "run_state (FIPRequestHandler mem_api 9 (Some web_request)) ?w"
  have v: "case fst ?run of
      Some (FIPReply r) \<Rightarrow> rs_FloatingIPGroup r = [] \<and> rs_IPAddress r = ''10.0.0.3'' \<and> rs_Subnet r = ''10.0.0.0/24'' \<and> rs_SharedKey r = []
    | _ \<Rightarrow> False" by code_simp
  obtain rep w' where run: "?run = (rep, w')" by (cases ?run)
  with v obtain r where rep: "rep = Some (FIPReply r)" and r: "rs_FloatingIPGroup r = []" "rs_IPAddress r = ''10.0.0.3''"
      "rs_Subnet r = ''10.0.0.0/24''" "rs_SharedKey r = []"
    by (auto split: option.splits reply.splits)
  have "checkFIPResponse (rq_ClientSecret web_request) (rq_Cluster web_request) (rq_Project web_request)
      (rq_FloatingIPPool web_request) (rq_ServiceNamespace web_request) (rq_ServiceName web_request)
      (rq_FloatingIPGroup web_request) r = Inr (''10.0.0.3'', ''10.0.0.0/24'', [])"
    unfolding client_accepts_approval [OF run [unfolded rep]] r by (simp add: web_request_def)
  then show ?thesis unfolding run rep by (simp add: web_request_def)
qed

definition pinned_request :: FIPRequest where
  "pinned_request = web_request\<lparr>rq_ServiceName := ''api'', rq_IPAddress := ''10.0.0.2''\<rparr>"

text \<open>The run of the handler, with the branch that creates a FloatingIP left out.\<close>

lemma pinned_run:
  "run_state (FIPRequestHandler mem_api 9 (Some pinned_request)) (shop_world [grouped_fip]) =
   run_state (do {
     p \<leftarrow> claimPinned mem_api shop pinned_request grouped_fip;
     case p of
       Inl e \<Rightarrow> State_Monad.return (Some (writeHandlerError e))
     | Inr (f, c) \<Rightarrow> awaitAllocation mem_api 9 pinned_request f c
   }) (shop_world [grouped_fip])"
proof -
  let ?w = "shop_world [grouped_fip]"
  have l: "run_state (lookupProject mem_api (rq_Project pinned_request)) ?w = (Inr shop, ?w)" by code_simp
  have s: "run_state (findServiceFIP mem_api shop pinned_request) ?w = (Inr None, ?w)" by code_simp
  have p: "run_state (findPinnedFIP mem_api shop pinned_request) ?w = (Inr (Some grouped_fip), ?w)" by code_simp
  have ip: "rq_IPAddress pinned_request \<noteq> []" by (simp add: pinned_request_def)
  show ?thesis
    by (simp add: FIPRequestHandler_def l obtainFIP_def s requestSpecificIP_def p ip case_prod_beta split: sum.split)
qed

text \<open>
  A pinned address is claimed for a Service and then refused by its client: the server lets a request without a group join a
  FloatingIP that is assigned to a group and approves it with the group's name, which the client takes for a mismatch. The
  claim of the Service stays on the FloatingIP.
\<close>

theorem claimed_but_refused:
  "let (rep, w') = run_state (FIPRequestHandler mem_api 9 (Some pinned_request)) (shop_world [grouped_fip])
   in (case rep of
         Some (FIPReply r) \<Rightarrow> isl (checkFIPResponse ''s'' ''c1'' ''shop'' ''lab'' ''front'' ''api'' [] r)
       | _ \<Rightarrow> False) \<and>
      (case map_of (a_fips w') (''local'', ''fip-a'') of
         Some f \<Rightarrow> serviceAlreadyExists (f_labels f) ''api'' ''front''
       | None \<Rightarrow> False)"
  unfolding pinned_run by code_simp

section \<open>Snapshots of deleted Services\<close>

text \<open>Every call of the environment moves the state along \<open>R\<close>.\<close>

definition lb_rel :: "('w lbsys \<Rightarrow> 'w lbsys \<Rightarrow> bool) \<Rightarrow> 'w lbenv \<Rightarrow> bool" where
  "lb_rel R L \<longleftrightarrow>
     (\<forall>f s r s'. run_state (SvcRetry L f) s = (r, s') \<longrightarrow> attempts f s r s') \<and>
     (\<forall>x y. moves R (GetSvc L x y)) \<and> (\<forall>x. moves R (UpdateSvc L x)) \<and> (\<forall>x y. moves R (ListSvcs L x y)) \<and>
     (\<forall>x. moves R (SvcByIndex L x)) \<and> (\<forall>x. moves R (SvcByKey L x)) \<and> (\<forall>x. moves R (GetNamespace L x)) \<and>
     (\<forall>x y. moves R (GetSecretObj L x y)) \<and> (\<forall>x y. moves R (GetConfigMap L x y)) \<and>
     (\<forall>x y. moves R (GetIPAddressPool L x y)) \<and> (\<forall>x. moves R (GetIPAddressPools L x)) \<and>
     (\<forall>x. moves R (CreateIPAddressPool L x)) \<and> (\<forall>x. moves R (UpdateIPAddressPool L x)) \<and>
     (\<forall>x y. moves R (DeleteIPAddressPool L x y)) \<and> (\<forall>x. moves R (CreateL2Advertisement L x)) \<and>
     (\<forall>x y. moves R (DeleteL2Advertisement L x y)) \<and> (\<forall>x. moves R (GetServiceGroups L x)) \<and>
     (\<forall>x. moves R (CreateServiceGroup L x)) \<and> (\<forall>x y. moves R (DeleteServiceGroup L x y)) \<and>
     (\<forall>m u t b. moves R (Http L m u t b)) \<and> (\<forall>x. moves R (LockAddr L x)) \<and> (\<forall>x. moves R (UnlockAddr L x)) \<and>
     (\<forall>x y. moves R (Eventf L x y)) \<and> (\<forall>x y. moves R (AddAfter L x y))"

lemma lb_rel_calls:
  assumes "lb_rel R L"
  shows "moves R (GetSvc L x y)" "moves R (UpdateSvc L v)" "moves R (ListSvcs L x sel)" "moves R (SvcByIndex L x)"
    "moves R (SvcByKey L x)" "moves R (GetNamespace L x)" "moves R (GetSecretObj L x y)" "moves R (GetConfigMap L x y)"
    "moves R (GetIPAddressPool L x y)" "moves R (GetIPAddressPools L x)" "moves R (CreateIPAddressPool L p)"
    "moves R (UpdateIPAddressPool L p)" "moves R (DeleteIPAddressPool L x y)" "moves R (CreateL2Advertisement L a)"
    "moves R (DeleteL2Advertisement L x y)" "moves R (GetServiceGroups L x)" "moves R (CreateServiceGroup L g)"
    "moves R (DeleteServiceGroup L x y)" "moves R (Http L m x y b)" "moves R (LockAddr L x)" "moves R (UnlockAddr L x)"
    "moves R (Eventf L v x)" "moves R (AddAfter L x d)"
  using assms by (simp_all only: lb_rel_def)

lemma attempts_move: "attempts f s r s' \<Longrightarrow> preorder_rel R \<Longrightarrow> moves R f \<Longrightarrow> R s s'"
proof (induction rule: attempts.induct)
  case (once f s r s')
  then show ?case by (metis movesD)
next
  case (again f s e s1 r s')
  then have "R s s1" by (metis movesD)
  with again show ?case by (auto simp: preorder_rel_def transp_def)
qed

lemma moves_svc_retry [moves_intro]: "lb_rel R L \<Longrightarrow> preorder_rel R \<Longrightarrow> moves R f \<Longrightarrow> moves R (SvcRetry L f)"
  unfolding lb_rel_def moves_def [of R "SvcRetry L f"] by (metis attempts_move prod.collapse)

lemma moves_try [moves_intro]: "preorder_rel R \<Longrightarrow> moves R m \<Longrightarrow> (\<And>x. moves R (f x)) \<Longrightarrow> moves R (try_with m h f)"
  unfolding try_with_def by (intro moves_intro)

lemma moves_check [moves_intro]: "preorder_rel R \<Longrightarrow> moves R m \<Longrightarrow> moves R n \<Longrightarrow> moves R (check_with m h n)"
  unfolding check_with_def by (intro moves_intro)

lemma moves_but_not_found [moves_intro]: "preorder_rel R \<Longrightarrow> moves R m \<Longrightarrow> moves R (but_not_found m)"
  unfolding but_not_found_def by (intro moves_intro)

definition same_snapshot :: "string \<Rightarrow> 'w lbsys \<Rightarrow> 'w lbsys \<Rightarrow> bool" where
  "same_snapshot key s s' \<longleftrightarrow> map_of (lb_tombstones s') key = map_of (lb_tombstones s) key"

lemma same_snapshot_preorder: "preorder_rel (same_snapshot key)"
  by (auto simp: preorder_rel_def reflp_def transp_def same_snapshot_def)

lemma client_same_snapshot [moves_intro]: "moves (same_snapshot key) (ipamClientFor p secret)"
  by (auto simp: moves_def ipamClientFor_def Let_def same_snapshot_def split: option.splits sum.splits)

lemma in_use_moves:
  assumes R: "lb_rel (same_snapshot key) L"
  shows "moves (same_snapshot key) (addressInUse L svc ip)" "moves (same_snapshot key) (sharedAddress L app svc p secret ip pool po)"
proof -
  note calls = lb_rel_calls [OF R] same_snapshot_preorder
  have 1: "moves (same_snapshot key) (indexed_in_use L svc ip objs)" for objs
  proof (induction objs)
    case (Cons obj objs)
    then show ?case by (cases obj) (auto simp only: indexed_in_use.simps intro!: moves_intro calls)
  qed (auto simp: calls intro: moves_intro)
  have 2: "moves (same_snapshot key) (namespaces_in_use L svc opt sels nss)" for opt sels nss
    by (induction nss) (auto simp only: namespaces_in_use.simps intro!: moves_intro calls)
  have 3: "moves (same_snapshot key) (listed_in_use L svc cl ip fips)" for cl fips
    by (induction fips) (auto simp only: listed_in_use.simps intro!: moves_intro calls)
  show "moves (same_snapshot key) (addressInUse L svc ip)" unfolding addressInUse_def by (intro moves_intro calls 1)
  then show "moves (same_snapshot key) (sharedAddress L app svc p secret ip pool po)"
    unfolding sharedAddress_def sharedPoolInUse_def metalLBAddressInUse_def ipamAddressInUse_def list_with_def ListFIPs_def getToken_def
    by (intro moves_intro calls 2 3)
qed

lemma updates_move:
  assumes R: "lb_rel (same_snapshot key) L"
  shows "moves (same_snapshot key) (updateService L ns n mutate)"
  unfolding updateService_def svc_attempt_def
  by (intro moves_intro R lb_rel_calls [OF R] same_snapshot_preorder)

lemma deletion_moves:
  assumes R: "lb_rel (same_snapshot key) L"
  shows "moves (same_snapshot key) (reconcileDeletion L app svc)"
proof -
  note calls = lb_rel_calls [OF R] same_snapshot_preorder updates_move [OF R] in_use_moves [OF R]
  show ?thesis
    unfolding reconcileDeletion_def deletionProjectID_def getProjectIDFromAppNamespace_def abandonDeletion_def cleanupInProject_def
      recoverPending_def lockAddress_def cleanupLocked_def withdraw_stage_def withdraw_def release_stage_def release_with_def
      ReleaseFIP_def list_with_def ListFIPs_def getToken_def recordCleanupProgress_def forget_stage_def lbRemoveFinalizer_def
    by (intro moves_intro calls)
qed

text \<open>
  C40. When the key of a Service is processed that is gone from the cache, with a snapshot of it in hand, the snapshot is dropped exactly when the
  cleanup reported no error, and then, if the snapshot records an address, the address is settled: the IPAM accepted its release in
  this run (404 and 410 count), or the snapshot carries the mark of an earlier release, or the address was reported as
  orphaned (event \<open>OrphanedFloatingIP\<close>), with which the code gives it up. When the cleanup failed the snapshot is still
  there, marked as deleted, for the queue's retry. A Service of the key that is back in the cache is not the subject, and the
  environment does not touch the snapshots meanwhile.
\<close>

theorem snapshot_until_released:
  assumes "lb_rel (same_snapshot key) L" and "observes L lg" and "SplitSvcKey L key \<noteq> None"
    and "run_state (SvcByKey L key) s = (Inr None, s1)" and "map_of (lb_tombstones s) key = Some snap"
    and "run_state (reconcileKey L app key) s = (r, s')"
  shows "map_of (lb_tombstones s') key = (if r = None then None else Some (snap\<lparr>sv_deleted := True\<rparr>)) \<and>
    (\<exists>tr. lg (lb_world s') = lg (lb_world s) @ tr \<and>
       (r = None \<longrightarrow> ann snap floatingIPAnnotation \<noteq> [] \<longrightarrow> settled L (snap\<lparr>sv_deleted := True\<rparr>) tr))"
proof -
  let ?svc = "snap\<lparr>sv_deleted := True\<rparr>"
  have 1: "map_of (lb_tombstones s1) key = Some snap"
    using movesD [OF lb_rel_calls(5) [OF assms(1)] assms(4)] assms(5) by (simp add: same_snapshot_def)
  have w1: "lg (lb_world s1) = lg (lb_world s)"
    using observes_logs(5) [OF assms(2)] assms(4) by (auto simp: Trace_Logic.logs_def)
  define s2 where "s2 = s1\<lparr>lb_tombstones := AList.update key ?svc (lb_tombstones s1)\<rparr>"
  obtain e s3 where del: "run_state (reconcileDeletion L app ?svc) s2 = (e, s3)" by (cases "run_state (reconcileDeletion L app ?svc) s2")
  from movesD [OF deletion_moves [OF assms(1)] del] have 3: "map_of (lb_tombstones s3) key = Some ?svc"
    by (simp add: same_snapshot_def s2_def)
  have rec: "run_state (lbReconcile L app ?svc) s2 = ((e, ?svc), s3)" by (simp add: lbReconcile_def del)
  with assms(3,4,6) 1 3 have out: "r = e" "lb_world s' = lb_world s3"
      "map_of (lb_tombstones s') key = (if r = None then None else Some ?svc)"
    by (auto simp: reconcileKey_def try_with_def peekTombstone_def takeTombstone_def s2_def [symmetric] Let_def split: option.splits)
  obtain tr0 where tr0: "lg (lb_world s3) = lg (lb_world s2) @ tr0"
    using hoareD [OF emitsD [OF observed.deletion_no_request [OF observed.intro [OF assms(2)]] keeps_const [of _ True]] del] by auto
  have "r = None \<longrightarrow> settled L ?svc tr0" if "ann snap floatingIPAnnotation \<noteq> []"
    using hoareD [OF observed.deletion_settles [OF observed.intro [OF assms(2)], of ?svc] del, of "[]"] that tr0 out(1)
    by (auto simp: ann_def)
  with tr0 w1 out show ?thesis by (auto simp: s2_def)
qed

text \<open>A snapshot whose cleanup fails, because the recorded address is not an address.\<close>

definition gone_svc :: Service where
  "gone_svc = new_svc\<lparr>sv_name := ''gone'', sv_annotations := Some [(floatingIPAnnotation, ''bad''), (projectAnnotation, ''p1'')]\<rparr>"

definition gone_sys :: "lmem lbsys" where
  "gone_sys = demo_sys\<lparr>lb_tombstones := [(''web/gone'', gone_svc)]\<rparr>"

lemma mem_same_snapshot: "lb_rel (same_snapshot key) mem_lb"
proof -
  have l: "moves (same_snapshot key) (logged f ev)" for f :: "lmem \<Rightarrow> 'a \<times> lmem" and ev
    by (auto simp: moves_def logged_def same_snapshot_def split: prod.splits)
  show ?thesis unfolding lb_rel_def
    by (simp only: mem_lb_def lbenv.select_convs) (intro conjI allI impI l opt_retry_attempts)
qed

theorem snapshot_until_released_witness:
  "map_of (lb_tombstones (snd (run_state (reconcileKey mem_lb ''fip'' ''web/gone'') gone_sys))) ''web/gone'' =
     Some (gone_svc\<lparr>sv_deleted := True\<rparr>)"
proof -
  obtain r s' where run: "run_state (reconcileKey mem_lb ''fip'' ''web/gone'') gone_sys = (r, s')"
    by (cases "run_state (reconcileKey mem_lb ''fip'' ''web/gone'') gone_sys")
  obtain x s1 where get: "run_state (SvcByKey mem_lb ''web/gone'') gone_sys = (x, s1)"
    by (cases "run_state (SvcByKey mem_lb ''web/gone'') gone_sys")
  have "fst (run_state (SvcByKey mem_lb ''web/gone'') gone_sys) = Inr None" by code_simp
  then have x: "x = Inr None" unfolding get by simp
  have "fst (run_state (reconcileKey mem_lb ''fip'' ''web/gone'') gone_sys) \<noteq> None" by code_simp
  then have r: "r \<noteq> None" unfolding run by simp
  have "SplitSvcKey mem_lb ''web/gone'' \<noteq> None" "map_of (lb_tombstones gone_sys) ''web/gone'' = Some gone_svc" by code_simp+
  from snapshot_until_released [OF mem_same_snapshot mem_observes this(1) get [unfolded x] this(2) run] r show ?thesis
    unfolding run by simp
qed

section \<open>Ranges and names of the pools\<close>

lemma ipkey_no_slash: "CHR ''/'' \<notin> set (ipkey v)"
proof -
  have d: "c \<noteq> CHR ''/''" if "is_hex c \<or> is_digit c \<or> c = CHR ''.'' \<or> c = CHR '':''" for c
    using that by (auto simp: is_hex_def is_digit_def Let_def)
  have 4: "c \<in> set (string4 w) \<Longrightarrow> is_digit c \<or> c = CHR ''.''" for c w
    using in_join [of c "''.''" "map dec (octets w)"] dec_is_digit by (auto simp: string4_def)
  show ?thesis
    using d 4 string6_chars [of "CHR ''/''" v] by (auto simp: ipkey_def addr_of_eq zone_suffix_def)
qed

lemma ParseCIDR_text:
  assumes "CHR ''/'' \<notin> set t" "ParseAddr t = Some a" "zone_of a = []" "m \<noteq> []" "list_all is_digit m" "val_base 10 m = BitLen a"
  shows "ParseCIDR (t @ CHR ''/'' # m) =
    Some (if Is4 a then IPNet (IP4 (aval a mod 0x100000000)) (BitLen a) 4 else IPNet (IP16 (aval a)) (BitLen a) 16)"
proof -
  have "takeWhile (\<lambda>c. c \<noteq> CHR ''/'') (t @ CHR ''/'' # m) = t" using assms(1) by (intro takeWhile_all) auto
  then show ?thesis using assms(2-) by (simp add: ParseCIDR_def Let_def)
qed

text \<open>
  The range written for an address covers exactly this address: for the text of any address, IPv4 or IPv6, the pool with the range
  \<open>addressCIDR\<close> contains an address if and only if it is the same address.
\<close>

theorem address_range_exact:
  assumes "v < top128" and "u < top128"
  shows "poolContainsAddress [addressCIDR (ipkey v)] (IP16 u) \<longleftrightarrow> u = v"
proof -
  have P: "ParseAddr (ipkey v) = Some (addr_of v)" using assms(1) by (rule ParseAddr_String)
  have ip: "ParseIP (ipkey v) = Some (IP16 v)" using P by (simp add: ParseIP_def addr_of_eq)
  have d: "list_all is_digit ''32''" "list_all is_digit ''128''" "val_base 10 ''32'' = 32" "val_base 10 ''128'' = 128"
    by code_simp+
  show ?thesis
  proof (cases "mapped v")
    case True
    then have a: "addressCIDR (ipkey v) = ipkey v @ CHR ''/'' # ''32''" by (simp add: addressCIDR_def ip)
    have "ParseCIDR (addressCIDR (ipkey v)) = Some (IPNet (IP4 (v mod 0x100000000)) 32 4)"
      unfolding a by (subst ParseCIDR_text [OF ipkey_no_slash P]) (use True d in \<open>auto simp: addr_of_eq Is4_def\<close>)
    moreover have "(case To4 (IP16 u) of None \<Rightarrow> False | Some w \<Rightarrow> v mod 0x100000000 = w) \<longleftrightarrow> u = v"
    proof (cases "mapped u")
      case True
      have "v mod 0x100000000 = u mod 0x100000000 \<longleftrightarrow> u = v"
        using mapped_value [OF True] mapped_value [OF \<open>mapped v\<close>] by metis
      with True show ?thesis by simp
    qed (use \<open>mapped v\<close> in auto)
    ultimately show ?thesis by (cases "mapped u") (auto simp: ipnet_contains_def)
  next
    case False
    then have a: "addressCIDR (ipkey v) = ipkey v @ CHR ''/'' # ''128''" by (simp add: addressCIDR_def ip)
    have "ParseCIDR (addressCIDR (ipkey v)) = Some (IPNet (IP16 v) 128 16)"
      unfolding a by (subst ParseCIDR_text [OF ipkey_no_slash P]) (use False d in \<open>auto simp: addr_of_eq Is4_def\<close>)
    then show ?thesis using False by (auto simp: ipnet_contains_def)
  qed
qed

theorem address_range_exact_witness:
  "poolContainsAddress [addressCIDR (ipkey 0x20010db8000000000000000000000001)] (IP16 0x20010db8000000000000000000000001) \<and>
   \<not> poolContainsAddress [addressCIDR (ipkey 0x20010db8000000000000000000000001)] (IP16 0x20010db8000000000000000000000002)"
  using address_range_exact [of "0x20010db8000000000000000000000001" "0x20010db8000000000000000000000001"]
    address_range_exact [of "0x20010db8000000000000000000000001" "0x20010db8000000000000000000000002"] by simp

text \<open>
  Two addresses can share the name of their pool: where the dotted form of an IPv6 address is not a DNS name the dashes at the ends are
  trimmed, and \<open>::1\<close> and \<open>1::\<close> both become \<open>ip6-1\<close>. Cleaning up one withdraws the pool of the other.
\<close>

theorem pool_names_collide:
  assumes "\<not> IsDNS1123Subdomain L ''ip6-..1''" and "\<not> IsDNS1123Subdomain L ''ip6-1..''"
  shows "poolNameForAddress L ''::1'' = poolNameForAddress L ''1::'' \<and> ParseIP ''::1'' \<noteq> ParseIP ''1::''"
proof -
  define x y where "x = IP16 1" and "y = IP16 0x10000000000000000000000000000"
  have ne: "x \<noteq> y" by (simp add: x_def y_def)
  have p: "ParseIP ''::1'' = Some x" "ParseIP ''1::'' = Some y" and t: "To4 x = None" "To4 y = None"
    and r: "str_replace (CHR '':'') (CHR ''.'') ''::1'' = ''..1''" "str_replace (CHR '':'') (CHR ''.'') ''1::'' = ''1..''"
    and n: "str_trim (CHR ''-'') (str_replace (CHR '':'') (CHR ''-'') (ip_string x)) = ''1''"
      "str_trim (CHR ''-'') (str_replace (CHR '':'') (CHR ''-'') (ip_string y)) = ''1''"
    unfolding x_def y_def by code_simp+
  show ?thesis using assms ne by (simp add: poolNameForAddress_def p t r n Let_def)
qed

theorem pool_names_collide_witness: "poolNameForAddress mem_lb ''::1'' = poolNameForAddress mem_lb ''1::''"
proof -
  have "\<not> IsDNS1123Subdomain mem_lb ''ip6-..1''" "\<not> IsDNS1123Subdomain mem_lb ''ip6-1..''" by code_simp+
  from pool_names_collide [OF this] show ?thesis by (rule conjunct1)
qed

section \<open>The record on a Service\<close>

lemma label_put_label: "label (sv_labels (snd (put_label k v svc))) k' = (if k' = k then v else label (sv_labels svc) k')"
  by (auto simp: put_label_def label_def getz_update)

lemma and_then_snd: "snd (and_then f g svc) = snd (g (snd (f svc)))"
  by (simp add: and_then_def case_prod_beta)

lemma later_labels [simp]:
  "sv_labels (snd (put_ann k v svc)) = sv_labels svc" "sv_labels (snd (drop_ann k svc)) = sv_labels svc"
  "sv_labels (snd (put_ann_if b k v svc)) = sv_labels svc" "sv_labels (snd (share_ann lb ob pool svc)) = sv_labels svc"
  "sv_labels (snd (add_finalizer svc)) = sv_labels svc"
  by (simp_all add: put_ann_def drop_ann_def put_ann_if_def share_ann_def add_finalizer_def set_ann_def del_ann_def and_then_snd Let_def)

lemma put_label_fields [simp]:
  "sv_name (snd (put_label k v svc)) = sv_name svc" "sv_ns (snd (put_label k v svc)) = sv_ns svc"
  "sv_annotations (snd (put_label k v svc)) = sv_annotations svc"
  by (simp_all add: put_label_def)

text \<open>
  A Service can use the pool made for it: the pool admits the Service's namespace, and the record written on the
  Service carries every label the pool selects by, with and without a group.
\<close>

theorem recorded_service_admitted:
  "case ap_allocateTo (pool_for app svc grp poolName ip) of
     None \<Rightarrow> False
   | Some a \<Rightarrow>
       sv_ns (snd (record_allocation lbType grp ob poolName svc)) \<in> set (al_namespaces a) \<and>
       list_all (\<lambda>sel. list_all (\<lambda>(k, v). label (sv_labels (snd (record_allocation lbType grp ob poolName svc))) k = v)
                         (sl_matchLabels sel)) (al_serviceSelectors a)"
proof -
  have k: "''rancher.k8s.binbash.org/service'' \<noteq> ''rancher.k8s.binbash.org/servicenamespace''"
    "''rancher.k8s.binbash.org/service'' \<noteq> ''rancher.k8s.binbash.org/servicegroup''"
    "''rancher.k8s.binbash.org/servicenamespace'' \<noteq> ''rancher.k8s.binbash.org/servicegroup''" by code_simp+
  have "label (sv_labels (snd (record_allocation lbType grp ob poolName svc))) ''rancher.k8s.binbash.org/service'' = sv_name svc"
    "label (sv_labels (snd (record_allocation lbType grp ob poolName svc))) ''rancher.k8s.binbash.org/servicenamespace'' = sv_ns svc"
    "grp \<noteq> [] \<Longrightarrow> label (sv_labels (snd (record_allocation lbType grp ob poolName svc))) ''rancher.k8s.binbash.org/servicegroup'' = grp"
    using k by (simp_all add: record_allocation_def and_then_snd label_put_label)
  then show ?thesis using record_allocation_name [of lbType grp ob poolName] by (cases "grp = []") (simp_all add: pool_for_def)
qed

text \<open>What the record leaves alone.\<close>

lemma and_then_ann:
  "\<forall>svc. ann (snd (f svc)) k = ann svc k \<Longrightarrow> \<forall>svc. ann (snd (g svc)) k = ann svc k \<Longrightarrow> ann (snd (and_then f g svc)) k = ann svc k"
  by (simp add: and_then_snd)

lemma other_anns:
  "k \<noteq> k' \<Longrightarrow> ann (snd (put_ann k' v svc)) k = ann svc k" "k \<noteq> k' \<Longrightarrow> ann (snd (drop_ann k' svc)) k = ann svc k"
  "k \<noteq> k' \<Longrightarrow> ann (snd (put_ann_if b k' v svc)) k = ann svc k" "ann (snd (put_label l v svc)) k = ann svc k"
  "ann (snd (add_finalizer svc)) k = ann svc k"
  by (simp_all add: put_ann_def drop_ann_def put_ann_if_def put_label_def add_finalizer_def ann_def [of "_\<lparr>sv_labels := _\<rparr>"]
      ann_def [of "_\<lparr>sv_finalizers := _\<rparr>"] ann_def [of svc, symmetric])

lemma record_keeps_progress:
  "ann (snd (record_allocation lbType grp ob poolName svc)) cleanupProgressAnnotation = ann svc cleanupProgressAnnotation"
proof -
  let ?k = cleanupProgressAnnotation
  have k: "?k \<noteq> floatingIPAnnotation" "?k \<noteq> floatingIPRequestAnnotation" "?k \<noteq> projectAnnotation"
    "?k \<noteq> ''rancher.k8s.binbash.org/floatingip-subnet''" "?k \<noteq> ''metallb.io/allow-shared-ip''"
    "?k \<noteq> ''purelb.io/service-group''" "?k \<noteq> ''purelb.io/allow-shared-ip''" by code_simp+
  have s: "ann (snd (share_ann lbType ob poolName svc)) ?k = ann svc ?k" for svc
    using k(5-7) by (simp add: share_ann_def Let_def and_then_snd other_anns)
  show ?thesis unfolding record_allocation_def
    by (intro and_then_ann allI) (simp_all add: other_anns s k)
qed

context observed
begin

lemma released_emits:
  assumes "ann svc cleanupProgressAnnotation = cleanupStageReleased"
  shows "emits lg record_keeping (reconcileDeletion L app svc)"
proof -
  have h: "emits lg record_keeping m" if "emits lg harmless m" for m :: "('w, 'b) lbact"
    by (rule emits_mono [OF that]) simp
  have w: "emits lg record_keeping (UpdateSvc L x)" for x
    by (rule emits_logs [OF call(2)]) (auto split: sum.splits)
  have u: "emits lg record_keeping (updateService L ns n mutate)" for ns n mutate
    unfolding updateService_def svc_attempt_def by (intro emits_intro obs w h)
  have lock: "emits lg record_keeping (lockAddress L ip m)" if "emits lg record_keeping m" for ip and m :: "('w, 'b) lbact"
    by (rule emitsI, rule lock_triple, rule emitsD [OF that])
  have stages: "emits lg record_keeping (release_stage L svc p secret ip po)" "emits lg record_keeping (withdraw_stage L app svc secret pool sh)"
    for p secret ip po pool sh
    by (simp_all add: release_stage_def withdraw_stage_def assms cleanupStageReached_def emits_return)
  show ?thesis
    unfolding reconcileDeletion_def cleanupInProject_def cleanupLocked_def abandonDeletion_def forget_stage_def lbRemoveFinalizer_def
    by (intro emits_intro stages u lock h)
qed

end

text \<open>
  A progress mark survives a new allocation: the record of an allocation does not take off the mark an interrupted cleanup left, and the next
  cleanup of the Service believes it. It withdraws nothing, releases nothing and takes the finalizer off, so the
  address stays allocated and announced.
\<close>

theorem stale_progress_leaks:
  assumes "observes L lg" and "ann svc cleanupProgressAnnotation = cleanupStageReleased"
    and "run_state (reconcileDeletion L app (snd (record_allocation lbType grp ob poolName svc))) s = (r, s')"
  shows "\<exists>tr. lg (lb_world s') = lg (lb_world s) @ tr \<and> list_all record_keeping tr"
  by (rule emits_all [OF observed.released_emits [OF observed.intro [OF assms(1)]] assms(3)])
    (simp add: record_keeps_progress assms(2))

definition stale_svc :: Service where
  "stale_svc = old_svc\<lparr>sv_annotations := Some [(floatingIPAnnotation, ''10.0.0.5''), (projectAnnotation, ''p1''),
     (cleanupProgressAnnotation, cleanupStageReleased)]\<rparr>"

definition stale_record :: obtained where
  "stale_record = \<lparr>ob_ip = ''10.0.0.5'', ob_subnet = [], ob_sharedKey = [], ob_adopting = True, ob_project = []\<rparr>"

theorem stale_progress_leaks_witness:
  "\<exists>tr r s'. run_state (reconcileDeletion mem_lb ''fip'' (snd (record_allocation ''metallb'' [] stale_record ''ip4-10.0.0.5'' stale_svc))) demo_sys
       = (r, s') \<and> r = None \<and> m_log (lb_world s') = m_log (lb_world demo_sys) @ tr \<and> list_all record_keeping tr"
proof -
  let ?run = "run_state (reconcileDeletion mem_lb ''fip'' (snd (record_allocation ''metallb'' [] stale_record ''ip4-10.0.0.5'' stale_svc))) demo_sys"
  obtain r s' where run: "?run = (r, s')" by (cases ?run)
  have "ann stale_svc cleanupProgressAnnotation = cleanupStageReleased" by code_simp
  from stale_progress_leaks [OF mem_observes this run] obtain tr
    where tr: "m_log (lb_world s') = m_log (lb_world demo_sys) @ tr" "list_all record_keeping tr" by blast
  have "fst ?run = None" by code_simp
  then have "r = None" unfolding run by simp
  with run tr show ?thesis by (intro exI conjI)
qed

section \<open>The context of an allocation\<close>

lemma yields_try: "(\<And>e. P (h e)) \<Longrightarrow> (\<And>x. yields P (f x)) \<Longrightarrow> yields P (try_with m h f)"
  unfolding try_with_def by (intro yields_bind yields_sum yields_return)

definition context_ok :: "allocCtx \<Rightarrow> bool" where
  "context_ok cx \<longleftrightarrow>
     (sdata (cx_secret cx) ''loadBalancerType'' = ''metallb'' \<or> sdata (cx_secret cx) ''loadBalancerType'' = ''purelb'') \<and>
     list_all (\<lambda>k. sdata (cx_secret cx) k \<noteq> []) [''apiUrl'', ''clientSecret'', ''cluster'', ''project''] \<and> cx_pool cx \<noteq> []"

lemma missing_key_None: "missing_key secret ks = None \<Longrightarrow> list_all (\<lambda>k. sdata secret k \<noteq> []) ks"
  by (induction ks) (auto split: if_splits)

lemma valid_config:
  "validateProjectConfig secret pool = None \<Longrightarrow> context_ok \<lparr>cx_project = p, cx_secret = secret, cx_pool = pool, cx_interface = i\<rparr>"
  unfolding validateProjectConfig_def context_ok_def Let_def
  by (auto split: if_splits option.splits dest!: missing_key_None)

text \<open>
  C39. An allocation runs only in a complete context: the Secret names a load balancer type that is published, the endpoint, the
  client secret, the cluster and the project are not empty, and there is a pool to ask for. So no address is
  requested that cannot be published.
\<close>

theorem allocation_context_complete:
  assumes "run_state (prepareAllocation L app svc) s = (Inr cx, s')"
  shows "context_ok cx"
proof -
  let ?P = "\<lambda>r. \<forall>cx. r = Inr cx \<longrightarrow> context_ok cx"
  have "yields ?P (prepareAllocation L app svc)"
    unfolding prepareAllocation_def Let_def
    by (intro yields_try yields_option yields_bind yields_sum yields_if yields_return) (auto split: option.splits intro: valid_config)
  with assms show ?thesis unfolding yields_def by (metis fst_conv)
qed

theorem allocation_context_complete_witness:
  "case fst (run_state (prepareAllocation mem_lb ''fip'' new_svc) demo_sys) of
     Inr cx \<Rightarrow> context_ok cx \<and> cx_interface cx = ''eth0'' | Inl r \<Rightarrow> False"
proof -
  obtain r s' where run: "run_state (prepareAllocation mem_lb ''fip'' new_svc) demo_sys = (r, s')"
    by (cases "run_state (prepareAllocation mem_lb ''fip'' new_svc) demo_sys")
  have "case fst (run_state (prepareAllocation mem_lb ''fip'' new_svc) demo_sys) of Inr cx \<Rightarrow> cx_interface cx = ''eth0'' | Inl r \<Rightarrow> False"
    by code_simp
  then obtain cx where cx: "r = Inr cx" "cx_interface cx = ''eth0''" unfolding run by (auto split: sum.splits)
  from allocation_context_complete [OF run [unfolded cx(1)]] cx show ?thesis unfolding run by simp
qed

end
