(* ===== verification/Workers.thy ===== *)
theory Workers
  imports Pool_Controller Quota_Controller
begin

text \<open>
  How the controllers are driven: the event handlers that put keys on the work queues, the loop body
  \<open>processNextWorkItem\<close>, the start of a controller with its initial sync (\<open>Run\<close>), and the order in which
  \<open>cmd/manager/main.go\<close> starts the three controllers. The three controllers have the same text for the
  loop and the start; here each is one definition with the sync handler as an argument.

  The work queue of client-go is a parameter: a record of operations on the state, which may
  change the rest of the state as well, because other goroutines run in the meantime.
\<close>

section \<open>The work queue\<close>

text \<open>An item of the queue: a key, or a value that is not a string.\<close>

datatype item = Key string | OtherItem

record 's queue =
  QGet :: "('s, item option) state"
  QDone :: "item \<Rightarrow> ('s, unit) state"
  QForget :: "item \<Rightarrow> ('s, unit) state"
  QAddRateLimited :: "string \<Rightarrow> ('s, unit) state"
  QAdd :: "string \<Rightarrow> ('s, unit) state"
  QLen :: "('s, nat) state"

text \<open>
  The function literal in \<open>processNextWorkItem\<close>. A panic unwinds through the deferred \<open>Done\<close>; a call
  that does not return reaches nothing after it.
\<close>

definition process_item :: "'s queue \<Rightarrow> (string \<Rightarrow> ('s, kerr option) state) \<Rightarrow> item \<Rightarrow> ('s, kerr option) state" where
  "process_item Q sync obj =
     (case obj of
        OtherItem \<Rightarrow> do {
          _ \<leftarrow> QForget Q obj;
          _ \<leftarrow> QDone Q obj;
          State_Monad.return None
        }
      | Key key \<Rightarrow> do {
          e \<leftarrow> sync key;
          case e of
            Some err \<Rightarrow>
              if err = Hangs then State_Monad.return (Some Hangs)
              else if err = Panic then do { _ \<leftarrow> QDone Q obj; State_Monad.return (Some Panic) }
              else do {
                _ \<leftarrow> QAddRateLimited Q key;
                _ \<leftarrow> QDone Q obj;
                State_Monad.return (Some (wrap (''error syncing '' @ key) err))
              }
          | None \<Rightarrow> do {
              _ \<leftarrow> QForget Q obj;
              _ \<leftarrow> QDone Q obj;
              State_Monad.return None
            }
        })"

text \<open>The result is \<open>Inl\<close> when the call did not return, and otherwise whether to go on.\<close>

definition processNextWorkItem :: "'s queue \<Rightarrow> (string \<Rightarrow> ('s, kerr option) state) \<Rightarrow> ('s, kerr + bool) state" where
  "processNextWorkItem Q sync = do {
     obj \<leftarrow> QGet Q;
     case obj of
       None \<Rightarrow> State_Monad.return (Inr False)
     | Some x \<Rightarrow> do {
         err \<leftarrow> process_item Q sync x;
         State_Monad.return
           (if err = Some Panic then Inl Panic else if err = Some Hangs then Inl Hangs else Inr True)
       }
   }"

section \<open>Starting a controller\<close>

datatype run_result = Ready | Aborted | Fatal | Lost kerr

text \<open>
  The initial sync: as many items as the queue held when the caches were synced. \<open>ctxErr\<close> tells
  whether the context is cancelled.
\<close>

fun initial_sync :: "'s queue \<Rightarrow> (string \<Rightarrow> ('s, kerr option) state) \<Rightarrow> ('s, bool) state \<Rightarrow> nat \<Rightarrow> ('s, run_result) state" where
  "initial_sync Q sync ctxErr 0 = State_Monad.return Ready"
| "initial_sync Q sync ctxErr (Suc n) = do {
     r \<leftarrow> processNextWorkItem Q sync;
     case r of
       Inl e \<Rightarrow> State_Monad.return (Lost e)
     | Inr True \<Rightarrow> initial_sync Q sync ctxErr n
     | Inr False \<Rightarrow> do {
         c \<leftarrow> ctxErr;
         State_Monad.return (if c then Aborted else Fatal)
       }
   }"

text \<open>\<open>Run\<close> up to the point where \<open>initSyncDone\<close> is closed and the workers start.\<close>

definition run_controller ::
  "'s queue \<Rightarrow> (string \<Rightarrow> ('s, kerr option) state) \<Rightarrow> ('s, bool) state \<Rightarrow> ('s, bool) state \<Rightarrow> ('s, run_result) state" where
  "run_controller Q sync waitForCacheSync ctxErr = do {
     ok \<leftarrow> waitForCacheSync;
     if \<not> ok then do {
       c \<leftarrow> ctxErr;
       State_Monad.return (if c then Aborted else Fatal)
     }
     else do {
       queueLen \<leftarrow> QLen Q;
       initial_sync Q sync ctxErr queueLen
     }
   }"

text \<open>A worker handles items until the queue is shut down; \<open>None\<close> when the fuel runs out first.\<close>

fun runWorker :: "'s queue \<Rightarrow> (string \<Rightarrow> ('s, kerr option) state) \<Rightarrow> nat \<Rightarrow> ('s, (kerr + unit) option) state" where
  "runWorker Q sync 0 = State_Monad.return None"
| "runWorker Q sync (Suc n) = do {
     r \<leftarrow> processNextWorkItem Q sync;
     case r of
       Inl e \<Rightarrow> State_Monad.return (Some (Inl e))
     | Inr True \<Rightarrow> runWorker Q sync n
     | Inr False \<Rightarrow> State_Monad.return (Some (Inr ()))
   }"

section \<open>The manager\<close>

text \<open>The state of the manager: the quota controller's own state and the system.\<close>

type_synonym 'w mgr = "quota_ctl \<times> 'w sys"

definition on_sys :: "('w, 'a) act \<Rightarrow> ('w mgr, 'a) state" where
  "on_sys m = State (\<lambda>(ctl, s). case run_state m s of (r, s') \<Rightarrow> (r, (ctl, s')))"

definition quota_handler :: "'w env \<Rightarrow> string \<Rightarrow> ('w mgr, kerr option) state" where
  "quota_handler E key = State (\<lambda>(ctl, s). case run_state (syncQuota E ctl key) s of ((e, ctl'), s') \<Rightarrow> (e, (ctl', s')))"

text \<open>
  The start-up sequence of \<open>run\<close>: each controller starts when the initial sync of the one before
  it is done. With a cancelled context the sequence ends early.
\<close>

record 'w starter =
  PoolQueue :: "'w mgr queue"
  QuotaQueue :: "'w mgr queue"
  FipQueue :: "'w mgr queue"
  CacheSync :: "('w mgr, bool) state"
  CtxCancelled :: "('w mgr, bool) state"

definition run_manager :: "'w env \<Rightarrow> 'w starter \<Rightarrow> ('w mgr, run_result) state" where
  "run_manager E S = do {
     p \<leftarrow> run_controller (PoolQueue S) (\<lambda>key. on_sys (syncPool E key)) (CacheSync S) (CtxCancelled S);
     if p \<noteq> Ready then State_Monad.return p
     else do {
       q \<leftarrow> run_controller (QuotaQueue S) (quota_handler E) (CacheSync S) (CtxCancelled S);
       if q \<noteq> Ready then State_Monad.return q
       else run_controller (FipQueue S) (\<lambda>key. on_sys (syncFip E key)) (CacheSync S) (CtxCancelled S)
     }
   }"

section \<open>Events\<close>

text \<open>The object of an event: a resource, a tombstone that may hold one, or something else.\<close>

datatype 'a event = EventObj 'a | EventGone "'a option" | EventInvalid

text \<open>\<open>cache.MetaNamespaceKeyFunc\<close> gives the key of an object or fails.\<close>

definition enqueue :: "'s queue \<Rightarrow> ('a \<Rightarrow> string option) \<Rightarrow> 'a \<Rightarrow> ('s, unit) state" where
  "enqueue Q keyFunc obj =
     (case keyFunc obj of None \<Rightarrow> State_Monad.return () | Some key \<Rightarrow> QAdd Q key)"

definition enqueueFip :: "'s queue \<Rightarrow> (FloatingIP event \<Rightarrow> string option) \<Rightarrow> FloatingIP event \<Rightarrow> ('s, unit) state" where
  "enqueueFip Q keyFunc obj = enqueue Q keyFunc obj"

definition enqueueFipPool :: "'s queue \<Rightarrow> (FloatingIPPool event \<Rightarrow> string option) \<Rightarrow> FloatingIPPool event \<Rightarrow> ('s, unit) state" where
  "enqueueFipPool Q keyFunc obj = enqueue Q keyFunc obj"

definition handleFipPoolCreate ::
  "'s queue \<Rightarrow> (FloatingIPPool event \<Rightarrow> string option) \<Rightarrow> FloatingIPPool event \<Rightarrow> ('s, unit) state" where
  "handleFipPoolCreate Q keyFunc obj =
     (case obj of EventObj _ \<Rightarrow> enqueueFipPool Q keyFunc obj | _ \<Rightarrow> State_Monad.return ())"

definition enqueueFloatingIPProjectQuota ::
  "'s queue \<Rightarrow> (FloatingIPProjectQuota event \<Rightarrow> string option) \<Rightarrow> FloatingIPProjectQuota event \<Rightarrow> ('s, unit) state" where
  "enqueueFloatingIPProjectQuota Q keyFunc obj = enqueue Q keyFunc obj"

definition handleFloatingIPProjectQuotaCreate ::
  "'s queue \<Rightarrow> (FloatingIPProjectQuota event \<Rightarrow> string option) \<Rightarrow> FloatingIPProjectQuota event \<Rightarrow> ('s, unit) state" where
  "handleFloatingIPProjectQuotaCreate Q keyFunc obj =
     (case obj of EventObj _ \<Rightarrow> enqueueFloatingIPProjectQuota Q keyFunc obj | _ \<Rightarrow> State_Monad.return ())"

text \<open>The FloatingIP of an event, also out of a tombstone.\<close>

fun event_fip :: "FloatingIP event \<Rightarrow> FloatingIP option" where
  "event_fip (EventObj fip) = Some fip"
| "event_fip (EventGone obj) = obj"
| "event_fip EventInvalid = None"

definition enqueueQuotaForFloatingIP ::
  "'s queue \<Rightarrow> (string \<Rightarrow> ('s, kerr + FloatingIPProjectQuota) state) \<Rightarrow> FloatingIP event \<Rightarrow> ('s, unit) state" where
  "enqueueQuotaForFloatingIP Q getQuota obj =
     (case event_fip obj of
        None \<Rightarrow> State_Monad.return ()
      | Some fip \<Rightarrow>
          (case map_of (mof (f_labels fip)) projectNameLabel of
             None \<Rightarrow> State_Monad.return ()
           | Some projectName \<Rightarrow>
               if projectName = [] then State_Monad.return ()
               else do {
                 q \<leftarrow> getQuota projectName;
                 case q of
                   Inl e \<Rightarrow> State_Monad.return ()
                 | Inr _ \<Rightarrow> QAdd Q projectName
               }))"

text \<open>The update event of a FloatingIP enqueues the quotas of both versions.\<close>

definition updateFloatingIPEvent ::
  "'s queue \<Rightarrow> (string \<Rightarrow> ('s, kerr + FloatingIPProjectQuota) state) \<Rightarrow> FloatingIP event \<Rightarrow> FloatingIP event \<Rightarrow> ('s, unit) state" where
  "updateFloatingIPEvent Q getQuota oldObj newObj = do {
     _ \<leftarrow> enqueueQuotaForFloatingIP Q getQuota oldObj;
     enqueueQuotaForFloatingIP Q getQuota newObj
   }"

end
