(* ===== verification/Workers_Props.thy ===== *)
theory Workers_Props
  imports Workers Pool_Props
begin

text \<open>
  What the loop around the sync handlers guarantees: no key gets lost when a sync fails, the initial
  sync handles everything that was queued, and so a restarted manager knows all recorded
  allocations again before it hands out addresses.
\<close>

section \<open>What the code relies on of the work queue\<close>

text \<open>The operation adds items at the end of the queue, if any.\<close>

definition appends :: "('s \<Rightarrow> item list) \<Rightarrow> ('s, 'a) state \<Rightarrow> bool" where
  "appends view m \<longleftrightarrow> (\<forall>s. \<exists>ys. view (snd (run_state m s)) = view s @ ys)"

text \<open>Items come out in the order in which they were queued; a queue with items is never reported shut down.\<close>

definition queue_fifo :: "('s \<Rightarrow> item list) \<Rightarrow> 's queue \<Rightarrow> bool" where
  "queue_fifo view Q \<longleftrightarrow>
     (\<forall>s x xs. view s = x # xs \<longrightarrow> (\<exists>ys s'. run_state (QGet Q) s = (Some x, s') \<and> view s' = xs @ ys)) \<and>
     (\<forall>x. appends view (QDone Q x)) \<and> (\<forall>x. appends view (QForget Q x)) \<and> (\<forall>k. appends view (QAddRateLimited Q k)) \<and>
     (\<forall>s. run_state (QLen Q) s = (length (view s), s))"

text \<open>\<open>J\<close> survives every operation of the queue and every sync.\<close>

definition survives :: "('s \<Rightarrow> bool) \<Rightarrow> ('s, 'a) state \<Rightarrow> bool" where
  "survives J m \<longleftrightarrow> (\<forall>s. J s \<longrightarrow> J (snd (run_state m s)))"

definition ops_keep :: "('s \<Rightarrow> bool) \<Rightarrow> 's queue \<Rightarrow> bool" where
  "ops_keep J Q \<longleftrightarrow> survives J (QGet Q) \<and> (\<forall>x. survives J (QDone Q x)) \<and> (\<forall>x. survives J (QForget Q x)) \<and>
     (\<forall>k. survives J (QAddRateLimited Q k))"

lemma survivesD: "survives J m \<Longrightarrow> J s \<Longrightarrow> run_state m s = (r, s') \<Longrightarrow> J s'"
  by (auto simp: survives_def dest: spec [of _ s])

lemma survives_bind: "survives J m \<Longrightarrow> (\<And>x. survives J (k x)) \<Longrightarrow> survives J (State_Monad.bind m k)"
  by (simp add: survives_def case_prod_beta)

lemma survives_return: "survives J (State_Monad.return x)"
  by (simp add: survives_def)

lemma appends_bind:
  assumes "appends view m" "\<And>x. appends view (k x)" shows "appends view (State_Monad.bind m k)"
  unfolding appends_def
proof
  fix s
  obtain x s1 where m: "run_state m s = (x, s1)" by (cases "run_state m s")
  obtain ys zs where "view s1 = view s @ ys" "view (snd (run_state (k x) s1)) = view s1 @ zs"
    using assms m unfolding appends_def by (metis snd_conv)
  with m show "\<exists>ys. view (snd (run_state (State_Monad.bind m k) s)) = view s @ ys" by simp
qed

lemma appends_return: "appends view (State_Monad.return x)"
  by (simp add: appends_def)

section \<open>One item\<close>

lemma process_item_appends:
  assumes "queue_fifo view Q" "\<And>k. appends view (sync k)"
  shows "appends view (process_item Q sync x)"
  using assms unfolding queue_fifo_def process_item_def
  by (cases x) (auto intro!: appends_bind appends_return split: option.split)

lemma queue_then_survives:
  assumes "ops_keep J Q"
  shows "survives J (State_Monad.bind (QForget Q x) (\<lambda>_. State_Monad.bind (QDone Q x) (\<lambda>_. State_Monad.return r)))"
    "survives J (State_Monad.bind (QAddRateLimited Q k) (\<lambda>_. State_Monad.bind (QDone Q x) (\<lambda>_. State_Monad.return r)))"
  using assms by (auto simp: ops_keep_def intro!: survives_bind survives_return)

lemma after_sync_survives:
  assumes "ops_keep J Q"
  shows "survives J (case e of
            Some err \<Rightarrow>
              if err = Hangs then State_Monad.return (Some Hangs)
              else if err = Panic then State_Monad.bind (QDone Q x) (\<lambda>_. State_Monad.return (Some Panic))
              else State_Monad.bind (QAddRateLimited Q key) (\<lambda>_. State_Monad.bind (QDone Q x) (\<lambda>_.
                State_Monad.return (Some (wrap (''error syncing '' @ key) err))))
          | None \<Rightarrow> State_Monad.bind (QForget Q x) (\<lambda>_. State_Monad.bind (QDone Q x) (\<lambda>_. State_Monad.return None)))"
proof -
  have "survives J (State_Monad.bind (QDone Q x) (\<lambda>_. State_Monad.return r))" for r
    using assms by (auto simp: ops_keep_def intro!: survives_bind survives_return)
  then show ?thesis by (auto intro!: queue_then_survives [OF assms] survives_return split: option.split)
qed

lemma process_item_survives:
  assumes "ops_keep J Q" "\<And>k. survives J (sync k)"
  shows "survives J (process_item Q sync x)"
proof (cases x)
  case (Key k)
  show ?thesis unfolding Key process_item_def item.case
    by (rule survives_bind [OF assms(2) after_sync_survives [OF assms(1)]])
next
  case OtherItem
  show ?thesis unfolding OtherItem process_item_def item.case by (rule queue_then_survives [OF assms(1)])
qed

text \<open>What a sync establishes still holds when its item is done.\<close>

lemma process_item_establishes:
  assumes "ops_keep J Q" "J (snd (run_state (sync k) s))"
  shows "J (snd (run_state (process_item Q sync (Key k)) s))"
proof -
  obtain e s1 where e: "run_state (sync k) s = (e, s1)" by (cases "run_state (sync k) s")
  from assms(2) e have "J s1" by simp
  with survivesD [OF after_sync_survives [OF assms(1), where e = e and x = "Key k" and key = k], of s1] show ?thesis
    unfolding process_item_def item.case by (simp add: e prod_eq_iff)
qed

lemma process_item_result:
  assumes "fst (run_state (sync k) s) \<notin> {Some Panic, Some Hangs}"
  shows "fst (run_state (process_item Q sync (Key k)) s) \<notin> {Some Panic, Some Hangs}"
  using assms by (auto simp: process_item_def case_prod_beta wrap_def split: option.splits)

lemma process_other_result: "fst (run_state (process_item Q sync OtherItem) s) = None"
  by (simp add: process_item_def case_prod_beta)

section \<open>The initial sync\<close>

lemma processNext_step:
  assumes fifo: "queue_fifo view Q" "\<And>k. appends view (sync k)"
    and I: "ops_keep I Q" "\<And>k. survives I (sync k)" "I s"
    and ret: "\<And>k t. I t \<Longrightarrow> fst (run_state (sync k) t) \<notin> {Some Panic, Some Hangs}"
    and v: "view s = x # xs"
  obtains s1 s' ys where "run_state (QGet Q) s = (Some x, s1)" "run_state (processNextWorkItem Q sync) s = (Inr True, s')"
    "snd (run_state (process_item Q sync x) s1) = s'" "view s' = xs @ ys" "I s1" "I s'"
proof -
  obtain y1 s1 where s1: "run_state (QGet Q) s = (Some x, s1)" "view s1 = xs @ y1"
    using fifo(1) v unfolding queue_fifo_def by blast
  have I1: "I s1" using I(1,3) s1 by (auto simp: ops_keep_def intro: survivesD)
  obtain r s' where r: "run_state (process_item Q sync x) s1 = (r, s')" by (cases "run_state (process_item Q sync x) s1")
  have nr: "r \<notin> {Some Panic, Some Hangs}"
  proof (cases x)
    case (Key k)
    then show ?thesis using process_item_result [of sync k s1 Q] ret [OF I1, of k] r by simp
  next
    case OtherItem
    then show ?thesis using process_other_result [of Q sync s1] r by simp
  qed
  obtain y2 where "view s' = view s1 @ y2"
    using process_item_appends [of view Q sync x, OF fifo] r unfolding appends_def by (metis snd_conv)
  moreover have "run_state (processNextWorkItem Q sync) s = (Inr True, s')"
    using s1(1) r nr by (auto simp: processNextWorkItem_def)
  moreover have "I s'" using process_item_survives [of I Q sync x, OF I(1,2)] I1 r by (auto intro: survivesD)
  ultimately show ?thesis using that s1 r I1 by simp
qed

text \<open>
  The initial sync comes to its end, and what the sync of a key establishes and everything else
  keeps holds for every key that was among the first \<open>n\<close> items.
\<close>

lemma initial_sync_all:
  assumes fifo: "queue_fifo view Q" "\<And>k. appends view (sync k)"
    and I: "ops_keep I Q" "\<And>k. survives I (sync k)"
    and ret: "\<And>k t. I t \<Longrightarrow> fst (run_state (sync k) t) \<notin> {Some Panic, Some Hangs}"
    and P: "ops_keep (\<lambda>t. I t \<and> P t) Q" "\<And>k. survives (\<lambda>t. I t \<and> P t) (sync k)"
    and est: "\<And>t. I t \<Longrightarrow> P (snd (run_state (sync key) t))"
    and s: "I s" "n \<le> length (view s)"
  shows "\<exists>s'. run_state (initial_sync Q sync c n) s = (Ready, s') \<and> I s' \<and> (P s \<or> Key key \<in> set (take n (view s)) \<longrightarrow> P s')"
  using s
proof (induction n arbitrary: s)
  case (Suc n)
  then obtain x xs where v: "view s = x # xs" by (cases "view s") auto
  obtain s1 s' ys where st: "run_state (QGet Q) s = (Some x, s1)" "run_state (processNextWorkItem Q sync) s = (Inr True, s')"
    "snd (run_state (process_item Q sync x) s1) = s'" "view s' = xs @ ys" "I s1" "I s'"
    by (rule processNext_step [OF fifo I Suc.prems(1) ret v])
  have "n \<le> length (view s')" using Suc.prems(2) v st(4) by simp
  from Suc.IH [OF st(6) this] obtain t where t: "run_state (initial_sync Q sync c n) s' = (Ready, t)" "I t"
    "P s' \<or> Key key \<in> set (take n (view s')) \<longrightarrow> P t" by blast
  have "P s'" if "P s"
  proof -
    have "I s1 \<and> P s1" using that Suc.prems(1) P(1) st(1) by (auto simp: ops_keep_def dest: survivesD)
    from process_item_survives [of "\<lambda>t. I t \<and> P t" Q sync x, OF P, unfolded survives_def, rule_format, OF this] st(3)
    show ?thesis by simp
  qed
  moreover have "P s'" if "x = Key key"
  proof -
    have "I (snd (run_state (sync key) s1)) \<and> P (snd (run_state (sync key) s1))"
      using I(2) [of key, unfolded survives_def, rule_format, OF st(5)] est [OF st(5)] by simp
    from process_item_establishes [OF P(1), of sync key s1, OF this] that st(3) show ?thesis by simp
  qed
  moreover have "take n (view s') = take n xs" using Suc.prems(2) v st(4) by simp
  ultimately have "P s \<or> Key key \<in> set (take (Suc n) (view s)) \<longrightarrow> P t" using t(3) v by auto
  with t st(2) show ?case by simp
qed simp

section \<open>The first pass over the pools\<close>

text \<open>The allocator of the manager, and queue operations that leave it alone.\<close>

abbreviation alloc :: "'w mgr \<Rightarrow> IPAllocator" where
  "alloc m \<equiv> sys_ipam (snd m)"

definition queue_apart :: "'w mgr queue \<Rightarrow> bool" where
  "queue_apart Q \<longleftrightarrow>
     (\<forall>s. alloc (snd (run_state (QGet Q) s)) = alloc s) \<and> (\<forall>s x. alloc (snd (run_state (QDone Q x) s)) = alloc s) \<and>
     (\<forall>s x. alloc (snd (run_state (QForget Q x) s)) = alloc s) \<and> (\<forall>s k. alloc (snd (run_state (QAddRateLimited Q k) s)) = alloc s)"

lemma queue_apart_keeps: "queue_apart Q \<Longrightarrow> ops_keep (\<lambda>m. J (alloc m)) Q"
  by (simp add: queue_apart_def ops_keep_def survives_def)

lemma on_sys_run: "run_state (on_sys m) s = (fst (run_state m (snd s)), (fst s, snd (run_state m (snd s))))"
  by (simp add: on_sys_def case_prod_beta)

text \<open>A sync of a pool leaves the allocator as it is or refreshes one subnet.\<close>

lemma syncPool_alloc:
  fixes key :: string and s :: "'w sys"
  assumes E: "env_ok (=) E" and lf: "\<And>t. fst (run_state (ListerFips E) t) = Inr fips"
    and lp: "\<And>t n. fst (run_state (ListerPool E n) t) = pools n"
  defines "a' \<equiv> sys_ipam (snd (run_state (syncPool E key) s))"
  shows "a' = sys_ipam s \<or> (\<exists>ns name pool c. SplitMetaNamespaceKey E key = Some (ns, name) \<and> pools name = Inr pool \<and>
    p_config pool = Some c \<and> RefreshSubnet (sys_ipam s) (p_name pool) (Subnet c) (Pool_Start c) (Pool_End c) (Pool_Exclude c)
      (live_ips (p_name pool) fips) = Some (a', None))"
proof (cases "\<exists>ns name pool c. SplitMetaNamespaceKey E key = Some (ns, name) \<and> pools name = Inr pool \<and> p_config pool = Some c")
  case True
  then obtain ns name pool c where k: "SplitMetaNamespaceKey E key = Some (ns, name)" "pools name = Inr pool" "p_config pool = Some c"
    by blast
  obtain s1 where s1: "run_state (ListerPool E name) s = (Inr pool, s1)" using lp [of name s] k(2) by (metis prod.collapse)
  have i1: "sys_ipam s1 = sys_ipam s" using env_rel_run [OF env_ok_calls(13) [OF E] s1] by simp
  obtain r s' where r: "run_state (syncPoolConfig E (p_name pool) c) s1 = (r, s')"
    by (cases "run_state (syncPoolConfig E (p_name pool) c) s1")
  have "a' = sys_ipam s'" unfolding a'_def using k s1 r by (simp add: syncPool_def)
  with syncPoolConfig_run [OF E r lf] i1 k show ?thesis
    by (auto split: option.splits prod.splits)
next
  case False
  then have "snd (run_state (syncPool E key) s) = (case SplitMetaNamespaceKey E key of None \<Rightarrow> s
      | Some (ns, name) \<Rightarrow> snd (run_state (ListerPool E name) s))"
    using lp by (auto simp: syncPool_def case_prod_beta split: option.splits sum.splits)
  then have "a' = sys_ipam s"
    using env_ok_calls(13) [OF E] unfolding a'_def
    by (auto simp: env_rel_def state_io_rel_def split: option.splits)
  then show ?thesis by simp
qed

text \<open>Every recorded address of a pool is claimed.\<close>

definition recovered :: "string \<Rightarrow> string set \<Rightarrow> IPAllocator \<Rightarrow> bool" where
  "recovered name ips a \<longleftrightarrow> (\<forall>ip \<in> ips. claim_in a name ip \<noteq> None)"

lemma refresh_reach: "ipam_reach a \<Longrightarrow> RefreshSubnet a n sub st en ex al = Some (a', r) \<Longrightarrow> ipam_reach a'"
  using ipam_reach.call [of a "CallRefreshSubnet n sub st en ex al" a'] by simp

lemma refresh_recovers:
  assumes "ipam_reach a" and c: "build_checks sub st en p sa ea" "Is4 (pip p)" "aval ea \<noteq> top128 - 1"
    and ex: "\<forall>ip \<in> set ex. ip \<in> ipkey ` {aval sa..aval ea}"
    and r: "RefreshSubnet a n sub st en ex al = Some (a', r)"
  shows "recovered n (set al \<inter> ipkey ` {aval sa..aval ea}) a'"
proof -
  from refresh_exact [OF assms(1) c, of n ex al] r ex
  have "claim_in a' n ip = (if ip \<notin> ipkey ` {aval sa..aval ea} then None
       else if \<exists>o'. holds a n ip o' then claim_in a n ip
       else if ip \<in> set ex \<union> set al then Some [] else None)" for ip by simp
  then show ?thesis by (auto simp: recovered_def holds_def)
qed

lemma refresh_other:
  assumes "ipam_reach a" "RefreshSubnet a n sub st en ex al = Some (a', None)" "m \<noteq> n"
  shows "claim_in a' m = claim_in a m"
proof -
  obtain p sa ea where "\<forall>m. m \<noteq> n \<longrightarrow> map_of a' m = map_of a m"
    by (rule RefreshSubnet_ok [OF ipam_ok_inv [OF ipam_reach_ok [OF assms(1)]] assms(2)]) blast
  with assms(3) show ?thesis by (simp add: claim_in_def fun_eq_iff)
qed

lemma syncPool_recovers:
  fixes E :: "'w env" and name :: string
  assumes E: "env_ok (=) E" and lf: "\<And>t. fst (run_state (ListerFips E) t) = Inr fips"
    and lp: "\<And>t n. fst (run_state (ListerPool E n) t) = pools n" and names': "\<forall>n q. pools n = Inr q \<longrightarrow> p_name q = n"
    and pool: "pools name = Inr pool" "p_config pool = Some c"
    and c: "build_checks (Subnet c) (Pool_Start c) (Pool_End c) p sa ea" "Is4 (pip p)" "aval ea \<noteq> top128 - 1"
    and ex: "\<forall>ip \<in> set (Pool_Exclude c). ip \<in> ipkey ` {aval sa..aval ea}"
  defines "R \<equiv> recovered name (set (live_ips name fips) \<inter> ipkey ` {aval sa..aval ea})"
  shows "\<And>k. survives (\<lambda>m. ipam_reach (alloc m)) (on_sys (syncPool E k))"
    and "\<And>k. survives (\<lambda>m. ipam_reach (alloc m) \<and> R (alloc m)) (on_sys (syncPool E k))"
    and "\<And>ns key m. SplitMetaNamespaceKey E key = Some (ns, name) \<Longrightarrow> ipam_reach (alloc m) \<Longrightarrow>
      R (alloc (snd (run_state (on_sys (syncPool E key)) m)))"
proof -
  note names = names' [rule_format]
  have step: "ipam_reach a' \<and> (R a \<longrightarrow> R a')"
    if "ipam_reach a" "pools n = Inr q" "p_config q = Some d"
      "RefreshSubnet a (p_name q) (Subnet d) (Pool_Start d) (Pool_End d) (Pool_Exclude d) (live_ips (p_name q) fips) = Some (a', None)"
    for a a' n q d
  proof (cases "n = name")
    case True
    then have "q = pool" "d = c" "p_name q = name" using that(2,3) pool names by auto
    then have "R a'" unfolding R_def using refresh_recovers [OF that(1) c ex] that(4) by blast
    with refresh_reach [OF that(1,4)] show ?thesis by simp
  next
    case False
    then have "claim_in a' name = claim_in a name" using refresh_other [OF that(1,4)] names [OF that(2)] by simp
    with refresh_reach [OF that(1,4)] show ?thesis by (simp add: R_def recovered_def)
  qed
  have any: "ipam_reach (sys_ipam (snd (run_state (syncPool E k) t))) \<and>
      (R (sys_ipam t) \<longrightarrow> R (sys_ipam (snd (run_state (syncPool E k) t))))" if "ipam_reach (sys_ipam t)" for k t
    using syncPool_alloc [OF E lf lp, of k t] that step by (elim disjE exE conjE) auto
  show "\<And>k. survives (\<lambda>m. ipam_reach (alloc m)) (on_sys (syncPool E k))"
    and "\<And>k. survives (\<lambda>m. ipam_reach (alloc m) \<and> R (alloc m)) (on_sys (syncPool E k))"
    using any by (simp_all add: survives_def on_sys_run)
  fix ns key and m :: "'w mgr"
  assume k: "SplitMetaNamespaceKey E key = Some (ns, name)" and reach: "ipam_reach (alloc m)"
  obtain a' where a': "RefreshSubnet (alloc m) name (Subnet c) (Pool_Start c) (Pool_End c) (Pool_Exclude c) (live_ips name fips) = Some (a', None)"
    using refresh_exact [OF reach c, of name "Pool_Exclude c" "live_ips name fips"] ex by blast
  obtain s1 where s1: "run_state (ListerPool E name) (snd m) = (Inr pool, s1)" using lp [of name "snd m"] pool(1) by (metis prod.collapse)
  have i1: "sys_ipam s1 = alloc m" using env_rel_run [OF env_ok_calls(13) [OF E] s1] by simp
  obtain r s' where r: "run_state (syncPoolConfig E name c) s1 = (r, s')" by (cases "run_state (syncPoolConfig E name c) s1")
  have "sys_ipam (snd (run_state (syncPool E key) (snd m))) = sys_ipam s'"
    using k s1 r pool names [OF pool(1)] by (simp add: syncPool_def)
  moreover have "sys_ipam s' = a'" using syncPoolConfig_run [OF E r lf] i1 a' by simp
  ultimately show "R (alloc (snd (run_state (on_sys (syncPool E key)) m)))"
    unfolding on_sys_run R_def using refresh_recovers [OF reach c ex a'] by simp
qed

text \<open>The start of the pool controller comes to its end, and then the recorded addresses of a queued pool are claimed.\<close>

lemma pools_recovered:
  assumes "queue_fifo view Q" and "queue_apart Q" and "\<And>k. appends view (on_sys (syncPool E k))"
    and "\<And>k m. ipam_reach (alloc m) \<Longrightarrow> fst (run_state (syncPool E k) (snd m)) \<notin> {Some Panic, Some Hangs}"
    and "env_ok (=) E" and "\<And>t. fst (run_state (ListerFips E) t) = Inr fips"
    and "\<And>t n. fst (run_state (ListerPool E n) t) = pools n" and "\<forall>n q. pools n = Inr q \<longrightarrow> p_name q = n"
    and "pools name = Inr pool" and "p_config pool = Some c"
    and "build_checks (Subnet c) (Pool_Start c) (Pool_End c) p sa ea" and "Is4 (pip p)" and "aval ea \<noteq> top128 - 1"
    and "\<forall>ip \<in> set (Pool_Exclude c). ip \<in> ipkey ` {aval sa..aval ea}"
    and "SplitMetaNamespaceKey E key = Some (ns, name)"
    and "run_state waitForCacheSync m0 = (True, m)" and "ipam_reach (alloc m)" and "Key key \<in> set (view m)"
  shows "\<exists>m'. run_state (run_controller Q (\<lambda>k. on_sys (syncPool E k)) waitForCacheSync ctxErr) m0 = (Ready, m') \<and>
    (\<forall>f \<in> set fips. f_pool f = name \<longrightarrow> \<not> f_deleted f \<longrightarrow> f_ip f \<in> ipkey ` {aval sa..aval ea} \<longrightarrow> f_ip f \<noteq> [] \<longrightarrow>
       claim_in (alloc m') name (f_ip f) \<noteq> None)"
proof -
  define R where "R = recovered name (set (live_ips name fips) \<inter> ipkey ` {aval sa..aval ea})"
  note sp = syncPool_recovers [of E fips pools name pool c p sa ea, OF assms(5-14), folded R_def]
  have "\<exists>m'. run_state (initial_sync Q (\<lambda>k. on_sys (syncPool E k)) ctxErr (length (view m))) m = (Ready, m') \<and>
      ipam_reach (alloc m') \<and> (R (alloc m) \<or> Key key \<in> set (take (length (view m)) (view m)) \<longrightarrow> R (alloc m'))"
  proof (rule initial_sync_all [of view Q "\<lambda>k. on_sys (syncPool E k)" "\<lambda>m. ipam_reach (alloc m)" "\<lambda>m. R (alloc m)" key m])
    show "queue_fifo view Q" by (rule assms(1))
    show "ops_keep (\<lambda>m. ipam_reach (alloc m)) Q" "ops_keep (\<lambda>t. ipam_reach (alloc t) \<and> R (alloc t)) Q"
      by (rule queue_apart_keeps [OF assms(2)])+
    show "\<And>k. appends view (on_sys (syncPool E k))" by (rule assms(3))
    show "\<And>k. survives (\<lambda>m. ipam_reach (alloc m)) (on_sys (syncPool E k))" by (rule sp(1))
    show "\<And>k. survives (\<lambda>t. ipam_reach (alloc t) \<and> R (alloc t)) (on_sys (syncPool E k))" by (rule sp(2))
    show "\<And>k t. ipam_reach (alloc t) \<Longrightarrow> fst (run_state (on_sys (syncPool E k)) t) \<notin> {Some Panic, Some Hangs}"
      using assms(4) by (simp add: on_sys_run)
    show "\<And>t. ipam_reach (alloc t) \<Longrightarrow> R (alloc (snd (run_state (on_sys (syncPool E key)) t)))" by (rule sp(3) [OF assms(15)])
  qed (simp_all add: assms(17))
  then obtain m' where m': "run_state (initial_sync Q (\<lambda>k. on_sys (syncPool E k)) ctxErr (length (view m))) m = (Ready, m')" "R (alloc m')"
    using assms(18) by auto
  have "run_state (QLen Q) m = (length (view m), m)" using assms(1) unfolding queue_fifo_def by blast
  then have "run_state (run_controller Q (\<lambda>k. on_sys (syncPool E k)) waitForCacheSync ctxErr) m0 = (Ready, m')"
    using m'(1) assms(16) by (simp add: run_controller_def)
  moreover have "claim_in (alloc m') name (f_ip f) \<noteq> None"
    if "f \<in> set fips" "f_pool f = name" "\<not> f_deleted f" "f_ip f \<in> ipkey ` {aval sa..aval ea}" "f_ip f \<noteq> []" for f
  proof -
    have "f_ip f \<in> set (live_ips name fips)" using that by (auto simp: live_ips_def)
    with m'(2) that(4) show ?thesis unfolding R_def recovered_def by blast
  qed
  ultimately show ?thesis by blast
qed

section \<open>The quotas do not touch the allocator\<close>

lemma poolFamily_rel: "preorder_rel R \<Longrightarrow> env_ok R E \<Longrightarrow> env_rel R (poolFamily E n)"
  unfolding poolFamily_def by (intro rel_intro env_ok_calls)

lemma rebuildStatus_rel: "preorder_rel R \<Longrightarrow> env_ok R E \<Longrightarrow> env_rel R (rebuildStatus E name fips m)"
proof (induction fips arbitrary: m)
  case (Cons fip fips)
  have fi: "env_rel R (case map_of m (f_pool fip) of
           Some (Some fi) \<Rightarrow> State_Monad.return fi
         | _ \<Rightarrow> do {
             fam \<leftarrow> poolFamily E (f_pool fip);
             State_Monad.return \<lparr>fi_family = fam, fi_allocated = Some [], fi_used = 0\<rparr>
           })"
    by (intro rel_intro Cons.prems poolFamily_rel)
  show ?case unfolding rebuildStatus.simps by (intro env_rel_if env_rel_bind Cons fi)
qed (simp add: env_rel_return)

lemma deleteAttached_env_rel: "preorder_rel R \<Longrightarrow> env_ok R E \<Longrightarrow> env_rel R (deleteAttached E name fips)"
proof (induction fips)
  case (Cons fip fips)
  then show ?case unfolding deleteAttached.simps by (intro rel_intro env_ok_calls)
qed (simp add: env_rel_return)

lemma syncQuota_rel:
  assumes R: "preorder_rel R" "env_ok R E"
  shows "env_rel R (syncQuota E ctl key)"
  unfolding syncQuota_def handleQuotaDelete_def rebuildQuota_def dropQuotaFinalizer_def Let_def
  by (intro rel_intro R env_ok_calls [OF R(2)] rebuildStatus_rel deleteAttached_env_rel env_rel_retry [OF R(2)])

lemma quota_handler_alloc: "env_ok (=) E \<Longrightarrow> alloc (snd (run_state (quota_handler E key) m)) = alloc m"
proof -
  assume E: "env_ok (=) E"
  have "preorder_rel ((=) :: IPAllocator \<Rightarrow> _)" by (auto simp: preorder_rel_def reflp_def transp_def)
  from syncQuota_rel [OF this E, of "fst m" key] show ?thesis
    by (cases m) (auto simp: quota_handler_def env_rel_def state_io_rel_def case_prod_beta)
qed

lemma processNext_survives:
  "ops_keep J Q \<Longrightarrow> (\<And>k. survives J (sync k)) \<Longrightarrow> survives J (processNextWorkItem Q sync)"
  unfolding processNextWorkItem_def
  by (rule survives_bind) (auto simp: ops_keep_def intro!: survives_return survives_bind process_item_survives split: option.split)

lemma initial_sync_survives:
  "ops_keep J Q \<Longrightarrow> (\<And>k. survives J (sync k)) \<Longrightarrow> survives J c \<Longrightarrow> survives J (initial_sync Q sync c n)"
proof (induction n)
  case (Suc n)
  then show ?case unfolding initial_sync.simps
    by (auto intro!: survives_bind processNext_survives survives_return split: sum.split bool.split)
qed (simp add: survives_return)

text \<open>A start-up whose queue of quotas, cache sync and context do not touch the allocator.\<close>

definition starter_apart :: "'w starter \<Rightarrow> bool" where
  "starter_apart S \<longleftrightarrow> queue_apart (PoolQueue S) \<and> queue_apart (QuotaQueue S) \<and>
     (\<forall>m. alloc (snd (run_state (QLen (QuotaQueue S)) m)) = alloc m) \<and>
     (\<forall>m. alloc (snd (run_state (CacheSync S) m)) = alloc m) \<and> (\<forall>m. alloc (snd (run_state (CtxCancelled S) m)) = alloc m)"

lemma quotas_keep_alloc:
  assumes S: "starter_apart S" and E: "env_ok (=) E"
  shows "alloc (snd (run_state (run_controller (QuotaQueue S) (quota_handler E) (CacheSync S) (CtxCancelled S)) m)) = alloc m"
proof -
  let ?J = "\<lambda>m'. alloc m' = alloc m"
  have ops: "ops_keep ?J (QuotaQueue S)" using queue_apart_keeps [where J = "\<lambda>a. a = alloc m"] S by (auto simp: starter_apart_def)
  have c: "survives ?J (CtxCancelled S)" "survives ?J (CacheSync S)" "survives ?J (QLen (QuotaQueue S))"
    using S by (simp_all add: starter_apart_def survives_def)
  have h: "survives ?J (quota_handler E k)" for k using quota_handler_alloc [OF E] by (simp add: survives_def)
  have "survives ?J (run_controller (QuotaQueue S) (quota_handler E) (CacheSync S) (CtxCancelled S))"
    unfolding run_controller_def
    by (auto intro!: survives_bind c survives_return initial_sync_survives [OF ops h] split: bool.split)
  then show ?thesis unfolding survives_def by blast
qed

text \<open>
  C37. A restarted manager knows its allocations before the FloatingIP controller starts. The start-up sequence of \<open>run\<close> (\<open>run_manager\<close>)
  first runs the initial sync of the pools to its end, then that of the quotas, and only then starts the FloatingIP controller, if the
  quotas got ready; and in the state \<open>m2\<close> in which that controller starts, every address in the range that the status of a live
  FloatingIP records is claimed, in each pool \<open>name\<close> with a serviceable IPv4 configuration (checks passed, excludes inside the range) whose key
  is queued when the caches are synced. Assumed: the work queue of the pools delivers in order, the caches answer the same
  throughout, the syncs of pools neither panic nor hang, and nobody else touches the address manager meanwhile
  (the workers that the pool controller starts after its initial sync are not part of this sequence).
\<close>

theorem restart_recovers_claims:
  assumes "queue_fifo view (PoolQueue S)" and "starter_apart S" and "\<And>k. appends view (on_sys (syncPool E k))"
    and "\<And>k m. ipam_reach (alloc m) \<Longrightarrow> fst (run_state (syncPool E k) (snd m)) \<notin> {Some Panic, Some Hangs}"
    and "env_ok (=) E" and "\<And>t. fst (run_state (ListerFips E) t) = Inr fips"
    and "\<And>t n. fst (run_state (ListerPool E n) t) = pools n" and "\<forall>n q. pools n = Inr q \<longrightarrow> p_name q = n"
    and "pools name = Inr pool" and "p_config pool = Some c"
    and "build_checks (Subnet c) (Pool_Start c) (Pool_End c) p sa ea" and "Is4 (pip p)" and "aval ea \<noteq> top128 - 1"
    and "\<forall>ip \<in> set (Pool_Exclude c). ip \<in> ipkey ` {aval sa..aval ea}"
    and "SplitMetaNamespaceKey E key = Some (ns, name)"
    and "run_state (CacheSync S) m0 = (True, m)" and "ipam_reach (alloc m)" and "Key key \<in> set (view m)"
  shows "\<exists>m1 q m2.
    run_state (run_controller (PoolQueue S) (\<lambda>k. on_sys (syncPool E k)) (CacheSync S) (CtxCancelled S)) m0 = (Ready, m1) \<and>
    run_state (run_controller (QuotaQueue S) (quota_handler E) (CacheSync S) (CtxCancelled S)) m1 = (q, m2) \<and>
    run_state (run_manager E S) m0 =
      (if q = Ready then run_state (run_controller (FipQueue S) (\<lambda>k. on_sys (syncFip E k)) (CacheSync S) (CtxCancelled S)) m2 else (q, m2)) \<and>
    (\<forall>f \<in> set fips. f_pool f = name \<longrightarrow> \<not> f_deleted f \<longrightarrow> f_ip f \<in> ipkey ` {aval sa..aval ea} \<longrightarrow> f_ip f \<noteq> [] \<longrightarrow>
       claim_in (alloc m2) name (f_ip f) \<noteq> None)"
proof -
  have apart: "queue_apart (PoolQueue S)" using assms(2) by (simp add: starter_apart_def)
  from pools_recovered [OF assms(1) apart assms(3-18), where ctxErr = "CtxCancelled S"] obtain m1 where
    m1: "run_state (run_controller (PoolQueue S) (\<lambda>k. on_sys (syncPool E k)) (CacheSync S) (CtxCancelled S)) m0 = (Ready, m1)"
    and cl: "\<forall>f \<in> set fips. f_pool f = name \<longrightarrow> \<not> f_deleted f \<longrightarrow> f_ip f \<in> ipkey ` {aval sa..aval ea} \<longrightarrow> f_ip f \<noteq> [] \<longrightarrow>
       claim_in (alloc m1) name (f_ip f) \<noteq> None" by blast
  obtain q m2 where m2: "run_state (run_controller (QuotaQueue S) (quota_handler E) (CacheSync S) (CtxCancelled S)) m1 = (q, m2)"
    by (cases "run_state (run_controller (QuotaQueue S) (quota_handler E) (CacheSync S) (CtxCancelled S)) m1")
  have "alloc m2 = alloc m1" using quotas_keep_alloc [OF assms(2,5), of m1] m2 by simp
  moreover have "run_state (run_manager E S) m0 =
      (if q = Ready then run_state (run_controller (FipQueue S) (\<lambda>k. on_sys (syncFip E k)) (CacheSync S) (CtxCancelled S)) m2 else (q, m2))"
    using m1 m2 by (simp add: run_manager_def)
  ultimately show ?thesis using m1 m2 cl by (intro exI conjI) (assumption, assumption, assumption, simp only:)
qed

text \<open>A queue of keys in the controller's own state, and the caches of one pool with one FloatingIP.\<close>

definition list_queue :: "mem mgr queue" where
  "list_queue =
     \<lparr>QGet = State (\<lambda>(ctl, s). case enqueuedAfter ctl of
        [] \<Rightarrow> (None, (ctl, s)) | (k, d) # ks \<Rightarrow> (Some (Key k), (ctl\<lparr>enqueuedAfter := ks\<rparr>, s))),
      QDone = \<lambda>_. State_Monad.return (), QForget = \<lambda>_. State_Monad.return (),
      QAddRateLimited = \<lambda>k. State (\<lambda>(ctl, s). ((), (ctl\<lparr>enqueuedAfter := enqueuedAfter ctl @ [(k, 0)]\<rparr>, s))),
      QAdd = \<lambda>k. State (\<lambda>(ctl, s). ((), (ctl\<lparr>enqueuedAfter := enqueuedAfter ctl @ [(k, 0)]\<rparr>, s))),
      QLen = State (\<lambda>(ctl, s). (length (enqueuedAfter ctl), (ctl, s)))\<rparr>"

definition list_view :: "mem mgr \<Rightarrow> item list" where
  "list_view m = map (Key \<circ> fst) (enqueuedAfter (fst m))"

lemma list_queue_fifo: "queue_fifo list_view list_queue"
  by (auto simp: queue_fifo_def list_view_def list_queue_def appends_def split: list.splits)

lemma list_queue_apart: "queue_apart list_queue"
  by (auto simp: queue_apart_def list_queue_def split: list.splits)

definition lab_fip :: FloatingIP where
  "lab_fip = fip_b\<lparr>f_name := ''c'', f_ip := ''10.0.0.3''\<rparr>"

definition lab_pools :: "string \<Rightarrow> kerr + FloatingIPPool" where
  "lab_pools n = (if n = ''lab'' then Inr (pool_lab\<lparr>p_config := Some config_lab\<rparr>) else Inl NotFound)"

definition cached_env :: "mem env" where
  "cached_env = fixed_env\<lparr>ListerPool := \<lambda>n. State_Monad.return (lab_pools n)\<rparr>"

lemma cached_env_ok: "env_ok (=) cached_env"
  using fixed_env_ok [of "(=)"]
  by (auto simp: env_ok_def cached_env_def retry_ok_def env_rel_def state_io_rel_def reflp_def)

lemma retry_steps_result:
  assumes f: "\<And>s. fst (run_state f s) \<in> A" shows "fst (run_state (retry_steps n f) s) \<in> A"
proof (induction n arbitrary: s)
  case (Suc n)
  obtain r s1 where r: "run_state f s = (r, s1)" by (cases "run_state f s")
  with f [of s] have "r \<in> A" by simp
  with r Suc show ?case by (auto split: option.split)
qed (simp add: f)

lemma cached_status_result:
  "fst (run_state (RetryOnConflict cached_env (writePoolStatus cached_env name m)) s) \<in> {r. r \<noteq> Some Panic \<and> r \<noteq> Some Hangs}"
proof -
  have w: "fst (run_state (writePoolStatus cached_env name m) t) \<in> {r. r \<noteq> Some Panic \<and> r \<noteq> Some Hangs}" for t
    by (auto simp: writePoolStatus_def cached_env_def fixed_env_def mem_env_def world_act_def found_def mem_update_status_pool_def
        ipam_Used_def ipam_Available_def wrap_def case_prod_beta split: option.splits)
  have rc: "RetryOnConflict cached_env = retry_steps 3" by (simp add: cached_env_def fixed_env_def mem_env_def)
  show ?thesis unfolding rc by (rule retry_steps_result) (rule w)
qed

lemma lab_config:
  "build_checks (Subnet config_lab) (Pool_Start config_lab) (Pool_End config_lab) (Prefix (AddrFrom4 0x0a000000) 29)
     (AddrFrom4 0x0a000001) (AddrFrom4 0x0a000003)" "Is4 (pip (Prefix (AddrFrom4 0x0a000000) 29))"
  "aval (AddrFrom4 0x0a000003) \<noteq> top128 - 1"
  "\<forall>ip \<in> set (Pool_Exclude config_lab). ip \<in> ipkey ` {aval (AddrFrom4 0x0a000001)..aval (AddrFrom4 0x0a000003)}"
proof -
  show "build_checks (Subnet config_lab) (Pool_Start config_lab) (Pool_End config_lab) (Prefix (AddrFrom4 0x0a000000) 29)
     (AddrFrom4 0x0a000001) (AddrFrom4 0x0a000003)" "Is4 (pip (Prefix (AddrFrom4 0x0a000000) 29))" by code_simp+
  show "aval (AddrFrom4 0x0a000003) \<noteq> top128 - 1" by (simp add: AddrFrom4_def)
  have k: "''10.0.0.1'' = ipkey 0xffff0a000001" by code_simp
  show "\<forall>ip \<in> set (Pool_Exclude config_lab). ip \<in> ipkey ` {aval (AddrFrom4 0x0a000001)..aval (AddrFrom4 0x0a000003)}"
    unfolding config_lab_def k by (simp add: AddrFrom4_def)
qed

lemma cached_returns:
  assumes "ipam_reach (sys_ipam s)"
  shows "fst (run_state (syncPool cached_env k) s) \<notin> {Some Panic, Some Hangs}"
proof -
  have lister: "run_state (ListerPool cached_env n) t = (lab_pools n, t)"
    "run_state (ListerFips cached_env) t = (Inr [lab_fip], t)" for n t
    by (simp_all add: cached_env_def fixed_env_def lab_fip_def)
  have cfg: "fst (run_state (syncPoolConfig cached_env ''lab'' config_lab) s) \<notin> {Some Panic, Some Hangs}"
  proof -
    let ?c = "collectAllocations cached_env ''lab'' [lab_fip] [] (excludedMap (Pool_Exclude config_lab))"
    obtain ips m t where c: "run_state ?c s = ((ips, m), t)" by (metis prod.collapse)
    have "preorder_rel ((=) :: IPAllocator \<Rightarrow> _)" by (auto simp: preorder_rel_def reflp_def transp_def)
    from env_rel_run [OF collectAllocations_rel [OF this cached_env_ok] c] assms have "ipam_reach (sys_ipam t)" by simp
    from refresh_exact [OF this lab_config(1-3), of "''lab''" "Pool_Exclude config_lab" ips] obtain a r where
      "RefreshSubnet (sys_ipam t) ''lab'' (Subnet config_lab) (Pool_Start config_lab) (Pool_End config_lab) (Pool_Exclude config_lab) ips = Some (a, r)"
      by (elim exE conjE)
    then have rf: "run_state (ipam_RefreshSubnet ''lab'' (Subnet config_lab) (Pool_Start config_lab) (Pool_End config_lab)
        (Pool_Exclude config_lab) ips) t = (map_option IpamErr r, t\<lparr>sys_ipam := a\<rparr>)"
      by (simp add: ipam_RefreshSubnet_def)
    show ?thesis
    proof (cases r)
      case (Some e)
      then show ?thesis unfolding syncPoolConfig_def by (simp add: lister(2) c rf wrap_def del: collectAllocations.simps)
    next
      case None
      obtain e2 t2 where e2: "run_state (RetryOnConflict cached_env (writePoolStatus cached_env ''lab'' m)) (t\<lparr>sys_ipam := a\<rparr>) = (e2, t2)"
        by (metis prod.collapse)
      have "e2 \<noteq> Some Panic" "e2 \<noteq> Some Hangs" using cached_status_result [of "''lab''" m "t\<lparr>sys_ipam := a\<rparr>"] e2 by simp_all
      with None show ?thesis unfolding syncPoolConfig_def by (cases e2) (simp_all add: lister(2) c rf e2 wrap_def del: collectAllocations.simps)
    qed
  qed
  have "p_name (pool_lab\<lparr>p_config := Some config_lab\<rparr>) = ''lab''" by (simp add: pool_lab_def)
  with cfg lister(1) show ?thesis
    by (auto simp: syncPool_def lab_pools_def split: option.split)
qed

definition list_starter :: "mem starter" where
  "list_starter = \<lparr>PoolQueue = list_queue, QuotaQueue = list_queue, FipQueue = list_queue,
     CacheSync = State_Monad.return True, CtxCancelled = State_Monad.return False\<rparr>"

lemma list_starter_apart: "starter_apart list_starter" "queue_fifo list_view (PoolQueue list_starter)"
  using list_queue_apart list_queue_fifo by (simp_all add: starter_apart_def list_starter_def list_queue_def)

theorem restart_recovers_claims_witness:
  "\<exists>q m2. run_state (run_manager cached_env list_starter) (\<lparr>cascadeRetries = [], enqueuedAfter = [(''lab'', 0)]\<rparr>, sys_p\<lparr>sys_ipam := New\<rparr>) =
      (if q = Ready then run_state (run_controller list_queue (\<lambda>k. on_sys (syncFip cached_env k)) (State_Monad.return True)
         (State_Monad.return False)) m2 else (q, m2)) \<and>
    claim_in (alloc m2) ''lab'' ''10.0.0.3'' \<noteq> None"
proof -
  let ?m = "(\<lparr>cascadeRetries = [], enqueuedAfter = [(''lab'', 0)]\<rparr>, sys_p\<lparr>sys_ipam := New\<rparr>)"
  have lf: "fst (run_state (ListerFips cached_env) t) = Inr [lab_fip]" for t by (simp add: cached_env_def fixed_env_def lab_fip_def)
  have lp: "fst (run_state (ListerPool cached_env n) t) = lab_pools n" for n t by (simp add: cached_env_def)
  have ap: "appends list_view (on_sys (syncPool cached_env k))" for k by (auto simp: appends_def on_sys_run list_view_def)
  have nm: "\<forall>n q. lab_pools n = Inr q \<longrightarrow> p_name q = n" by (auto simp: lab_pools_def pool_lab_def)
  have pl: "lab_pools ''lab'' = Inr (pool_lab\<lparr>p_config := Some config_lab\<rparr>)" "p_config (pool_lab\<lparr>p_config := Some config_lab\<rparr>) = Some config_lab"
    by (simp_all add: lab_pools_def)
  have ky: "SplitMetaNamespaceKey cached_env ''lab'' = Some ([], ''lab'')" by code_simp
  have w: "run_state (CacheSync list_starter) ?m = (True, ?m)" by (simp add: list_starter_def)
  have reach: "ipam_reach (alloc ?m)" by (simp add: ipam_reach.start)
  have q: "Key ''lab'' \<in> set (list_view ?m)" by (simp add: list_view_def)
  have k3: "''10.0.0.3'' = ipkey 0xffff0a000003" by code_simp
  have r3: "f_ip lab_fip \<in> ipkey ` {aval (AddrFrom4 0x0a000001)..aval (AddrFrom4 0x0a000003)}" "f_pool lab_fip = ''lab''"
    "\<not> f_deleted lab_fip" "f_ip lab_fip = ''10.0.0.3''"
    by (simp add: lab_fip_def k3, rule imageI, simp add: AddrFrom4_def) (simp_all add: lab_fip_def fip_b_def)
  from restart_recovers_claims [where view = list_view and S = list_starter and E = cached_env and fips = "[lab_fip]" and pools = lab_pools,
      OF list_starter_apart(2,1) ap cached_returns cached_env_ok lf lp nm pl lab_config ky w reach q] r3
  obtain q m2 where "run_state (run_manager cached_env list_starter) ?m =
      (if q = Ready then run_state (run_controller (FipQueue list_starter) (\<lambda>k. on_sys (syncFip cached_env k)) (CacheSync list_starter)
         (CtxCancelled list_starter)) m2 else (q, m2))" "claim_in (alloc m2) ''lab'' ''10.0.0.3'' \<noteq> None" by auto
  then show ?thesis unfolding list_starter_def starter.select_convs by blast
qed

section \<open>No key is lost\<close>

text \<open>
  \<open>due k s\<close> says that the queue will deliver the key \<open>k\<close> (again): it is queued, waiting for its delay, or was added while
  it is being processed. Only its delivery ends this.
\<close>

definition queue_due :: "(string \<Rightarrow> 's \<Rightarrow> bool) \<Rightarrow> 's queue \<Rightarrow> bool" where
  "queue_due due Q \<longleftrightarrow>
     (\<forall>k s x s'. due k s \<longrightarrow> run_state (QGet Q) s = (x, s') \<longrightarrow> x \<noteq> Some (Key k) \<longrightarrow> due k s') \<and>
     (\<forall>k s. due k (snd (run_state (QAddRateLimited Q k) s))) \<and> (\<forall>k s. due k (snd (run_state (QAdd Q k) s))) \<and>
     (\<forall>k k'. survives (due k) (QAddRateLimited Q k')) \<and> (\<forall>k k'. survives (due k) (QAdd Q k')) \<and>
     (\<forall>k x. survives (due k) (QDone Q x)) \<and> (\<forall>k x. survives (due k) (QForget Q x))"

lemma queue_dueD:
  assumes "queue_due due Q"
  shows "due k s \<Longrightarrow> run_state (QGet Q) s = (x, s') \<Longrightarrow> x \<noteq> Some (Key k) \<Longrightarrow> due k s'"
    "due k (snd (run_state (QAddRateLimited Q k) s))" "due k (snd (run_state (QAdd Q k) s))"
    "survives (due k) (QAddRateLimited Q k')" "survives (due k) (QAdd Q k')" "survives (due k) (QDone Q i)" "survives (due k) (QForget Q i)"
  using assms unfolding queue_due_def by blast+

lemma due_then_done:
  assumes "queue_due due Q"
  shows "due k (snd (run_state (State_Monad.bind (QAddRateLimited Q k) (\<lambda>_. State_Monad.bind (QDone Q i) (\<lambda>_. State_Monad.return r))) s))"
proof -
  obtain u s1 where u: "run_state (QAddRateLimited Q k) s = (u, s1)" by (cases "run_state (QAddRateLimited Q k) s")
  obtain v s2 where v: "run_state (QDone Q i) s1 = (v, s2)" by (cases "run_state (QDone Q i) s1")
  have "due k s1" using queue_dueD(2) [OF assms, of k s] u by simp
  then have "due k s2" by (rule survivesD [OF queue_dueD(6) [OF assms] _ v])
  with u v show ?thesis by simp
qed

lemma process_item_due:
  assumes q: "queue_due due Q" and h: "\<And>k k'. survives (due k) (sync k')" and d: "due k s"
  shows "due k (snd (run_state (process_item Q sync x) s))"
proof -
  have done': "survives (due k) (State_Monad.bind (QDone Q i) (\<lambda>_. State_Monad.return r))" for i r
    by (intro survives_bind survives_return queue_dueD(6) [OF q])
  have "survives (due k) (process_item Q sync x)"
    unfolding process_item_def
    by (cases x) (auto intro!: survives_bind survives_return h done' queue_dueD(4-7) [OF q] split: option.split)
  with d show ?thesis by (simp add: survives_def)
qed

text \<open>
  C36. No key is lost: when a worker handles an item, whichever controller it belongs to, every key that was due
  before is still due afterwards, unless it is the very key that was delivered and its sync
  succeeded. A failed sync puts its key back, and keys that are added in the meantime stay.
\<close>

theorem no_key_lost:
  assumes "queue_due due Q" and "\<And>k k'. survives (due k) (sync k')"
    and "run_state (processNextWorkItem Q sync) s = (Inr b, s')" and "due k s"
  shows "due k s' \<or> (\<exists>t t'. run_state (QGet Q) s = (Some (Key k), t) \<and> run_state (sync k) t = (None, t'))"
proof -
  obtain x s1 where x: "run_state (QGet Q) s = (x, s1)" by (cases "run_state (QGet Q) s")
  show ?thesis
  proof (cases "x = Some (Key k)")
    case False
    then have d: "due k s1" using queue_dueD(1) [OF assms(1,4) x] by simp
    show ?thesis
    proof (cases x)
      case None
      with assms(3) x d show ?thesis by (simp add: processNextWorkItem_def)
    next
      case (Some i)
      then have "s' = snd (run_state (process_item Q sync i) s1)" using assms(3) x by (simp add: processNextWorkItem_def case_prod_beta)
      with process_item_due [of due Q sync k s1 i, OF assms(1,2) d] show ?thesis by simp
    qed
  next
    case True
    obtain e s2 where e: "run_state (sync k) s1 = (e, s2)" by (cases "run_state (sync k) s1")
    show ?thesis
    proof (cases e)
      case None
      with True x e show ?thesis by blast
    next
      case (Some err)
      have "err \<noteq> Panic \<and> err \<noteq> Hangs"
        using assms(3) True x e Some by (auto simp: processNextWorkItem_def process_item_def case_prod_beta)
      then have s': "s' = snd (run_state (State_Monad.bind (QAddRateLimited Q k) (\<lambda>_. State_Monad.bind (QDone Q (Key k)) (\<lambda>_.
            State_Monad.return (Some (wrap (''error syncing '' @ k) err))))) s2)"
        using assms(3) True x e Some by (simp add: processNextWorkItem_def process_item_def case_prod_beta)
      show ?thesis unfolding s' by (rule disjI1) (rule due_then_done [OF assms(1)])
    qed
  qed
qed

lemma list_queue_due: "queue_due (\<lambda>k m. k \<in> fst ` set (enqueuedAfter (fst m))) list_queue"
  by (auto simp: queue_due_def list_queue_def survives_def split: list.splits)

theorem no_key_lost_witness:
  "let m = (\<lparr>cascadeRetries = [], enqueuedAfter = [(''lab'', 0)]\<rparr>, sys_p\<lparr>sys_world := (sys_world sys_p)\<lparr>m_fail := True\<rparr>\<rparr>);
       m' = snd (run_state (processNextWorkItem list_queue (\<lambda>k. on_sys (syncPool mem_env k))) m)
   in ''lab'' \<in> fst ` set (enqueuedAfter (fst m'))"
proof -
  let ?m = "(\<lparr>cascadeRetries = [], enqueuedAfter = [(''lab'', 0)]\<rparr>, sys_p\<lparr>sys_world := (sys_world sys_p)\<lparr>m_fail := True\<rparr>\<rparr>)"
  let ?sync = "\<lambda>k. on_sys (syncPool mem_env k)" and ?due = "\<lambda>k m. k \<in> fst ` set (enqueuedAfter (fst m))"
  have h: "survives (?due k) (?sync k')" for k k' by (simp add: survives_def on_sys_run)
  have run: "fst (run_state (processNextWorkItem list_queue ?sync) ?m) = Inr True" by code_simp
  then have r: "run_state (processNextWorkItem list_queue ?sync) ?m = (Inr True, snd (run_state (processNextWorkItem list_queue ?sync) ?m))"
    by (simp add: prod_eq_iff)
  have d: "?due ''lab'' ?m" by simp
  have f: "fst (run_state (?sync ''lab'') (snd (run_state (QGet list_queue) ?m))) \<noteq> None" by code_simp
  from no_key_lost [where due = ?due, OF list_queue_due h r d] f show ?thesis unfolding Let_def by (metis fst_conv snd_conv)
qed

end
