(* ===== verification/Lb_Loop.thy ===== *)
theory Lb_Loop
  imports Lb_Contract Workers_Props
begin

text \<open>
  The work loop of the load balancer controller. Its text differs from the loop of the manager's controllers: the key is converted
  without a check, and \<open>Done\<close> runs after the error was handled. On a queue of keys the two loops are the same program, so
  the property that no failed key is lost carries over.
\<close>

definition lbProcessNextItem :: "'s queue \<Rightarrow> (string \<Rightarrow> ('s, kerr option) state) \<Rightarrow> ('s, kerr + bool) state" where
  "lbProcessNextItem Q sync = do {
     obj \<leftarrow> QGet Q;
     case obj of
       None \<Rightarrow> State_Monad.return (Inr False)
     | Some OtherItem \<Rightarrow> do { _ \<leftarrow> QDone Q OtherItem; State_Monad.return (Inl Panic) }
     | Some (Key key) \<Rightarrow> do {
         err \<leftarrow> sync key;
         if err = Some Hangs then State_Monad.return (Inl Hangs)
         else if err = Some Panic then do { _ \<leftarrow> QDone Q (Key key); State_Monad.return (Inl Panic) }
         else do {
           _ \<leftarrow> (if err \<noteq> None then QAddRateLimited Q key else QForget Q (Key key));
           _ \<leftarrow> QDone Q (Key key);
           State_Monad.return (Inr True)
         }
       }
   }"

fun lbRunWorker :: "'s queue \<Rightarrow> (string \<Rightarrow> ('s, kerr option) state) \<Rightarrow> nat \<Rightarrow> ('s, (kerr + unit) option) state" where
  "lbRunWorker Q sync 0 = State_Monad.return None"
| "lbRunWorker Q sync (Suc n) = do {
     r \<leftarrow> lbProcessNextItem Q sync;
     case r of
       Inl e \<Rightarrow> State_Monad.return (Some (Inl e))
     | Inr True \<Rightarrow> lbRunWorker Q sync n
     | Inr False \<Rightarrow> State_Monad.return (Some (Inr ()))
   }"

text \<open>A queue that only hands out keys.\<close>

definition only_keys :: "'s queue \<Rightarrow> bool" where
  "only_keys Q \<longleftrightarrow> (\<forall>s. fst (run_state (QGet Q) s) \<noteq> Some OtherItem)"

lemma wrap_returns: "wrap m e = Panic \<longleftrightarrow> e = Panic" "wrap m e = Hangs \<longleftrightarrow> e = Hangs"
  by (auto simp: wrap_def)

lemma state_ext: "(\<And>s. run_state m s = run_state m' s) \<Longrightarrow> m = m'"
  by (cases m; cases m') (auto intro!: ext)

text \<open>
  The two work loops of the repository are one program: on a queue that hands out keys, the load balancer
  controller's loop does exactly what the loop of the manager's controllers does, whatever the handler and
  for any number of rounds.
\<close>

theorem loops_agree:
  assumes "only_keys Q"
  shows "lbRunWorker Q sync n = runWorker Q sync n"
proof -
  have "run_state (lbProcessNextItem Q sync) s = run_state (processNextWorkItem Q sync) s" for s
  proof -
    obtain obj s1 where get: "run_state (QGet Q) s = (obj, s1)" by (cases "run_state (QGet Q) s")
    show ?thesis
    proof (cases obj)
      case None
      then show ?thesis by (simp add: lbProcessNextItem_def processNextWorkItem_def get)
    next
      case (Some x)
      with assms get obtain key where x: "x = Key key"
        by (cases x) (auto simp: only_keys_def dest: spec [of _ s])
      obtain e s2 where sync: "run_state (sync key) s1 = (e, s2)" by (cases "run_state (sync key) s1")
      show ?thesis
        by (cases e) (auto simp: lbProcessNextItem_def processNextWorkItem_def process_item_def get Some x sync wrap_returns
            case_prod_beta)
    qed
  qed
  then have step: "lbProcessNextItem Q sync = processNextWorkItem Q sync" by (rule state_ext)
  show ?thesis by (induction n) (simp_all add: step)
qed

text \<open>A queue of keys whose first attempt fails and is queued again.\<close>

definition key_queue :: "(string list \<times> nat) queue" where
  "key_queue = \<lparr>QGet = State (\<lambda>(ks, n). case ks of [] \<Rightarrow> (None, [], n) | k # ks' \<Rightarrow> (Some (Key k), ks', n)),
     QDone = (\<lambda>_. State_Monad.return ()), QForget = (\<lambda>_. State_Monad.return ()),
     QAddRateLimited = (\<lambda>k. State (\<lambda>(ks, n). ((), ks @ [k], n))), QAdd = (\<lambda>k. State (\<lambda>(ks, n). ((), ks @ [k], n))),
     QLen = State (\<lambda>(ks, n). (length ks, ks, n))\<rparr>"

definition second_try :: "string \<Rightarrow> (string list \<times> nat, kerr option) state" where
  "second_try key = State (\<lambda>(ks, n). (if n = 0 then Some Conflict else None, ks, Suc n))"

theorem loops_agree_witness:
  "lbRunWorker key_queue second_try 4 = runWorker key_queue second_try 4 \<and>
   run_state (lbRunWorker key_queue second_try 4) ([''web/shop''], 0) = (Some (Inr ()), [], 2)"
proof -
  have "only_keys key_queue" by (auto simp: only_keys_def key_queue_def split: list.splits)
  note this [THEN loops_agree]
  moreover have "run_state (lbRunWorker key_queue second_try 4) ([''web/shop''], 0) = (Some (Inr ()), [], 2)" by code_simp
  ultimately show ?thesis by blast
qed

end
