(* ===== verification/Lb_Server.thy ===== *)
theory Lb_Server
  imports Lb_Trace Sha256
begin

text \<open>
  The management page of the load balancer controller, \<open>lbcontroller/pkg/http/server.go\<close>: sessions and CSRF tokens, the handlers
  of the page, and the routes of \<open>Start\<close>.

  The map of sessions stands beside the controller's world. The handlers run as goroutines: what
  the others do meanwhile is the field \<open>UiTurn\<close>, an arbitrary change of the state at each point where a handler waits for the mutex
  of the sessions; the calls into the cluster may change the state too. The random source, the clock, the leader flag, the
  template engine and the poller of \<open>k8s.io/apimachinery\<close> are fields of \<open>uienv\<close>.
\<close>

section \<open>State and environment\<close>

record session =
  se_expiresAt :: int
  se_csrfToken :: string

record 'w uiworld =
  ui_sessions :: "(string, session) gomap"
  ui_world :: 'w

type_synonym 'w uisys = "'w uiworld lbsys"
type_synonym ('w, 'a) uiact = "('w uiworld, 'a) lbact"

abbreviation sessions_of :: "'w uisys \<Rightarrow> (string, session) gomap" where
  "sessions_of s \<equiv> ui_sessions (lb_world s)"

record 'w uienv =
  UiLb :: "'w lbenv"
  UiTurn :: "('w, unit) uiact"
  UiNow :: "('w, int) uiact"
  UiRandom :: "('w, kerr + nat list) uiact"
  UiIsLeader :: "('w, bool) uiact option"
  UiDeleteSvc :: "string \<Rightarrow> string \<Rightarrow> ('w, kerr option) uiact"
  UiPoll :: "('w, kerr + bool) uiact \<Rightarrow> ('w, kerr option) uiact"
  UiParse :: "string \<Rightarrow> kerr option"
  UiExec :: "string \<Rightarrow> ('w, kerr option) uiact"
  UiOrder :: "(string \<times> string) list \<Rightarrow> (string \<times> string) list"

text \<open>
  \<open>UiOrder\<close> is the order in which Go visits a map. \<open>UiParse\<close> and \<open>UiExec\<close> are the template engine: parsing the
  template of that name, and writing the page out.
\<close>

definition on_lb :: "('w, 'a) lbact \<Rightarrow> ('w, 'a) uiact" where
  "on_lb m = State (\<lambda>s.
     case run_state m \<lparr>lb_clients = lb_clients s, lb_tombstones = lb_tombstones s, lb_world = ui_world (lb_world s)\<rparr> of
       (r, t) \<Rightarrow> (r, \<lparr>lb_clients = lb_clients t, lb_tombstones = lb_tombstones t,
                    lb_world = (lb_world s)\<lparr>ui_world := lb_world t\<rparr>\<rparr>))"

definition get_sessions :: "('w, (string, session) gomap) uiact" where
  "get_sessions = State (\<lambda>s. (sessions_of s, s))"

definition set_sessions :: "(string, session) gomap \<Rightarrow> ('w, unit) uiact" where
  "set_sessions m = State (\<lambda>s. ((), s\<lparr>lb_world := (lb_world s)\<lparr>ui_sessions := m\<rparr>\<rparr>))"

text \<open>The server's configuration; it does not change after \<open>NewServer\<close>.\<close>

record uiserver =
  ws_client :: Client
  ws_clientSecret :: string
  ws_cluster :: string
  ws_project :: string
  ws_pools :: "string list"
  ws_username :: string
  ws_password :: string
  ws_csrfToken :: string

section \<open>Requests and answers\<close>

text \<open>
  A request: its method and path, the session cookie (or the error of \<open>r.Cookie\<close>), the form (or the error of \<open>ParseForm\<close>) with the
  first value of each field, and whether it came over TLS.
\<close>

definition ErrNoCookie :: kerr where
  "ErrNoCookie = Errorf ''http: named cookie not present''"

record uireq =
  uq_method :: string
  uq_path :: string
  uq_cookie :: "kerr + string"
  uq_form :: "kerr + (string, string) gomap"
  uq_tls :: bool
  uq_proto :: string

definition FormValue :: "uireq \<Rightarrow> string \<Rightarrow> string" where
  "FormValue q k = (case uq_form q of Inl e \<Rightarrow> [] | Inr f \<Rightarrow> getz [] f k)"

record uicookie =
  ck_value :: string
  ck_expires :: int
  ck_maxAge :: int
  ck_secure :: bool

datatype uibody =
    Message string
  | LoginPage "string option"
  | ListPage "FIPListEntry list" string
  | NoBody

record uiresp =
  up_code :: nat
  up_body :: uibody
  up_location :: string
  up_cookie :: "uicookie option"
  up_retryAfter :: string

definition HttpError :: "string \<Rightarrow> nat \<Rightarrow> uiresp" where
  "HttpError msg code = \<lparr>up_code = code, up_body = Message msg, up_location = [], up_cookie = None, up_retryAfter = []\<rparr>"

definition Redirect :: "string \<Rightarrow> uiresp" where
  "Redirect url = \<lparr>up_code = 303, up_body = NoBody, up_location = url, up_cookie = None, up_retryAfter = []\<rparr>"

definition Page :: "uibody \<Rightarrow> uiresp" where
  "Page b = \<lparr>up_code = 200, up_body = b, up_location = [], up_cookie = None, up_retryAfter = []\<rparr>"

section \<open>Sessions\<close>

text \<open>Times are nanoseconds, as in \<open>time.Duration\<close>.\<close>

definition seconds :: "int \<Rightarrow> int" where
  "seconds n = n * 1000000000"

definition sessionDuration :: int where
  "sessionDuration = seconds (24 * 60 * 60)"

definition maxSessions :: nat where
  "maxSessions = 1024"

definition newRandomToken :: "'w uienv \<Rightarrow> ('w, kerr + string) uiact" where
  "newRandomToken U = do {
     r \<leftarrow> UiRandom U;
     State_Monad.return (case r of Inl e \<Rightarrow> Inl e | Inr bytes \<Rightarrow> Inr (hex_encode bytes))
   }"

definition drop_expired :: "int \<Rightarrow> (string, session) gomap \<Rightarrow> (string, session) gomap" where
  "drop_expired now m = filter (\<lambda>(token, sess). \<not> se_expiresAt sess < now) m"

text \<open>The session closest to expiry: the token is empty until the first session was seen.\<close>

fun oldest_from :: "string \<Rightarrow> int \<Rightarrow> (string, session) gomap \<Rightarrow> string" where
  "oldest_from tok expiry [] = tok"
| "oldest_from tok expiry ((token, sess) # m) =
     (if tok = [] \<or> se_expiresAt sess < expiry then oldest_from token (se_expiresAt sess) m else oldest_from tok expiry m)"

lemma oldest_from_mem: "m \<noteq> [] \<Longrightarrow> tok = [] \<or> tok \<in> X \<Longrightarrow> set (keys m) \<subseteq> X \<Longrightarrow> oldest_from tok e m \<in> X"
proof (induction m arbitrary: tok e)
  case (Cons p m)
  obtain t s where p: "p = (t, s)" by (cases p)
  show ?case
  proof (cases m)
    case Nil
    with Cons.prems p show ?thesis by auto
  next
    case (Cons q qs)
    with Cons.IH Cons.prems p show ?thesis by auto
  qed
qed simp

lemma oldest_in: "m \<noteq> [] \<Longrightarrow> oldest_from [] 0 m \<in> set (keys m)"
  by (rule oldest_from_mem) auto

lemma delete_shorter: "k \<in> set (keys m) \<Longrightarrow> length (AList.delete k m) < length m"
  unfolding AList.delete_eq by (auto intro!: length_filter_less)

function evict_oldest :: "(string, session) gomap \<Rightarrow> (string, session) gomap" where
  "evict_oldest m = (if maxSessions \<le> length m then evict_oldest (AList.delete (oldest_from [] 0 m) m) else m)"
  by auto
termination
proof (relation "measure length")
  fix m :: "(string, session) gomap"
  assume "maxSessions \<le> length m"
  then have "m \<noteq> []" by (auto simp: maxSessions_def)
  from delete_shorter [OF oldest_in [OF this]]
  show "(AList.delete (oldest_from [] 0 m) m, m) \<in> measure length" by simp
qed simp

declare evict_oldest.simps [simp del]

definition pruneSessions :: "int \<Rightarrow> (string, session) gomap \<Rightarrow> (string, session) gomap" where
  "pruneSessions now m = evict_oldest (drop_expired now m)"

text \<open>One pass of the janitor's loop.\<close>

definition janitor_tick :: "'w uienv \<Rightarrow> int \<Rightarrow> ('w, unit) uiact" where
  "janitor_tick U now = do {
     _ \<leftarrow> UiTurn U;
     m \<leftarrow> get_sessions;
     set_sessions (pruneSessions now m)
   }"

definition authDisabled :: "uiserver \<Rightarrow> bool" where
  "authDisabled S \<longleftrightarrow> ws_username S = [] \<and> ws_password S = []"

definition withAuth :: "'w uienv \<Rightarrow> uiserver \<Rightarrow> (uireq \<Rightarrow> ('w, uiresp) uiact) \<Rightarrow> uireq \<Rightarrow> ('w, uiresp) uiact" where
  "withAuth U S next q =
     (if authDisabled S then next q
      else case uq_cookie q of
          Inl err \<Rightarrow>
            State_Monad.return (if err = ErrNoCookie then Redirect ''/login'' else HttpError ''Bad Request'' 400)
        | Inr sessionToken \<Rightarrow> do {
            _ \<leftarrow> UiTurn U;
            m \<leftarrow> get_sessions;
            case map_of m sessionToken of
              None \<Rightarrow> State_Monad.return (Redirect ''/login'')
            | Some sess \<Rightarrow> do {
                now \<leftarrow> UiNow U;
                if se_expiresAt sess < now then do {
                  m' \<leftarrow> get_sessions;
                  _ \<leftarrow> set_sessions (AList.delete sessionToken m');
                  State_Monad.return (Redirect ''/login'')
                } else next q
              }
          })"

definition csrfTokenFor :: "'w uienv \<Rightarrow> uiserver \<Rightarrow> uireq \<Rightarrow> ('w, string) uiact" where
  "csrfTokenFor U S q =
     (if authDisabled S then State_Monad.return (ws_csrfToken S)
      else case uq_cookie q of
          Inl err \<Rightarrow> State_Monad.return []
        | Inr cookie \<Rightarrow> do {
            _ \<leftarrow> UiTurn U;
            m \<leftarrow> get_sessions;
            case map_of m cookie of
              None \<Rightarrow> State_Monad.return []
            | Some sess \<Rightarrow> do {
                now \<leftarrow> UiNow U;
                State_Monad.return (if se_expiresAt sess < now then [] else se_csrfToken sess)
              }
          })"

definition validCSRF :: "'w uienv \<Rightarrow> uiserver \<Rightarrow> uireq \<Rightarrow> ('w, bool) uiact" where
  "validCSRF U S q = do {
     expected \<leftarrow> csrfTokenFor U S q;
     (let submitted = FormValue q ''csrf_token'' in
      State_Monad.return (expected \<noteq> [] \<and> submitted \<noteq> [] \<and> submitted = expected))
   }"

definition isHTTPS :: "uireq \<Rightarrow> bool" where
  "isHTTPS q \<longleftrightarrow> uq_tls q \<or> uq_proto q = ''https''"

definition setSessionCookie :: "uireq \<Rightarrow> string \<Rightarrow> int \<Rightarrow> int \<Rightarrow> uiresp \<Rightarrow> uiresp" where
  "setSessionCookie q val expires maxAge rep =
     rep\<lparr>up_cookie := Some \<lparr>ck_value = val, ck_expires = expires, ck_maxAge = maxAge, ck_secure = isHTTPS q\<rparr>\<rparr>"

definition leaderReplica :: "'w uienv \<Rightarrow> ('w, bool) uiact" where
  "leaderReplica U = (case UiIsLeader U of None \<Rightarrow> State_Monad.return True | Some isLeader \<Rightarrow> isLeader)"

section \<open>Login and logout\<close>

definition login_page :: "'w uienv \<Rightarrow> string option \<Rightarrow> ('w, uiresp) uiact" where
  "login_page U err =
     (case UiParse U ''login'' of
        Some e \<Rightarrow> State_Monad.return (HttpError ''Internal Server Error'' 500)
      | None \<Rightarrow> do { _ \<leftarrow> UiExec U ''login''; State_Monad.return (Page (LoginPage err)) })"

definition open_session :: "'w uienv \<Rightarrow> uireq \<Rightarrow> ('w, uiresp) uiact" where
  "open_session U q = do {
     t \<leftarrow> newRandomToken U;
     case t of
       Inl e \<Rightarrow> State_Monad.return (HttpError ''Internal Server Error'' 500)
     | Inr sessionToken \<Rightarrow> do {
         c \<leftarrow> newRandomToken U;
         case c of
           Inl e \<Rightarrow> State_Monad.return (HttpError ''Internal Server Error'' 500)
         | Inr csrfToken \<Rightarrow> do {
             now \<leftarrow> UiNow U;
             (let expiresAt = now + sessionDuration in do {
                _ \<leftarrow> UiTurn U;
                now' \<leftarrow> UiNow U;
                m \<leftarrow> get_sessions;
                _ \<leftarrow> set_sessions (AList.update sessionToken \<lparr>se_expiresAt = expiresAt, se_csrfToken = csrfToken\<rparr> (pruneSessions now' m));
                State_Monad.return (setSessionCookie q sessionToken expiresAt 0 (Redirect ''/''))
              })
           }
       }
   }"

definition handleLogin :: "'w uienv \<Rightarrow> uiserver \<Rightarrow> uireq \<Rightarrow> ('w, uiresp) uiact" where
  "handleLogin U S q =
     (if uq_method q = ''GET'' then login_page U None
      else if uq_method q = ''POST'' then
        (if isl (uq_form q) then State_Monad.return (HttpError ''Failed to parse form'' 400)
         else if FormValue q ''username'' = ws_username S \<and> FormValue q ''password'' = ws_password S then open_session U q
         else login_page U (Some ''Unauthorized''))
      else State_Monad.return (HttpError ''Method not allowed'' 405))"

definition handleLogout :: "'w uienv \<Rightarrow> uiserver \<Rightarrow> uireq \<Rightarrow> ('w, uiresp) uiact" where
  "handleLogout U S q =
     (if uq_method q \<noteq> ''POST'' then State_Monad.return (HttpError ''Method not allowed'' 405)
      else if isl (uq_form q) then State_Monad.return (HttpError ''Failed to parse form'' 400)
      else do {
        ok \<leftarrow> validCSRF U S q;
        if \<not> ok then State_Monad.return (HttpError ''Invalid CSRF token'' 403)
        else case uq_cookie q of
            Inl err \<Rightarrow> State_Monad.return (Redirect ''/login'')
          | Inr sessionToken \<Rightarrow> do {
              _ \<leftarrow> UiTurn U;
              m \<leftarrow> get_sessions;
              _ \<leftarrow> set_sessions (AList.delete sessionToken m);
              State_Monad.return (setSessionCookie q [] (seconds 1) (- 1) (Redirect ''/login''))
            }
      })"

section \<open>The list\<close>

fun list_pools :: "'w uienv \<Rightarrow> uiserver \<Rightarrow> string list \<Rightarrow> FIPListEntry list \<Rightarrow> ('w, uiresp + FIPListEntry list) uiact" where
  "list_pools U S [] acc = State_Monad.return (Inr acc)"
| "list_pools U S (pool # pools) acc = do {
     r \<leftarrow> on_lb (ListFIPs (UiLb U) (ws_client S) (ws_clientSecret S) (ws_cluster S) (ws_project S) pool);
     case r of
       Inl err \<Rightarrow>
         State_Monad.return (Inl (HttpError (''failed to list fips from pool '' @ pool @ '': '' @ err_text (UiLb U) err) 500))
     | Inr fips \<Rightarrow> list_pools U S pools (acc @ fips)
   }"

definition or_unassigned :: "string \<Rightarrow> string" where
  "or_unassigned s = (if s = [] then ''Unassigned'' else s)"

definition display_entry :: "FIPListEntry \<Rightarrow> FIPListEntry" where
  "display_entry e = e\<lparr>le_Cluster := or_unassigned (le_Cluster e), le_ServiceNamespace := or_unassigned (le_ServiceNamespace e),
     le_ServiceName := or_unassigned (le_ServiceName e)\<rparr>"

definition handleFIPList :: "'w uienv \<Rightarrow> uiserver \<Rightarrow> uireq \<Rightarrow> ('w, uiresp) uiact" where
  "handleFIPList U S q = do {
     r \<leftarrow> list_pools U S (ws_pools S) [];
     case r of
       Inl rep \<Rightarrow> State_Monad.return rep
     | Inr fips \<Rightarrow>
         (case UiParse U ''fipList'' of
            Some err \<Rightarrow> State_Monad.return (HttpError (''failed to parse template: '' @ err_text (UiLb U) err) 500)
          | None \<Rightarrow> do {
              token \<leftarrow> csrfTokenFor U S q;
              e \<leftarrow> UiExec U ''fipList'';
              State_Monad.return (case e of
                 Some err \<Rightarrow> HttpError (''failed to execute template: '' @ err_text (UiLb U) err) 500
               | None \<Rightarrow> Page (ListPage (map display_entry fips) token))
            })
   }"

section \<open>Releasing and removing an address\<close>

text \<open>What every handler that changes something demands first.\<close>

definition guarded_form :: "'w uienv \<Rightarrow> uiserver \<Rightarrow> uireq \<Rightarrow> ('w, uiresp) uiact \<Rightarrow> ('w, uiresp) uiact" where
  "guarded_form U S q next =
     (if uq_method q \<noteq> ''POST'' then State_Monad.return (HttpError ''Method not allowed'' 405)
      else do {
        leader \<leftarrow> leaderReplica U;
        if \<not> leader then
          State_Monad.return ((HttpError ''this replica is not the leader; retry the request'' 503)\<lparr>up_retryAfter := ''5''\<rparr>)
        else if isl (uq_form q) then State_Monad.return (HttpError ''Failed to parse form'' 400)
        else do {
          ok \<leftarrow> validCSRF U S q;
          if \<not> ok then State_Monad.return (HttpError ''Invalid CSRF token'' 403) else next
        }
      })"

text \<open>The checks of the fields, in the order in which Go visits the map.\<close>

fun form_error :: "(string \<times> string) list \<Rightarrow> string option" where
  "form_error [] = None"
| "form_error ((key, val) # fs) =
     (if val = [] then Some (key @ '' is a required field'')
      else if 253 < length val then Some (key @ '' is too long, maximum length is 253 characters'')
      else form_error fs)"

definition release_fields :: "uireq \<Rightarrow> (string \<times> string) list" where
  "release_fields q = map (\<lambda>k. (k, FormValue q k)) [''floatingippool'', ''servicenamespace'', ''servicename'', ''ipaddr'']"

definition gone_check :: "'w uienv \<Rightarrow> string \<Rightarrow> string \<Rightarrow> ('w, kerr + bool) uiact" where
  "gone_check U ns name = do {
     r \<leftarrow> on_lb (GetSvc (UiLb U) ns name);
     State_Monad.return (case r of
        Inl err \<Rightarrow> if IsNotFound err then Inr True else Inl err
      | Inr svc \<Rightarrow> Inr False)
   }"

definition waitForServiceGone :: "'w uienv \<Rightarrow> string \<Rightarrow> string \<Rightarrow> ('w, kerr option) uiact" where
  "waitForServiceGone U ns name = UiPoll U (gone_check U ns name)"

definition send_release :: "'w uienv \<Rightarrow> uiserver \<Rightarrow> uireq \<Rightarrow> ('w, kerr option) uiact" where
  "send_release U S q =
     on_lb (ReleaseFIP (UiLb U) (ws_client S) (ws_clientSecret S) (ws_cluster S) (ws_project S) (FormValue q ''floatingippool'')
       (FormValue q ''servicenamespace'') (FormValue q ''servicename'') (FormValue q ''ipaddr'') (FormValue q ''floatingipgroup''))"

definition delete_and_release :: "'w uienv \<Rightarrow> uiserver \<Rightarrow> uireq \<Rightarrow> ('w, uiresp) uiact" where
  "delete_and_release U S q =
     (let ns = FormValue q ''servicenamespace''; name = FormValue q ''servicename''; ip = FormValue q ''ipaddr'';
          id = ns @ ''/'' @ name in do {
        d \<leftarrow> UiDeleteSvc U ns name;
        case d of
          Some err \<Rightarrow> State_Monad.return (HttpError (''failed to delete service '' @ id @ '': '' @ err_text (UiLb U) err) 500)
        | None \<Rightarrow> do {
            g \<leftarrow> waitForServiceGone U ns name;
            case g of
              Some err \<Rightarrow>
                State_Monad.return (HttpError (''service '' @ id @ '' deletion was requested, but the controller has not finished releasing '' @
                  ip @ '' within 30s; check the controller logs and retry'') 504)
            | None \<Rightarrow> do {
                r \<leftarrow> send_release U S q;
                State_Monad.return (case r of
                   Some err \<Rightarrow> HttpError (''service '' @ id @ '' was deleted, but releasing '' @ ip @ '' failed: '' @
                     err_text (UiLb U) err @ ''; retry the release'') 500
                 | None \<Rightarrow> Redirect ''/'')
              }
          }
      })"

definition release_checked :: "'w uienv \<Rightarrow> uiserver \<Rightarrow> uireq \<Rightarrow> ('w, uiresp) uiact" where
  "release_checked U S q =
     (let ns = FormValue q ''servicenamespace''; name = FormValue q ''servicename''; ip = FormValue q ''ipaddr'';
          id = ns @ ''/'' @ name in do {
        r \<leftarrow> on_lb (GetSvc (UiLb U) ns name);
        case r of
          Inr svc \<Rightarrow>
            (let allocatedProject = ann svc projectAnnotation in
             if ann svc floatingIPAnnotation \<noteq> ip then
               State_Monad.return (HttpError (''service '' @ id @ '' is not managed by this controller or does not hold '' @ ip) 409)
             else if allocatedProject \<noteq> [] \<and> allocatedProject \<noteq> ws_project S then
               State_Monad.return (HttpError (''service '' @ id @ '' belongs to project '' @ allocatedProject @ '', not '' @ ws_project S) 409)
             else delete_and_release U S q)
        | Inl err \<Rightarrow>
            if \<not> IsNotFound err then
              State_Monad.return (HttpError (''failed to check if service '' @ id @ '' exists: '' @ err_text (UiLb U) err) 500)
            else do {
              r \<leftarrow> send_release U S q;
              State_Monad.return (case r of
                 Some err \<Rightarrow> HttpError (''failed to release fip: '' @ err_text (UiLb U) err) 500
               | None \<Rightarrow> Redirect ''/'')
            }
      })"

definition handleRelease :: "'w uienv \<Rightarrow> uiserver \<Rightarrow> uireq \<Rightarrow> ('w, uiresp) uiact" where
  "handleRelease U S q =
     guarded_form U S q
       (case form_error (UiOrder U (release_fields q)) of
          Some msg \<Rightarrow> State_Monad.return (HttpError msg 400)
        | None \<Rightarrow>
            if ParseIP (FormValue q ''ipaddr'') = None
            then State_Monad.return (HttpError ''invalid ip address format for ipaddr'' 400)
            else release_checked U S q)"

definition handleRemove :: "'w uienv \<Rightarrow> uiserver \<Rightarrow> uireq \<Rightarrow> ('w, uiresp) uiact" where
  "handleRemove U S q =
     guarded_form U S q
       (let ipaddr = FormValue q ''ipaddr'' in
        case form_error [(''ipaddr'', ipaddr)] of
          Some msg \<Rightarrow> State_Monad.return (HttpError msg 400)
        | None \<Rightarrow>
            if ParseIP ipaddr = None then State_Monad.return (HttpError ''invalid ip address format for ipaddr'' 400)
            else do {
              r \<leftarrow> on_lb (DeleteFIP (UiLb U) (ws_client S) (ws_clientSecret S) (ws_project S) ipaddr);
              State_Monad.return (case r of
                 Some err \<Rightarrow> HttpError (''failed to remove fip: '' @ err_text (UiLb U) err) 500
               | None \<Rightarrow> Redirect ''/'')
            })"

section \<open>The routes\<close>

text \<open>The multiplexer of \<open>Start\<close>, on cleaned paths: the pattern \<open>/\<close> takes all other paths.\<close>

definition serve_ui :: "'w uienv \<Rightarrow> uiserver \<Rightarrow> uireq \<Rightarrow> ('w, uiresp) uiact" where
  "serve_ui U S q =
     (if uq_path q = ''/release'' then withAuth U S (handleRelease U S) q
      else if uq_path q = ''/remove'' then withAuth U S (handleRemove U S) q
      else if uq_path q = ''/login'' then handleLogin U S q
      else if uq_path q = ''/logout'' then handleLogout U S q
      else withAuth U S (handleFIPList U S) q)"

text \<open>\<open>NewServer\<close> draws the token that stands in for the session's when authentication is disabled.\<close>

definition NewServer :: "'w uienv \<Rightarrow> Client \<Rightarrow> string \<Rightarrow> string \<Rightarrow> string \<Rightarrow> string list \<Rightarrow> string \<Rightarrow> string \<Rightarrow> ('w, kerr + uiserver) uiact" where
  "NewServer U c clientSecret cluster project pools username password = do {
     r \<leftarrow> newRandomToken U;
     case r of
       Inl err \<Rightarrow> State_Monad.return (Inl (Wrap ''failed to generate CSRF token'' err))
     | Inr csrfToken \<Rightarrow> do {
         _ \<leftarrow> set_sessions [];
         State_Monad.return (Inr \<lparr>ws_client = c, ws_clientSecret = clientSecret, ws_cluster = cluster, ws_project = project,
           ws_pools = pools, ws_username = username, ws_password = password, ws_csrfToken = csrfToken\<rparr>)
       }
   }"

end
