(* ===== verification/Lb_Server_Props.thy ===== *)
theory Lb_Server_Props
  imports Lb_Server Lb_Correct
begin

text \<open>
  What the management page guarantees: nothing is changed without the token of a live session, sessions are opened by
  a correct login only and are bounded in number, a Service is deleted only when it holds the address of the form, and a reported success
  means that the address was given back.
\<close>

section \<open>Programs of the controller's world on the page\<close>

definition ulg :: "('w \<Rightarrow> trace) \<Rightarrow> 'w uiworld \<Rightarrow> trace" where
  "ulg lg w = lg (ui_world w)"

lemma on_lb_run:
  "run_state (on_lb m) s = (r, s') \<Longrightarrow>
   \<exists>t. run_state m \<lparr>lb_clients = lb_clients s, lb_tombstones = lb_tombstones s, lb_world = ui_world (lb_world s)\<rparr> = (r, t) \<and>
     sessions_of s' = sessions_of s \<and> ui_world (lb_world s') = lb_world t"
  by (auto simp: on_lb_def split: prod.splits)

lemma hoare_on_lb:
  assumes "hoare lg P m Q"
  shows "hoare (ulg lg) P (on_lb m) Q"
  unfolding hoare_def
proof (intro allI impI)
  fix s r s' h
  assume "run_state (on_lb m) s = (r, s')" and P: "P h"
  from on_lb_run [OF this(1)] obtain t
    where t: "run_state m \<lparr>lb_clients = lb_clients s, lb_tombstones = lb_tombstones s, lb_world = ui_world (lb_world s)\<rparr> = (r, t)"
      "ui_world (lb_world s') = lb_world t" by blast
  from hoareD [OF assms t(1) P] t(2)
  show "\<exists>tr. ulg lg (lb_world s') = ulg lg (lb_world s) @ tr \<and> Q r (h @ tr)" by (simp add: ulg_def)
qed

lemma emits_on_lb: "emits lg B m \<Longrightarrow> emits (ulg lg) B (on_lb m)"
  unfolding emits_def by (blast intro: hoare_on_lb)

lemma on_lb_sessions: "run_state (on_lb m) s = (r, s') \<Longrightarrow> sessions_of s' = sessions_of s"
  by (drule on_lb_run) blast

lemma run_unit: obtains t where "run_state m s = ((), t)"
  by (cases "run_state m s") auto

lemma get_sessions_run [simp]: "run_state get_sessions s = (sessions_of s, s)"
  by (simp add: get_sessions_def)

lemma set_sessions_run [simp]: "run_state (set_sessions m) s = ((), s\<lparr>lb_world := (lb_world s)\<lparr>ui_sessions := m\<rparr>\<rparr>)"
  by (simp add: set_sessions_def)

section \<open>The environment of the page\<close>

text \<open>
  The poller as documented: it checks at once, then after each interval, in which the other goroutines run, until the check says so,
  fails, or the time is over.
\<close>

inductive polls :: "('w, unit) uiact \<Rightarrow> ('w, kerr + bool) uiact \<Rightarrow> 'w uisys \<Rightarrow> kerr option \<Rightarrow> 'w uisys \<Rightarrow> bool" where
  holds: "run_state f s = (Inr True, s') \<Longrightarrow> polls turn f s None s'"
| fails: "run_state f s = (Inl e, s') \<Longrightarrow> polls turn f s (Some e) s'"
| waits: "run_state f s = (Inr False, s1) \<Longrightarrow> run_state turn s1 = ((), s2) \<Longrightarrow> polls turn f s2 r s' \<Longrightarrow> polls turn f s r s'"
| expires: "polls turn f s (Some (Errorf ''context deadline exceeded'')) s"

inductive_cases polls_cases: "polls turn f s r s'"

text \<open>The calls of a request are observed; those that only wait or read the clock leave no event.\<close>

definition ui_observes :: "'w uienv \<Rightarrow> ('w \<Rightarrow> trace) \<Rightarrow> bool" where
  "ui_observes U lg \<longleftrightarrow>
     observes (UiLb U) lg \<and> logs (ulg lg) (UiTurn U) (\<lambda>_. []) \<and> logs (ulg lg) (UiNow U) (\<lambda>_. []) \<and>
     logs (ulg lg) (UiRandom U) (\<lambda>_. []) \<and> (\<forall>m. UiIsLeader U = Some m \<longrightarrow> logs (ulg lg) m (\<lambda>_. [])) \<and>
     (\<forall>ns n. logs (ulg lg) (UiDeleteSvc U ns n) (\<lambda>r. [SvcDeleted ns n r])) \<and>
     (\<forall>f s r s'. run_state (UiPoll U f) s = (r, s') \<longrightarrow> polls (UiTurn U) f s r s') \<and>
     (\<forall>t. logs (ulg lg) (UiExec U t) (\<lambda>_. []))"

text \<open>The calls move the state along \<open>R\<close>: what the page may rely on while it waits.\<close>

definition ui_rel :: "('w uisys \<Rightarrow> 'w uisys \<Rightarrow> bool) \<Rightarrow> 'w uienv \<Rightarrow> bool" where
  "ui_rel R U \<longleftrightarrow> moves R (UiTurn U) \<and> moves R (UiNow U) \<and> moves R (UiRandom U) \<and>
     (\<forall>m. UiIsLeader U = Some m \<longrightarrow> moves R m) \<and> (\<forall>ns n. moves R (UiDeleteSvc U ns n)) \<and>
     (\<forall>f s r s'. run_state (UiPoll U f) s = (r, s') \<longrightarrow> polls (UiTurn U) f s r s') \<and> (\<forall>t. moves R (UiExec U t))"

lemma ui_rel_calls:
  assumes "ui_rel R U"
  shows "moves R (UiTurn U)" "moves R (UiNow U)" "moves R (UiRandom U)" "moves R (UiDeleteSvc U ns n)" "moves R (UiExec U t)"
  using assms by (simp_all add: ui_rel_def)

lemma moves_leader: "ui_rel R U \<Longrightarrow> preorder_rel R \<Longrightarrow> moves R (leaderReplica U)"
  by (auto simp: leaderReplica_def ui_rel_def intro: moves_return split: option.split)

lemma polls_move: "polls turn f s r s' \<Longrightarrow> preorder_rel R \<Longrightarrow> moves R turn \<Longrightarrow> moves R f \<Longrightarrow> R s s'"
proof (induction rule: polls.induct)
  case (waits f s s1 turn s2 r s')
  then have "R s s1" "R s1 s2" "R s2 s'" by (auto dest: movesD)
  with waits.prems show ?case by (meson preorder_rel_def transpD)
qed (auto dest: movesD simp: preorder_rel_def reflp_def)

lemma moves_poll: "ui_rel R U \<Longrightarrow> preorder_rel R \<Longrightarrow> moves R f \<Longrightarrow> moves R (UiPoll U f)"
  unfolding moves_def [of R "UiPoll U f"] by (metis polls_move ui_rel_def prod.collapse)

section \<open>What the handlers do to the sessions\<close>

abbreviation with_sessions :: "(string, session) gomap \<Rightarrow> 'w uisys \<Rightarrow> 'w uisys" where
  "with_sessions m s \<equiv> s\<lparr>lb_world := (lb_world s)\<lparr>ui_sessions := m\<rparr>\<rparr>"

lemma moves_modify:
  assumes "preorder_rel R" "\<And>s. R s (with_sessions (f (sessions_of s)) s)" "moves R k"
  shows "moves R (do { m \<leftarrow> get_sessions; _ \<leftarrow> set_sessions (f m); k })"
  using assms unfolding moves_def preorder_rel_def transp_def by auto blast

lemma set_delete: "set (AList.delete k m) \<subseteq> set m"
  by (auto simp: AList.delete_eq)

text \<open>A correct login.\<close>

definition opens :: "uiserver \<Rightarrow> uireq \<Rightarrow> bool" where
  "opens S q \<longleftrightarrow> uq_path q = ''/login'' \<and> uq_method q = ''POST'' \<and> \<not> isl (uq_form q) \<and>
     FormValue q ''username'' = ws_username S \<and> FormValue q ''password'' = ws_password S"

text \<open>
  Relations on the sessions that every handler but the login respects: what leaves the sessions alone is
  fine, and so is dropping sessions.
\<close>

locale session_rely =
  fixes R :: "'w uisys \<Rightarrow> 'w uisys \<Rightarrow> bool"
  assumes pre: "preorder_rel R"
    and same: "sessions_of s' = sessions_of s \<Longrightarrow> R s s'"
    and shrink: "set m \<subseteq> set (sessions_of s) \<Longrightarrow> length m \<le> length (sessions_of s) \<Longrightarrow> R s (with_sessions m s)"
begin

lemma moves_on_lb: "moves R (on_lb m)"
  unfolding moves_def using on_lb_sessions same by (metis prod.collapse)

lemma moves_get: "moves R get_sessions"
  by (simp add: moves_def same)

lemma moves_drop: "moves R k \<Longrightarrow> moves R (do { m \<leftarrow> get_sessions; _ \<leftarrow> set_sessions (AList.delete tok m); k })"
  by (rule moves_modify [OF pre shrink [OF set_delete length_delete_le]])

lemmas parts = moves_intro pre moves_on_lb moves_get moves_drop

lemma csrf: "ui_rel R U \<Longrightarrow> moves R (validCSRF U S q)" "ui_rel R U \<Longrightarrow> moves R (csrfTokenFor U S q)"
  unfolding validCSRF_def csrfTokenFor_def by (intro parts ui_rel_calls; assumption)+

lemma auth: "ui_rel R U \<Longrightarrow> moves R (next q) \<Longrightarrow> moves R (withAuth U S next q)"
  unfolding withAuth_def by (intro parts ui_rel_calls)

lemma guarded: "ui_rel R U \<Longrightarrow> moves R m \<Longrightarrow> moves R (guarded_form U S q m)"
  unfolding guarded_form_def by (intro parts moves_leader csrf)

lemma listing: "moves R (list_pools U S pools acc)"
  by (induction pools arbitrary: acc) (auto simp only: list_pools.simps intro!: parts)

lemma handlers:
  assumes U: "ui_rel R U"
  shows "moves R (handleFIPList U S q)" "moves R (handleRelease U S q)" "moves R (handleRemove U S q)"
    "moves R (handleLogout U S q)" "moves R (login_page U err)"
proof -
  note calls = parts ui_rel_calls [OF U] csrf [OF U] guarded [OF U] listing moves_poll [OF U]
  show "moves R (handleFIPList U S q)" unfolding handleFIPList_def by (intro calls)
  show "moves R (handleRelease U S q)"
    unfolding handleRelease_def release_checked_def delete_and_release_def waitForServiceGone_def gone_check_def send_release_def
    by (intro calls)
  show "moves R (handleRemove U S q)" unfolding handleRemove_def by (intro calls)
  show "moves R (handleLogout U S q)" unfolding handleLogout_def by (intro calls)
  show "moves R (login_page U err)" unfolding login_page_def by (intro calls)
qed

lemma serve:
  assumes U: "ui_rel R U" and login: "opens S q \<Longrightarrow> moves R (open_session U q)"
  shows "moves R (serve_ui U S q)"
  using login handlers [OF U] auth [OF U] unfolding serve_ui_def handleLogin_def opens_def
  by (auto intro: moves_return [OF pre])

end

section \<open>The number of sessions\<close>

lemma evict_oldest_bound: "length (evict_oldest m) < maxSessions"
proof (induction m rule: evict_oldest.induct)
  case (1 m)
  then show ?case by (subst evict_oldest.simps) auto
qed

lemma evict_oldest_subset: "set (evict_oldest m) \<subseteq> set m"
proof (induction m rule: evict_oldest.induct)
  case (1 m)
  with set_delete [of "oldest_from [] 0 m" m] show ?case by (subst evict_oldest.simps) auto
qed

lemma prune_bound: "length (pruneSessions now m) < maxSessions"
  by (simp add: pruneSessions_def evict_oldest_bound)

lemma prune_subset: "set (pruneSessions now m) \<subseteq> set m"
  using evict_oldest_subset [of "drop_expired now m"] by (auto simp: pruneSessions_def drop_expired_def)

lemma set_update_subset: "set (AList.update k v m) \<subseteq> insert (k, v) (set m)"
  by (induction m) auto

definition bounded :: "'w uisys \<Rightarrow> 'w uisys \<Rightarrow> bool" where
  "bounded s s' \<longleftrightarrow> (length (sessions_of s) \<le> maxSessions \<longrightarrow> length (sessions_of s') \<le> maxSessions)"

interpretation bounded: session_rely bounded
  by unfold_locales (auto simp: preorder_rel_def reflp_def transp_def bounded_def)

text \<open>
  C19. The page keeps at most \<open>maxSessions\<close> sessions: whatever the request, if the map is within its cap
  before and the other goroutines keep it there, it is within its cap afterwards. A login beyond the cap evicts.
\<close>

theorem sessions_bounded:
  assumes "ui_rel bounded U" and "run_state (serve_ui U S q) s = (rep, s')"
    and "length (sessions_of s) \<le> maxSessions"
  shows "length (sessions_of s') \<le> maxSessions"
proof -
  have "moves bounded (open_session U q)"
    unfolding open_session_def Let_def newRandomToken_def
    by (intro bounded.parts ui_rel_calls [OF assms(1)] moves_modify)
      (auto simp: bounded_def intro: order_trans [OF length_update_le Suc_leI [OF prune_bound]])
  from movesD [OF bounded.serve [OF assms(1) this] assms(2)] assms(3) show ?thesis by (simp add: bounded_def)
qed

section \<open>How a session comes to be\<close>

definition unopened :: "string \<times> session \<Rightarrow> 'w uisys \<Rightarrow> 'w uisys \<Rightarrow> bool" where
  "unopened p s s' \<longleftrightarrow> (p \<in> set (sessions_of s') \<longrightarrow> p \<in> set (sessions_of s))"

interpretation unopened: session_rely "unopened p" for p
  by unfold_locales (auto simp: preorder_rel_def reflp_def transp_def unopened_def)

text \<open>
  Sessions come from a correct login only: a session that is there after a request and was not there before, and that no
  other request opened in the meantime, was opened by this request, which carried the user name and the password; its
  token is in the cookie of the answer, with the session's expiry.
\<close>

theorem only_login_opens_sessions:
  assumes "ui_rel (unopened (tok, sess)) U" and "run_state (serve_ui U S q) s = (rep, s')"
    and "(tok, sess) \<in> set (sessions_of s')" and "(tok, sess) \<notin> set (sessions_of s)"
  shows "opens S q \<and> (\<exists>c. up_cookie rep = Some c \<and> ck_value c = tok \<and> ck_expires c = se_expiresAt sess)"
proof (rule ccontr)
  assume no: "\<not> ?thesis"
  have "unopened (tok, sess) s s'"
  proof (cases "opens S q")
    case False
    with movesD [OF unopened.serve [OF assms(1)] assms(2)] show ?thesis by blast
  next
    case True
    then have run: "run_state (open_session U q) s = (rep, s')"
      using assms(2) by (simp add: serve_ui_def handleLogin_def opens_def)
    let ?R = "unopened (tok, sess)"
    note calls = ui_rel_calls [OF assms(1)]
    obtain r1 s1 where 1: "run_state (UiRandom U) s = (r1, s1)" by (cases "run_state (UiRandom U) s")
    have m1: "?R s s1" by (rule movesD [OF calls(3) 1])
    show ?thesis
    proof (cases r1)
      case (Inl e)
      with run 1 m1 show ?thesis by (simp add: open_session_def newRandomToken_def)
    next
      case a: (Inr b1)
      obtain r2 s2 where 2: "run_state (UiRandom U) s1 = (r2, s2)" by (cases "run_state (UiRandom U) s1")
      have m2: "?R s1 s2" by (rule movesD [OF calls(3) 2])
      show ?thesis
      proof (cases r2)
        case (Inl e)
        with run 1 2 a m1 m2 show ?thesis by (auto simp: open_session_def newRandomToken_def unopened_def)
      next
        case b: (Inr b2)
        obtain now s3 where 3: "run_state (UiNow U) s2 = (now, s3)" by (cases "run_state (UiNow U) s2")
        obtain s4 where 4: "run_state (UiTurn U) s3 = ((), s4)" by (rule run_unit)
        obtain now' s5 where 5: "run_state (UiNow U) s4 = (now', s5)" by (cases "run_state (UiNow U) s4")
        have m5: "?R s s5"
          using m1 m2 movesD [OF calls(2) 3] movesD [OF calls(1) 4] movesD [OF calls(2) 5] by (auto simp: unopened_def)
        let ?new = "(hex_encode b1, \<lparr>se_expiresAt = now + sessionDuration, se_csrfToken = hex_encode b2\<rparr>)"
        from run 1 2 3 4 5 a b have s': "sessions_of s' = AList.update (fst ?new) (snd ?new) (pruneSessions now' (sessions_of s5))"
          and c: "up_cookie rep = Some \<lparr>ck_value = fst ?new, ck_expires = se_expiresAt (snd ?new), ck_maxAge = 0, ck_secure = isHTTPS q\<rparr>"
          by (auto simp: open_session_def newRandomToken_def Let_def setSessionCookie_def)
        from no True c have "(tok, sess) \<noteq> ?new" by auto
        with s' set_update_subset [of "fst ?new" "snd ?new" "pruneSessions now' (sessions_of s5)"] prune_subset [of now' "sessions_of s5"]
        have "(tok, sess) \<in> set (sessions_of s') \<Longrightarrow> (tok, sess) \<in> set (sessions_of s5)" by auto
        with m5 show ?thesis by (auto simp: unopened_def)
      qed
    qed
  qed
  with assms(3,4) show False by (simp add: unopened_def)
qed

section \<open>Changes need a token\<close>

text \<open>What changes the cluster or the allocations.\<close>

fun mutating :: "lbev \<Rightarrow> bool" where
  "mutating (Sent url b r) = (suffix ''/fip/release'' url \<or> suffix ''/fip/delete'' url \<or> suffix ''/fip/request'' url)"
| "mutating (SvcDeleted ns n r) = True"
| "mutating (SvcRead ns n svc) = False"
| "mutating (SvcMissing ns n) = False"
| "mutating (PoolRead n p) = False"
| "mutating (SecretRead n x) = False"
| "mutating (Reported svc x) = False"
| "mutating ev = True"

definition csrf_valid :: "'w uienv \<Rightarrow> uiserver \<Rightarrow> uireq \<Rightarrow> 'w uisys \<Rightarrow> bool" where
  "csrf_valid U S q t \<longleftrightarrow>
     (let token = FormValue q ''csrf_token'' in
      token \<noteq> [] \<and>
      (if authDisabled S then token = ws_csrfToken S
       else \<exists>cookie sess. uq_cookie q = Inr cookie \<and> map_of (sessions_of t) cookie = Some sess \<and>
              fst (run_state (UiNow U) t) \<le> se_expiresAt sess \<and> token = se_csrfToken sess))"

lemma validCSRF_run:
  assumes "preorder_rel R" "moves R (UiTurn U)" "run_state (validCSRF U S q) s = (True, s')"
  shows "\<exists>t. R s t \<and> csrf_valid U S q t"
proof (cases "authDisabled S")
  case True
  with assms show ?thesis
    by (auto simp: validCSRF_def csrfTokenFor_def csrf_valid_def Let_def preorder_rel_def reflp_def)
next
  case False
  obtain t where t: "run_state (UiTurn U) s = ((), t)" by (rule run_unit)
  have "csrf_valid U S q t"
    using assms(3) False t
    by (auto simp: validCSRF_def csrfTokenFor_def csrf_valid_def Let_def split: sum.splits option.splits prod.splits if_splits)
  with movesD [OF assms(2) t] show ?thesis by blast
qed

definition leads :: "('w uisys \<Rightarrow> 'w uisys \<Rightarrow> bool) \<Rightarrow> 'w uienv \<Rightarrow> 'w uisys \<Rightarrow> bool" where
  "leads R U s \<longleftrightarrow> (case UiIsLeader U of None \<Rightarrow> True | Some m \<Rightarrow> \<exists>t t'. R s t \<and> run_state m t = (True, t'))"

definition authorized :: "('w uisys \<Rightarrow> 'w uisys \<Rightarrow> bool) \<Rightarrow> 'w uienv \<Rightarrow> uiserver \<Rightarrow> uireq \<Rightarrow> 'w uisys \<Rightarrow> bool" where
  "authorized R U S q s \<longleftrightarrow> uq_method q = ''POST'' \<and> leads R U s \<and> (\<exists>t. R s t \<and> csrf_valid U S q t)"

lemma authorized_later: "preorder_rel R \<Longrightarrow> R s t \<Longrightarrow> authorized R U S q t \<Longrightarrow> authorized R U S q s"
  unfolding authorized_def leads_def preorder_rel_def transp_def by (auto split: option.splits)

definition quiet_log :: "('w \<Rightarrow> trace) \<Rightarrow> 'w uisys \<Rightarrow> 'w uisys \<Rightarrow> bool" where
  "quiet_log lg s s' \<longleftrightarrow> (\<exists>tr. ulg lg (lb_world s') = ulg lg (lb_world s) @ tr \<and> list_all (\<lambda>e. \<not> mutating e) tr)"

lemma quiet_log_preorder: "preorder_rel (quiet_log lg)"
  by (auto simp: preorder_rel_def reflp_def transp_def quiet_log_def)

lemma quiet_emits: "emits (ulg lg) (\<lambda>e. \<not> mutating e) m \<Longrightarrow> moves (quiet_log lg) m"
  unfolding moves_def quiet_log_def using emits_all [OF _ prod.collapse [symmetric]] by fast

lemma quiet_logs: "logs (ulg lg) m (\<lambda>_. []) \<Longrightarrow> moves (quiet_log lg) m"
  by (rule quiet_emits, erule emits_logs) simp

lemma quiet_sessions: "moves (quiet_log lg) get_sessions" "moves (quiet_log lg) (set_sessions m)"
  by (auto simp: moves_def quiet_log_def ulg_def)

text \<open>A form goes no further unless it was posted to the leader with a valid token.\<close>

lemma guarded_quiet:
  assumes R: "preorder_rel R" "ui_rel R U" and Q: "moves Q (leaderReplica U)" "moves Q (validCSRF U S q)" "preorder_rel Q"
    and run: "run_state (guarded_form U S q next) s = (rep, s')" and no: "\<not> authorized R U S q s"
  shows "Q s s'"
proof (cases "uq_method q = ''POST''")
  case True
  obtain l s1 where 1: "run_state (leaderReplica U) s = (l, s1)" by (cases "run_state (leaderReplica U) s")
  obtain ok s2 where 2: "run_state (validCSRF U S q) s1 = (ok, s2)" by (cases "run_state (validCSRF U S q) s1")
  have Rs: "R s s1" by (rule movesD [OF moves_leader [OF R(2,1)] 1])
  have lead: "l \<Longrightarrow> leads R U s"
    using 1 R(1) unfolding leads_def leaderReplica_def
    by (auto split: option.splits simp: preorder_rel_def reflp_def)
  have trans: "R a b \<Longrightarrow> R b c \<Longrightarrow> R a c" for a b c using R(1) by (meson preorder_rel_def transpD)
  have "\<exists>t. R s t \<and> csrf_valid U S q t" if ok
    using validCSRF_run [OF R(1) ui_rel_calls(1) [OF R(2)], of S q s1 s2] 2 that trans [OF Rs] by auto
  with lead no True have "\<not> l \<or> \<not> ok" unfolding authorized_def by blast
  moreover have "Q s s1" "Q s1 s2" using movesD Q(1,2) 1 2 by fast+
  moreover have "Q s s2" using calculation(2,3) Q(3) by (auto simp: preorder_rel_def transp_def)
  ultimately show ?thesis using run 1 2 True by (auto simp: guarded_form_def split: if_splits)
next
  case False
  with run Q(3) show ?thesis by (auto simp: guarded_form_def preorder_rel_def reflp_def)
qed

lemma auth_quiet:
  assumes R: "preorder_rel R" "ui_rel R U" and Q: "moves Q (UiTurn U)" "moves Q (UiNow U)" "\<And>m. moves Q (set_sessions m)" "preorder_rel Q"
    and run: "run_state (withAuth U S next q) s = (rep, s')"
    and "next": "\<And>t rep t'. R s t \<Longrightarrow> run_state (next q) t = (rep, t') \<Longrightarrow> Q t t'"
  shows "Q s s'"
proof -
  have refl: "R s s" "Q s s" using R(1) Q(4) by (auto simp: preorder_rel_def reflp_def)
  have trans: "Q a b \<Longrightarrow> Q b c \<Longrightarrow> Q a c" "R a b \<Longrightarrow> R b c \<Longrightarrow> R a c" for a b c
    using R(1) Q(4) by (meson preorder_rel_def transpD)+
  obtain s1 where 1: "run_state (UiTurn U) s = ((), s1)" by (rule run_unit)
  obtain now s2 where 2: "run_state (UiNow U) s1 = (now, s2)" by (cases "run_state (UiNow U) s1")
  note calls = ui_rel_calls [OF R(2)]
  have Rs: "R s s2" by (rule trans(2) [OF movesD [OF calls(1) 1] movesD [OF calls(2) 2]])
  have Q1: "Q s s1" by (rule movesD [OF Q(1) 1])
  have Q2: "Q s s2" by (rule trans(1) [OF Q1 movesD [OF Q(2) 2]])
  have drop: "Q s (with_sessions m s2)" for m
    using trans(1) [OF Q2, of "with_sessions m s2"] Q(3) [of m] by (simp add: moves_def)
  show ?thesis
    using run 1 2 refl Q1 Q2 drop "next" [OF refl(1)] trans(1) [OF Q2 "next" [OF Rs]]
    by (auto simp: withAuth_def split: if_splits sum.splits option.splits)
qed

lemma not_mutating_paths:
  "\<not> suffix ''/fip/delete'' (a @ ''/auth/token'')" "\<not> suffix ''/fip/delete'' (a @ ''/fip/list'')"
  by (simp_all add: suffix_to_prefix)

lemma quiet_listing:
  assumes "observes (UiLb U) lg"
  shows "moves (quiet_log lg) (list_pools U S pools acc)"
proof (induction pools arbitrary: acc)
  case (Cons pool pools)
  have http: "emits lg (\<lambda>e. \<not> mutating e) (Http (UiLb U) m url t b)"
    if "\<not> suffix ''/fip/release'' url" "\<not> suffix ''/fip/delete'' url" "\<not> suffix ''/fip/request'' url" for m url t b
    by (rule emits_logs [OF observes_logs(19) [OF assms]]) (simp add: that)
  have "emits lg (\<lambda>e. \<not> mutating e) (ListFIPs (UiLb U) c cs cl pr po)" for c cs cl pr po
    unfolding ListFIPs_def getToken_def by (intro emits_intro http suffix_paths not_mutating_paths)
  from Cons quiet_emits [OF emits_on_lb [OF this]] show ?case
    by (auto simp only: list_pools.simps intro!: moves_intro quiet_log_preorder)
qed (simp add: moves_return quiet_log_preorder)

text \<open>
  C17. Nothing is changed through the page without authority: when a request releases an address, removes one or deletes a
  Service, it was posted to one of the two forms, on the leader, and carried the CSRF token of a session that was
  live when it was checked (the server's own token when authentication is disabled).
\<close>

theorem changes_need_token:
  assumes "preorder_rel R" and "ui_rel R U" and "ui_observes U lg"
    and "run_state (serve_ui U S q) s = (rep, s')"
    and "ulg lg (lb_world s') = ulg lg (lb_world s) @ tr" and "ev \<in> set tr" and "mutating ev"
  shows "uq_path q \<in> {''/release'', ''/remove''} \<and> authorized R U S q s"
proof (rule ccontr)
  assume no: "\<not> ?thesis"
  let ?Q = "quiet_log lg"
  note pre = quiet_log_preorder [of lg]
  have obs: "observes (UiLb U) lg" using assms(3) by (simp add: ui_observes_def)
  have calls: "moves ?Q (UiTurn U)" "moves ?Q (UiNow U)" "moves ?Q (UiRandom U)" "moves ?Q (UiExec U t)" "moves ?Q (leaderReplica U)" for t
    using assms(3) by (auto simp: ui_observes_def leaderReplica_def intro: quiet_logs moves_return [OF pre] split: option.split)
  note parts = moves_intro pre calls quiet_sessions quiet_listing [OF obs]
  have csrf: "moves ?Q (validCSRF U S q)" "moves ?Q (csrfTokenFor U S q)"
    unfolding validCSRF_def csrfTokenFor_def by (intro parts)+
  have list: "moves ?Q (withAuth U S (handleFIPList U S) q)" "moves ?Q (handleLogin U S q)" "moves ?Q (handleLogout U S q)"
    unfolding withAuth_def handleFIPList_def handleLogin_def handleLogout_def login_page_def open_session_def newRandomToken_def
    by (intro parts csrf)+
  have form: "?Q s s'" if "run_state (withAuth U S (\<lambda>q. guarded_form U S q (next q)) q) s = (rep, s')" "\<not> authorized R U S q s" for "next"
  proof (rule auth_quiet [OF assms(1,2) calls(1,2) quiet_sessions(2) pre that(1)])
    fix t rep t' assume "R s t" "run_state (guarded_form U S q (next q)) t = (rep, t')"
    then show "?Q t t'" using guarded_quiet [OF assms(1,2) calls(5) csrf(1) pre] authorized_later [OF assms(1)] that(2) by blast
  qed
  have rel: "handleRelease U S = (\<lambda>q. guarded_form U S q (case form_error (UiOrder U (release_fields q)) of
      Some msg \<Rightarrow> State_Monad.return (HttpError msg 400)
    | None \<Rightarrow> if ParseIP (FormValue q ''ipaddr'') = None then State_Monad.return (HttpError ''invalid ip address format for ipaddr'' 400)
        else release_checked U S q))"
    by (rule ext) (simp add: handleRelease_def)
  have "?Q s s'"
    using assms(4) no form list unfolding serve_ui_def rel handleRemove_def [abs_def]
    by (auto split: if_splits dest: movesD)
  with assms(5-7) show False by (auto simp: quiet_log_def list_all_iff)
qed

section \<open>What a release through the page does\<close>

definition page_guard :: "uiserver \<Rightarrow> uireq \<Rightarrow> trace \<Rightarrow> lbev \<Rightarrow> bool" where
  "page_guard S q pre ev \<longleftrightarrow>
     (\<forall>ns n r. ev = SvcDeleted ns n r \<longrightarrow>
        (\<exists>svc. SvcRead ns n svc \<in> set pre \<and> ann svc floatingIPAnnotation = FormValue q ''ipaddr'' \<and>
               ann svc projectAnnotation \<in> {[], ws_project S}))"

definition given_back :: "'w uienv \<Rightarrow> uireq \<Rightarrow> trace \<Rightarrow> bool" where
  "given_back U q h \<longleftrightarrow>
     (\<exists>pre url body res. h = pre @ [Sent url body res] \<and> suffix ''/fip/release'' url \<and>
        getz [] body ''ipaddr'' = FormValue q ''ipaddr'' \<and> release_accepted (UiLb U) res \<and>
        SvcMissing (FormValue q ''servicenamespace'') (FormValue q ''servicename'') \<in> set pre)"

definition page_post :: "'w uienv \<Rightarrow> uiserver \<Rightarrow> uireq \<Rightarrow> uiresp \<Rightarrow> trace \<Rightarrow> bool" where
  "page_post U S q rep h \<longleftrightarrow> safe (page_guard S q) h \<and> (up_location rep = ''/'' \<longrightarrow> given_back U q h)"

lemma page_guard_other: "(\<And>ns n r. ev \<noteq> SvcDeleted ns n r) \<Longrightarrow> page_guard S q h ev"
  by (simp add: page_guard_def)

lemma locations [simp]:
  "up_location (HttpError m c) = []" "up_location (Redirect u) = u" "up_location ((HttpError m c)\<lparr>up_retryAfter := x\<rparr>) = []"
  by (simp_all add: HttpError_def Redirect_def)

lemma polls_hoare:
  assumes "polls turn f s r s'" "P h" "hoare lg P turn (\<lambda>_. P)"
    "hoare lg P f (\<lambda>x h. case x of Inl e \<Rightarrow> Q (Some e) h | Inr b \<Rightarrow> if b then Q None h else P h)"
    "\<And>h. P h \<Longrightarrow> Q (Some (Errorf ''context deadline exceeded'')) h"
  shows "\<exists>tr. lg (lb_world s') = lg (lb_world s) @ tr \<and> Q r (h @ tr)"
  using assms
proof (induction arbitrary: h rule: polls.induct)
  case (waits f s s1 turn s2 r s')
  from hoareD [OF waits.prems(3) waits.hyps(1) waits.prems(1)] obtain t1
    where 1: "lg (lb_world s1) = lg (lb_world s) @ t1" "P (h @ t1)" by auto
  from hoareD [OF waits.prems(2) waits.hyps(2) 1(2)] obtain t2
    where 2: "lg (lb_world s2) = lg (lb_world s1) @ t2" "P ((h @ t1) @ t2)" by auto
  from waits.IH [OF 2(2) waits.prems(2-4)] obtain t3
    where "lg (lb_world s') = lg (lb_world s2) @ t3" "Q r (((h @ t1) @ t2) @ t3)" by auto
  with 1 2 show ?case by (intro exI [of _ "t1 @ t2 @ t3"]) simp
next
  case (expires turn f s)
  then show ?case by (intro exI [of _ "[]"]) simp
qed (drule (2) hoareD, fastforce)+

locale page =
  fixes U :: "'w uienv" and lg :: "'w \<Rightarrow> trace"
  assumes page_obs: "ui_observes U lg"
begin

lemma silent:
  "emits (ulg lg) B (UiTurn U)" "emits (ulg lg) B (UiNow U)" "emits (ulg lg) B (leaderReplica U)"
  "emits (ulg lg) B get_sessions" "emits (ulg lg) B (set_sessions m)"
proof -
  show "emits (ulg lg) B (UiTurn U)" "emits (ulg lg) B (UiNow U)" "emits (ulg lg) B (leaderReplica U)"
    using page_obs by (auto simp: ui_observes_def leaderReplica_def intro!: emits_logs emits_return split: option.split)
  show "emits (ulg lg) B get_sessions" "emits (ulg lg) B (set_sessions m)"
    by (rule emits_logs [where f = "\<lambda>_. []"], auto simp: logs_def ulg_def)+
qed

lemma csrf_silent: "emits (ulg lg) B (validCSRF U S q)"
  unfolding validCSRF_def csrfTokenFor_def by (intro emits_intro silent)

lemma hoare_silent_call: "emits (ulg lg) (\<lambda>_. False) m \<Longrightarrow> hoare (ulg lg) P m (\<lambda>_. P)"
  by (erule emitsD) (simp add: keeps_def)

lemma obs: "observed (UiLb U) lg"
  using page_obs by (simp add: ui_observes_def observed_def)

lemma poll_triple:
  assumes "hoare (ulg lg) P f (\<lambda>x h. case x of Inl e \<Rightarrow> Q (Some e) h | Inr b \<Rightarrow> if b then Q None h else P h)"
    "\<And>h. P h \<Longrightarrow> Q (Some (Errorf ''context deadline exceeded'')) h"
  shows "hoare (ulg lg) P (UiPoll U f) Q"
  unfolding hoare_def
proof (intro allI impI)
  fix s r s' h assume "run_state (UiPoll U f) s = (r, s')" "P h"
  with page_obs have "polls (UiTurn U) f s r s'" by (auto simp: ui_observes_def)
  from polls_hoare [OF this \<open>P h\<close> hoare_silent_call [OF silent(1)] assms]
  show "\<exists>tr. ulg lg (lb_world s') = ulg lg (lb_world s) @ tr \<and> Q r (h @ tr)" .
qed

lemma send_triple:
  assumes "\<And>h. P h \<Longrightarrow> safe (page_guard S q) h" "keeps harmless P"
  shows "hoare (ulg lg) P (send_release U S q)
    (\<lambda>r h. safe (page_guard S q) h \<and>
       (r = None \<longrightarrow> (\<exists>pre url body res. P pre \<and> h = pre @ [Sent url body res] \<and> suffix ''/fip/release'' url \<and>
          getz [] body ''ipaddr'' = FormValue q ''ipaddr'' \<and> release_accepted (UiLb U) res)))"
  unfolding send_release_def
proof (rule hoare_post [OF hoare_on_lb [OF observed.release_triple [OF obs assms(2)]]])
  fix r h
  let ?url = "cl_apiURL (ws_client S) @ ''/fip/release''"
  let ?body = "fip_body (ws_clientSecret S) (ws_cluster S) (ws_project S) (FormValue q ''floatingippool'')
    (FormValue q ''servicenamespace'') (FormValue q ''servicename'') (FormValue q ''ipaddr'') (FormValue q ''floatingipgroup'')"
  assume a: "r \<noteq> None \<and> P h \<or> (\<exists>h0 res. P h0 \<and> h = h0 @ [Sent ?url ?body res] \<and> (r = None \<longrightarrow> release_accepted (UiLb U) res))"
  have g: "page_guard S q h0 (Sent ?url ?body res)" for h0 res by (simp add: page_guard_other)
  from a show "safe (page_guard S q) h \<and> (r = None \<longrightarrow> (\<exists>pre url body res. P pre \<and> h = pre @ [Sent url body res] \<and>
      suffix ''/fip/release'' url \<and> getz [] body ''ipaddr'' = FormValue q ''ipaddr'' \<and> release_accepted (UiLb U) res))"
  proof (elim disjE conjE exE)
    fix h0 res assume h: "P h0" "h = h0 @ [Sent ?url ?body res]" "r = None \<longrightarrow> release_accepted (UiLb U) res"
    with assms(1) g have "safe (page_guard S q) h" by (simp add: safe_snoc)
    moreover have "suffix ''/fip/release'' ?url" by (simp add: suffix_def)
    ultimately show ?thesis using h by (metis ipaddr_of_body)
  qed (use assms(1) in auto)
qed

lemma missing_keeps: "keeps harmless (\<lambda>h. safe (page_guard S q) h \<and> SvcMissing ns n \<in> set h)"
  by (intro keeps_conj keeps_in keeps_safe) (auto simp: page_guard_def elim: harmless.elims)

lemma get_triple_page:
  "hoare (ulg lg) (safe (page_guard S q)) (on_lb (GetSvc (UiLb U) ns n))
     (\<lambda>r h. safe (page_guard S q) h \<and> (\<forall>svc. r = Inr svc \<longrightarrow> SvcRead ns n svc \<in> set h) \<and>
        (\<forall>e. r = Inl e \<longrightarrow> IsNotFound e \<longrightarrow> SvcMissing ns n \<in> set h))"
  by (rule hoare_on_lb, rule hoare_logs [OF observed.call(1) [OF obs]])
    (auto simp: safe_snoc page_guard_def split: sum.splits)

lemma gone_triple:
  "hoare (ulg lg) (safe (page_guard S q)) (waitForServiceGone U ns n)
     (\<lambda>r h. safe (page_guard S q) h \<and> (r = None \<longrightarrow> SvcMissing ns n \<in> set h))"
  unfolding waitForServiceGone_def
proof (rule poll_triple)
  show "hoare (ulg lg) (safe (page_guard S q)) (gone_check U ns n)
    (\<lambda>x h. case x of Inl e \<Rightarrow> safe (page_guard S q) h \<and> (Some e = None \<longrightarrow> SvcMissing ns n \<in> set h)
      | Inr b \<Rightarrow> if b then safe (page_guard S q) h \<and> (None = None \<longrightarrow> SvcMissing ns n \<in> set h) else safe (page_guard S q) h)"
    unfolding gone_check_def
    by (rule hoare_bind [OF get_triple_page], rule hoare_return) (auto split: sum.splits)
qed simp

lemma delete_triple:
  "hoare (ulg lg) (\<lambda>h. safe (page_guard S q) h \<and> SvcRead ns n svc \<in> set h \<and> ann svc floatingIPAnnotation = FormValue q ''ipaddr'' \<and>
       ann svc projectAnnotation \<in> {[], ws_project S})
     (UiDeleteSvc U ns n) (\<lambda>_. safe (page_guard S q))"
proof (rule hoare_logs [where f = "\<lambda>r. [SvcDeleted ns n r]"])
  show "logs (ulg lg) (UiDeleteSvc U ns n) (\<lambda>r. [SvcDeleted ns n r])" using page_obs by (simp add: ui_observes_def)
qed (auto simp: safe_snoc page_guard_def)

lemma given_back_intro:
  "r = None \<longrightarrow> (\<exists>pre url body res. (safe G pre \<and> SvcMissing (FormValue q ''servicenamespace'') (FormValue q ''servicename'') \<in> set pre) \<and>
      h = pre @ [Sent url body res] \<and> suffix ''/fip/release'' url \<and> getz [] body ''ipaddr'' = FormValue q ''ipaddr'' \<and>
      release_accepted (UiLb U) res) \<Longrightarrow> r = None \<Longrightarrow> given_back U q h"
  unfolding given_back_def by blast

lemma release_post:
  "hoare (ulg lg) (\<lambda>h. safe (page_guard S q) h \<and> SvcMissing (FormValue q ''servicenamespace'') (FormValue q ''servicename'') \<in> set h)
     (send_release U S q) (\<lambda>r h. safe (page_guard S q) h \<and> (r = None \<longrightarrow> given_back U q h))"
  by (rule hoare_post [OF send_triple [OF _ missing_keeps]]) (auto intro: given_back_intro)

lemma delete_release_triple:
  "hoare (ulg lg) (\<lambda>h. safe (page_guard S q) h \<and> SvcRead (FormValue q ''servicenamespace'') (FormValue q ''servicename'') svc \<in> set h \<and>
       ann svc floatingIPAnnotation = FormValue q ''ipaddr'' \<and> ann svc projectAnnotation \<in> {[], ws_project S})
     (delete_and_release U S q) (page_post U S q)"
  unfolding delete_and_release_def Let_def
proof (rule hoare_bind [OF delete_triple], intro hoare_option hoare_return)
  show "hoare (ulg lg) (safe (page_guard S q))
    (do { g \<leftarrow> waitForServiceGone U (FormValue q ''servicenamespace'') (FormValue q ''servicename'');
       case g of
         None \<Rightarrow> do {
           r \<leftarrow> send_release U S q;
           State_Monad.return (case r of None \<Rightarrow> Redirect ''/''
             | Some err \<Rightarrow> HttpError (''service '' @ (FormValue q ''servicenamespace'' @ ''/'' @ FormValue q ''servicename'') @
                 '' was deleted, but releasing '' @ FormValue q ''ipaddr'' @ '' failed: '' @ err_text (UiLb U) err @ ''; retry the release'') 500)
         }
       | Some err \<Rightarrow> State_Monad.return (HttpError (''service '' @ (FormValue q ''servicenamespace'' @ ''/'' @ FormValue q ''servicename'') @
           '' deletion was requested, but the controller has not finished releasing '' @
           FormValue q ''ipaddr'' @ '' within 30s; check the controller logs and retry'') 504)
    }) (page_post U S q)"
    by (rule hoare_bind [OF gone_triple], intro hoare_option hoare_return hoare_bind [OF hoare_pre [OF release_post]])
      (auto simp: page_post_def split: option.splits)
qed (simp add: page_post_def)

lemma checked_triple: "hoare (ulg lg) (safe (page_guard S q)) (release_checked U S q) (page_post U S q)"
  unfolding release_checked_def Let_def
  by (rule hoare_bind [OF get_triple_page],
      intro hoare_sum hoare_if hoare_return hoare_pre [OF delete_release_triple] hoare_bind [OF hoare_pre [OF release_post]])
    (auto simp: page_post_def split: option.splits)

lemma release_page_triple: "hoare (ulg lg) (safe (page_guard S q)) (withAuth U S (handleRelease U S) q) (page_post U S q)"
proof -
  have h: "hoare (ulg lg) (safe (page_guard S q)) (handleRelease U S q) (page_post U S q)"
    unfolding handleRelease_def guarded_form_def
    by (intro hoare_if hoare_return hoare_option checked_triple
          hoare_bind [OF hoare_silent_call [OF silent(3)]] hoare_bind [OF hoare_silent_call [OF csrf_silent]])
      (auto simp: page_post_def)
  show ?thesis unfolding withAuth_def
    by (intro hoare_if hoare_sum hoare_option hoare_return h
          hoare_bind [OF hoare_silent_call [OF silent(1)]] hoare_bind [OF hoare_silent_call [OF silent(2)]]
          hoare_bind [OF hoare_silent_call [OF silent(4)]] hoare_bind [OF hoare_silent_call [OF silent(5)]])
      (auto simp: page_post_def)
qed

end

text \<open>
  C18. A release through the page deletes a Service only when it was read before and carries the address of the form and no
  other project, and when the page reports success the Service was seen to be gone and after that the
  API accepted the release of this address.
\<close>

theorem page_release:
  assumes "ui_observes U lg" and "uq_path q = ''/release''" and "run_state (serve_ui U S q) s = (rep, s')"
  shows "\<exists>tr. ulg lg (lb_world s') = ulg lg (lb_world s) @ tr \<and> page_post U S q rep tr"
proof -
  have "run_state (withAuth U S (handleRelease U S) q) s = (rep, s')" using assms(2,3) by (simp add: serve_ui_def)
  from hoareD [OF page.release_page_triple [OF page.intro [OF assms(1)]] this, of "[]"] show ?thesis by simp
qed

section \<open>The page on the world of \<open>Mem_Lb\<close>\<close>

text \<open>The poller with the interval and timeout of the page: at most 61 checks in thirty seconds.\<close>

fun poll_n :: "nat \<Rightarrow> ('w, unit) uiact \<Rightarrow> ('w, kerr + bool) uiact \<Rightarrow> ('w, kerr option) uiact" where
  "poll_n 0 turn f = State_Monad.return (Some (Errorf ''context deadline exceeded''))"
| "poll_n (Suc n) turn f = do {
     x \<leftarrow> f;
     case x of
       Inl e \<Rightarrow> State_Monad.return (Some e)
     | Inr done \<Rightarrow> if done then State_Monad.return None else do { _ \<leftarrow> turn; poll_n n turn f }
   }"

lemma poll_n_polls: "run_state (poll_n n turn f) s = (r, s') \<Longrightarrow> polls turn f s r s'"
proof (induction n arbitrary: s)
  case (Suc n)
  obtain x s1 where x: "run_state f s = (x, s1)" by (cases "run_state f s")
  show ?case
  proof (cases x)
    case (Inl e)
    with Suc.prems x show ?thesis by (auto intro: polls.fails)
  next
    case (Inr b)
    obtain s2 where t: "run_state turn s1 = ((), s2)" by (rule run_unit)
    with Suc.prems x Inr Suc.IH [of s2] show ?thesis by (cases b) (auto intro: polls.holds polls.waits)
  qed
qed (auto intro: polls.expires)

definition mem_ui :: "lmem uienv" where
  "mem_ui = \<lparr>UiLb = mem_lb, UiTurn = State_Monad.return (), UiNow = State_Monad.return (seconds 100),
     UiRandom = State_Monad.return (Inr [202, 254]), UiIsLeader = Some (State_Monad.return True),
     UiDeleteSvc = (\<lambda>ns n. on_lb (logged (\<lambda>w. (removing (svc_named ns n w \<noteq> None), w\<lparr>m_svcs := AList.delete (ns, n) (m_svcs w)\<rparr>))
       (\<lambda>r. [SvcDeleted ns n r]))),
     UiPoll = poll_n 61 (State_Monad.return ()), UiParse = (\<lambda>_. None), UiExec = (\<lambda>_. State_Monad.return None), UiOrder = (\<lambda>fs. fs)\<rparr>"

lemma return_logs: "logs lg (State_Monad.return x) (\<lambda>_. [])"
  by (auto simp: logs_def)

lemma on_lb_logged: "logs (ulg m_log) (on_lb (logged f ev)) ev"
  by (auto simp: logs_def on_lb_def logged_def ulg_def split: prod.splits)

lemma mem_ui_observes: "ui_observes mem_ui m_log"
  unfolding ui_observes_def mem_ui_def uienv.select_convs
  by (intro conjI allI impI; (rule mem_observes on_lb_logged return_logs poll_n_polls; assumption?)?; simp only: option.inject; hypsubst?; rule return_logs)

interpretation mem_page: page mem_ui m_log
  by unfold_locales (rule mem_ui_observes)

lemma mem_ui_rel: "session_rely R \<Longrightarrow> ui_rel R mem_ui"
  unfolding ui_rel_def mem_ui_def
  by (auto intro!: session_rely.moves_on_lb moves_return session_rely.pre intro: poll_n_polls)

text \<open>A live session, a Service with an address, and the form that gives it back.\<close>

definition page_server :: uiserver where
  "page_server = \<lparr>ws_client = \<lparr>cl_apiURL = ''https://fip'', cl_clientID = ''client-c1''\<rparr>, ws_clientSecret = ''s3'', ws_cluster = ''c1'',
     ws_project = ''p1'', ws_pools = [''pool''], ws_username = ''admin'', ws_password = ''pw'', ws_csrfToken = ''x''\<rparr>"

definition page_sys :: "lmem uisys" where
  "page_sys = \<lparr>lb_clients = [], lb_tombstones = [],
     lb_world = \<lparr>ui_sessions = [(''tok'', \<lparr>se_expiresAt = seconds 200, se_csrfToken = ''c''\<rparr>)],
       ui_world = (lb_world demo_sys)\<lparr>m_svcs := [((''web'', ''plain''), old_svc\<lparr>sv_name := ''plain'', sv_deleted := False, sv_finalizers := []\<rparr>)]\<rparr>\<rparr>\<rparr>"

definition release_form :: uireq where
  "release_form = \<lparr>uq_method = ''POST'', uq_path = ''/release'', uq_cookie = Inr ''tok'',
     uq_form = Inr [(''csrf_token'', ''c''), (''floatingippool'', ''pool''), (''servicenamespace'', ''web''), (''servicename'', ''plain''),
       (''ipaddr'', ''10.0.0.5'')], uq_tls = True, uq_proto = []\<rparr>"

definition login_form :: uireq where
  "login_form = \<lparr>uq_method = ''POST'', uq_path = ''/login'', uq_cookie = Inl ErrNoCookie,
     uq_form = Inr [(''username'', ''admin''), (''password'', ''pw'')], uq_tls = True, uq_proto = []\<rparr>"

lemma login_run:
  "sessions_of (snd (run_state (serve_ui mem_ui page_server login_form) page_sys)) =
     [(''tok'', \<lparr>se_expiresAt = seconds 200, se_csrfToken = ''c''\<rparr>), (''cafe'', \<lparr>se_expiresAt = seconds 86500, se_csrfToken = ''cafe''\<rparr>)]"
  by code_simp

theorem sessions_bounded_witness:
  "length (sessions_of (snd (run_state (serve_ui mem_ui page_server login_form) page_sys))) \<le> maxSessions"
proof -
  obtain rep s' where run: "run_state (serve_ui mem_ui page_server login_form) page_sys = (rep, s')"
    by (cases "run_state (serve_ui mem_ui page_server login_form) page_sys")
  have "length (sessions_of page_sys) \<le> maxSessions" by code_simp
  from sessions_bounded [OF mem_ui_rel [OF bounded.session_rely_axioms] run this] run show ?thesis by simp
qed

theorem only_login_opens_sessions_witness:
  "\<exists>c. up_cookie (fst (run_state (serve_ui mem_ui page_server login_form) page_sys)) = Some c \<and> ck_value c = ''cafe'' \<and>
     ck_expires c = seconds 86500"
proof -
  let ?p = "(''cafe'', \<lparr>se_expiresAt = seconds 86500, se_csrfToken = ''cafe''\<rparr>)"
  obtain rep s' where run: "run_state (serve_ui mem_ui page_server login_form) page_sys = (rep, s')"
    by (cases "run_state (serve_ui mem_ui page_server login_form) page_sys")
  have "?p \<in> set (sessions_of s')" "?p \<notin> set (sessions_of page_sys)"
    using login_run run by (simp_all add: page_sys_def)
  from only_login_opens_sessions [OF mem_ui_rel [OF unopened.session_rely_axioms] run this] run show ?thesis by simp
qed

lemma release_run:
  "case run_state (serve_ui mem_ui page_server release_form) page_sys of
     (rep, s') \<Rightarrow> up_location rep = ''/'' \<and> list_ex mutating (ulg m_log (lb_world s')) \<and> ulg m_log (lb_world page_sys) = []"
  by code_simp

theorem changes_need_token_witness:
  "authorized (\<lambda>_ _. True) mem_ui page_server release_form page_sys"
proof -
  obtain rep s' where run: "run_state (serve_ui mem_ui page_server release_form) page_sys = (rep, s')"
    by (cases "run_state (serve_ui mem_ui page_server release_form) page_sys")
  with release_run obtain ev where log: "ulg m_log (lb_world s') = ulg m_log (lb_world page_sys) @ ulg m_log (lb_world s')"
    and ev: "ev \<in> set (ulg m_log (lb_world s'))" "mutating ev" by (auto simp: list_ex_iff)
  have "ui_rel (\<lambda>_ _. True) mem_ui" by (auto simp: ui_rel_def moves_def mem_ui_def intro: poll_n_polls)
  from changes_need_token [OF _ this mem_ui_observes run log ev] show ?thesis
    by (simp add: preorder_rel_def reflp_def transp_def)
qed

theorem page_release_witness:
  "\<exists>tr. ulg m_log (lb_world (snd (run_state (serve_ui mem_ui page_server release_form) page_sys))) = tr \<and>
     safe (page_guard page_server release_form) tr \<and> given_back mem_ui release_form tr"
proof -
  obtain rep s' where run: "run_state (serve_ui mem_ui page_server release_form) page_sys = (rep, s')"
    by (cases "run_state (serve_ui mem_ui page_server release_form) page_sys")
  have "uq_path release_form = ''/release''" by (simp add: release_form_def)
  from page_release [OF mem_ui_observes this run] release_run run show ?thesis by (auto simp: page_post_def)
qed

end
