(* ===== verification/Cm_Env.thy ===== *)
theory Cm_Env
  imports Lb_Controller Sha256
begin

text \<open>
  The environment of the cluster manager (\<open>src/clustermanager\<close>), the program that runs beside Rancher and equips the downstream
  clusters: the objects it reads and writes, its clients for the local and the downstream clusters, and its configuration.

  A client is a record of calls on a state \<open>'w\<close>; a call may change all of it, which is what the other workers, Rancher and
  the clusters do meanwhile. The client libraries, the YAML and JSON decoders, the clock and the random source are fields of
  \<open>cmenv\<close>. Deadlines (\<open>context.WithTimeout\<close>) show as errors of the calls.
\<close>

section \<open>Objects\<close>

record KSecret =
  ks_ns :: string
  ks_name :: string
  ks_data :: "(string, string) gomap"

record Cluster =
  cu_name :: string
  cu_displayName :: string
  cu_labels :: labels

record Project =
  pj_name :: string
  pj_ns :: string
  pj_clusterName :: string

record QuotaMeta =
  qm_name :: string
  qm_finalizers :: "string list"
  qm_deletion :: "int option"
  qm_rv :: nat

text \<open>The part of a FloatingIPPool that names the network it serves.\<close>

record PoolTarget =
  pt_name :: string
  pt_cluster :: string
  pt_network :: string
  pt_interface :: string
  pt_annotations :: labels

record MachinePool =
  mp_controlPlane :: bool
  mp_nodeConfig :: "(string \<times> string) option"

record ProvCluster =
  pv_name :: string
  pv_ns :: string
  pv_credential :: string
  pv_machinePools :: "MachinePool list"

text \<open>Fields of the unstructured object that are missing read as the empty string.\<close>

record HarvesterConfig =
  hc_name :: string
  hc_vmNamespace :: string
  hc_networkInfo :: string
  hc_networkName :: string

section \<open>Clients\<close>

record 'w dsclient =
  DsListPods :: "string \<Rightarrow> ('w, kerr option) state"
  DsGetNs :: "string \<Rightarrow> ('w, kerr + labels \<times> labels) state"
  DsCreateNs :: "string \<Rightarrow> ('w, kerr option) state"
  DsUpdateNs :: "string \<Rightarrow> labels \<Rightarrow> ('w, kerr option) state"
  DsGetSecret :: "string \<Rightarrow> string \<Rightarrow> ('w, kerr + KSecret) state"
  DsCreateSecret :: "KSecret \<Rightarrow> ('w, kerr option) state"
  DsUpdateSecret :: "KSecret \<Rightarrow> ('w, kerr option) state"
  DsDeleteSecret :: "string \<Rightarrow> string \<Rightarrow> ('w, kerr option) state"
  DsListSecrets :: "string \<Rightarrow> ('w, kerr + KSecret list) state"
  DsGetConfigMap :: "string \<Rightarrow> string \<Rightarrow> ('w, kerr + (string, string) gomap) state"
  DsCreateConfigMap :: "string \<Rightarrow> string \<Rightarrow> (string, string) gomap \<Rightarrow> ('w, kerr option) state"
  DsUpdateConfigMap :: "string \<Rightarrow> string \<Rightarrow> (string, string) gomap \<Rightarrow> ('w, kerr option) state"
  DsGetDeployment :: "string \<Rightarrow> string \<Rightarrow> ('w, kerr + labels) state"
  DsUpdateDeployment :: "string \<Rightarrow> string \<Rightarrow> labels \<Rightarrow> ('w, kerr option) state"

text \<open>
  A namespace is read as its labels and its annotations, a deployment as the annotations of its pod template.
\<close>

record 'w cmenv =
  CmGetQuota :: "string \<Rightarrow> ('w, kerr + QuotaMeta) state"
  CmPatchQuota :: "QuotaMeta \<Rightarrow> ('w, kerr option) state"
  CmListQuotas :: "('w, kerr + string list) state"
  CmRetry :: "('w, kerr option) state \<Rightarrow> ('w, kerr option) state"
  CmListProjects :: "('w, kerr + Project list) state"
  CmGetCluster :: "string \<Rightarrow> ('w, kerr + Cluster) state"
  CmListPools :: "('w, kerr + PoolTarget list) state"
  CmListSecrets :: "string option \<Rightarrow> ('w, kerr + KSecret list) state"
  CmGetSecret :: "string \<Rightarrow> string \<Rightarrow> ('w, kerr + KSecret) state"
  CmReadSecret :: "(string \<Rightarrow> string \<Rightarrow> ('w, kerr + KSecret) state) option"
  CmCreateSecret :: "KSecret \<Rightarrow> ('w, kerr option) state"
  CmUpdateSecret :: "KSecret \<Rightarrow> ('w, kerr option) state"
  CmDeleteSecret :: "KSecret \<Rightarrow> ('w, kerr option) state"
  CmListFips :: "('w, kerr + FloatingIP list) state"
  CmUpdateFip :: "FloatingIP \<Rightarrow> ('w, kerr option) state"
  CmListProvClusters :: "('w, kerr + ProvCluster list) state"
  CmGetHarvesterConfig :: "string \<Rightarrow> ('w, kerr + HarvesterConfig) state"
  CmRand :: "('w, kerr + nat list) state"
  CmNow :: "('w, int) state"
  CmFormatTime :: "int \<Rightarrow> string"
  CmRestConfig :: "string \<Rightarrow> kerr + string"
  CmNewClient :: "string \<Rightarrow> ('w, kerr + 'w dsclient) state"
  CmNetworkInfo :: "string \<Rightarrow> kerr + string list"
  CmErrText :: "kerr \<Rightarrow> string"
  CmVisit :: "string list \<Rightarrow> string list"

text \<open>
  \<open>CmReadSecret\<close> is the uncached reader, where there is one; \<open>CmPatchQuota\<close> is a merge patch with optimistic locking;
  \<open>CmNetworkInfo\<close> decodes the list of network names; \<open>CmVisit\<close> is the order in which Go visits the keys of a map.
\<close>

section \<open>Configuration\<close>

record chartConf =
  ch_name :: string
  ch_ref :: string
  ch_version :: string
  ch_namespace :: string
  ch_values :: string

record cmConfig =
  cg_lbNamespace :: string
  cg_apiURL :: string
  cg_caCrt :: "string option"
  cg_appNamespace :: string
  cg_lbChart :: chartConf
  cg_pureLB :: chartConf
  cg_metalLB :: chartConf

text \<open>What a reconcile returns: when to run again, in seconds (0 for not at all), and an error.\<close>

type_synonym ctrlResult = "nat \<times> kerr option"

definition minutes :: "nat \<Rightarrow> nat" where
  "minutes n = 60 * n"

abbreviation requeue :: "nat \<Rightarrow> ctrlResult" where
  "requeue n \<equiv> (n, None)"

abbreviation finished :: ctrlResult where
  "finished \<equiv> (0, None)"

abbreviation failed :: "kerr \<Rightarrow> ctrlResult" where
  "failed e \<equiv> (0, Some e)"

definition configSecretPrefix :: string where
  "configSecretPrefix = ''rancher-fip-config-''"

text \<open>\<open>client.IgnoreNotFound\<close>.\<close>

definition IgnoreNotFound :: "kerr \<Rightarrow> kerr option" where
  "IgnoreNotFound e = (if IsNotFound e then None else Some e)"

text \<open>Two maps hold the same entries, whatever their order.\<close>

definition same_data :: "(string, string) gomap \<Rightarrow> (string, string) gomap \<Rightarrow> bool" where
  "same_data a b \<longleftrightarrow> list_all (\<lambda>k. map_of a k = map_of b k) (keys a @ keys b)"

lemma same_data_iff: "same_data a b \<longleftrightarrow> map_of a = map_of b"
proof
  assume s: "same_data a b"
  show "map_of a = map_of b"
  proof
    fix k
    show "map_of a k = map_of b k"
    proof (cases "k \<in> set (keys a @ keys b)")
      case True
      with s show ?thesis by (auto simp: same_data_def list_all_iff)
    next
      case False
      then have "map_of a k = None" "map_of b k = None" by (simp_all add: map_of_None_keys)
      then show ?thesis by simp
    qed
  qed
qed (simp add: same_data_def list_all_iff)

end
