(* ===== verification/Cm_Secrets.thy ===== *)
theory Cm_Secrets
  imports Cm_Env
begin

text \<open>
  The handlers the two reconcilers of the cluster manager share: the Secrets that carry a project's credentials to the load
  balancer controller (\<open>secret_handler.go\<close>, \<open>internal/secret/secret.go\<close>), the namespace of the controller and its label
  (\<open>namespace_handler.go\<close>) and the map from pools to network interfaces (\<open>configmap_handler.go\<close>).
\<close>

section \<open>Secrets\<close>

definition GenerateClientSecret :: "'w cmenv \<Rightarrow> ('w, kerr + string) state" where
  "GenerateClientSecret E = do {
     r \<leftarrow> CmRand E;
     State_Monad.return (case r of Inl e \<Rightarrow> Inl e | Inr bytes \<Rightarrow> Inr (hex_encode bytes))
   }"

definition NewDownstreamSecret ::
  "string \<Rightarrow> string \<Rightarrow> string \<Rightarrow> string \<Rightarrow> string \<Rightarrow> string \<Rightarrow> string \<Rightarrow> string \<Rightarrow> KSecret" where
  "NewDownstreamSecret name ns apiUrl clientSecret cluster project pool lbType =
     \<lparr>ks_ns = ns, ks_name = name,
      ks_data = [(''apiUrl'', apiUrl), (''cluster'', cluster), (''clientSecret'', clientSecret), (''project'', project),
                 (''floatingIPPool'', pool), (''loadBalancerType'', lbType)]\<rparr>"

definition NewLocalSecret :: "string \<Rightarrow> string \<Rightarrow> string \<Rightarrow> string \<Rightarrow> KSecret" where
  "NewLocalSecret name ns clientSecret project =
     \<lparr>ks_ns = ns, ks_name = name, ks_data = [(''clientSecret'', clientSecret), (''project'', project)]\<rparr>"

definition local_reader :: "'w cmenv \<Rightarrow> string \<Rightarrow> string \<Rightarrow> ('w, kerr + KSecret) state" where
  "local_reader E = (case CmReadSecret E of Some rd \<Rightarrow> rd | None \<Rightarrow> CmGetSecret E)"

text \<open>
  The client secret of a project: the stored one, or a new one that is stored first. Every failure ends the pass, to be tried again
  in a minute.
\<close>

definition regenerate :: "'w cmenv \<Rightarrow> KSecret \<Rightarrow> string \<Rightarrow> ('w, ctrlResult + string) state" where
  "regenerate E existing projectID =
     try_with (GenerateClientSecret E) (\<lambda>e. Inl (requeue (minutes 1))) (\<lambda>clientSecret.
     check_with (CmUpdateSecret E (existing\<lparr>ks_data := [(''clientSecret'', clientSecret), (''project'', projectID)]\<rparr>))
       (\<lambda>e. Inl (requeue (minutes 1)))
       (State_Monad.return (Inr clientSecret)))"

definition new_local_secret :: "'w cmenv \<Rightarrow> string \<Rightarrow> string \<Rightarrow> string \<Rightarrow> ('w, ctrlResult + string) state" where
  "new_local_secret E secretName projectNamespace projectID =
     try_with (GenerateClientSecret E) (\<lambda>e. Inl (requeue (minutes 1))) (\<lambda>clientSecret.
     check_with (CmCreateSecret E (NewLocalSecret secretName projectNamespace clientSecret projectID))
       (\<lambda>e. Inl (requeue (minutes 1)))
       (State_Monad.return (Inr clientSecret)))"

definition local_secret :: "'w cmenv \<Rightarrow> string \<Rightarrow> string \<Rightarrow> string \<Rightarrow> ('w, ctrlResult + string) state" where
  "local_secret E secretName projectNamespace projectID = do {
     r \<leftarrow> local_reader E projectNamespace secretName;
     case r of
       Inr existing \<Rightarrow>
         (let clientSecret = getz [] (ks_data existing) ''clientSecret'' in
          if clientSecret = [] then regenerate E existing projectID else State_Monad.return (Inr clientSecret))
     | Inl e \<Rightarrow> new_local_secret E secretName projectNamespace projectID
   }"

section \<open>The downstream cluster\<close>

definition ensure_target :: "'w dsclient \<Rightarrow> string \<Rightarrow> ('w, kerr option) state" where
  "ensure_target D ns = do {
     r \<leftarrow> DsGetNs D ns;
     case r of
       Inr x \<Rightarrow> State_Monad.return None
     | Inl e \<Rightarrow> if IsNotFound e then DsCreateNs D ns else State_Monad.return (Some e)
   }"

text \<open>The CA bundle is read afresh on every pass; the snapshot of the start-up counts only when that fails.\<close>

definition fresh_ca :: "'w cmenv \<Rightarrow> string \<Rightarrow> string option \<Rightarrow> ('w, string option) state" where
  "fresh_ca E appNamespace caCrt =
     (case CmReadSecret E of
        None \<Rightarrow> State_Monad.return caCrt
      | Some rd \<Rightarrow>
          if appNamespace = [] then State_Monad.return caCrt
          else do {
            r \<leftarrow> rd appNamespace ''cacerts'';
            State_Monad.return (case r of
               Inr s \<Rightarrow> map_of (ks_data s) ''ca.crt''
             | Inl e \<Rightarrow> if IsNotFound e then None else caCrt)
          })"

text \<open>A Secret in the downstream cluster is made, or brought up to date.\<close>

definition sync_secret :: "'w dsclient \<Rightarrow> KSecret \<Rightarrow> ('w, kerr option) state" where
  "sync_secret D want = do {
     r \<leftarrow> DsGetSecret D (ks_ns want) (ks_name want);
     case r of
       Inl e \<Rightarrow> if IsNotFound e then DsCreateSecret D want else State_Monad.return (Some e)
     | Inr have \<Rightarrow>
         if same_data (ks_data have) (ks_data want) then State_Monad.return None
         else DsUpdateSecret D (have\<lparr>ks_data := ks_data want\<rparr>)
   }"

definition sync_ca :: "'w cmenv \<Rightarrow> 'w dsclient \<Rightarrow> cmConfig \<Rightarrow> string \<Rightarrow> ('w, kerr option) state" where
  "sync_ca E D cfg targetNamespace = do {
     ca \<leftarrow> fresh_ca E (cg_appNamespace cfg) (cg_caCrt cfg);
     case ca of
       None \<Rightarrow> State_Monad.return None
     | Some crt \<Rightarrow> sync_secret D \<lparr>ks_ns = targetNamespace, ks_name = ''cacerts'', ks_data = [(''ca.crt'', crt)]\<rparr>
   }"

definition HandleConfigSecrets ::
  "'w cmenv \<Rightarrow> 'w dsclient option \<Rightarrow> cmConfig \<Rightarrow> Project \<Rightarrow> string \<Rightarrow> string \<Rightarrow> string \<Rightarrow> string \<Rightarrow> ('w, ctrlResult) state" where
  "HandleConfigSecrets E downstream cfg project projectNamespace targetNetwork cluster lbType =
     (let projectID = pj_name project; secretName = configSecretPrefix @ projectID; targetNamespace = cg_lbNamespace cfg in
      try_with (local_secret E secretName projectNamespace projectID) (\<lambda>r. r) (\<lambda>clientSecret.
        case downstream of
          None \<Rightarrow> State_Monad.return finished
        | Some D \<Rightarrow>
            check_with (ensure_target D targetNamespace) (\<lambda>e. requeue (minutes 1))
           (check_with (sync_ca E D cfg targetNamespace) (\<lambda>e. requeue (minutes 1))
           (check_with (sync_secret D (NewDownstreamSecret secretName targetNamespace (cg_apiURL cfg) clientSecret cluster projectID
                          targetNetwork lbType))
              (\<lambda>e. requeue (minutes 1))
              (State_Monad.return finished)))))"

section \<open>Namespaces\<close>

definition EnsureNamespace :: "'w dsclient \<Rightarrow> string \<Rightarrow> ('w, kerr option) state" where
  "EnsureNamespace D ns =
     (if ns = [] then State_Monad.return (Some (Errorf ''namespace name is not set in the configuration''))
      else ensure_target D ns)"

definition restart_controller :: "'w cmenv \<Rightarrow> 'w dsclient \<Rightarrow> string \<Rightarrow> ('w, kerr option) state" where
  "restart_controller E D ns = do {
     r \<leftarrow> DsGetDeployment D ns ''rancher-fip-lb-controller'';
     case r of
       Inl e \<Rightarrow> State_Monad.return (IgnoreNotFound e)
     | Inr anns \<Rightarrow> do {
         now \<leftarrow> CmNow E;
         DsUpdateDeployment D ns ''rancher-fip-lb-controller''
           (Some (AList.update ''rancher.k8s.binbash.org/lb-controller-restarted-at'' (CmFormatTime E now) (mof anns)))
       }
   }"

definition LabelNamespaceWithProjectID :: "'w cmenv \<Rightarrow> 'w dsclient \<Rightarrow> string \<Rightarrow> string \<Rightarrow> ('w, kerr option) state" where
  "LabelNamespaceWithProjectID E D ns projectID =
     try_with (DsGetNs D ns) Some (\<lambda>(ls, anns).
       if map_of (mof ls) projectNameLabel = Some projectID then State_Monad.return None
       else check_with (DsUpdateNs D ns (Some (AList.update projectNameLabel projectID (mof ls)))) Some
              (restart_controller E D ns))"

section \<open>Networks\<close>

text \<open>The network interface of each pool that serves the cluster; a later pool of the same name wins.\<close>

fun interface_mappings :: "string \<Rightarrow> PoolTarget list \<Rightarrow> (string, string) gomap \<Rightarrow> (string, string) gomap" where
  "interface_mappings cluster [] m = m"
| "interface_mappings cluster (p # ps) m =
     interface_mappings cluster ps (if pt_cluster p = cluster then AList.update (pt_name p) (pt_interface p) m else m)"

definition configMapName :: string where
  "configMapName = ''network-interface-mappings''"

definition HandleNetworkConfigMap :: "'w cmenv \<Rightarrow> 'w dsclient \<Rightarrow> string \<Rightarrow> string \<Rightarrow> ('w, kerr option) state" where
  "HandleNetworkConfigMap E D targetCluster ns =
     try_with (CmListPools E) Some (\<lambda>pools.
       let data = interface_mappings targetCluster pools [] in
       if data = [] then State_Monad.return None
       else check_with (ensure_target D ns) Some (do {
         r \<leftarrow> DsGetConfigMap D ns configMapName;
         case r of
           Inl e \<Rightarrow> if IsNotFound e then DsCreateConfigMap D ns configMapName data else State_Monad.return (Some e)
         | Inr have \<Rightarrow>
             if same_data have data then State_Monad.return None else DsUpdateConfigMap D ns configMapName data
       }))"

end
