(* ===== verification/Cm_Quota.thy ===== *)
theory Cm_Quota
  imports Cm_Secrets
begin

text \<open>
  The reconciler of FloatingIPProjectQuotas in the cluster manager,
  \<open>clustermanager/pkg/controllers/floatingipprojectquota_controller.go\<close>: a project with a quota gets its credentials in the
  cluster it runs in; when the quota goes, they are removed under the protection of a finalizer; a periodic sweep removes
  credentials that were left behind.
\<close>

section \<open>Constants\<close>

definition quotaCleanupFinalizer :: string where
  "quotaCleanupFinalizer = ''rancher.k8s.binbash.org/clustermanager-secret-cleanup''"

definition deletionGraceWindow :: int where
  "deletionGraceWindow = 10 * 60 * 1000000000"

text \<open>\<open>controllerutil.AddFinalizer\<close> appends, \<open>RemoveFinalizer\<close> drops every occurrence.\<close>

definition containsFinalizer :: "QuotaMeta \<Rightarrow> bool" where
  "containsFinalizer q \<longleftrightarrow> quotaCleanupFinalizer \<in> set (qm_finalizers q)"

definition addFinalizer :: "QuotaMeta \<Rightarrow> QuotaMeta" where
  "addFinalizer q = q\<lparr>qm_finalizers := qm_finalizers q @ [quotaCleanupFinalizer]\<rparr>"

definition dropFinalizer :: "QuotaMeta \<Rightarrow> QuotaMeta" where
  "dropFinalizer q = q\<lparr>qm_finalizers := removeAll quotaCleanupFinalizer (qm_finalizers q)\<rparr>"

section \<open>Clients of downstream clusters\<close>

definition kubeconfig_name :: "string \<Rightarrow> string" where
  "kubeconfig_name n = n @ ''-kubeconfig''"

definition find_kubeconfig :: "Cluster \<Rightarrow> KSecret list \<Rightarrow> KSecret option" where
  "find_kubeconfig cluster secrets =
     find (\<lambda>s. ks_name s = kubeconfig_name (cu_name cluster) \<or> ks_name s = kubeconfig_name (cu_displayName cluster)) secrets"

definition getDownstreamClient :: "'w cmenv \<Rightarrow> Cluster \<Rightarrow> ('w, kerr + 'w dsclient) state" where
  "getDownstreamClient E cluster =
     try_with (CmListSecrets E (Some ''fleet-default''))
       (\<lambda>e. Inl (Wrap ''unable to list secrets in fleet-default namespace'' e)) (\<lambda>secrets.
     case find_kubeconfig cluster secrets of
       None \<Rightarrow> State_Monad.return (Inl NotFound)
     | Some s \<Rightarrow>
         (case map_of (ks_data s) ''value'' of
            None \<Rightarrow> State_Monad.return (Inl (Errorf (''kubeconfig secret '' @ ks_name s @ '' does not contain 'value' key'')))
          | Some kubeconfig \<Rightarrow>
              (case CmRestConfig E kubeconfig of
                 Inl e \<Rightarrow> State_Monad.return (Inl (Wrap ''unable to create REST config from kubeconfig'' e))
               | Inr config \<Rightarrow> CmNewClient E config)))"

section \<open>Creation and update\<close>

definition ensure_attempt :: "'w cmenv \<Rightarrow> string \<Rightarrow> ('w, kerr option) state" where
  "ensure_attempt E name =
     try_with (CmGetQuota E name) Some (\<lambda>fresh.
       if containsFinalizer fresh then State_Monad.return None else CmPatchQuota E (addFinalizer fresh))"

text \<open>The network of the first pool of the cluster that is marked as the default.\<close>

definition default_network :: "Cluster \<Rightarrow> PoolTarget list \<Rightarrow> string" where
  "default_network cluster pools =
     (case find (\<lambda>p. (pt_cluster p = cu_name cluster \<or> pt_cluster p = cu_displayName cluster) \<and>
                    map_of (mof (pt_annotations p)) ''rancher-fip-default-network'' = Some ''true'') pools of
        None \<Rightarrow> []
      | Some p \<Rightarrow> cu_displayName cluster @ ''--'' @ pt_network p)"

definition load_balancer_type :: "Cluster \<Rightarrow> string" where
  "load_balancer_type cluster = (if label (cu_labels cluster) ''rancher-fip-lbtype'' = ''metallb'' then ''metallb'' else ''purelb'')"

definition provision_project :: "'w cmenv \<Rightarrow> cmConfig \<Rightarrow> Project \<Rightarrow> Cluster \<Rightarrow> ('w, ctrlResult) state" where
  "provision_project E cfg project cluster =
     (let lbType = load_balancer_type cluster in
      if label (cu_labels cluster) ''provider.cattle.io'' = ''harvester'' then
        HandleConfigSecrets E None cfg project (pj_ns project) ''harvester'' (cu_name cluster) lbType
      else if label (cu_labels cluster) ''rancher-fip'' \<noteq> ''enabled'' then State_Monad.return finished
      else try_with (getDownstreamClient E cluster)
             (\<lambda>e. if IsNotFound e then failed e else requeue (minutes 1)) (\<lambda>D.
           try_with (CmListPools E) failed (\<lambda>pools.
             let targetNetwork = default_network cluster pools in
             if targetNetwork = [] then State_Monad.return (failed (Errorf ''rancher-fip-default-network annotation not found''))
             else check_with (HandleNetworkConfigMap E D (cu_displayName cluster) (cg_lbNamespace cfg)) (\<lambda>e. (minutes 1, Some e))
                    (HandleConfigSecrets E (Some D) cfg project (pj_ns project) targetNetwork (cu_name cluster) lbType))))"

section \<open>Deletion\<close>

definition findLocalConfigSecretNamespace :: "'w cmenv \<Rightarrow> string \<Rightarrow> ('w, kerr + string) state" where
  "findLocalConfigSecretNamespace E projectID =
     try_with (CmListSecrets E None) (\<lambda>e. Inl (Wrap ''unable to list secrets in the local cluster'' e)) (\<lambda>secrets.
       State_Monad.return (Inr
         (case find (\<lambda>s. ks_name s = configSecretPrefix @ projectID) secrets of None \<Rightarrow> [] | Some s \<Rightarrow> ks_ns s)))"

definition skips_downstream :: "Cluster \<Rightarrow> bool" where
  "skips_downstream cluster \<longleftrightarrow> cu_name cluster = ''local'' \<or> label (cu_labels cluster) ''provider.cattle.io'' = ''harvester'' \<or>
     label (cu_labels cluster) ''rancher-fip'' \<noteq> ''enabled''"

definition unless_expired :: "bool \<Rightarrow> kerr \<Rightarrow> kerr option" where
  "unless_expired graceExpired e = (if graceExpired then None else Some e)"

definition deleteDownstreamConfigSecret :: "'w cmenv \<Rightarrow> cmConfig \<Rightarrow> Cluster \<Rightarrow> string \<Rightarrow> bool \<Rightarrow> ('w, kerr option) state" where
  "deleteDownstreamConfigSecret E cfg cluster projectID graceExpired =
     (if skips_downstream cluster then State_Monad.return None
      else if cg_lbNamespace cfg = [] then State_Monad.return None
      else try_with (getDownstreamClient E cluster) (\<lambda>e. if IsNotFound e then None else unless_expired graceExpired e) (\<lambda>D. do {
        r \<leftarrow> DsDeleteSecret D (cg_lbNamespace cfg) (configSecretPrefix @ projectID);
        State_Monad.return (case r of
           None \<Rightarrow> None
         | Some e \<Rightarrow> if IsNotFound e then None else unless_expired graceExpired e)
      }))"

text \<open>A Secret that cannot be deleted is logged and left.\<close>

fun delete_all :: "'w cmenv \<Rightarrow> (KSecret \<Rightarrow> bool) \<Rightarrow> KSecret list \<Rightarrow> ('w, nat) state" where
  "delete_all E doomed [] = State_Monad.return 0"
| "delete_all E doomed (s # ss) =
     (if \<not> doomed s then delete_all E doomed ss
      else do {
        r \<leftarrow> but_not_found (CmDeleteSecret E s);
        n \<leftarrow> delete_all E doomed ss;
        State_Monad.return (if r = None then Suc n else n)
      })"

definition deleteLocalConfigSecretsByName :: "'w cmenv \<Rightarrow> string \<Rightarrow> ('w, kerr option) state" where
  "deleteLocalConfigSecretsByName E projectID =
     try_with (CmListSecrets E None) (\<lambda>e. Some (Wrap ''unable to list secrets in the local cluster'' e)) (\<lambda>secrets. do {
       _ \<leftarrow> delete_all E (\<lambda>s. ks_name s = configSecretPrefix @ projectID) secrets;
       State_Monad.return None
     })"

definition release_attempt :: "'w cmenv \<Rightarrow> string \<Rightarrow> ('w, kerr option) state" where
  "release_attempt E name = do {
     r \<leftarrow> CmGetQuota E name;
     case r of
       Inl e \<Rightarrow> State_Monad.return (IgnoreNotFound e)
     | Inr fresh \<Rightarrow>
         if \<not> containsFinalizer fresh then State_Monad.return None
         else but_not_found (CmPatchQuota E (dropFinalizer fresh))
   }"

definition releaseCleanupFinalizer :: "'w cmenv \<Rightarrow> string \<Rightarrow> ('w, kerr option) state" where
  "releaseCleanupFinalizer E name = CmRetry E (release_attempt E name)"

text \<open>The part of the deletion that concerns the cluster named after the namespace of the Secret.\<close>

definition clean_downstream :: "'w cmenv \<Rightarrow> cmConfig \<Rightarrow> string \<Rightarrow> string \<Rightarrow> bool \<Rightarrow> ('w, kerr option) state" where
  "clean_downstream E cfg secretNamespace projectID graceExpired =
     (if secretNamespace = [] then State_Monad.return None
      else do {
        r \<leftarrow> CmGetCluster E secretNamespace;
        case r of
          Inl e \<Rightarrow> State_Monad.return (if IsNotFound e then None else unless_expired graceExpired e)
        | Inr cluster \<Rightarrow> deleteDownstreamConfigSecret E cfg cluster projectID graceExpired
      })"

definition handleQuotaDeletion :: "'w cmenv \<Rightarrow> cmConfig \<Rightarrow> QuotaMeta \<Rightarrow> ('w, ctrlResult) state" where
  "handleQuotaDeletion E cfg q = do {
     now \<leftarrow> CmNow E;
     (let graceExpired = (case qm_deletion q of None \<Rightarrow> False | Some t \<Rightarrow> deletionGraceWindow < now - t) in do {
        n \<leftarrow> findLocalConfigSecretNamespace E (qm_name q);
        case (case n of Inr ns \<Rightarrow> Inr ns | Inl e \<Rightarrow> if graceExpired then Inr [] else Inl e) of
          Inl e \<Rightarrow> State_Monad.return (failed e)
        | Inr secretNamespace \<Rightarrow>
            check_with (clean_downstream E cfg secretNamespace (qm_name q) graceExpired) failed (do {
              d \<leftarrow> deleteLocalConfigSecretsByName E (qm_name q);
              case (case d of None \<Rightarrow> None | Some e \<Rightarrow> unless_expired graceExpired e) of
                Some e \<Rightarrow> State_Monad.return (failed e)
              | None \<Rightarrow> check_with (releaseCleanupFinalizer E (qm_name q)) failed (State_Monad.return finished)
            })
      })
   }"

definition reconcileQuota :: "'w cmenv \<Rightarrow> cmConfig \<Rightarrow> string \<Rightarrow> ('w, ctrlResult) state" where
  "reconcileQuota E cfg name =
     try_with (CmGetQuota E name) (\<lambda>e. (0, IgnoreNotFound e)) (\<lambda>q.
       if qm_deletion q \<noteq> None then handleQuotaDeletion E cfg q
       else check_with (if containsFinalizer q then State_Monad.return None else CmRetry E (ensure_attempt E name)) failed
         (try_with (CmListProjects E) failed (\<lambda>projects.
            case find (\<lambda>p. pj_name p = qm_name q) projects of
              None \<Rightarrow> State_Monad.return finished
            | Some project \<Rightarrow>
                if pj_ns project = [] then State_Monad.return finished
                else try_with (CmGetCluster E (pj_clusterName project)) failed (provision_project E cfg project))))"

section \<open>The sweep\<close>

definition orphaned :: "string list \<Rightarrow> KSecret \<Rightarrow> bool" where
  "orphaned active s \<longleftrightarrow>
     (let projectID = TrimPrefix (ks_name s) configSecretPrefix in
      projectID \<noteq> ks_name s \<and> projectID \<noteq> [] \<and> projectID \<notin> set active)"

definition localConfigSecretNamespaces :: "'w cmenv \<Rightarrow> ('w, kerr + string list) state" where
  "localConfigSecretNamespaces E =
     try_with (CmListSecrets E None) (\<lambda>e. Inl (Wrap ''unable to list secrets in the local cluster'' e)) (\<lambda>secrets.
       State_Monad.return (Inr (remdups (map ks_ns
         (filter (\<lambda>s. prefix configSecretPrefix (ks_name s) \<and> ks_name s \<noteq> configSecretPrefix) secrets)))))"

definition deleteOrphanedLocalConfigSecrets :: "'w cmenv \<Rightarrow> string list \<Rightarrow> ('w, kerr + nat) state" where
  "deleteOrphanedLocalConfigSecrets E active =
     try_with (CmListSecrets E None) (\<lambda>e. Inl (Wrap ''unable to list secrets in the local cluster'' e)) (\<lambda>secrets. do {
       n \<leftarrow> delete_all E (orphaned active) secrets;
       State_Monad.return (Inr n)
     })"

fun sweep_secrets :: "'w dsclient \<Rightarrow> string list \<Rightarrow> KSecret list \<Rightarrow> ('w, nat) state" where
  "sweep_secrets D active [] = State_Monad.return 0"
| "sweep_secrets D active (s # ss) =
     (if \<not> orphaned active s then sweep_secrets D active ss
      else do {
        r \<leftarrow> but_not_found (DsDeleteSecret D (ks_ns s) (ks_name s));
        n \<leftarrow> sweep_secrets D active ss;
        State_Monad.return (if r = None then Suc n else n)
      })"

definition sweep_cluster :: "'w cmenv \<Rightarrow> cmConfig \<Rightarrow> string list \<Rightarrow> string \<Rightarrow> ('w, nat) state" where
  "sweep_cluster E cfg active ns =
     try_with (CmGetCluster E ns) (\<lambda>e. 0) (\<lambda>cluster.
       if skips_downstream cluster then State_Monad.return 0
       else if cg_lbNamespace cfg = [] then State_Monad.return 0
       else try_with (getDownstreamClient E cluster) (\<lambda>e. 0) (\<lambda>D.
            try_with (DsListSecrets D (cg_lbNamespace cfg)) (\<lambda>e. 0) (sweep_secrets D active)))"

fun sweep_clusters :: "'w cmenv \<Rightarrow> cmConfig \<Rightarrow> string list \<Rightarrow> string list \<Rightarrow> ('w, nat) state" where
  "sweep_clusters E cfg active [] = State_Monad.return 0"
| "sweep_clusters E cfg active (ns # nss) = do {
     n \<leftarrow> sweep_cluster E cfg active ns;
     m \<leftarrow> sweep_clusters E cfg active nss;
     State_Monad.return (n + m)
   }"

text \<open>The result is the number of Secrets that were deleted, which the source only logs.\<close>

definition sweepOrphanedConfigSecrets :: "'w cmenv \<Rightarrow> cmConfig \<Rightarrow> ('w, kerr + nat) state" where
  "sweepOrphanedConfigSecrets E cfg =
     try_with (CmListQuotas E) (\<lambda>e. Inl (Wrap ''unable to list FloatingIPProjectQuota objects'' e)) (\<lambda>active.
       if active = [] then State_Monad.return (Inr 0)
       else try_with (localConfigSecretNamespaces E) (\<lambda>e. Inl (Wrap ''unable to find local config secrets'' e)) (\<lambda>namespaces. do {
         l \<leftarrow> deleteOrphanedLocalConfigSecrets E active;
         n \<leftarrow> sweep_clusters E cfg active (CmVisit E namespaces);
         State_Monad.return (Inr ((case l of Inl e \<Rightarrow> 0 | Inr k \<Rightarrow> k) + n))
       }))"

text \<open>Which events reach the reconciler: creations, and updates that carry a deletion timestamp.\<close>

datatype cmEvent = CreateEvent | UpdateEvent "int option" | DeleteEvent | GenericEvent

fun quota_event :: "cmEvent \<Rightarrow> bool" where
  "quota_event CreateEvent = True"
| "quota_event (UpdateEvent deletion) = (deletion \<noteq> None)"
| "quota_event DeleteEvent = False"
| "quota_event GenericEvent = False"

end
