(* ===== verification/Cm_Helm.thy ===== *)
theory Cm_Helm
  imports Cm_Env
begin

text \<open>
  The Helm client of the cluster manager, \<open>clustermanager/internal/helm/helm.go\<close>: bringing a release to the desired chart from whatever
  state an earlier run left it in, the repair of release records, and the files of the chart repositories.

  Helm itself, its storage driver, the decoders and the operating system are fields of \<open>helmenv\<close>. A handle to a cluster
  (\<open>action.Configuration\<close>) is the pair of the cluster's REST configuration and the namespace.
\<close>

section \<open>Releases and charts\<close>

record ChartSpec =
  ChartName :: string
  ReleaseName :: string
  Spec_Namespace :: string
  Version :: string
  Chart_Values :: string
  RepoURL :: string

datatype relStatus =
    StatusUnknown | StatusDeployed | StatusUninstalled | StatusSuperseded | StatusFailed | StatusUninstalling
  | StatusPendingInstall | StatusPendingUpgrade | StatusPendingRollback

text \<open>A stored release may lack its info, and its chart or the chart's metadata.\<close>

record Release =
  rl_status :: "relStatus option"
  rl_version :: "string option"

datatype releaseAction = actionSkip | actionUpgrade | actionRepair

fun planReleaseAction :: "relStatus \<Rightarrow> string \<Rightarrow> string \<Rightarrow> releaseAction" where
  "planReleaseAction StatusDeployed installed desired = (if installed = desired then actionSkip else actionUpgrade)"
| "planReleaseAction StatusFailed installed desired = actionUpgrade"
| "planReleaseAction s installed desired = actionRepair"

definition releaseStatusOf :: "Release option \<Rightarrow> relStatus" where
  "releaseStatusOf rel = (case rel of None \<Rightarrow> StatusUnknown
     | Some r \<Rightarrow> (case rl_status r of None \<Rightarrow> StatusUnknown | Some s \<Rightarrow> s))"

definition releaseChartVersion :: "Release option \<Rightarrow> string" where
  "releaseChartVersion rel = (case rel of None \<Rightarrow> []
     | Some r \<Rightarrow> (case rl_version r of None \<Rightarrow> [] | Some v \<Rightarrow> v))"

section \<open>Environment\<close>

type_synonym handle = "string \<times> string"

record 'w helmenv =
  HmInit :: "string \<Rightarrow> string \<Rightarrow> ('w, kerr option) state"
  HmDownload :: "string \<Rightarrow> string \<Rightarrow> ('w, kerr + string) state"
  HmRegistry :: "('w, kerr option) state"
  HmLocate :: "handle \<Rightarrow> string \<Rightarrow> string \<Rightarrow> string \<Rightarrow> ('w, kerr + string) state"
  HmLoad :: "string \<Rightarrow> ('w, kerr + string) state"
  HmYaml :: "string \<Rightarrow> kerr option"
  HmHistory :: "handle \<Rightarrow> string \<Rightarrow> ('w, kerr option) state"
  HmGet :: "handle \<Rightarrow> string \<Rightarrow> ('w, kerr + Release option) state"
  HmInstall :: "handle \<Rightarrow> ChartSpec \<Rightarrow> string \<Rightarrow> ('w, kerr option) state"
  HmUpgrade :: "handle \<Rightarrow> ChartSpec \<Rightarrow> string \<Rightarrow> ('w, kerr option) state"
  HmUninstall :: "handle \<Rightarrow> string \<Rightarrow> ('w, kerr option) state"
  HmKube :: "string \<Rightarrow> kerr option"
  HmListRecords :: "handle \<Rightarrow> string \<Rightarrow> ('w, kerr + (string \<times> string) list) state"
  HmDeleteRecord :: "handle \<Rightarrow> string \<Rightarrow> ('w, kerr option) state"
  HmBase64 :: "string \<Rightarrow> kerr + nat list"
  HmGunzip :: "nat list \<Rightarrow> kerr + nat list"
  HmJson :: "nat list \<Rightarrow> kerr option"

text \<open>
  \<open>HmLoad\<close> yields the version in the chart's metadata, \<open>HmListRecords\<close> the storage records of a release by label with
  their data, \<open>HmInstall\<close> and \<open>HmUpgrade\<close> take the spec and the version of the loaded chart.
\<close>

definition ErrReleaseNotFound :: kerr where
  "ErrReleaseNotFound = Errorf ''release: not found''"

text \<open>\<open>errors.Is\<close> looks through wrapped errors.\<close>

fun is_release_not_found :: "kerr \<Rightarrow> bool" where
  "is_release_not_found (Wrap m e) = is_release_not_found e"
| "is_release_not_found e = (e = ErrReleaseNotFound)"

section \<open>Loading a chart\<close>

definition IsOCI :: "string \<Rightarrow> bool" where
  "IsOCI s = prefix ''oci://'' s"

definition locateChart :: "'w helmenv \<Rightarrow> ChartSpec \<Rightarrow> ('w, kerr + string) state" where
  "locateChart H spec = try_with (HmDownload H (ChartName spec) (Version spec)) Inl (HmLoad H)"

definition defaultLoadChart :: "'w helmenv \<Rightarrow> handle \<Rightarrow> ChartSpec \<Rightarrow> ('w, kerr + string) state" where
  "defaultLoadChart H cfg spec =
     (if \<not> IsOCI (ChartName spec) then locateChart H spec
      else check_with (HmRegistry H) Inl
          (try_with (HmLocate H cfg (ChartName spec) (Version spec) (RepoURL spec))
             (\<lambda>e. Inl (Wrap (''failed to locate chart '' @ ChartName spec) e)) (\<lambda>path.
           try_with (HmLoad H path) (\<lambda>e. Inl (Wrap (''failed to load chart from path '' @ path) e)) (\<lambda>chrt.
             State_Monad.return (Inr chrt)))))"

section \<open>Storage records\<close>

definition magicGzip :: "nat list" where
  "magicGzip = [31, 139, 8]"

definition decodeReleaseRecord :: "'w helmenv \<Rightarrow> string \<Rightarrow> kerr option" where
  "decodeReleaseRecord H data =
     (case HmBase64 H data of
        Inl e \<Rightarrow> Some e
      | Inr b \<Rightarrow>
          if 3 < length b \<and> take 3 b = magicGzip then
            (case HmGunzip H b of Inl e \<Rightarrow> Some e | Inr b' \<Rightarrow> HmJson H b')
          else HmJson H b)"

fun drop_release_records :: "'w helmenv \<Rightarrow> handle \<Rightarrow> (string \<Rightarrow> bool) \<Rightarrow> string \<Rightarrow> (string \<times> string) list \<Rightarrow> ('w, kerr option) state" where
  "drop_release_records H cfg broken msg [] = State_Monad.return None"
| "drop_release_records H cfg broken msg ((name, data) # records) =
     (if \<not> broken data then drop_release_records H cfg broken msg records
      else check_with (but_not_found (HmDeleteRecord H cfg name)) (\<lambda>e. Some (Wrap (msg @ name) e))
             (drop_release_records H cfg broken msg records))"

definition purgeUndecodableRecords :: "'w helmenv \<Rightarrow> handle \<Rightarrow> string \<Rightarrow> ('w, kerr option) state" where
  "purgeUndecodableRecords H cfg rel =
     (case HmKube H (fst cfg) of
        Some e \<Rightarrow> State_Monad.return (Some (Wrap (''failed to build kube client to sanitize release '' @ rel) e))
      | None \<Rightarrow>
          try_with (HmListRecords H cfg rel) (\<lambda>e. Some (Wrap (''failed to list storage records of release '' @ rel) e))
            (drop_release_records H cfg (\<lambda>d. decodeReleaseRecord H d \<noteq> None) ''failed to delete undecodable storage record ''))"

definition purgeReleaseRecords :: "'w helmenv \<Rightarrow> handle \<Rightarrow> string \<Rightarrow> ('w, kerr option) state" where
  "purgeReleaseRecords H cfg rel =
     (case HmKube H (fst cfg) of
        Some e \<Rightarrow> State_Monad.return (Some (Wrap (''failed to build kube client to purge release '' @ rel) e))
      | None \<Rightarrow>
          try_with (HmListRecords H cfg rel) (\<lambda>e. Some (Wrap (''failed to list storage records of release '' @ rel) e))
            (drop_release_records H cfg (\<lambda>d. True) ''failed to delete storage record ''))"

section \<open>Install, upgrade, repair\<close>

definition installRelease :: "'w helmenv \<Rightarrow> handle \<Rightarrow> ChartSpec \<Rightarrow> string \<Rightarrow> ('w, kerr option) state" where
  "installRelease H cfg spec chrt =
     check_with (HmInstall H cfg spec chrt) (\<lambda>e. Some (Wrap (''failed to install release '' @ ReleaseName spec) e))
       (State_Monad.return None)"

definition upgradeRelease :: "'w helmenv \<Rightarrow> handle \<Rightarrow> ChartSpec \<Rightarrow> string \<Rightarrow> ('w, kerr option) state" where
  "upgradeRelease H cfg spec chrt =
     check_with (HmUpgrade H cfg spec chrt) (\<lambda>e. Some (Wrap (''failed to upgrade release '' @ ReleaseName spec) e))
       (State_Monad.return None)"

definition repairRelease :: "'w helmenv \<Rightarrow> handle \<Rightarrow> ChartSpec \<Rightarrow> string \<Rightarrow> ('w, kerr option) state" where
  "repairRelease H cfg spec chrt =
     check_with (HmUninstall H cfg (ReleaseName spec))
       (\<lambda>e. Some (Wrap (''failed to purge release '' @ ReleaseName spec @ '' during repair'') e))
       (installRelease H cfg spec chrt)"

definition converge :: "'w helmenv \<Rightarrow> handle \<Rightarrow> ChartSpec \<Rightarrow> string \<Rightarrow> Release option \<Rightarrow> ('w, kerr option) state" where
  "converge H cfg spec chrt existing =
     (let status = releaseStatusOf existing in
      case planReleaseAction status (releaseChartVersion existing) chrt of
        actionSkip \<Rightarrow> State_Monad.return None
      | actionUpgrade \<Rightarrow> do {
          r \<leftarrow> upgradeRelease H cfg spec chrt;
          case r of
            None \<Rightarrow> State_Monad.return None
          | Some err \<Rightarrow> if status \<noteq> StatusFailed then State_Monad.return (Some err) else repairRelease H cfg spec chrt
        }
      | actionRepair \<Rightarrow> repairRelease H cfg spec chrt)"

definition InstallOrUpgrade :: "'w helmenv \<Rightarrow> string \<Rightarrow> ChartSpec \<Rightarrow> ('w, kerr option) state" where
  "InstallOrUpgrade H config spec =
     (let rel = ReleaseName spec; cfg = (config, Spec_Namespace spec) in
      check_with (HmInit H config (Spec_Namespace spec)) (\<lambda>e. Some (Wrap (''failed to initialize action config for release '' @ rel) e))
     (try_with (defaultLoadChart H cfg spec) (\<lambda>e. Some (Wrap (''failed to load chart '' @ ChartName spec) e)) (\<lambda>chrt.
      case HmYaml H (Chart_Values spec) of
        Some e \<Rightarrow> State_Monad.return (Some (Wrap (''failed to parse values for release '' @ rel) e))
      | None \<Rightarrow>
          check_with (purgeUndecodableRecords H cfg rel) (\<lambda>e. Some (Wrap (''failed to sanitize storage records of release '' @ rel) e))
         (do {
            h \<leftarrow> HmHistory H cfg rel;
            case h of
              Some e \<Rightarrow>
                if is_release_not_found e then installRelease H cfg spec chrt
                else State_Monad.return (Some (Wrap (''failed to check history of release '' @ rel) e))
            | None \<Rightarrow> do {
                g \<leftarrow> HmGet H cfg rel;
                case g of
                  Inl e \<Rightarrow>
                    check_with (purgeReleaseRecords H cfg rel) (\<lambda>e. Some (Wrap (''failed to purge unreadable release '' @ rel) e))
                      (installRelease H cfg spec chrt)
                | Inr existing \<Rightarrow> converge H cfg spec chrt existing
              }
          }))))"

definition CheckIfChartIsInstalled :: "'w helmenv \<Rightarrow> string \<Rightarrow> string \<Rightarrow> string \<Rightarrow> ('w, kerr + bool) state" where
  "CheckIfChartIsInstalled H config rel ns =
     (if rel = [] then State_Monad.return (Inl (Errorf ''release name cannot be empty''))
      else if ns = [] then State_Monad.return (Inl (Errorf ''namespace cannot be empty''))
      else check_with (HmInit H config ns)
             (\<lambda>e. Inl (Wrap (''failed to initialize action config for checking release '' @ rel @ '' in namespace '' @ ns) e))
          (do {
             h \<leftarrow> HmHistory H (config, ns) rel;
             State_Monad.return (case h of
                None \<Rightarrow> Inr True
              | Some e \<Rightarrow> if e = ErrReleaseNotFound then Inr False
                          else Inl (Wrap (''failed to check if release '' @ rel @ '' is installed in namespace '' @ ns) e))
           }))"

end
