(* ===== verification/Cm_Provision.thy ===== *)
theory Cm_Provision
  imports Cm_Quota Cm_Helm
begin

text \<open>
  The reconciler of clusters, \<open>clustermanager/pkg/controllers/clusterprovisioning_controller.go\<close>: it installs the load
  balancer controller and a load balancer in a downstream cluster and hands it the credentials of the project its
  machines run in; when a cluster is gone it gives back the FloatingIPs the cluster had claimed.
\<close>

section \<open>Which events count\<close>

definition provisioningTriggerChanged :: "labels option \<Rightarrow> labels option \<Rightarrow> bool" where
  "provisioningTriggerChanged old new =
     (case (old, new) of
        (Some o', Some n) \<Rightarrow>
          if label o' ''rancher-fip'' \<noteq> label n ''rancher-fip'' then True
          else if label o' ''rancher-fip-lbtype'' \<noteq> label n ''rancher-fip-lbtype'' then True
          else False
      | _ \<Rightarrow> True)"

text \<open>An object of an event is its labels, or missing.\<close>

datatype provEvent = PCreate | PUpdate "labels option" "labels option" | PDelete | PGeneric

fun clusterProvisioningPredicate :: "provEvent \<Rightarrow> bool" where
  "clusterProvisioningPredicate PCreate = True"
| "clusterProvisioningPredicate (PUpdate old new) = provisioningTriggerChanged old new"
| "clusterProvisioningPredicate PDelete = True"
| "clusterProvisioningPredicate PGeneric = False"

section \<open>The end of a cluster\<close>

definition fipServiceLabelPrefix :: string where
  "fipServiceLabelPrefix = ''rancher.k8s.binbash.org/service-''"

definition claim_label :: "string \<Rightarrow> bool" where
  "claim_label key \<longleftrightarrow> prefix fipServiceLabelPrefix key \<and> (suffix ''-name'' key \<or> suffix ''-namespace'' key)"

definition releaseClaimLabels :: "(string, string) gomap \<Rightarrow> (string, string) gomap" where
  "releaseClaimLabels ls =
     filter (\<lambda>(key, v). \<not> claim_label key) (AList.delete floatingipGroupLabel (AList.delete clusterNameLabel ls))"

fun release_fips :: "'w cmenv \<Rightarrow> string \<Rightarrow> FloatingIP list \<Rightarrow> ('w, kerr option) state" where
  "release_fips E clusterName [] = State_Monad.return None"
| "release_fips E clusterName (fip # fips) =
     (if label (f_labels fip) clusterNameLabel \<noteq> clusterName then release_fips E clusterName fips
      else check_with (CmUpdateFip E (fip\<lparr>f_labels := map_option releaseClaimLabels (f_labels fip)\<rparr>)) Some
             (release_fips E clusterName fips))"

definition releaseFloatingIPs :: "'w cmenv \<Rightarrow> string \<Rightarrow> ('w, kerr option) state" where
  "releaseFloatingIPs E clusterName = try_with (CmListFips E) Some (release_fips E clusterName)"

section \<open>Charts\<close>

record 'w helmIf =
  HiInstall :: "string \<Rightarrow> ChartSpec \<Rightarrow> ('w, kerr option) state"
  HiRepo :: "string \<Rightarrow> string \<Rightarrow> ('w, kerr option) state"
  HiCheck :: "string \<Rightarrow> string \<Rightarrow> string \<Rightarrow> ('w, kerr + bool) state"

definition is_http :: "string \<Rightarrow> bool" where
  "is_http ref \<longleftrightarrow> prefix ''https://'' ref \<or> prefix ''http://'' ref"

definition createChartSpec :: "string \<Rightarrow> string \<Rightarrow> string \<Rightarrow> string \<Rightarrow> string \<Rightarrow> ChartSpec" where
  "createChartSpec name ref version ns vals =
     (let spec = \<lparr>ChartName = name, ReleaseName = name, Spec_Namespace = ns, Version = version, Chart_Values = vals, RepoURL = []\<rparr> in
      if prefix ''oci://'' ref then spec\<lparr>ChartName := ref\<rparr>
      else if is_http ref then spec\<lparr>RepoURL := ref, ChartName := name @ ''/'' @ name\<rparr>
      else spec)"

definition install_chart :: "'w helmIf \<Rightarrow> string \<Rightarrow> chartConf \<Rightarrow> ('w, kerr option) state" where
  "install_chart H config c =
     check_with (if is_http (ch_ref c) then HiRepo H (ch_name c) (ch_ref c) else State_Monad.return None) Some
       (HiInstall H config (createChartSpec (ch_name c) (ch_ref c) (ch_version c) (ch_namespace c) (ch_values c)))"

text \<open>The load balancer itself: never beside the other kind.\<close>

definition provisioningReconcileInterval :: nat where
  "provisioningReconcileInterval = minutes 30"

definition later :: "kerr \<Rightarrow> ctrlResult" where
  "later e = (minutes 1, Some e)"

definition install_balancer ::
  "'w helmIf \<Rightarrow> 'w dsclient \<Rightarrow> cmConfig \<Rightarrow> string \<Rightarrow> string \<Rightarrow> ('w, ctrlResult + unit) state" where
  "install_balancer H D cfg config lbType =
     (let own = (if lbType = ''metallb'' then cg_metalLB cfg else cg_pureLB cfg);
          other = (if lbType = ''metallb'' then cg_pureLB cfg else cg_metalLB cfg) in
      try_with (HiCheck H config (ch_name other) (ch_namespace other)) (\<lambda>e. Inl (later e)) (\<lambda>installed.
        if installed then State_Monad.return (Inl (requeue provisioningReconcileInterval))
        else check_with (EnsureNamespace D (ch_namespace own)) (\<lambda>e. Inl (later e))
            (check_with (install_chart H config own) (\<lambda>e. Inl (later e))
               (State_Monad.return (Inr ())))))"

section \<open>The project of the machines\<close>

definition harvesterNetworkName :: "'w cmenv \<Rightarrow> HarvesterConfig \<Rightarrow> kerr + string" where
  "harvesterNetworkName E hc =
     (if hc_networkInfo hc \<noteq> [] then
        (case CmNetworkInfo E (hc_networkInfo hc) of
           Inl e \<Rightarrow> Inl (Wrap (''unable to unmarshal networkInfo of HarvesterConfig '' @ hc_name hc) e)
         | Inr names \<Rightarrow>
             if names = [] \<or> hd names = [] then Inl (Errorf (''networkName not found in networkInfo of HarvesterConfig '' @ hc_name hc))
             else Inr (hd names))
      else Inr (hc_networkName hc))"

definition harvester_config_name :: "ProvCluster \<Rightarrow> string" where
  "harvester_config_name pc =
     (case find (\<lambda>p. mp_controlPlane p \<and> map_option fst (mp_nodeConfig p) = Some ''HarvesterConfig'') (pv_machinePools pc) of
        Some p \<Rightarrow> (case mp_nodeConfig p of Some (kind, name) \<Rightarrow> name | None \<Rightarrow> [])
      | None \<Rightarrow> [])"

text \<open>The network of the machines: the name of its second part, or how the pass ends.\<close>

definition machine_network :: "'w cmenv \<Rightarrow> HarvesterConfig \<Rightarrow> ctrlResult + string" where
  "machine_network E hc =
     (case harvesterNetworkName E hc of
        Inl e \<Rightarrow> Inl (failed e)
      | Inr networkName \<Rightarrow>
          if networkName = [] then Inl (requeue provisioningReconcileInterval)
          else (case split_on (CHR ''/'') networkName of
              [ns, name] \<Rightarrow> Inr name
            | _ \<Rightarrow> Inl (failed (Errorf (''invalid networkName format: '' @ networkName)))))"

definition harvester_cluster :: "'w cmenv \<Rightarrow> ProvCluster \<Rightarrow> ('w, ctrlResult + string \<times> Cluster) state" where
  "harvester_cluster E pc =
     (case split_on (CHR '':'') (pv_credential pc) of
        ns # name # rest \<Rightarrow>
          try_with (CmGetSecret E ns name) (\<lambda>e. Inl (failed e)) (\<lambda>secret.
            case map_of (ks_data secret) ''harvestercredentialConfig-clusterId'' of
              None \<Rightarrow> State_Monad.return (Inl (failed (Errorf (''harvestercredentialConfig-clusterId not found in secret '' @ ns @ ''/'' @ name))))
            | Some clusterId \<Rightarrow>
                try_with (CmGetCluster E clusterId) (\<lambda>e. Inl (failed e)) (\<lambda>cluster.
                  State_Monad.return (Inr (clusterId, cluster))))
      | _ \<Rightarrow> State_Monad.return (Inl (failed
               (Errorf ''error cloudCredentialSecretName format is not correct, expected format <namespace>:<secret>''))))"

definition machine_project :: "'w cmenv \<Rightarrow> string \<Rightarrow> string \<Rightarrow> ('w, ctrlResult + string) state" where
  "machine_project E clusterId vmNamespace =
     try_with (CmGetSecret E ''fleet-default'' (kubeconfig_name clusterId)) (\<lambda>e. Inl (failed e)) (\<lambda>secret.
     case CmRestConfig E (getz [] (ks_data secret) ''value'') of
       Inl e \<Rightarrow> State_Monad.return (Inl (failed e))
     | Inr config \<Rightarrow>
         try_with (CmNewClient E config) (\<lambda>e. Inl (failed e)) (\<lambda>HC.
         try_with (DsGetNs HC vmNamespace) (\<lambda>e. Inl (failed e)) (\<lambda>(ls, anns).
           State_Monad.return (case map_of (mof anns) ''field.cattle.io/projectId'' of
              None \<Rightarrow> Inl (requeue provisioningReconcileInterval)
            | Some projectID \<Rightarrow> Inr (case split_on (CHR '':'') projectID of [c, p] \<Rightarrow> p | _ \<Rightarrow> projectID)))))"

section \<open>Credentials\<close>

text \<open>Once the project is known: only a project with a quota gets credentials.\<close>

definition hand_over ::
  "'w cmenv \<Rightarrow> 'w dsclient \<Rightarrow> cmConfig \<Rightarrow> Cluster \<Rightarrow> Cluster \<Rightarrow> string \<Rightarrow> string \<Rightarrow> string \<Rightarrow> ('w, ctrlResult) state" where
  "hand_over E D cfg cluster harvester targetNetwork lbType projectID =
     try_with (CmListProjects E) failed (\<lambda>projects.
     case find (\<lambda>p. pj_name p = projectID) projects of
       None \<Rightarrow> State_Monad.return (requeue provisioningReconcileInterval)
     | Some project \<Rightarrow>
         try_with (CmGetQuota E projectID) (\<lambda>e. if IsNotFound e then requeue (minutes 15) else failed e) (\<lambda>quota.
         check_with (LabelNamespaceWithProjectID E D (cg_lbNamespace cfg) projectID) later
        (check_with (HandleNetworkConfigMap E D (cu_displayName harvester) (cg_lbNamespace cfg)) later (do {
           r \<leftarrow> HandleConfigSecrets E (Some D) cfg project (pj_ns project) targetNetwork (cu_name cluster) lbType;
           State_Monad.return (case r of (n, Some e) \<Rightarrow> (n, Some e) | (n, None) \<Rightarrow> requeue provisioningReconcileInterval)
         }))))"

definition find_prov_cluster :: "Cluster \<Rightarrow> ProvCluster list \<Rightarrow> ProvCluster option" where
  "find_prov_cluster cluster pcs = find (\<lambda>pc. pv_name pc = cu_name cluster \<or> pv_name pc = cu_displayName cluster) pcs"

definition provision_credentials ::
  "'w cmenv \<Rightarrow> 'w dsclient \<Rightarrow> cmConfig \<Rightarrow> Cluster \<Rightarrow> string \<Rightarrow> ('w, ctrlResult) state" where
  "provision_credentials E D cfg cluster lbType =
     try_with (CmListProvClusters E) failed (\<lambda>pcs.
     case find_prov_cluster cluster pcs of
       None \<Rightarrow> State_Monad.return (later (Errorf (''unable to find matching provisioningv1 cluster for '' @ cu_name cluster)))
     | Some pc \<Rightarrow>
         if pv_credential pc = [] then State_Monad.return (requeue provisioningReconcileInterval)
         else if harvester_config_name pc = [] then State_Monad.return (requeue provisioningReconcileInterval)
         else try_with (CmGetHarvesterConfig E (harvester_config_name pc)) failed (\<lambda>hc.
           case machine_network E hc of
             Inl r \<Rightarrow> State_Monad.return r
           | Inr networkName \<Rightarrow>
               try_with (harvester_cluster E pc) (\<lambda>r. r) (\<lambda>(clusterId, harvester).
               try_with (machine_project E clusterId (hc_vmNamespace hc)) (\<lambda>r. r) (\<lambda>projectID.
                 hand_over E D cfg cluster harvester (cu_displayName harvester @ ''--'' @ networkName) lbType projectID))))"

section \<open>The reconciler\<close>

definition connect :: "'w cmenv \<Rightarrow> Cluster \<Rightarrow> ('w, ctrlResult + string \<times> 'w dsclient) state" where
  "connect E cluster =
     try_with (CmListSecrets E (Some ''fleet-default'')) (\<lambda>e. Inl (failed e)) (\<lambda>secrets.
     case find_kubeconfig cluster secrets of
       None \<Rightarrow> State_Monad.return (Inl (requeue (minutes 2)))
     | Some s \<Rightarrow>
         (case map_of (ks_data s) ''value'' of
            None \<Rightarrow> State_Monad.return (Inl (requeue (minutes 1)))
          | Some kubeconfig \<Rightarrow>
              (case CmRestConfig E kubeconfig of
                 Inl e \<Rightarrow> State_Monad.return (Inl (requeue (minutes 1)))
               | Inr config \<Rightarrow>
                   try_with (CmNewClient E config) (\<lambda>e. Inl (requeue (minutes 1))) (\<lambda>D.
                   check_with (DsListPods D ''kube-system'')
                     (\<lambda>e. Inl (if str_contains (CmErrText E e) ''Forbidden'' then requeue (minutes 2) else failed e))
                     (State_Monad.return (Inr (config, D)))))))"

definition provision :: "'w cmenv \<Rightarrow> 'w helmIf \<Rightarrow> cmConfig \<Rightarrow> Cluster \<Rightarrow> ('w, ctrlResult) state" where
  "provision E H cfg cluster =
     try_with (connect E cluster) (\<lambda>r. r) (\<lambda>(config, D).
     check_with (EnsureNamespace D (cg_lbNamespace cfg)) later
    (check_with (install_chart H config ((cg_lbChart cfg)\<lparr>ch_namespace := cg_lbNamespace cfg\<rparr>)) later
    (let lbType = load_balancer_type cluster in
     try_with (install_balancer H D cfg config lbType) (\<lambda>r. r) (\<lambda>u.
       provision_credentials E D cfg cluster lbType))))"

definition reconcileCluster :: "'w cmenv \<Rightarrow> 'w helmIf \<Rightarrow> cmConfig \<Rightarrow> string \<Rightarrow> ('w, ctrlResult) state" where
  "reconcileCluster E H cfg name = do {
     r \<leftarrow> CmGetCluster E name;
     case r of
       Inl e \<Rightarrow>
         if IsNotFound e then check_with (releaseFloatingIPs E name) failed (State_Monad.return finished)
         else State_Monad.return (failed e)
     | Inr cluster \<Rightarrow> if skips_downstream cluster then State_Monad.return finished else provision E H cfg cluster
   }"

text \<open>The Helm client of \<open>internal/helm\<close> behind the interface; the repository files are a call.\<close>

definition helm_client :: "'w helmenv \<Rightarrow> (string \<Rightarrow> string \<Rightarrow> ('w, kerr option) state) \<Rightarrow> 'w helmIf" where
  "helm_client HE addRepo = \<lparr>HiInstall = InstallOrUpgrade HE, HiRepo = addRepo, HiCheck = CheckIfChartIsInstalled HE\<rparr>"

end
