(* ===== verification/Cm_Trace.thy ===== *)
theory Cm_Trace
  imports Cm_Provision Trace_Logic
begin

text \<open>
  What the cluster manager does, seen from outside: the events of its calls, and \<open>cm_observes E lg\<close>, which says that \<open>lg\<close>
  reads a log off the state to which every call of the environment adds what it did. Beyond that the calls
  are arbitrary.
\<close>

section \<open>Events\<close>

datatype cmev =
    Clock int
  | QuotaRead string
  | QuotaPatched QuotaMeta
  | QuotasListed "string list"
  | ClusterRead string Cluster
  | ClusterMissing string
  | SecretsListed "string option" "KSecret list"
  | NoClient
  | LocalRead KSecret
  | LocalCreated KSecret
  | LocalUpdated KSecret
  | LocalDeleted string string "kerr option"
  | RemoteRead KSecret
  | RemoteCreated KSecret
  | RemoteUpdated KSecret
  | RemoteDeleted string string "kerr option"
  | FipsListed "FloatingIP list"
  | FipUpdated FloatingIP

definition on_value :: "('a \<Rightarrow> cmev list) \<Rightarrow> kerr + 'a \<Rightarrow> cmev list" where
  "on_value f r = (case r of Inl e \<Rightarrow> [] | Inr x \<Rightarrow> f x)"

definition on_success :: "cmev \<Rightarrow> kerr option \<Rightarrow> cmev list" where
  "on_success ev r = (if r = None then [ev] else [])"

definition no_client :: "kerr + 'a \<Rightarrow> cmev list" where
  "no_client r = (case r of Inl e \<Rightarrow> if IsNotFound e then [NoClient] else [] | Inr x \<Rightarrow> [])"

definition ds_observes :: "'w dsclient \<Rightarrow> ('w \<Rightarrow> cmev list) \<Rightarrow> bool" where
  "ds_observes D lg \<longleftrightarrow>
     (\<forall>ns. logs lg (DsListPods D ns) (\<lambda>_. [])) \<and> (\<forall>n. logs lg (DsGetNs D n) (\<lambda>_. [])) \<and> (\<forall>n. logs lg (DsCreateNs D n) (\<lambda>_. [])) \<and>
     (\<forall>n l. logs lg (DsUpdateNs D n l) (\<lambda>_. [])) \<and>
     (\<forall>ns n. logs lg (DsGetSecret D ns n) (on_value (\<lambda>s. [RemoteRead s]))) \<and>
     (\<forall>ns n s t t'. run_state (DsGetSecret D ns n) t = (Inr s, t') \<longrightarrow> ks_ns s = ns \<and> ks_name s = n) \<and>
     (\<forall>s. logs lg (DsCreateSecret D s) (on_success (RemoteCreated s))) \<and>
     (\<forall>s. logs lg (DsUpdateSecret D s) (on_success (RemoteUpdated s))) \<and>
     (\<forall>ns n. logs lg (DsDeleteSecret D ns n) (\<lambda>r. [RemoteDeleted ns n r])) \<and>
     (\<forall>ns. logs lg (DsListSecrets D ns) (\<lambda>_. [])) \<and>
     (\<forall>ns n. logs lg (DsGetConfigMap D ns n) (\<lambda>_. [])) \<and> (\<forall>ns n d. logs lg (DsCreateConfigMap D ns n d) (\<lambda>_. [])) \<and>
     (\<forall>ns n d. logs lg (DsUpdateConfigMap D ns n d) (\<lambda>_. [])) \<and> (\<forall>ns n. logs lg (DsGetDeployment D ns n) (\<lambda>_. [])) \<and>
     (\<forall>ns n a. logs lg (DsUpdateDeployment D ns n a) (\<lambda>_. []))"

lemma ds_calls:
  assumes "ds_observes D lg"
  shows "logs lg (DsListPods D ns) (\<lambda>_. [])" "logs lg (DsGetNs D n) (\<lambda>_. [])" "logs lg (DsCreateNs D n) (\<lambda>_. [])"
    "logs lg (DsUpdateNs D n l) (\<lambda>_. [])" "logs lg (DsGetSecret D ns n) (on_value (\<lambda>s. [RemoteRead s]))"
    "logs lg (DsCreateSecret D s) (on_success (RemoteCreated s))" "logs lg (DsUpdateSecret D s) (on_success (RemoteUpdated s))"
    "logs lg (DsDeleteSecret D ns n) (\<lambda>r. [RemoteDeleted ns n r])" "logs lg (DsListSecrets D ns) (\<lambda>_. [])"
    "logs lg (DsGetConfigMap D ns n) (\<lambda>_. [])" "logs lg (DsCreateConfigMap D ns n d) (\<lambda>_. [])"
    "logs lg (DsUpdateConfigMap D ns n d) (\<lambda>_. [])" "logs lg (DsGetDeployment D ns n) (\<lambda>_. [])"
    "logs lg (DsUpdateDeployment D ns n a) (\<lambda>_. [])"
  using assms by (simp_all add: ds_observes_def)

lemma ds_reads: "ds_observes D lg \<Longrightarrow> run_state (DsGetSecret D ns n) t = (Inr s, t') \<Longrightarrow> ks_ns s = ns \<and> ks_name s = n"
  by (simp only: ds_observes_def)

definition cm_observes :: "'w cmenv \<Rightarrow> ('w \<Rightarrow> cmev list) \<Rightarrow> bool" where
  "cm_observes E lg \<longleftrightarrow>
     (\<forall>n. logs lg (CmGetQuota E n) (on_value (\<lambda>q. [QuotaRead n]))) \<and>
     (\<forall>n q s s'. run_state (CmGetQuota E n) s = (Inr q, s') \<longrightarrow> qm_name q = n) \<and>
     (\<forall>q. logs lg (CmPatchQuota E q) (on_success (QuotaPatched q))) \<and>
     logs lg (CmListQuotas E) (on_value (\<lambda>ns. [QuotasListed ns])) \<and>
     (\<forall>f s r s'. run_state (CmRetry E f) s = (r, s') \<longrightarrow> attempts f s r s') \<and>
     logs lg (CmListProjects E) (\<lambda>_. []) \<and>
     (\<forall>n. logs lg (CmGetCluster E n) (\<lambda>r. case r of Inr c \<Rightarrow> [ClusterRead n c] | Inl e \<Rightarrow> if IsNotFound e then [ClusterMissing n] else [])) \<and>
     logs lg (CmListPools E) (\<lambda>_. []) \<and>
     (\<forall>x. logs lg (CmListSecrets E x) (\<lambda>r. on_value (\<lambda>ss. [SecretsListed x ss]) r @ no_client r)) \<and>
     (\<forall>ns n. logs lg (CmGetSecret E ns n) (on_value (\<lambda>s. [LocalRead s]))) \<and>
     (\<forall>ns n s t t'. run_state (CmGetSecret E ns n) t = (Inr s, t') \<longrightarrow> ks_ns s = ns \<and> ks_name s = n) \<and>
     (\<forall>rd ns n. CmReadSecret E = Some rd \<longrightarrow> logs lg (rd ns n) (on_value (\<lambda>s. [LocalRead s]))) \<and>
     (\<forall>rd ns n s t t'. CmReadSecret E = Some rd \<longrightarrow> run_state (rd ns n) t = (Inr s, t') \<longrightarrow> ks_ns s = ns \<and> ks_name s = n) \<and>
     (\<forall>s. logs lg (CmCreateSecret E s) (on_success (LocalCreated s))) \<and>
     (\<forall>s. logs lg (CmUpdateSecret E s) (on_success (LocalUpdated s))) \<and>
     (\<forall>s. logs lg (CmDeleteSecret E s) (\<lambda>r. [LocalDeleted (ks_ns s) (ks_name s) r])) \<and>
     logs lg (CmListFips E) (on_value (\<lambda>fs. [FipsListed fs])) \<and> (\<forall>f. logs lg (CmUpdateFip E f) (on_success (FipUpdated f))) \<and>
     logs lg (CmListProvClusters E) (\<lambda>_. []) \<and> (\<forall>n. logs lg (CmGetHarvesterConfig E n) (\<lambda>_. [])) \<and>
     logs lg (CmRand E) (\<lambda>_. []) \<and> logs lg (CmNow E) (\<lambda>t. [Clock t]) \<and>
     (\<forall>k e. CmRestConfig E k = Inl e \<longrightarrow> \<not> IsNotFound e) \<and>
     (\<forall>c. logs lg (CmNewClient E c) no_client) \<and>
     (\<forall>c s D s'. run_state (CmNewClient E c) s = (Inr D, s') \<longrightarrow> ds_observes D lg)"

section \<open>Kinds of events\<close>

text \<open>Everything but a write: what reading, listing and looking at the clock leaves.\<close>

fun looks :: "cmev \<Rightarrow> bool" where
  "looks (Clock t) = True"
| "looks (QuotaRead n) = True"
| "looks (QuotasListed ns) = True"
| "looks (ClusterRead n c) = True"
| "looks (ClusterMissing n) = True"
| "looks (SecretsListed x ss) = True"
| "looks NoClient = True"
| "looks (FipsListed fs) = True"
| "looks (LocalRead s) = True"
| "looks (RemoteRead s) = True"
| "looks ev = False"

text \<open>What a program keeps may be added to its triples.\<close>

lemma hoare_frame:
  "emits lg B m \<Longrightarrow> keeps B F \<Longrightarrow> hoare lg P m Q \<Longrightarrow> hoare lg (\<lambda>h. P h \<and> F h) m (\<lambda>r h. Q r h \<and> F h)"
  by (rule hoare_conj, assumption, rule emitsD)

lemma keeps_disj: "keeps B P \<Longrightarrow> keeps B Q \<Longrightarrow> keeps B (\<lambda>h. P h \<or> Q h)"
  by (auto simp: keeps_def)

lemma keeps_ex: "(\<And>x. keeps B (P x)) \<Longrightarrow> keeps B (\<lambda>h. \<exists>x. P x h)"
  unfolding keeps_def by blast

text \<open>What all results of a program satisfy may be assumed by what follows it.\<close>

lemma hoare_results:
  "hoare lg P m Q \<Longrightarrow> (\<And>s r s'. run_state m s = (r, s') \<Longrightarrow> C r) \<Longrightarrow> hoare lg P m (\<lambda>r h. Q r h \<and> C r)"
  unfolding hoare_def by blast

lemma hoare_try_results:
  assumes "hoare lg P m R" "\<And>s x s'. run_state m s = (Inr x, s') \<Longrightarrow> C x"
    and "\<And>e h. R (Inl e) h \<Longrightarrow> Q (g e) h" "\<And>x. C x \<Longrightarrow> hoare lg (R (Inr x)) (f x) Q"
  shows "hoare lg P (try_with m g f) Q"
  by (rule hoare_try [OF hoare_results [OF assms(1), where C = "\<lambda>r. \<forall>x. r = Inr x \<longrightarrow> C x"]])
    (auto intro: assms(2,3) hoare_assume [OF assms(4)])

lemma emits_try_results:
  assumes "emits lg B m" "\<And>s x s'. run_state m s = (Inr x, s') \<Longrightarrow> C x" "\<And>x. C x \<Longrightarrow> emits lg B (f x)"
  shows "emits lg B (try_with m g f)"
  by (rule emitsI, rule hoare_try_results [where C = C]) (auto intro: emitsD [OF assms(1)] assms(2) emitsD [OF assms(3)])

locale cm_observed =
  fixes E :: "'w cmenv" and lg :: "'w \<Rightarrow> cmev list"
  assumes obs: "cm_observes E lg"
begin

lemma call:
  "logs lg (CmGetQuota E n) (on_value (\<lambda>q. [QuotaRead n]))" "logs lg (CmPatchQuota E q) (on_success (QuotaPatched q))"
  "logs lg (CmListQuotas E) (on_value (\<lambda>ns. [QuotasListed ns]))"
  "logs lg (CmGetCluster E n) (\<lambda>r. case r of Inr c \<Rightarrow> [ClusterRead n c] | Inl e \<Rightarrow> if IsNotFound e then [ClusterMissing n] else [])"
  "logs lg (CmListSecrets E x) (\<lambda>r. on_value (\<lambda>ss. [SecretsListed x ss]) r @ no_client r)"
  "logs lg (CmGetSecret E ns n) (on_value (\<lambda>s. [LocalRead s]))"
  "CmReadSecret E = Some rd \<Longrightarrow> logs lg (rd ns n) (on_value (\<lambda>s. [LocalRead s]))"
  "logs lg (CmCreateSecret E s) (on_success (LocalCreated s))" "logs lg (CmUpdateSecret E s) (on_success (LocalUpdated s))"
  "logs lg (CmDeleteSecret E s) (\<lambda>r. [LocalDeleted (ks_ns s) (ks_name s) r])" "logs lg (CmUpdateFip E f) (on_success (FipUpdated f))"
  "logs lg (CmNow E) (\<lambda>t. [Clock t])" "logs lg (CmNewClient E c) no_client"
  "logs lg (CmListFips E) (on_value (\<lambda>fs. [FipsListed fs]))"
  using obs by (simp_all add: cm_observes_def)

lemma silent_call:
  "logs lg (CmListProjects E) (\<lambda>_. [])" "logs lg (CmListPools E) (\<lambda>_. [])" 
  "logs lg (CmListProvClusters E) (\<lambda>_. [])" "logs lg (CmGetHarvesterConfig E n) (\<lambda>_. [])" "logs lg (CmRand E) (\<lambda>_. [])"
  using obs by (simp_all add: cm_observes_def)

lemma retry: "run_state (CmRetry E f) s = (r, s') \<Longrightarrow> attempts f s r s'"
  using obs by (simp add: cm_observes_def)

lemma new_client: "run_state (CmNewClient E c) s = (Inr D, s') \<Longrightarrow> ds_observes D lg"
  using obs by (simp only: cm_observes_def)

lemma quota_name: "run_state (CmGetQuota E n) s = (Inr q, s') \<Longrightarrow> qm_name q = n"
  using obs by (simp only: cm_observes_def)

lemma local_name: "run_state (CmGetSecret E ns n) t = (Inr s, t') \<Longrightarrow> ks_ns s = ns \<and> ks_name s = n"
  using obs by (simp only: cm_observes_def)

lemma reader_name: "CmReadSecret E = Some rd \<Longrightarrow> run_state (rd ns n) t = (Inr s, t') \<Longrightarrow> ks_ns s = ns \<and> ks_name s = n"
  using obs by (simp only: cm_observes_def)

lemma rest_config: "CmRestConfig E k = Inl e \<Longrightarrow> \<not> IsNotFound e"
  using obs by (simp only: cm_observes_def) blast

lemma look [emits_intro]:
  "emits lg looks (CmGetQuota E n)" "emits lg looks (CmListQuotas E)" "emits lg looks (CmGetCluster E n)"
  "emits lg looks (CmListSecrets E x)" "emits lg looks (CmGetSecret E ns n)" "emits lg looks (CmNow E)"
  "emits lg looks (CmNewClient E c)" "emits lg looks (CmListProjects E)" "emits lg looks (CmListPools E)" "emits lg looks (CmListFips E)"
  "emits lg looks (CmListProvClusters E)" "emits lg looks (CmGetHarvesterConfig E n)" "emits lg looks (CmRand E)"
  by (rule emits_logs, rule call silent_call, simp add: on_value_def no_client_def split: sum.splits)+

lemma hoare_cm_retry:
  assumes "hoare lg P f Q" "\<And>e h. IsConflict e \<Longrightarrow> Q (Some e) h \<Longrightarrow> P h"
  shows "hoare lg P (CmRetry E f) Q"
  unfolding hoare_def
proof (intro allI impI)
  fix s r s' h
  assume "run_state (CmRetry E f) s = (r, s')" and "P h"
  from retry [OF this(1)] this(2) assms(1)
  show "\<exists>tr. lg s' = lg s @ tr \<and> Q r (h @ tr)" using assms(2) by (intro hoare_attempts) auto
qed

lemma emits_cm_retry [emits_intro]: "emits lg B f \<Longrightarrow> emits lg B (CmRetry E f)"
  by (rule emitsI, rule hoare_cm_retry) (auto dest: emitsD)

text \<open>A client is observed, whoever uses it.\<close>

lemma client_observed: "run_state (getDownstreamClient E cluster) s = (Inr D, s') \<Longrightarrow> ds_observes D lg"
  by (auto simp: getDownstreamClient_def try_with_def split: prod.splits sum.splits option.splits dest: new_client)

lemmas hoare_client = hoare_try_results [where C = "\<lambda>D. ds_observes D lg", OF _ client_observed]

lemma emits_client:
  assumes "\<And>e. looks e \<Longrightarrow> B e" "\<And>D. ds_observes D lg \<Longrightarrow> emits lg B (f D)"
  shows "emits lg B (try_with (getDownstreamClient E cluster) g f)"
proof (rule emits_try_results [where C = "\<lambda>D. ds_observes D lg"])
  have "emits lg looks (getDownstreamClient E cluster)"
    unfolding getDownstreamClient_def by (intro emits_intro)
  then show "emits lg B (getDownstreamClient E cluster)" by (rule emits_mono) (rule assms(1))
qed (auto intro: client_observed assms(2))

end

end
