(* ===== verification/Mem_Cm.thy ===== *)
theory Mem_Cm
  imports Cm_Trace
begin

text \<open>
  One concrete world for the cluster manager: the objects of the local cluster and of one downstream cluster in memory, a clock,
  and the log that \<open>cm_observes\<close> asks for. The hypotheses on the environment hold of it, and the witnesses run on it.
\<close>

record cmworld =
  cw_quotas :: "QuotaMeta list"
  cw_projects :: "Project list"
  cw_clusters :: "Cluster list"
  cw_pools :: "PoolTarget list"
  cw_secrets :: "KSecret list"
  cw_remote :: "KSecret list"
  cw_fips :: "FloatingIP list"
  cw_now :: int
  cw_log :: "cmev list"

text \<open>A call on the world that adds to the log.\<close>

definition cm_call :: "(cmworld \<Rightarrow> 'a \<times> cmworld) \<Rightarrow> ('a \<Rightarrow> cmev list) \<Rightarrow> (cmworld, 'a) state" where
  "cm_call f ev = State (\<lambda>w. case f w of (r, w') \<Rightarrow> (r, w'\<lparr>cw_log := cw_log w @ ev r\<rparr>))"

lemma logs_cm_call [simp]: "logs cw_log (cm_call f ev) ev"
  by (simp add: logs_def cm_call_def split: prod.splits)

definition or_not_found :: "'a option \<Rightarrow> kerr + 'a" where
  "or_not_found x = (case x of None \<Rightarrow> Inl NotFound | Some v \<Rightarrow> Inr v)"

definition secret_named :: "string \<Rightarrow> string \<Rightarrow> KSecret list \<Rightarrow> KSecret option" where
  "secret_named ns n = find (\<lambda>s. ks_ns s = ns \<and> ks_name s = n)"

definition same_key :: "KSecret \<Rightarrow> KSecret \<Rightarrow> bool" where
  "same_key s x \<longleftrightarrow> ks_ns x = ks_ns s \<and> ks_name x = ks_name s"

definition put_secret :: "KSecret \<Rightarrow> KSecret list \<Rightarrow> KSecret list" where
  "put_secret s ss = s # filter (\<lambda>x. \<not> same_key s x) ss"

definition del_secret :: "string \<Rightarrow> string \<Rightarrow> KSecret list \<Rightarrow> KSecret list" where
  "del_secret ns n = filter (\<lambda>x. \<not> (ks_ns x = ns \<and> ks_name x = n))"

definition no_answer :: "'a \<Rightarrow> (cmworld, 'a) state" where
  "no_answer x = cm_call (\<lambda>w. (x, w)) (\<lambda>_. [])"

definition mem_ds :: "cmworld dsclient" where
  "mem_ds =
     \<lparr>DsListPods = (\<lambda>ns. no_answer None), DsGetNs = (\<lambda>n. no_answer (Inr (None, None))), DsCreateNs = (\<lambda>n. no_answer None),
      DsUpdateNs = (\<lambda>n l. no_answer None),
      DsGetSecret = (\<lambda>ns n. cm_call (\<lambda>w. (or_not_found (secret_named ns n (cw_remote w)), w)) (on_value (\<lambda>s. [RemoteRead s]))),
      DsCreateSecret = (\<lambda>s. cm_call (\<lambda>w. (None, w\<lparr>cw_remote := put_secret s (cw_remote w)\<rparr>)) (on_success (RemoteCreated s))),
      DsUpdateSecret = (\<lambda>s. cm_call (\<lambda>w. (None, w\<lparr>cw_remote := put_secret s (cw_remote w)\<rparr>)) (on_success (RemoteUpdated s))),
      DsDeleteSecret = (\<lambda>ns n. cm_call
         (\<lambda>w. (if secret_named ns n (cw_remote w) = None then Some NotFound else None, w\<lparr>cw_remote := del_secret ns n (cw_remote w)\<rparr>))
         (\<lambda>r. [RemoteDeleted ns n r])),
      DsListSecrets = (\<lambda>ns. cm_call (\<lambda>w. (Inr (filter (\<lambda>s. ks_ns s = ns) (cw_remote w)), w)) (\<lambda>_. [])),
      DsGetConfigMap = (\<lambda>ns n. no_answer (Inl NotFound)), DsCreateConfigMap = (\<lambda>ns n d. no_answer None),
      DsUpdateConfigMap = (\<lambda>ns n d. no_answer None), DsGetDeployment = (\<lambda>ns n. no_answer (Inl NotFound)),
      DsUpdateDeployment = (\<lambda>ns n a. no_answer None)\<rparr>"

definition patch_quota :: "QuotaMeta \<Rightarrow> cmworld \<Rightarrow> kerr option \<times> cmworld" where
  "patch_quota q w =
     (case find (\<lambda>x. qm_name x = qm_name q) (cw_quotas w) of
        None \<Rightarrow> (Some NotFound, w)
      | Some cur \<Rightarrow>
          if qm_rv cur \<noteq> qm_rv q then (Some Conflict, w)
          else (None, w\<lparr>cw_quotas := q\<lparr>qm_rv := Suc (qm_rv q)\<rparr> # filter (\<lambda>x. qm_name x \<noteq> qm_name q) (cw_quotas w)\<rparr>))"

definition mem_cm :: "cmworld cmenv" where
  "mem_cm =
     \<lparr>CmGetQuota = (\<lambda>n. cm_call (\<lambda>w. (or_not_found (find (\<lambda>q. qm_name q = n) (cw_quotas w)), w)) (on_value (\<lambda>q. [QuotaRead n]))),
      CmPatchQuota = (\<lambda>q. cm_call (patch_quota q) (on_success (QuotaPatched q))),
      CmListQuotas = cm_call (\<lambda>w. (Inr (map qm_name (cw_quotas w)), w)) (on_value (\<lambda>ns. [QuotasListed ns])),
      CmRetry = (\<lambda>f. f),
      CmListProjects = cm_call (\<lambda>w. (Inr (cw_projects w), w)) (\<lambda>_. []),
      CmGetCluster = (\<lambda>n. cm_call (\<lambda>w. (or_not_found (find (\<lambda>c. cu_name c = n) (cw_clusters w)), w))
         (\<lambda>r. case r of Inr c \<Rightarrow> [ClusterRead n c] | Inl e \<Rightarrow> if IsNotFound e then [ClusterMissing n] else [])),
      CmListPools = cm_call (\<lambda>w. (Inr (cw_pools w), w)) (\<lambda>_. []),
      CmListSecrets = (\<lambda>x. cm_call
         (\<lambda>w. (Inr (case x of None \<Rightarrow> cw_secrets w | Some ns \<Rightarrow> filter (\<lambda>s. ks_ns s = ns) (cw_secrets w)), w))
         (\<lambda>r. on_value (\<lambda>ss. [SecretsListed x ss]) r @ no_client r)),
      CmGetSecret = (\<lambda>ns n. cm_call (\<lambda>w. (or_not_found (secret_named ns n (cw_secrets w)), w)) (on_value (\<lambda>s. [LocalRead s]))),
      CmReadSecret = Some (\<lambda>ns n. cm_call (\<lambda>w. (or_not_found (secret_named ns n (cw_secrets w)), w)) (on_value (\<lambda>s. [LocalRead s]))),
      CmCreateSecret = (\<lambda>s. cm_call (\<lambda>w. if secret_named (ks_ns s) (ks_name s) (cw_secrets w) = None
         then (None, w\<lparr>cw_secrets := put_secret s (cw_secrets w)\<rparr>) else (Some AlreadyExists, w)) (on_success (LocalCreated s))),
      CmUpdateSecret = (\<lambda>s. cm_call (\<lambda>w. (None, w\<lparr>cw_secrets := put_secret s (cw_secrets w)\<rparr>)) (on_success (LocalUpdated s))),
      CmDeleteSecret = (\<lambda>s. cm_call
         (\<lambda>w. (None, w\<lparr>cw_secrets := del_secret (ks_ns s) (ks_name s) (cw_secrets w)\<rparr>)) (\<lambda>r. [LocalDeleted (ks_ns s) (ks_name s) r])),
      CmListFips = cm_call (\<lambda>w. (Inr (cw_fips w), w)) (on_value (\<lambda>fs. [FipsListed fs])),
      CmUpdateFip = (\<lambda>f. cm_call
         (\<lambda>w. (None, w\<lparr>cw_fips := map (\<lambda>g. if f_name g = f_name f then f else g) (cw_fips w)\<rparr>)) (on_success (FipUpdated f))),
      CmListProvClusters = no_answer (Inr []), CmGetHarvesterConfig = (\<lambda>n. no_answer (Inl NotFound)),
      CmRand = no_answer (Inr [1, 2, 3, 4]),
      CmNow = cm_call (\<lambda>w. (cw_now w, w)) (\<lambda>t. [Clock t]),
      CmFormatTime = (\<lambda>t. ''now''), CmRestConfig = Inr, CmNewClient = (\<lambda>c. cm_call (\<lambda>w. (Inr mem_ds, w)) no_client),
      CmNetworkInfo = (\<lambda>x. Inr [x]), CmErrText = (\<lambda>e. ''error''), CmVisit = (\<lambda>ns. ns)\<rparr>"

lemma read_secret:
  "run_state (cm_call (\<lambda>w. (or_not_found (secret_named ns n (f w)), w)) ev) t = (Inr s, t') \<Longrightarrow> ks_ns s = ns \<and> ks_name s = n"
  by (auto simp: cm_call_def or_not_found_def secret_named_def find_Some_iff split: option.splits)

lemma mem_ds_observed: "ds_observes mem_ds cw_log"
  unfolding ds_observes_def
  by (simp only: mem_ds_def no_answer_def dsclient.select_convs) (intro conjI allI impI logs_cm_call; erule read_secret [THEN conjunct1] read_secret [THEN conjunct2])

lemma read_quota:
  "run_state (cm_call (\<lambda>w. (or_not_found (find (\<lambda>q. qm_name q = n) (cw_quotas w)), w)) ev) t = (Inr q, t') \<Longrightarrow> qm_name q = n"
  by (auto simp: cm_call_def or_not_found_def find_Some_iff split: option.splits)

lemma mem_client: "run_state (cm_call (\<lambda>w. (Inr mem_ds, w)) ev) t = (Inr D, t') \<Longrightarrow> ds_observes D cw_log"
  by (auto simp: cm_call_def mem_ds_observed)

lemma mem_cm_observed: "cm_observes mem_cm cw_log"
  unfolding cm_observes_def
  by (simp only: mem_cm_def no_answer_def cmenv.select_convs option.inject sum.distinct simp_thms)
    (intro conjI allI impI logs_cm_call attempts.once ; (assumption | erule read_quota mem_client
      | (hypsubst, rule logs_cm_call) | erule read_secret [THEN conjunct1] read_secret [THEN conjunct2]
      | (hypsubst, erule read_secret [THEN conjunct1] read_secret [THEN conjunct2])))

interpretation mem_cm: cm_observed mem_cm cw_log
  by unfold_locales (rule mem_cm_observed)

definition sample_chart :: chartConf where
  "sample_chart = \<lparr>ch_name = ''lb'', ch_ref = ''https://charts.example'', ch_version = ''1.0'', ch_namespace = ''lb'', ch_values = []\<rparr>"

definition sample_cfg :: cmConfig where
  "sample_cfg =
     \<lparr>cg_lbNamespace = ''lb'', cg_apiURL = ''https://fip.example'', cg_caCrt = None, cg_appNamespace = [],
      cg_lbChart = sample_chart, cg_pureLB = sample_chart\<lparr>ch_name := ''purelb''\<rparr>, cg_metalLB = sample_chart\<lparr>ch_name := ''metallb''\<rparr>\<rparr>"

definition sample_project :: Project where
  "sample_project = \<lparr>pj_name = ''p-live'', pj_ns = ''c-1'', pj_clusterName = ''c-1''\<rparr>"

definition empty_world :: cmworld where
  "empty_world = \<lparr>cw_quotas = [], cw_projects = [sample_project], cw_clusters = [], cw_pools = [], cw_secrets = [], cw_remote = [],
     cw_fips = [], cw_now = 0, cw_log = []\<rparr>"

definition idle_helm :: "cmworld helmIf" where
  "idle_helm = \<lparr>HiInstall = \<lambda>c spec. no_answer None, HiRepo = \<lambda>n u. no_answer None, HiCheck = \<lambda>c n ns. no_answer (Inr False)\<rparr>"

end
