(* ===== verification/Cm_Credentials.thy ===== *)
theory Cm_Credentials
  imports Mem_Cm Api_Auth Mem_Api
begin

text \<open>
  Handing out credentials: a client secret that is stored is used and never replaced, the downstream cluster gets the one that is
  stored, and only a project with a quota gets any.
\<close>

section \<open>What may be written\<close>

text \<open>
  What a pass knows of a Secret: the content it last read or wrote under the name. \<open>stored_now\<close> is the client secret of the
  local Secret at the end of a history, \<open>remote_now\<close> the data of the Secret in the downstream cluster.
\<close>

fun local_copy :: "string \<Rightarrow> string \<Rightarrow> cmev \<Rightarrow> string option" where
  "local_copy ns n (LocalRead s) = (if ks_ns s = ns \<and> ks_name s = n then Some (getz [] (ks_data s) ''clientSecret'') else None)"
| "local_copy ns n (LocalCreated s) = (if ks_ns s = ns \<and> ks_name s = n then Some (getz [] (ks_data s) ''clientSecret'') else None)"
| "local_copy ns n (LocalUpdated s) = (if ks_ns s = ns \<and> ks_name s = n then Some (getz [] (ks_data s) ''clientSecret'') else None)"
| "local_copy ns n _ = None"

fun remote_copy :: "string \<Rightarrow> string \<Rightarrow> cmev \<Rightarrow> (string, string) gomap option" where
  "remote_copy ns n (RemoteRead s) = (if ks_ns s = ns \<and> ks_name s = n then Some (ks_data s) else None)"
| "remote_copy ns n (RemoteCreated s) = (if ks_ns s = ns \<and> ks_name s = n then Some (ks_data s) else None)"
| "remote_copy ns n (RemoteUpdated s) = (if ks_ns s = ns \<and> ks_name s = n then Some (ks_data s) else None)"
| "remote_copy ns n _ = None"

definition latest :: "('e \<Rightarrow> 'a option) \<Rightarrow> 'e list \<Rightarrow> 'a option" where
  "latest f h = fold (\<lambda>e known. case f e of None \<Rightarrow> known | Some x \<Rightarrow> Some x) h None"

definition stored_now :: "string \<Rightarrow> string \<Rightarrow> cmev list \<Rightarrow> string option" where
  "stored_now ns n = latest (local_copy ns n)"

definition remote_now :: "string \<Rightarrow> string \<Rightarrow> cmev list \<Rightarrow> (string, string) gomap option" where
  "remote_now ns n = latest (remote_copy ns n)"

lemma latest_simps [simp]:
  "latest f [] = None" "latest f (h @ [e]) = (case f e of None \<Rightarrow> latest f h | Some x \<Rightarrow> Some x)"
  unfolding latest_def by simp_all

lemma now_Nil [simp]: "stored_now ns n [] = None" "remote_now ns n [] = None"
  by (simp_all add: stored_now_def remote_now_def)

lemma now_snoc:
  "stored_now ns n (h @ [e]) = (case local_copy ns n e of None \<Rightarrow> stored_now ns n h | Some x \<Rightarrow> Some x)"
  "remote_now ns n (h @ [e]) = (case remote_copy ns n e of None \<Rightarrow> remote_now ns n h | Some x \<Rightarrow> Some x)"
  unfolding stored_now_def remote_now_def by simp_all

definition credentials :: "cmConfig \<Rightarrow> Project \<Rightarrow> string \<Rightarrow> string \<Rightarrow> string \<Rightarrow> string \<Rightarrow> KSecret" where
  "credentials cfg project network cluster lbType cs =
     NewDownstreamSecret (configSecretPrefix @ pj_name project) (cg_lbNamespace cfg) (cg_apiURL cfg) cs cluster (pj_name project) network lbType"

definition remote_ok :: "cmConfig \<Rightarrow> Project \<Rightarrow> string \<Rightarrow> string \<Rightarrow> string \<Rightarrow> string \<Rightarrow> cmev list \<Rightarrow> KSecret \<Rightarrow> bool" where
  "remote_ok cfg project ns network cluster lbType h s \<longleftrightarrow>
     (ks_ns s = cg_lbNamespace cfg \<and> ks_name s = ''cacerts'') \<or>
     (\<exists>cs. stored_now ns (configSecretPrefix @ pj_name project) h = Some cs \<and> s = credentials cfg project network cluster lbType cs)"

text \<open>
  What one step of the handler may do: make the local Secret when it did not find one, fill it when it read it empty, and
  write into the downstream cluster what the local Secret holds at that moment.
\<close>

fun hand_step :: "cmConfig \<Rightarrow> Project \<Rightarrow> string \<Rightarrow> string \<Rightarrow> string \<Rightarrow> string \<Rightarrow> cmev list \<Rightarrow> cmev \<Rightarrow> bool" where
  "hand_step cfg project ns network cluster lbType h (LocalCreated s) \<longleftrightarrow>
     ks_ns s = ns \<and> ks_name s = configSecretPrefix @ pj_name project \<and> stored_now ns (ks_name s) h = None"
| "hand_step cfg project ns network cluster lbType h (LocalUpdated s) \<longleftrightarrow>
     ks_ns s = ns \<and> ks_name s = configSecretPrefix @ pj_name project \<and> stored_now ns (ks_name s) h = Some []"
| "hand_step cfg project ns network cluster lbType h (RemoteCreated s) \<longleftrightarrow> remote_ok cfg project ns network cluster lbType h s"
| "hand_step cfg project ns network cluster lbType h (RemoteUpdated s) \<longleftrightarrow> remote_ok cfg project ns network cluster lbType h s"
| "hand_step cfg project ns network cluster lbType h ev \<longleftrightarrow> looks ev"

definition delivered :: "KSecret \<Rightarrow> cmev list \<Rightarrow> bool" where
  "delivered want h \<longleftrightarrow> (\<exists>d. remote_now (ks_ns want) (ks_name want) h = Some d \<and> same_data d (ks_data want))"

lemma looks_hand: "looks ev \<Longrightarrow> hand_step cfg project ns network cluster lbType h ev"
  by (cases ev) auto

text \<open>Everything that does not touch the local Secret leaves what is known of it.\<close>

definition aside :: "string \<Rightarrow> string \<Rightarrow> cmev \<Rightarrow> bool" where
  "aside ns n ev \<longleftrightarrow> looks ev \<and> local_copy ns n ev = None"

lemma keeps_stored: "(\<And>e. B e \<Longrightarrow> local_copy ns n e = None) \<Longrightarrow> keeps B (\<lambda>h. stored_now ns n h = v)"
  by (auto simp: keeps_def now_snoc)

section \<open>The downstream Secrets\<close>

fun syncs :: "KSecret \<Rightarrow> cmev \<Rightarrow> bool" where
  "syncs want (RemoteRead s) \<longleftrightarrow> True"
| "syncs want (RemoteCreated s) \<longleftrightarrow> s = want"
| "syncs want (RemoteUpdated s) \<longleftrightarrow> s = want"
| "syncs want ev \<longleftrightarrow> False"

lemma syncs_aside: "syncs want e \<Longrightarrow> local_copy ns n e = None"
  by (cases e) auto

lemma same_data_refl [simp]: "same_data d d"
  by (simp add: same_data_def list_all_iff)

lemma with_data: "ks_ns (s :: KSecret) = ks_ns want \<and> ks_name s = ks_name want \<Longrightarrow> s\<lparr>ks_data := ks_data want\<rparr> = want"
  by (cases s; cases want) auto

lemma hoare_sync_secret:
  assumes D: "ds_observes D lg" and K: "keeps (syncs want) K"
  shows "hoare lg K (sync_secret D want) (\<lambda>r h. K h \<and> (r = None \<longrightarrow> delivered want h))"
proof -
  note calls = ds_calls [OF D]
  let ?now = "remote_now (ks_ns want) (ks_name want)"
  let ?C = "\<lambda>r. \<forall>s. r = Inr s \<longrightarrow> ks_ns s = ks_ns want \<and> ks_name s = ks_name want"
  have get: "hoare lg K (DsGetSecret D (ks_ns want) (ks_name want)) (\<lambda>r h. (K h \<and> (\<forall>s. r = Inr s \<longrightarrow> ?C r \<longrightarrow> ?now h = Some (ks_data s))) \<and> ?C r)"
    by (rule hoare_results, rule hoare_logs [OF calls(5)])
      (use K in \<open>auto simp: on_value_def keeps_def now_snoc dest: ds_reads [OF D] split: sum.splits\<close>)
  have wrote: "hoare lg K (DsCreateSecret D want) (\<lambda>r h. K h \<and> (r = None \<longrightarrow> delivered want h))"
      "hoare lg K (DsUpdateSecret D want) (\<lambda>r h. K h \<and> (r = None \<longrightarrow> delivered want h))"
    by (rule hoare_logs [OF calls(6)] hoare_logs [OF calls(7)],
        use K in \<open>auto simp: on_success_def keeps_def delivered_def now_snoc\<close>)+
  show ?thesis
    unfolding sync_secret_def
  proof (rule hoare_bind [OF get], rule hoare_sum)
    show "x = Inl e \<Longrightarrow> hoare lg (\<lambda>h. (K h \<and> (\<forall>s. x = Inr s \<longrightarrow> ?C x \<longrightarrow> ?now h = Some (ks_data s))) \<and> ?C x)
       (if IsNotFound e then DsCreateSecret D want else State_Monad.return (Some e)) (\<lambda>r h. K h \<and> (r = None \<longrightarrow> delivered want h))" for x e
      by (auto intro!: hoare_if hoare_return intro: hoare_pre [OF wrote(1)])
    show "x = Inr have \<Longrightarrow> hoare lg (\<lambda>h. (K h \<and> (\<forall>s. x = Inr s \<longrightarrow> ?C x \<longrightarrow> ?now h = Some (ks_data s))) \<and> ?C x)
       (if same_data (ks_data have) (ks_data want) then State_Monad.return None
         else DsUpdateSecret D (have\<lparr>ks_data := ks_data want\<rparr>)) (\<lambda>r h. K h \<and> (r = None \<longrightarrow> delivered want h))" for x "have"
      by (rule hoare_assume)
        (auto intro!: hoare_if hoare_return hoare_pre [OF wrote(2)] simp: with_data, simp add: delivered_def)
  qed
qed

lemma emits_ensure_target: "ds_observes D lg \<Longrightarrow> emits lg B (ensure_target D ns)"
  unfolding ensure_target_def by (intro emits_intro emits_logs [OF ds_calls(2)] emits_logs [OF ds_calls(3)]) auto

section \<open>The local Secret\<close>

text \<open>The random source yields at least one byte (the source asks for 32).\<close>

definition rand_fills :: "'w cmenv \<Rightarrow> bool" where
  "rand_fills E \<longleftrightarrow> (\<forall>t t'. run_state (CmRand E) t \<noteq> (Inr [], t'))"

lemma hex_encode_Nil [simp]: "hex_encode bs = [] \<longleftrightarrow> bs = []"
  by (cases bs) (simp_all add: hex_encode_def)

lemma generated: "run_state (GenerateClientSecret E) t = (Inr cs, t') \<Longrightarrow> rand_fills E \<Longrightarrow> cs \<noteq> []"
  by (auto simp: GenerateClientSecret_def rand_fills_def split: prod.splits sum.splits)

lemma local_secret_unfinished: "run_state (local_secret E n ns p) s = (r, s') \<Longrightarrow> r \<noteq> Inl finished"
  by (auto simp: local_secret_def regenerate_def new_local_secret_def try_with_def check_with_def Let_def minutes_def
      split: prod.splits sum.splits option.splits if_splits)

lemma local_secret_filled: "run_state (local_secret E n ns p) s = (Inr cs, s') \<Longrightarrow> rand_fills E \<Longrightarrow> cs \<noteq> []"
  by (auto simp: local_secret_def regenerate_def new_local_secret_def try_with_def check_with_def Let_def
      split: prod.splits sum.splits option.splits if_splits dest: generated)

context cm_observed begin

lemma reader_logs: "logs lg (local_reader E ns n) (on_value (\<lambda>s. [LocalRead s]))"
  unfolding local_reader_def by (auto split: option.splits intro: call(6,7))

lemma reader_id: "run_state (local_reader E ns n) t = (Inr s, t') \<Longrightarrow> ks_ns s = ns \<and> ks_name s = n"
  unfolding local_reader_def by (auto split: option.splits dest: local_name reader_name)

lemma emits_generate [emits_intro]: "emits lg B (GenerateClientSecret E)"
  unfolding GenerateClientSecret_def by (intro emits_intro emits_logs [OF silent_call(5)]) simp

lemma hoare_local_secret:
  fixes p ns defines "n \<equiv> configSecretPrefix @ pj_name p"
  assumes S: "S = safe (hand_step cfg p ns network cluster lbType)"
  shows "hoare lg (\<lambda>h. S h \<and> stored_now ns n h = None) (local_secret E n ns (pj_name p))
    (\<lambda>r h. S h \<and> (\<forall>cs. r = Inr cs \<longrightarrow> stored_now ns n h = Some cs))"
proof -
  let ?Q = "\<lambda>r h. S h \<and> (\<forall>cs. r = Inr cs \<longrightarrow> stored_now ns n h = Some cs)"
  have gen: "hoare lg K (GenerateClientSecret E) (\<lambda>_. K)" for K
    by (rule emitsD [OF emits_generate, of "\<lambda>_. False"]) (simp add: keeps_def)
  let ?C = "\<lambda>r. \<forall>s. r = Inr s \<longrightarrow> ks_ns s = ns \<and> ks_name s = n"
  let ?got = "\<lambda>r h. S h \<and> (?C r \<longrightarrow> stored_now ns n h =
      (case r of Inl e \<Rightarrow> None | Inr s \<Rightarrow> Some (getz [] (ks_data s) ''clientSecret'')))"
  have read: "hoare lg (\<lambda>h. S h \<and> stored_now ns n h = None) (local_reader E ns n) (\<lambda>r h. ?got r h \<and> ?C r)"
    by (rule hoare_results, rule hoare_logs [OF reader_logs])
      (auto simp: S safe_snoc on_value_def now_snoc dest: reader_id split: sum.splits)
  have create: "hoare lg (\<lambda>h. S h \<and> stored_now ns n h = None) (CmCreateSecret E (NewLocalSecret n ns cs (pj_name p)))
      (\<lambda>r h. S h \<and> (r = None \<longrightarrow> stored_now ns n h = Some cs))" for cs
    by (rule hoare_logs [OF call(8)]) (auto simp: S safe_snoc on_success_def NewLocalSecret_def n_def getz_def now_snoc)
  have new: "hoare lg (\<lambda>h. S h \<and> stored_now ns n h = None) (new_local_secret E n ns (pj_name p)) ?Q"
    unfolding new_local_secret_def
    by (rule hoare_try [OF gen], simp, rule hoare_check [OF create]) (auto intro: hoare_return)
  have again: "hoare lg (\<lambda>h. S h \<and> stored_now ns n h = Some []) (regenerate E s (pj_name p)) ?Q"
    if s: "ks_ns s = ns" "ks_name s = n" for s
  proof -
    have update: "hoare lg (\<lambda>h. S h \<and> stored_now ns n h = Some [])
        (CmUpdateSecret E (s\<lparr>ks_data := [(''clientSecret'', cs), (''project'', pj_name p)]\<rparr>)) (\<lambda>r h. S h \<and> (r = None \<longrightarrow> stored_now ns n h = Some cs))" for cs
      by (rule hoare_logs [OF call(9)]) (auto simp: S safe_snoc on_success_def s now_snoc getz_def n_def [symmetric])
    show ?thesis
      unfolding regenerate_def
      by (rule hoare_try [OF gen], simp, rule hoare_check [OF update]) (auto intro: hoare_return)
  qed
  have seen: "hoare lg (\<lambda>h. ?got x h \<and> ?C x)
     (case x of
       Inr existing \<Rightarrow>
         (let clientSecret = getz [] (ks_data existing) ''clientSecret'' in
          if clientSecret = [] then regenerate E existing (pj_name p) else State_Monad.return (Inr clientSecret))
     | Inl e \<Rightarrow> new_local_secret E n ns (pj_name p)) ?Q" for x
  proof (cases x)
    case (Inr s)
    have known: "hoare lg (\<lambda>h. S h \<and> stored_now ns n h = Some (getz [] (ks_data s) ''clientSecret''))
        (let clientSecret = getz [] (ks_data s) ''clientSecret'' in
          if clientSecret = [] then regenerate E s (pj_name p) else State_Monad.return (Inr clientSecret)) ?Q" if "ks_ns s = ns \<and> ks_name s = n"
      using that by (intro hoare_let hoare_if hoare_return hoare_pre [OF again]) auto
    show ?thesis
      unfolding Inr sum.case by (intro hoare_assume) (rule hoare_pre [OF known], simp_all)
  qed (auto intro: hoare_pre [OF new])
  show ?thesis
    unfolding local_secret_def by (rule hoare_bind [OF read seen])
qed

section \<open>The handler\<close>

lemma hoare_fresh_ca:
  assumes K: "keeps (aside ns (configSecretPrefix @ i)) K"
  shows "hoare lg K (fresh_ca E app ca) (\<lambda>_. K)"
proof -
  have "hoare lg K (rd app ''cacerts'') (\<lambda>_. K)" if rd: "CmReadSecret E = Some rd" for rd
    by (rule hoare_logs_result [OF call(7) [OF rd], where C = "\<lambda>r. \<forall>s. r = Inr s \<longrightarrow> ks_name s = ''cacerts''"])
      (use K in \<open>auto simp: on_value_def keeps_def aside_def configSecretPrefix_def dest: reader_name [OF rd] split: sum.splits\<close>)
  then show ?thesis
    unfolding fresh_ca_def by (intro hoare_option hoare_return hoare_if) (auto intro!: hoare_bind hoare_return)
qed

lemma hoare_sync_ca:
  fixes p ns defines "n \<equiv> configSecretPrefix @ pj_name p"
  assumes D: "ds_observes D lg" and S: "S = safe (hand_step cfg p ns network cluster lbType)"
  shows "hoare lg (\<lambda>h. S h \<and> stored_now ns n h = v) (sync_ca E D cfg (cg_lbNamespace cfg)) (\<lambda>_ h. S h \<and> stored_now ns n h = v)"
proof -
  let ?K = "\<lambda>h. S h \<and> stored_now ns n h = v"
  have K: "keeps (aside ns n) ?K" unfolding S by (intro keeps_conj keeps_safe keeps_stored) (auto simp: aside_def looks_hand)
  have "keeps (syncs \<lparr>ks_ns = cg_lbNamespace cfg, ks_name = ''cacerts'', ks_data = d\<rparr>) S" for d
    unfolding S
    by (rule keeps_safe, erule syncs.elims) (auto simp: remote_ok_def)
  then have S': "keeps (syncs \<lparr>ks_ns = cg_lbNamespace cfg, ks_name = ''cacerts'', ks_data = d\<rparr>) ?K" for d
    by (intro keeps_conj keeps_stored) (auto dest: syncs_aside)
  show ?thesis
    unfolding sync_ca_def
    by (rule hoare_bind [OF hoare_fresh_ca [OF K [unfolded n_def]], folded n_def], rule hoare_option, rule hoare_return, assumption,
        rule hoare_post [OF hoare_sync_secret [OF D S']], blast)
qed

lemma hoare_HandleConfigSecrets:
  assumes D: "\<And>D. downstream = Some D \<Longrightarrow> ds_observes D lg" and S: "S = safe (hand_step cfg p ns network cluster lbType)"
  shows "hoare lg (\<lambda>h. S h \<and> stored_now ns (configSecretPrefix @ pj_name p) h = None)
     (HandleConfigSecrets E downstream cfg p ns network cluster lbType)
     (\<lambda>r h. S h \<and> (r = finished \<longrightarrow> (\<exists>cs. stored_now ns (configSecretPrefix @ pj_name p) h = Some cs \<and> (rand_fills E \<longrightarrow> cs \<noteq> []) \<and>
        (downstream \<noteq> None \<longrightarrow> delivered (credentials cfg p network cluster lbType cs) h))))"
proof -
  let ?n = "configSecretPrefix @ pj_name p"
  let ?Q = "\<lambda>r h. S h \<and> (r = finished \<longrightarrow> (\<exists>cs. stored_now ns ?n h = Some cs \<and> (rand_fills E \<longrightarrow> cs \<noteq> []) \<and>
        (downstream \<noteq> None \<longrightarrow> delivered (credentials cfg p network cluster lbType cs) h)))"
  define K where "K = (\<lambda>cs h. S h \<and> stored_now ns ?n h = Some cs)"
  have target: "hoare lg (K cs) (ensure_target D t) (\<lambda>_. K cs)" if "ds_observes D lg" for D t cs
    by (rule emitsD [OF emits_ensure_target [OF that, of "\<lambda>_. False"]]) (simp add: keeps_def)
  have ca: "hoare lg (K cs) (sync_ca E D cfg (cg_lbNamespace cfg)) (\<lambda>_. K cs)" if "ds_observes D lg" for D cs
    unfolding K_def by (rule hoare_sync_ca [OF that S])
  have syncs: "keeps (syncs (credentials cfg p network cluster lbType cs)) (K cs)" for cs
    unfolding keeps_def K_def S
    by (intro allI impI, elim conjE, frule syncs_aside [of _ _ ns ?n], erule syncs.elims) (auto simp: now_snoc safe_snoc remote_ok_def)
  have secret: "hoare lg (K cs) (sync_secret D (credentials cfg p network cluster lbType cs))
      (\<lambda>r h. K cs h \<and> (r = None \<longrightarrow> delivered (credentials cfg p network cluster lbType cs) h))" if "ds_observes D lg" for D cs
    by (rule hoare_sync_secret [OF that syncs])
  let ?C = "\<lambda>r. r \<noteq> Inl finished \<and> (\<forall>cs. r = Inr cs \<longrightarrow> rand_fills E \<longrightarrow> cs \<noteq> [])"
  show ?thesis
    unfolding HandleConfigSecrets_def Let_def
  proof (rule hoare_try [OF hoare_results [OF hoare_local_secret [OF S], where C = ?C]])
    fix cs
    have down: "hoare lg (K cs)
        (check_with (ensure_target D (cg_lbNamespace cfg)) (\<lambda>e. requeue (minutes 1))
          (check_with (sync_ca E D cfg (cg_lbNamespace cfg)) (\<lambda>e. requeue (minutes 1))
          (check_with (sync_secret D (credentials cfg p network cluster lbType cs)) (\<lambda>e. requeue (minutes 1))
             (State_Monad.return finished)))) ?Q" if "downstream = Some D" and "rand_fills E \<longrightarrow> cs \<noteq> []" for D
      by (rule hoare_check [OF target [OF D [OF that(1)]]], simp add: K_def minutes_def,
          rule hoare_check [OF ca [OF D [OF that(1)]]], simp add: K_def minutes_def,
          rule hoare_check [OF secret [OF D [OF that(1)]]], simp add: K_def minutes_def,
          rule hoare_return, use that(2) in \<open>auto simp: K_def\<close>)
    show "hoare lg (\<lambda>h. (S h \<and> (\<forall>cs'. Inr cs = Inr cs' \<longrightarrow> stored_now ns ?n h = Some cs')) \<and> ?C (Inr cs))
        (case downstream of
          None \<Rightarrow> State_Monad.return finished
        | Some D \<Rightarrow>
            check_with (ensure_target D (cg_lbNamespace cfg)) (\<lambda>e. requeue (minutes 1))
           (check_with (sync_ca E D cfg (cg_lbNamespace cfg)) (\<lambda>e. requeue (minutes 1))
           (check_with (sync_secret D (NewDownstreamSecret ?n (cg_lbNamespace cfg) (cg_apiURL cfg) cs cluster (pj_name p) network lbType))
              (\<lambda>e. requeue (minutes 1))
              (State_Monad.return finished)))) ?Q"
      unfolding credentials_def [symmetric]
      by (rule hoare_assume, rule hoare_option, rule hoare_return, force, rule hoare_pre [OF down], assumption, simp, simp add: K_def)
  qed (auto dest: local_secret_unfinished local_secret_filled)
qed

end

text \<open>
  C12. The handler of the credentials never replaces a client secret that it found: it makes the local Secret of the project only when it
  did not read it before, and updates it only when what it last read of it has no client secret. What it writes into the
  downstream cluster is the CA bundle, or the project's Secret with exactly the client secret that the local Secret was last
  read or successfully written with, at the time of the write; it writes no other Secret, locally or downstream. A failed read of the local Secret counts as not
  found, as in the code; the create that follows is refused by the API server when the Secret is there. Changes that
  others make to the Secrets between the calls of this pass are not seen by it.
\<close>
theorem stored_secret_kept:
  assumes "cm_observes E lg" "\<And>D. downstream = Some D \<Longrightarrow> ds_observes D lg"
    and "run_state (HandleConfigSecrets E downstream cfg p ns network cluster lbType) s = (r, s')"
  shows "\<exists>tr. lg s' = lg s @ tr \<and> safe (hand_step cfg p ns network cluster lbType) tr"
  using hoareD [OF cm_observed.hoare_HandleConfigSecrets [OF cm_observed.intro [OF assms(1)] assms(2) refl] assms(3), of "[]"]
  by auto

text \<open>
  C13. When the handler is finished and not to be run again, then at the end of the pass the local Secret and, if there is a downstream
  cluster, the project's Secret in it carry the same client secret: what was last read or written of the local Secret has some
  client secret, what was last read or written downstream has exactly the data of the project's credentials with this
  very client secret (with the address of the API, the cluster, the pool and the kind of load balancer), and the client secret is
  not empty provided that the random source never yields zero bytes.
\<close>
theorem credentials_delivered:
  assumes "cm_observes E lg" "\<And>D. downstream = Some D \<Longrightarrow> ds_observes D lg" "rand_fills E"
    and "run_state (HandleConfigSecrets E downstream cfg p ns network cluster lbType) s = (finished, s')"
  shows "\<exists>tr cs. lg s' = lg s @ tr \<and> cs \<noteq> [] \<and> stored_now ns (configSecretPrefix @ pj_name p) tr = Some cs \<and>
     (downstream \<noteq> None \<longrightarrow> delivered (credentials cfg p network cluster lbType cs) tr)"
  using hoareD [OF cm_observed.hoare_HandleConfigSecrets [OF cm_observed.intro [OF assms(1)] assms(2) refl] assms(4), of "[]"] assms(3)
  by auto

abbreviation sample_hand :: "cmworld \<Rightarrow> ctrlResult \<times> cmworld" where
  "sample_hand w \<equiv> run_state (HandleConfigSecrets mem_cm (Some mem_ds) sample_cfg sample_project ''c-1'' ''one--net'' ''c-1'' ''purelb'') w"

lemma hand_run:
  "sample_hand empty_world = (finished, snd (sample_hand empty_world))"
  "filter (\<lambda>ev. \<not> looks ev) (cw_log (snd (sample_hand empty_world))) =
     [LocalCreated (NewLocalSecret ''rancher-fip-config-p-live'' ''c-1'' ''01020304'' ''p-live''),
      RemoteCreated (credentials sample_cfg sample_project ''one--net'' ''c-1'' ''purelb'' ''01020304'')]"
  by code_simp+

lemma mem_ds_some: "Some mem_ds = Some D \<Longrightarrow> ds_observes D cw_log"
  using mem_ds_observed by simp

lemma mem_rand_fills: "rand_fills mem_cm"
  by (simp add: rand_fills_def mem_cm_def no_answer_def cm_call_def)

theorem stored_secret_kept_witness:
  "safe (hand_step sample_cfg sample_project ''c-1'' ''one--net'' ''c-1'' ''purelb'') (cw_log (snd (sample_hand empty_world))) \<and>
   filter (\<lambda>ev. \<not> looks ev) (cw_log (snd (sample_hand empty_world))) \<noteq> []"
  using stored_secret_kept [OF mem_cm_observed mem_ds_some hand_run(1)] hand_run(2)
  by (simp add: empty_world_def)

theorem credentials_delivered_witness:
  "\<exists>cs. cs \<noteq> [] \<and> stored_now ''c-1'' ''rancher-fip-config-p-live'' (cw_log (snd (sample_hand empty_world))) = Some cs \<and>
     delivered (credentials sample_cfg sample_project ''one--net'' ''c-1'' ''purelb'' cs) (cw_log (snd (sample_hand empty_world)))"
  using credentials_delivered [OF mem_cm_observed mem_ds_some mem_rand_fills hand_run(1)]
  by (simp add: empty_world_def configSecretPrefix_def sample_project_def)

section \<open>The three programs agree\<close>

definition lb_secret :: "KSecret \<Rightarrow> Secret" where
  "lb_secret s = \<lparr>sec_name = ks_name s, sec_data = ks_data s\<rparr>"

abbreviation handed :: "cmConfig \<Rightarrow> Project \<Rightarrow> string \<Rightarrow> string \<Rightarrow> Cluster \<Rightarrow> string \<Rightarrow> Secret" where
  "handed cfg p network cluster c cs \<equiv> lb_secret (credentials cfg p network cluster (load_balancer_type c) cs)"

lemma lb_type: "load_balancer_type c = ''metallb'' \<or> load_balancer_type c = ''purelb''"
  by (simp add: load_balancer_type_def)

lemma credentials_data:
  "map_of (ks_data (credentials cfg p network cluster lbType cs)) k =
     (if k = ''apiUrl'' then Some (cg_apiURL cfg) else if k = ''cluster'' then Some cluster else if k = ''clientSecret'' then Some cs
      else if k = ''project'' then Some (pj_name p) else if k = ''floatingIPPool'' then Some network
      else if k = ''loadBalancerType'' then Some lbType else None)"
  by (simp add: credentials_def NewDownstreamSecret_def)

text \<open>
  C8. The Secret the cluster manager puts into a downstream cluster is the one the load balancer controller looks for: it has the
  name the controller derives from the project and passes its check, for every pool and every cluster label. And the HTTP
  API, which reads the local Secret, accepts the project and the client secret that are in it.
\<close>
theorem credentials_accepted:
  assumes "cs \<noteq> []" "cg_apiURL cfg \<noteq> []" "cluster \<noteq> []" "pj_name p \<noteq> []" "network \<noteq> []"
    and "run_state (ListProjects A) w = (Inr (Some ps), w1)" "find_project ps (pj_name p) = Some p'" "pr_name p' = pj_name p"
    and "run_state (GetSecret A (pr_ns p') (secretName p')) w1 = (Inr (ks_data (NewLocalSecret n ns cs (pj_name p))), w2)"
  shows "sec_name (handed cfg p network cluster c cs) = secret_name (pj_name p) \<and>
     validateProjectConfig (handed cfg p network cluster c cs) network = None \<and>
     run_state (ValidateClientRequest A (sdata (handed cfg p network cluster c cs) ''project'')
       (sdata (handed cfg p network cluster c cs) ''clientSecret'')) w = (True, w2)"
proof (intro conjI)
  show "sec_name (handed cfg p network cluster c cs) = secret_name (pj_name p)"
    by (simp add: lb_secret_def credentials_def NewDownstreamSecret_def secret_name_def configSecretPrefix_def)
  have data: "sdata (handed cfg p network cluster c cs) k =
      (case map_of (ks_data (credentials cfg p network cluster (load_balancer_type c) cs)) k of None \<Rightarrow> [] | Some v \<Rightarrow> v)" for k
    by (simp add: sdata_def lb_secret_def getz_def)
  show "validateProjectConfig (handed cfg p network cluster c cs) network = None"
    using assms(1-5) lb_type [of c] unfolding validateProjectConfig_def
    by (auto simp: data credentials_data Let_def)
  show "run_state (ValidateClientRequest A (sdata (handed cfg p network cluster c cs) ''project'')
       (sdata (handed cfg p network cluster c cs) ''clientSecret'')) w = (True, w2)"
    using assms(6-9) by (simp add: ValidateClientRequest_def data credentials_data NewLocalSecret_def)
qed

definition sample_api_world :: amem where
  "sample_api_world =
     \<lparr>a_projects = [\<lparr>pr_name = ''p-live'', pr_ns = ''c-1''\<rparr>],
      a_secrets = [((''c-1'', ''rancher-fip-config-p-live''), ks_data (NewLocalSecret [] [] ''01020304'' ''p-live''))],
      a_fips = [], a_pools = [], a_counter = 0, a_left = 5, a_grant = None\<rparr>"

definition sample_cluster :: Cluster where
  "sample_cluster = \<lparr>cu_name = ''c-1'', cu_displayName = ''one'', cu_labels = Some [(''rancher-fip'', ''enabled'')]\<rparr>"

theorem credentials_accepted_witness:
  "sec_name (handed sample_cfg sample_project ''one--net'' ''c-1'' sample_cluster ''01020304'') = secret_name ''p-live'' \<and>
   validateProjectConfig (handed sample_cfg sample_project ''one--net'' ''c-1'' sample_cluster ''01020304'') ''one--net'' = None \<and>
   run_state (ValidateClientRequest mem_api
       (sdata (handed sample_cfg sample_project ''one--net'' ''c-1'' sample_cluster ''01020304'') ''project'')
       (sdata (handed sample_cfg sample_project ''one--net'' ''c-1'' sample_cluster ''01020304'') ''clientSecret''))
     sample_api_world = (True, sample_api_world)"
proof -
  have n: "pj_name sample_project = ''p-live''" by (simp add: sample_project_def)
  show ?thesis
    by (rule credentials_accepted [of "''01020304''" sample_cfg "''c-1''" sample_project "''one--net''" mem_api sample_api_world
          "[\<lparr>pr_name = ''p-live'', pr_ns = ''c-1''\<rparr>]" sample_api_world "\<lparr>pr_name = ''p-live'', pr_ns = ''c-1''\<rparr>" "[]" "[]",
          unfolded n]; code_simp)
qed

end
