(* ===== verification/Cm_Cleanup.thy ===== *)
theory Cm_Cleanup
  imports Mem_Cm
begin

text \<open>
  Removing credentials: the periodic sweep takes only what belongs to no listed quota, and the finalizer of a quota that is deleted
  stays until the credentials are out of the cluster or the grace window is over.
\<close>

section \<open>The sweep\<close>

definition orphan_name :: "string list \<Rightarrow> string \<Rightarrow> bool" where
  "orphan_name active n \<longleftrightarrow>
     prefix configSecretPrefix n \<and> n \<noteq> configSecretPrefix \<and> drop (length configSecretPrefix) n \<notin> set active"

fun sweeps :: "string list \<Rightarrow> cmev \<Rightarrow> bool" where
  "sweeps active (LocalDeleted ns n r) = orphan_name active n"
| "sweeps active (RemoteDeleted ns n r) = orphan_name active n"
| "sweeps active ev = looks ev"

lemma looks_sweeps: "looks ev \<Longrightarrow> sweeps active ev"
  by (cases ev) auto

lemma orphaned_name: "orphaned active s \<Longrightarrow> orphan_name active (ks_name s)"
  by (auto simp: orphaned_def orphan_name_def TrimPrefix_def Let_def prefix_def split: if_splits)

lemma emits_sweep_secrets:
  assumes "ds_observes D lg"
  shows "emits lg (sweeps active) (sweep_secrets D active ss)"
  by (induction ss)
    (auto intro!: emits_intro emits_logs [OF ds_calls(8) [OF assms]] simp: orphaned_name)

context cm_observed begin

lemma emits_delete_all: "emits lg (sweeps active) (delete_all E (orphaned active) ss)"
  by (induction ss) (auto intro!: emits_intro emits_logs [OF call(10)] simp: orphaned_name)

lemma emits_look: "emits lg looks m \<Longrightarrow> emits lg (sweeps active) m"
  by (erule emits_mono) (rule looks_sweeps)

lemma emits_sweep_cluster: "emits lg (sweeps active) (sweep_cluster E cfg active ns)"
  unfolding sweep_cluster_def
  by (intro emits_intro emits_look emits_client looks_sweeps emits_sweep_secrets)
    (auto intro!: emits_logs [OF ds_calls(9)])

lemma emits_sweep_clusters: "emits lg (sweeps active) (sweep_clusters E cfg active nss)"
  by (induction nss) (auto intro!: emits_intro emits_sweep_cluster)

lemma hoare_sweep:
  "hoare lg (\<lambda>h. h = []) (sweepOrphanedConfigSecrets E cfg)
     (\<lambda>r h. h = [] \<or> (\<exists>active rest. h = QuotasListed active # rest \<and> list_all (sweeps active) rest \<and> (active = [] \<longrightarrow> rest = [])))"
  (is "hoare lg _ _ (\<lambda>r h. ?Q h)")
  unfolding sweepOrphanedConfigSecrets_def
proof (rule hoare_try [where R = "\<lambda>r h. case r of Inl e \<Rightarrow> h = [] | Inr active \<Rightarrow> h = [QuotasListed active]"])
  show "hoare lg (\<lambda>h. h = []) (CmListQuotas E) (\<lambda>r h. case r of Inl e \<Rightarrow> h = [] | Inr active \<Rightarrow> h = [QuotasListed active])"
    by (rule hoare_logs [OF call(3)]) (simp add: on_value_def split: sum.splits)
next
  fix active
  let ?K = "\<lambda>h. \<exists>rest. h = QuotasListed active # rest \<and> list_all (sweeps active) rest"
  have K: "keeps (sweeps active) ?K" by (auto simp: keeps_def)
  show "hoare lg (\<lambda>h. case Inr active of Inl e \<Rightarrow> h = [] | Inr a \<Rightarrow> h = [QuotasListed a])
     (if active = [] then State_Monad.return (Inr 0) else try_with (localConfigSecretNamespaces E)
        (\<lambda>e. Inl (Wrap ''unable to find local config secrets'' e)) (\<lambda>namespaces. do {
         l \<leftarrow> deleteOrphanedLocalConfigSecrets E active;
         n \<leftarrow> sweep_clusters E cfg active (CmVisit E namespaces);
         State_Monad.return (Inr ((case l of Inl e \<Rightarrow> 0 | Inr k \<Rightarrow> k) + n)) })) (\<lambda>r h. ?Q h)"
    unfolding localConfigSecretNamespaces_def deleteOrphanedLocalConfigSecrets_def
    by (rule hoare_if, force intro: hoare_return, rule hoare_weaken [OF emitsD [OF _ K]])
      (intro emits_intro emits_look emits_sweep_clusters emits_delete_all, auto)
qed simp

end

text \<open>
  C11. A sweep lists the quotas first and then removes nothing, in the local cluster or in a downstream one, but Secrets that are named
  after a project without a quota in that list; everything else it does is reading. When no quota is listed (which may
  mean that the custom resource is not there yet) it does nothing at all.
\<close>
theorem sweep_spares_live:
  assumes "cm_observes E lg" "run_state (sweepOrphanedConfigSecrets E cfg) s = (r, s')"
  shows "\<exists>tr. lg s' = lg s @ tr \<and>
    (tr = [] \<or> (\<exists>active rest. tr = QuotasListed active # rest \<and> list_all (sweeps active) rest \<and> (active = [] \<longrightarrow> rest = [])))"
  using hoareD [OF cm_observed.hoare_sweep [OF cm_observed.intro [OF assms(1)]] assms(2), of "[]"] by simp

definition sweep_world :: cmworld where
  "sweep_world =
     \<lparr>cw_quotas = [\<lparr>qm_name = ''p-live'', qm_finalizers = [], qm_deletion = None, qm_rv = 0\<rparr>], cw_projects = [],
      cw_clusters = [\<lparr>cu_name = ''c-1'', cu_displayName = ''one'', cu_labels = Some [(''rancher-fip'', ''enabled'')]\<rparr>],
      cw_pools = [],
      cw_secrets = [\<lparr>ks_ns = ''c-1'', ks_name = ''rancher-fip-config-p-live'', ks_data = []\<rparr>,
                    \<lparr>ks_ns = ''c-1'', ks_name = ''rancher-fip-config-p-gone'', ks_data = []\<rparr>,
                    \<lparr>ks_ns = ''fleet-default'', ks_name = ''c-1-kubeconfig'', ks_data = [(''value'', ''cfg'')]\<rparr>],
      cw_remote = [\<lparr>ks_ns = ''lb'', ks_name = ''rancher-fip-config-p-gone'', ks_data = []\<rparr>,
                   \<lparr>ks_ns = ''lb'', ks_name = ''rancher-fip-config-p-live'', ks_data = []\<rparr>],
      cw_fips = [], cw_now = 0, cw_log = []\<rparr>"

lemma sweep_run:
  "run_state (sweepOrphanedConfigSecrets mem_cm sample_cfg) sweep_world =
     (Inr 2, snd (run_state (sweepOrphanedConfigSecrets mem_cm sample_cfg) sweep_world))"
  "filter (\<lambda>ev. \<not> looks ev) (cw_log (snd (run_state (sweepOrphanedConfigSecrets mem_cm sample_cfg) sweep_world))) =
     [LocalDeleted ''c-1'' ''rancher-fip-config-p-gone'' None, RemoteDeleted ''lb'' ''rancher-fip-config-p-gone'' None]"
  by code_simp+

theorem sweep_spares_live_witness:
  "(\<exists>tr. cw_log (snd (run_state (sweepOrphanedConfigSecrets mem_cm sample_cfg) sweep_world)) = tr \<and>
     (\<exists>active rest. tr = QuotasListed active # rest \<and> list_all (sweeps active) rest)) \<and>
   LocalDeleted ''c-1'' ''rancher-fip-config-p-gone'' None \<in> set (cw_log (snd (run_state (sweepOrphanedConfigSecrets mem_cm sample_cfg) sweep_world)))"
  (is "?A \<and> ?B")
proof -
  have "LocalDeleted ''c-1'' ''rancher-fip-config-p-gone'' None
      \<in> set (filter (\<lambda>ev. \<not> looks ev) (cw_log (snd (run_state (sweepOrphanedConfigSecrets mem_cm sample_cfg) sweep_world))))"
    by (simp only: sweep_run(2) list.set insert_iff simp_thms)
  then have B: ?B by (simp only: set_filter mem_Collect_eq)
  from sweep_spares_live [OF mem_cm_observed sweep_run(1)] B show ?thesis
    by (auto simp: sweep_world_def)
qed

section \<open>Deletion of a quota\<close>

text \<open>
  The Secret of the project is out of the way: there is none, or the cluster it belongs to is gone or is not served or has no
  client, or it was removed there (or was missing).
\<close>

definition remote_settled :: "cmConfig \<Rightarrow> string \<Rightarrow> Cluster \<Rightarrow> cmev list \<Rightarrow> bool" where
  "remote_settled cfg p c h \<longleftrightarrow>
     skips_downstream c \<or> cg_lbNamespace cfg = [] \<or> NoClient \<in> set h \<or>
     (\<exists>ss. SecretsListed (Some ''fleet-default'') ss \<in> set h \<and> find_kubeconfig c ss = None) \<or>
     (\<exists>r. RemoteDeleted (cg_lbNamespace cfg) (configSecretPrefix @ p) r \<in> set h \<and> (\<forall>e. r = Some e \<longrightarrow> IsNotFound e))"

definition located :: "string \<Rightarrow> string \<Rightarrow> cmev list \<Rightarrow> bool" where
  "located p ns h \<longleftrightarrow> (\<exists>ss. SecretsListed None ss \<in> set h \<and>
     ns = (case find (\<lambda>s. ks_name s = configSecretPrefix @ p) ss of None \<Rightarrow> [] | Some s \<Rightarrow> ks_ns s))"

definition cleaned :: "cmConfig \<Rightarrow> string \<Rightarrow> string \<Rightarrow> cmev list \<Rightarrow> bool" where
  "cleaned cfg p ns h \<longleftrightarrow>
     ns = [] \<or> ClusterMissing ns \<in> set h \<or> (\<exists>c. ClusterRead ns c \<in> set h \<and> remote_settled cfg p c h)"

definition local_tried :: "string \<Rightarrow> cmev list \<Rightarrow> bool" where
  "local_tried p h \<longleftrightarrow> (\<exists>ss. SecretsListed None ss \<in> set h \<and>
     (\<forall>s \<in> set ss. ks_name s = configSecretPrefix @ p \<longrightarrow> (\<exists>r. LocalDeleted (ks_ns s) (ks_name s) r \<in> set h)))"

definition grace_over :: "QuotaMeta \<Rightarrow> cmev list \<Rightarrow> bool" where
  "grace_over q h \<longleftrightarrow> (\<exists>t d. Clock t \<in> set h \<and> qm_deletion q = Some d \<and> deletionGraceWindow < t - d)"

fun deletion_step :: "cmConfig \<Rightarrow> QuotaMeta \<Rightarrow> cmev list \<Rightarrow> cmev \<Rightarrow> bool" where
  "deletion_step cfg q h (QuotaPatched q') \<longleftrightarrow>
     qm_name q' = qm_name q \<and> \<not> containsFinalizer q' \<and>
     (grace_over q h \<or> (\<exists>ns. located (qm_name q) ns h \<and> cleaned cfg (qm_name q) ns h) \<and> local_tried (qm_name q) h)"
| "deletion_step cfg q h (LocalDeleted ns n r) \<longleftrightarrow> n = configSecretPrefix @ qm_name q"
| "deletion_step cfg q h (RemoteDeleted ns n r) \<longleftrightarrow> n = configSecretPrefix @ qm_name q"
| "deletion_step cfg q h ev \<longleftrightarrow> looks ev"

text \<open>Everything but the release of the finalizer; such events keep what is known already.\<close>

fun removes :: "string \<Rightarrow> cmev \<Rightarrow> bool" where
  "removes p (LocalDeleted ns n r) \<longleftrightarrow> n = configSecretPrefix @ p"
| "removes p (RemoteDeleted ns n r) \<longleftrightarrow> n = configSecretPrefix @ p"
| "removes p ev \<longleftrightarrow> looks ev"

lemma looks_removes: "looks ev \<Longrightarrow> removes p ev"
  by (cases ev) auto

lemma removes_step: "removes (qm_name q) ev \<Longrightarrow> deletion_step cfg q h ev"
  by (cases ev) auto

lemma looks_step: "looks ev \<Longrightarrow> deletion_step cfg q h ev"
  by (rule removes_step [OF looks_removes])

lemma keeps_known:
  "keeps B (located p ns)" "keeps B (remote_settled cfg p c)" "keeps B (cleaned cfg p ns)" "keeps B (local_tried p)"
  "keeps B (grace_over q)" "keeps B (\<lambda>h. ev \<in> set h)"
  unfolding keeps_def located_def remote_settled_def cleaned_def local_tried_def grace_over_def
  by (auto; blast)+

lemmas frames = keeps_known keeps_conj keeps_const

lemma hoare_but_not_found:
  "hoare lg P m (\<lambda>r h. (\<forall>e. r = Some e \<longrightarrow> \<not> IsNotFound e \<longrightarrow> Q r h) \<and> ((\<forall>e. r = Some e \<longrightarrow> IsNotFound e) \<longrightarrow> Q None h)) \<Longrightarrow>
   hoare lg P (but_not_found m) Q"
  unfolding but_not_found_def
  by (erule hoare_bind) (auto intro!: hoare_return split: option.splits)

context cm_observed begin

lemma emits_looks: "emits lg looks m \<Longrightarrow> emits lg (removes p) m"
  by (erule emits_mono) (rule looks_removes)

lemma hoare_getDownstreamClient:
  "hoare lg (\<lambda>_. True) (getDownstreamClient E c) (\<lambda>r h. \<forall>e. r = Inl e \<longrightarrow> IsNotFound e \<longrightarrow> remote_settled cfg p c h)"
  unfolding getDownstreamClient_def
proof (rule hoare_try [where R = "\<lambda>r h. case r of Inl e \<Rightarrow> IsNotFound e \<longrightarrow> NoClient \<in> set h | Inr ss \<Rightarrow> SecretsListed (Some ''fleet-default'') ss \<in> set h"])
  show "hoare lg (\<lambda>_. True) (CmListSecrets E (Some ''fleet-default'')) (\<lambda>r h. case r of Inl e \<Rightarrow> IsNotFound e \<longrightarrow> NoClient \<in> set h | Inr ss \<Rightarrow> SecretsListed (Some ''fleet-default'') ss \<in> set h)"
    by (rule hoare_logs [OF call(5)]) (simp add: on_value_def no_client_def split: sum.splits)
  have "hoare lg (\<lambda>_. True) (CmNewClient E config) (\<lambda>r h. \<forall>e. r = Inl e \<longrightarrow> IsNotFound e \<longrightarrow> remote_settled cfg p c h)" for config
    by (rule hoare_logs [OF call(13)]) (auto simp: no_client_def remote_settled_def)
  then show "hoare lg (\<lambda>h. case Inr ss of Inl e \<Rightarrow> IsNotFound e \<longrightarrow> NoClient \<in> set h | Inr ss \<Rightarrow> SecretsListed (Some ''fleet-default'') ss \<in> set h)
    (case find_kubeconfig c ss of
       None \<Rightarrow> State_Monad.return (Inl NotFound)
     | Some s \<Rightarrow>
         (case map_of (ks_data s) ''value'' of
            None \<Rightarrow> State_Monad.return (Inl (Errorf (''kubeconfig secret '' @ ks_name s @ '' does not contain 'value' key'')))
          | Some kubeconfig \<Rightarrow>
              (case CmRestConfig E kubeconfig of
                 Inl e \<Rightarrow> State_Monad.return (Inl (Wrap ''unable to create REST config from kubeconfig'' e))
               | Inr config \<Rightarrow> CmNewClient E config)))
    (\<lambda>r h. \<forall>e. r = Inl e \<longrightarrow> IsNotFound e \<longrightarrow> remote_settled cfg p c h)" for ss
    by (auto intro!: hoare_return simp: remote_settled_def dest: rest_config split: option.splits sum.splits intro: hoare_pre)
qed (auto simp: remote_settled_def)

lemma emits_deleteDownstream: "emits lg (removes p) (deleteDownstreamConfigSecret E cfg c p grace)"
  unfolding deleteDownstreamConfigSecret_def
  by (intro emits_if emits_return emits_client looks_removes emits_bind) (auto intro: emits_logs [OF ds_calls(8)])

lemma hoare_deleteDownstream:
  "hoare lg (\<lambda>_. True) (deleteDownstreamConfigSecret E cfg c p grace) (\<lambda>r h. r = None \<longrightarrow> grace \<or> remote_settled cfg p c h)"
  unfolding deleteDownstreamConfigSecret_def
proof (intro hoare_if hoare_client [OF hoare_getDownstreamClient])
  fix D assume "ds_observes D lg"
  note del = hoare_logs [OF ds_calls(8) [OF this], where Q = "\<lambda>r h. RemoteDeleted (cg_lbNamespace cfg) (configSecretPrefix @ p) r \<in> set h"]
  show "hoare lg (\<lambda>h. \<forall>e. Inr D = Inl e \<longrightarrow> IsNotFound e \<longrightarrow> remote_settled cfg p c h)
     (do { r \<leftarrow> DsDeleteSecret D (cg_lbNamespace cfg) (configSecretPrefix @ p);
        State_Monad.return (case r of None \<Rightarrow> None | Some e \<Rightarrow> if IsNotFound e then None else unless_expired grace e) })
     (\<lambda>r h. r = None \<longrightarrow> grace \<or> remote_settled cfg p c h)"
    by (rule hoare_bind [OF del]) (auto intro!: hoare_return simp: remote_settled_def unless_expired_def split: option.splits if_splits)
qed (auto intro!: hoare_return simp: remote_settled_def unless_expired_def)

lemma hoare_clean_downstream:
  "hoare lg (\<lambda>_. True) (clean_downstream E cfg ns p grace) (\<lambda>r h. r = None \<longrightarrow> grace \<or> cleaned cfg p ns h)"
  unfolding clean_downstream_def
proof (intro hoare_if)
  show "ns = [] \<Longrightarrow> hoare lg (\<lambda>_. True) (State_Monad.return None) (\<lambda>r h. r = None \<longrightarrow> grace \<or> cleaned cfg p ns h)"
    by (rule hoare_return) (simp add: cleaned_def)
  note get = hoare_logs [OF call(4) [where n = ns], where P = "\<lambda>_. True" and
    Q = "\<lambda>r h. case r of Inl e \<Rightarrow> IsNotFound e \<longrightarrow> ClusterMissing ns \<in> set h | Inr c \<Rightarrow> True \<and> ClusterRead ns c \<in> set h"]
  show "hoare lg (\<lambda>_. True) (do { r \<leftarrow> CmGetCluster E ns;
        case r of Inl e \<Rightarrow> State_Monad.return (if IsNotFound e then None else unless_expired grace e)
        | Inr cluster \<Rightarrow> deleteDownstreamConfigSecret E cfg cluster p grace }) (\<lambda>r h. r = None \<longrightarrow> grace \<or> cleaned cfg p ns h)"
  proof (rule hoare_bind [OF get])
    have "hoare lg (\<lambda>h. True \<and> ClusterRead ns c \<in> set h) (deleteDownstreamConfigSecret E cfg c p grace) (\<lambda>r h. r = None \<longrightarrow> grace \<or> cleaned cfg p ns h)" for c
      by (rule hoare_post [OF hoare_frame [OF emits_deleteDownstream keeps_known(6) hoare_deleteDownstream]]) (auto simp: cleaned_def)
    then show "hoare lg (\<lambda>h. case x of Inl e \<Rightarrow> IsNotFound e \<longrightarrow> ClusterMissing ns \<in> set h | Inr c \<Rightarrow> True \<and> ClusterRead ns c \<in> set h)
        (case x of Inl e \<Rightarrow> State_Monad.return (if IsNotFound e then None else unless_expired grace e)
         | Inr cluster \<Rightarrow> deleteDownstreamConfigSecret E cfg cluster p grace) (\<lambda>r h. r = None \<longrightarrow> grace \<or> cleaned cfg p ns h)" for x
      by (cases x) (auto intro!: hoare_return simp: cleaned_def unless_expired_def split: if_splits)
  qed (auto split: sum.splits)
qed

lemma emits_clean_downstream: "emits lg (removes p) (clean_downstream E cfg ns p grace)"
  unfolding clean_downstream_def by (intro emits_intro emits_looks emits_deleteDownstream)

lemma hoare_findLocal:
  "hoare lg (\<lambda>_. True) (findLocalConfigSecretNamespace E p) (\<lambda>r h. \<forall>ns. r = Inr ns \<longrightarrow> located p ns h)"
  unfolding findLocalConfigSecretNamespace_def
  by (rule hoare_try [where R = "\<lambda>r h. \<forall>ss. r = Inr ss \<longrightarrow> SecretsListed None ss \<in> set h", OF hoare_logs [OF call(5)]])
    (auto intro!: hoare_return simp: on_value_def located_def)

lemma emits_findLocal: "emits lg (removes p') (findLocalConfigSecretNamespace E p)"
  unfolding findLocalConfigSecretNamespace_def by (intro emits_intro emits_looks)

lemma emits_delete_named: "(\<And>s. doomed s \<Longrightarrow> ks_name s = configSecretPrefix @ p) \<Longrightarrow> emits lg (removes p) (delete_all E doomed ss)"
  by (induction ss) (auto intro!: emits_intro emits_logs [OF call(10)])

lemma emits_deleteLocal: "emits lg (removes p) (deleteLocalConfigSecretsByName E p)"
  unfolding deleteLocalConfigSecretsByName_def by (intro emits_intro emits_looks emits_delete_named)

lemma hoare_delete_all:
  "hoare lg (\<lambda>_. True) (delete_all E doomed ss) (\<lambda>_ h. \<forall>s \<in> set ss. doomed s \<longrightarrow> (\<exists>r. LocalDeleted (ks_ns s) (ks_name s) r \<in> set h))"
proof (induction ss)
  case (Cons s ss)
  let ?K = "\<lambda>h. \<exists>r. LocalDeleted (ks_ns s) (ks_name s) r \<in> set h"
  let ?Q = "\<lambda>h. \<forall>x \<in> set (s # ss). doomed x \<longrightarrow> (\<exists>r. LocalDeleted (ks_ns x) (ks_name x) r \<in> set h)"
  have K: "keeps (\<lambda>_. True) ?K" by (auto simp: keeps_def)
  have del: "hoare lg (\<lambda>_. True) (but_not_found (CmDeleteSecret E s)) (\<lambda>_. ?K)"
    by (rule hoare_but_not_found, rule hoare_logs [OF call(10)]) auto
  have all: "emits lg (\<lambda>_. True) (delete_all E doomed ss)"
    by (induction ss) (auto intro!: emits_intro emits_logs [OF call(10)] simp: list_all_iff)
  have rest: "hoare lg ?K (do { n \<leftarrow> delete_all E doomed ss; State_Monad.return (if r = None then Suc n else n) }) (\<lambda>_. ?Q)" for r
    by (rule hoare_bind [OF hoare_pre [OF hoare_frame [OF all K Cons.IH]]]) (auto intro!: hoare_return)
  show ?case unfolding delete_all.simps
    by (rule hoare_if, rule hoare_post [OF Cons.IH], simp, rule hoare_bind [OF del rest])
qed (auto intro: hoare_return)

lemma hoare_deleteLocal:
  "hoare lg (\<lambda>_. True) (deleteLocalConfigSecretsByName E p) (\<lambda>r h. r = None \<longrightarrow> local_tried p h)"
  unfolding deleteLocalConfigSecretsByName_def
proof (rule hoare_try [where R = "\<lambda>r h. \<forall>ss. r = Inr ss \<longrightarrow> True \<and> SecretsListed None ss \<in> set h", OF hoare_logs [OF call(5)]])
  fix ss
  let ?D = "\<lambda>s. ks_name s = configSecretPrefix @ p"
  have all: "emits lg (removes p) (delete_all E ?D ss)" by (rule emits_delete_named)
  show "hoare lg (\<lambda>h. \<forall>ss'. Inr ss = Inr ss' \<longrightarrow> True \<and> SecretsListed None ss' \<in> set h)
     (do { _ \<leftarrow> delete_all E ?D ss; State_Monad.return None }) (\<lambda>r h. r = None \<longrightarrow> local_tried p h)"
    by (rule hoare_pre, rule hoare_bind [OF hoare_frame [OF all keeps_known(6) hoare_delete_all]])
      (auto intro!: hoare_return simp: local_tried_def)
qed (auto simp: on_value_def)

end

text \<open>The release of the finalizer, once it is allowed.\<close>

definition released_ok :: "cmConfig \<Rightarrow> QuotaMeta \<Rightarrow> cmev list \<Rightarrow> bool" where
  "released_ok cfg q h \<longleftrightarrow>
     grace_over q h \<or> (\<exists>ns. located (qm_name q) ns h \<and> cleaned cfg (qm_name q) ns h) \<and> local_tried (qm_name q) h"

lemma keeps_released_ok: "keeps B (released_ok cfg q)"
  unfolding released_ok_def by (intro keeps_disj keeps_conj keeps_ex keeps_known)

lemma deletion_step_patch:
  "deletion_step cfg q h (QuotaPatched q') \<longleftrightarrow> qm_name q' = qm_name q \<and> \<not> containsFinalizer q' \<and> released_ok cfg q h"
  by (simp add: released_ok_def)

lemma dropFinalizer_gone: "\<not> containsFinalizer (dropFinalizer q)" "qm_name (dropFinalizer q) = qm_name q"
  by (simp_all add: containsFinalizer_def dropFinalizer_def)

context cm_observed begin

lemma hoare_release:
  "hoare lg (\<lambda>h. safe (deletion_step cfg q) h \<and> released_ok cfg q h) (releaseCleanupFinalizer E (qm_name q))
     (\<lambda>_ h. safe (deletion_step cfg q) h \<and> released_ok cfg q h)"
  unfolding releaseCleanupFinalizer_def
proof (rule hoare_cm_retry)
  let ?K = "\<lambda>h. safe (deletion_step cfg q) h \<and> released_ok cfg q h"
  have K: "keeps looks ?K" by (intro keeps_conj keeps_safe keeps_released_ok looks_step)
  have get: "hoare lg ?K (CmGetQuota E (qm_name q)) (\<lambda>r h. ?K h \<and> (\<forall>fresh. r = Inr fresh \<longrightarrow> qm_name fresh = qm_name q))"
    (is "hoare lg _ _ (\<lambda>r h. _ \<and> ?C r)")
  proof (rule hoare_logs_result [OF call(1)])
    show "run_state (CmGetQuota E (qm_name q)) s = (r, s') \<Longrightarrow> ?C r" for s r s' by (auto dest: quota_name)
    show "?K h \<Longrightarrow> ?C r \<Longrightarrow> ?K (h @ on_value (\<lambda>x. [QuotaRead (qm_name q)]) r) \<and> ?C r" for h r
      by (cases r) (use K in \<open>simp_all add: on_value_def keeps_def\<close>)
  qed
  have patched: "?K (h @ on_success (QuotaPatched (dropFinalizer fresh)) r)" if "?K h" "qm_name fresh = qm_name q" for h r fresh
    using that keeps_released_ok [of "\<lambda>_. True" cfg q, unfolded keeps_def]
    by (simp add: on_success_def safe_snoc deletion_step_patch dropFinalizer_gone del: deletion_step.simps)
  have patch: "hoare lg ?K (CmPatchQuota E (dropFinalizer fresh)) (\<lambda>r h. ?K h)" if "qm_name fresh = qm_name q" for fresh
    by (rule hoare_logs [OF call(2)]) (rule patched [OF _ that])
  have attempt: "hoare lg ?K (if \<not> containsFinalizer fresh then State_Monad.return None
      else but_not_found (CmPatchQuota E (dropFinalizer fresh))) (\<lambda>_. ?K)" if "qm_name fresh = qm_name q" for fresh
    by (rule hoare_if, rule hoare_return, assumption, rule hoare_but_not_found, rule hoare_post [OF patch [OF that]]) blast
  show "hoare lg ?K (release_attempt E (qm_name q)) (\<lambda>_. ?K)"
    unfolding release_attempt_def
    by (rule hoare_bind [OF get], rule hoare_sum, rule hoare_return, simp, hypsubst, rule hoare_assume, rule attempt) simp
qed

lemma hoare_handleQuotaDeletion:
  "hoare lg (safe (deletion_step cfg q)) (handleQuotaDeletion E cfg q) (\<lambda>_. safe (deletion_step cfg q))"
proof -
  let ?p = "qm_name q"
  define S where "S = safe (deletion_step cfg q)"
  have K: "keeps (removes ?p) S" unfolding S_def by (rule keeps_safe) (rule removes_step)
  define A where "A = (\<lambda>grace h. S h \<and> (grace \<longrightarrow> grace_over q h))"
  have A: "keeps (removes ?p) (A grace)" for grace unfolding A_def by (intro keeps_conj keeps_imp K keeps_known)
  have clock: "hoare lg S (CmNow E) (\<lambda>t h. S h \<and> Clock t \<in> set h)"
    by (rule hoare_logs [OF call(12)]) (use K in \<open>auto simp: keeps_def\<close>)
  have find: "hoare lg (A grace) (findLocalConfigSecretNamespace E ?p) (\<lambda>r h. (\<forall>ns. r = Inr ns \<longrightarrow> located ?p ns h) \<and> A grace h)" for grace
    by (rule hoare_pre [OF hoare_frame [OF emits_findLocal A hoare_findLocal]]) simp
  define L where "L = (\<lambda>grace ns h. A grace h \<and> (grace \<or> located ?p ns h))"
  have L: "keeps (removes ?p) (L grace ns)" for grace ns unfolding L_def by (intro keeps_conj keeps_disj keeps_const keeps_known A)
  have clean: "hoare lg (L grace ns) (clean_downstream E cfg ns ?p grace) (\<lambda>r h. (r = None \<longrightarrow> grace \<or> cleaned cfg ?p ns h) \<and> L grace ns h)" for grace ns
    by (rule hoare_pre [OF hoare_frame [OF emits_clean_downstream L hoare_clean_downstream]]) simp
  define M where "M = (\<lambda>grace ns h. (grace \<or> cleaned cfg ?p ns h) \<and> L grace ns h)"
  have M: "keeps (removes ?p) (M grace ns)" for grace ns unfolding M_def by (intro keeps_conj keeps_imp keeps_disj keeps_const keeps_known L)
  have local: "hoare lg (M grace ns) (deleteLocalConfigSecretsByName E ?p) (\<lambda>r h. (r = None \<longrightarrow> local_tried ?p h) \<and> M grace ns h)" for grace ns
    by (rule hoare_pre [OF hoare_frame [OF emits_deleteLocal M hoare_deleteLocal]]) simp
  have fin: "hoare lg (\<lambda>h. (x = None \<longrightarrow> local_tried ?p h) \<and> M grace ns h)
     (case (case x of None \<Rightarrow> None | Some e \<Rightarrow> unless_expired grace e) of
        Some e \<Rightarrow> State_Monad.return (failed e)
      | None \<Rightarrow> check_with (releaseCleanupFinalizer E ?p) failed (State_Monad.return finished)) (\<lambda>_. S)" for grace ns x
  proof (rule hoare_option)
    assume none: "(case x of None \<Rightarrow> None | Some e \<Rightarrow> unless_expired grace e) = None"
    have "hoare lg (\<lambda>h. S h \<and> released_ok cfg q h) (check_with (releaseCleanupFinalizer E ?p) failed (State_Monad.return finished)) (\<lambda>_. S)"
      unfolding S_def by (rule hoare_check [OF hoare_release]) (auto intro: hoare_return)
    then show "hoare lg (\<lambda>h. (x = None \<longrightarrow> local_tried ?p h) \<and> M grace ns h)
        (check_with (releaseCleanupFinalizer E ?p) failed (State_Monad.return finished)) (\<lambda>_. S)"
      by (rule hoare_pre) (use none in \<open>auto simp: M_def L_def A_def released_ok_def unless_expired_def split: option.splits if_splits\<close>)
  qed (auto intro!: hoare_return simp: M_def L_def A_def)
  have branch: "hoare lg (\<lambda>h. (\<forall>ns. x = Inr ns \<longrightarrow> located ?p ns h) \<and> A grace h)
     (case (case x of Inr ns \<Rightarrow> Inr ns | Inl e \<Rightarrow> if grace then Inr [] else Inl e) of
        Inl e \<Rightarrow> State_Monad.return (failed e)
      | Inr ns \<Rightarrow> check_with (clean_downstream E cfg ns ?p grace) failed (do {
            d \<leftarrow> deleteLocalConfigSecretsByName E ?p;
            case (case d of None \<Rightarrow> None | Some e \<Rightarrow> unless_expired grace e) of
              Some e \<Rightarrow> State_Monad.return (failed e)
            | None \<Rightarrow> check_with (releaseCleanupFinalizer E ?p) failed (State_Monad.return finished) })) (\<lambda>_. S)" for grace x
  proof (rule hoare_sum)
    fix ns assume x: "(case x of Inr ns \<Rightarrow> Inr ns | Inl e \<Rightarrow> if grace then Inr [] else Inl e) = Inr ns"
    have pre: "L grace ns h" if "(\<forall>ns. x = Inr ns \<longrightarrow> located ?p ns h) \<and> A grace h" for h
      using x that by (auto simp: L_def split: sum.splits if_splits)
    show "hoare lg (\<lambda>h. (\<forall>ns. x = Inr ns \<longrightarrow> located ?p ns h) \<and> A grace h)
       (check_with (clean_downstream E cfg ns ?p grace) failed (do {
            d \<leftarrow> deleteLocalConfigSecretsByName E ?p;
            case (case d of None \<Rightarrow> None | Some e \<Rightarrow> unless_expired grace e) of
              Some e \<Rightarrow> State_Monad.return (failed e)
            | None \<Rightarrow> check_with (releaseCleanupFinalizer E ?p) failed (State_Monad.return finished) })) (\<lambda>_. S)"
      by (rule hoare_pre [OF hoare_check [OF clean _ hoare_pre [OF hoare_bind [OF local fin]]] pre])
        (auto simp: M_def L_def A_def)
  qed (auto intro!: hoare_return simp: A_def)
  show ?thesis
    unfolding handleQuotaDeletion_def S_def [symmetric]
    by (rule hoare_bind [OF clock], rule hoare_let, rule hoare_bind [OF hoare_pre [OF find] branch])
      (auto simp: A_def grace_over_def split: option.splits)
qed

end

text \<open>
  C9. While a quota is deleted, its finalizer goes only in one of two situations. Either the clock had passed the deletion time by more
  than the grace window. Or a deletion of every local Secret of the project was tried, with any result, and one of these was observed: the list
  of local Secrets has none of the project; the cluster it belongs to does not exist; the deletion of the downstream Secret succeeded or found
  nothing; or the downstream cluster was not reached at all, because it is not served (\<open>skips_downstream\<close>), no namespace is configured for
  the balancer, or there is no kubeconfig or client for it. In the last cases the Secret may remain in the downstream cluster. Nothing but
  Secrets with the name of this project's Secret is deleted, locally or downstream.
\<close>

theorem finalizer_waits_for_cleanup:
  assumes "cm_observes E lg" "run_state (handleQuotaDeletion E cfg q) s = (r, s')"
  shows "\<exists>tr. lg s' = lg s @ tr \<and> safe (deletion_step cfg q) tr"
  using hoareD [OF cm_observed.hoare_handleQuotaDeletion [OF cm_observed.intro [OF assms(1)]] assms(2), of "[]"] by simp

definition doomed_quota :: QuotaMeta where
  "doomed_quota = \<lparr>qm_name = ''p-gone'', qm_finalizers = [quotaCleanupFinalizer], qm_deletion = Some 0, qm_rv = 3\<rparr>"

lemma deletion_run:
  "run_state (handleQuotaDeletion mem_cm sample_cfg doomed_quota) (sweep_world\<lparr>cw_quotas := [doomed_quota]\<rparr>) =
     (finished, snd (run_state (handleQuotaDeletion mem_cm sample_cfg doomed_quota) (sweep_world\<lparr>cw_quotas := [doomed_quota]\<rparr>)))"
  "filter (\<lambda>ev. \<not> looks ev) (cw_log (snd (run_state (handleQuotaDeletion mem_cm sample_cfg doomed_quota)
       (sweep_world\<lparr>cw_quotas := [doomed_quota]\<rparr>)))) =
     [RemoteDeleted ''lb'' ''rancher-fip-config-p-gone'' None, LocalDeleted ''c-1'' ''rancher-fip-config-p-gone'' None,
      QuotaPatched (doomed_quota\<lparr>qm_finalizers := []\<rparr>)]"
  by code_simp+

theorem finalizer_waits_for_cleanup_witness:
  "safe (deletion_step sample_cfg doomed_quota)
     (cw_log (snd (run_state (handleQuotaDeletion mem_cm sample_cfg doomed_quota) (sweep_world\<lparr>cw_quotas := [doomed_quota]\<rparr>)))) \<and>
   QuotaPatched (doomed_quota\<lparr>qm_finalizers := []\<rparr>) \<in>
     set (cw_log (snd (run_state (handleQuotaDeletion mem_cm sample_cfg doomed_quota) (sweep_world\<lparr>cw_quotas := [doomed_quota]\<rparr>))))"
  (is "?A \<and> ?B")
proof
  show ?A using finalizer_waits_for_cleanup [OF mem_cm_observed deletion_run(1)] by (simp add: sweep_world_def)
  have "QuotaPatched (doomed_quota\<lparr>qm_finalizers := []\<rparr>) \<in> set (filter (\<lambda>ev. \<not> looks ev)
      (cw_log (snd (run_state (handleQuotaDeletion mem_cm sample_cfg doomed_quota) (sweep_world\<lparr>cw_quotas := [doomed_quota]\<rparr>)))))"
    by (simp only: deletion_run(2) list.set insert_iff simp_thms)
  then show ?B by (simp only: set_filter mem_Collect_eq)
qed

section \<open>The grace window\<close>

lemma unless_expired_True [simp]: "unless_expired True e = None"
  by (simp add: unless_expired_def)

lemma deleteDownstream_expired:
  "run_state (deleteDownstreamConfigSecret E cfg c p True) s = (r, s') \<Longrightarrow> r = None"
  by (auto simp: deleteDownstreamConfigSecret_def try_with_def split: if_splits prod.splits sum.splits option.splits)

lemma clean_downstream_expired:
  "run_state (clean_downstream E cfg ns p True) s = (r, s') \<Longrightarrow> r = None"
  by (auto simp: clean_downstream_def split: if_splits prod.splits sum.splits dest: deleteDownstream_expired)

text \<open>
  C16. Once the grace window is over, neither the local nor the downstream cluster can hold up the deletion of a quota, whatever
  they answer: the pass reaches the release of the finalizer, and its outcome is the outcome of that.
\<close>
theorem grace_window_frees:
  assumes "run_state (CmNow E) s = (t, s1)" "qm_deletion q = Some d" "deletionGraceWindow < t - d"
    and run: "run_state (handleQuotaDeletion E cfg q) s = (r, s')"
  shows "\<exists>s2 x. run_state (releaseCleanupFinalizer E (qm_name q)) s2 = (x, s') \<and> r = (0, x)"
  using assms(1-3) run
  by (auto simp: handleQuotaDeletion_def check_with_def split: prod.splits sum.splits option.splits if_splits
      dest!: clean_downstream_expired)

definition cut_off :: "cmworld cmenv" where
  "cut_off = mem_cm\<lparr>CmListSecrets := (\<lambda>x. no_answer (Inl Conflict)), CmGetCluster := (\<lambda>n. no_answer (Inl Conflict))\<rparr>"

theorem grace_window_frees_witness:
  "\<exists>s2 x. run_state (releaseCleanupFinalizer cut_off ''p-gone'') s2 =
     (x, snd (run_state (handleQuotaDeletion cut_off sample_cfg doomed_quota) (sweep_world\<lparr>cw_now := deletionGraceWindow + 1\<rparr>)))"
proof -
  let ?w = "sweep_world\<lparr>cw_now := deletionGraceWindow + 1\<rparr>"
  have now: "run_state (CmNow cut_off) ?w = (deletionGraceWindow + 1, ?w\<lparr>cw_log := [Clock (deletionGraceWindow + 1)]\<rparr>)"
    by code_simp
  show ?thesis
    using grace_window_frees [OF now, of doomed_quota 0 sample_cfg, OF _ _ surjective_pairing]
    by (auto simp: doomed_quota_def)
qed

text \<open>
  A failed deletion of the local Secret is logged and forgotten: the quota loses its finalizer while the Secret with the project's
  credentials stays.
\<close>
lemma local_failure_ignored:
  "(let E = mem_cm\<lparr>CmDeleteSecret := (\<lambda>s. no_answer (Some Conflict))\<rparr>;
        (r, w) = run_state (handleQuotaDeletion E sample_cfg doomed_quota) (sweep_world\<lparr>cw_quotas := [doomed_quota]\<rparr>)
    in r = finished \<and> map qm_finalizers (cw_quotas w) = [[]] \<and>
       secret_named ''c-1'' ''rancher-fip-config-p-gone'' (cw_secrets w) \<noteq> None)"
  by code_simp

end
