(* ===== verification/Cm_Guard.thy ===== *)
theory Cm_Guard
  imports Cm_Credentials Cm_Cleanup
begin

text \<open>
  The two reconcilers as wholes: neither of them writes a Secret, in the local cluster or in a downstream one, before it has read the
  quota of the project the Secret belongs to.
\<close>

section \<open>Secrets that are written\<close>

fun written :: "cmev \<Rightarrow> KSecret option" where
  "written (LocalCreated s) = Some s"
| "written (LocalUpdated s) = Some s"
| "written (RemoteCreated s) = Some s"
| "written (RemoteUpdated s) = Some s"
| "written ev = None"

text \<open>The credentials of a project, or the CA bundle that goes with them.\<close>

definition of_project :: "string \<Rightarrow> KSecret \<Rightarrow> bool" where
  "of_project p s \<longleftrightarrow> ks_name s = configSecretPrefix @ p \<or> ks_name s = ''cacerts''"

definition quota_first :: "cmev list \<Rightarrow> cmev \<Rightarrow> bool" where
  "quota_first h ev \<longleftrightarrow> (\<forall>s. written ev = Some s \<longrightarrow> (\<exists>p. QuotaRead p \<in> set h \<and> of_project p s))"

definition secretless :: "cmev \<Rightarrow> bool" where
  "secretless ev \<longleftrightarrow> written ev = None"

definition writes_for :: "string \<Rightarrow> cmev \<Rightarrow> bool" where
  "writes_for p ev \<longleftrightarrow> (\<forall>s. written ev = Some s \<longrightarrow> of_project p s)"

lemma looks_quiet: "looks ev \<Longrightarrow> secretless ev"
  by (cases ev) (auto simp: secretless_def)

lemma looks_writes: "looks ev \<Longrightarrow> writes_for p ev"
  using looks_quiet by (simp add: secretless_def writes_for_def)

lemma removes_quiet: "removes p ev \<Longrightarrow> secretless ev"
  by (cases ev) (auto simp: secretless_def)

lemma keeps_quota_first: "keeps secretless (safe quota_first)"
  by (rule keeps_safe) (simp add: secretless_def quota_first_def)

lemma keeps_quota_read: "keeps (writes_for p) (\<lambda>h. safe quota_first h \<and> QuotaRead p \<in> set h)"
  by (auto simp: keeps_def safe_snoc quota_first_def writes_for_def)

lemma hand_step_writes: "hand_step cfg p ns network cluster lbType h ev \<Longrightarrow> writes_for (pj_name p) ev"
  by (cases ev) (auto simp: writes_for_def of_project_def remote_ok_def credentials_def NewDownstreamSecret_def)

lemma safe_all: "safe G h \<Longrightarrow> (\<And>h e. G h e \<Longrightarrow> B e) \<Longrightarrow> list_all B h"
  by (induction h rule: rev_induct) (auto simp: safe_snoc)

lemma emits_safe:
  assumes "hoare lg (\<lambda>h. h = []) m (\<lambda>_ h. safe G h)" "\<And>h e. G h e \<Longrightarrow> B e"
  shows "emits lg B m"
proof (rule emitsI)
  fix P assume P: "keeps B P"
  show "hoare lg P m (\<lambda>_. P)"
    unfolding hoare_def
  proof (intro allI impI)
    fix s r s' h assume run: "run_state m s = (r, s')" and "P h"
    from hoareD [OF assms(1) run, of "[]"] obtain tr where tr: "lg s' = lg s @ tr" "safe G tr" by auto
    have "list_all B tr" by (rule safe_all [OF tr(2)]) (rule assms(2))
    from keeps_append [OF P \<open>P h\<close> this] tr(1) show "\<exists>tr. lg s' = lg s @ tr \<and> P (h @ tr)" by blast
  qed
qed

section \<open>Calls that write no Secret\<close>

definition hi_observes :: "'w helmIf \<Rightarrow> ('w \<Rightarrow> cmev list) \<Rightarrow> bool" where
  "hi_observes H lg \<longleftrightarrow>
     (\<forall>c spec. logs lg (HiInstall H c spec) (\<lambda>_. [])) \<and> (\<forall>n u. logs lg (HiRepo H n u) (\<lambda>_. [])) \<and>
     (\<forall>c n ns. logs lg (HiCheck H c n ns) (\<lambda>_. []))"

lemma hi_calls:
  assumes "hi_observes H lg"
  shows "emits lg secretless (HiInstall H c spec)" "emits lg secretless (HiRepo H n u)" "emits lg secretless (HiCheck H c n ns)"
  using assms unfolding hi_observes_def by (auto intro: emits_logs [where f = "\<lambda>_. []"])

lemma ds_quiet:
  assumes "ds_observes D lg"
  shows "emits lg secretless (DsListPods D ns)" "emits lg secretless (DsGetNs D n)" "emits lg secretless (DsCreateNs D n)"
    "emits lg secretless (DsUpdateNs D n l)" "emits lg secretless (DsGetConfigMap D ns n)" "emits lg secretless (DsCreateConfigMap D ns n d)"
    "emits lg secretless (DsUpdateConfigMap D ns n d)" "emits lg secretless (DsGetDeployment D ns n)" "emits lg secretless (DsUpdateDeployment D ns n a)"
  by (rule emits_logs, rule ds_calls [OF assms], simp)+

lemma emits_EnsureNamespace: "ds_observes D lg \<Longrightarrow> emits lg secretless (EnsureNamespace D ns)"
  unfolding EnsureNamespace_def by (intro emits_intro emits_ensure_target)

lemma emits_install_chart: "hi_observes H lg \<Longrightarrow> emits lg secretless (install_chart H config c)"
  unfolding install_chart_def by (intro emits_intro hi_calls)

lemma emits_install_balancer: "ds_observes D lg \<Longrightarrow> hi_observes H lg \<Longrightarrow> emits lg secretless (install_balancer H D cfg config t)"
  unfolding install_balancer_def by (intro emits_intro hi_calls emits_EnsureNamespace emits_install_chart)

lemma emits_option_eq:
  "(v = None \<Longrightarrow> emits lg B m) \<Longrightarrow> (\<And>x. v = Some x \<Longrightarrow> emits lg B (f x)) \<Longrightarrow> emits lg B (case v of None \<Rightarrow> m | Some x \<Rightarrow> f x)"
  by (cases v) auto

lemma stable_option_eq:
  "(v = None \<Longrightarrow> stable lg K m) \<Longrightarrow> (\<And>x. v = Some x \<Longrightarrow> stable lg K (f x)) \<Longrightarrow> stable lg K (case v of None \<Rightarrow> m | Some x \<Rightarrow> f x)"
  by (cases v) auto

lemma stable_prod: "(\<And>x y. v = (x, y) \<Longrightarrow> stable lg K (f x y)) \<Longrightarrow> stable lg K (case v of (x, y) \<Rightarrow> f x y)"
  by (cases v) auto

lemma stable_try_results:
  assumes "stable lg K m" "\<And>s x s'. run_state m s = (Inr x, s') \<Longrightarrow> C x" "\<And>x. C x \<Longrightarrow> stable lg K (f x)"
  shows "stable lg K (try_with m g f)"
  using assms unfolding stable_def by (intro hoare_try_results [where C = C]) auto

lemma quiet_stable: "emits lg secretless m \<Longrightarrow> stable lg (safe quota_first) m"
  by (erule stable_emits) (rule keeps_quota_first)

context cm_observed begin

lemma quiet_call: "emits lg looks m \<Longrightarrow> emits lg secretless m"
  by (erule emits_mono) (rule looks_quiet)

lemma emits_label_namespace: "ds_observes D lg \<Longrightarrow> emits lg secretless (LabelNamespaceWithProjectID E D ns p)"
  unfolding LabelNamespaceWithProjectID_def restart_controller_def
  by (intro emits_intro ds_quiet quiet_call [OF look(6)])

lemma emits_network_map: "ds_observes D lg \<Longrightarrow> emits lg secretless (HandleNetworkConfigMap E D c ns)"
  unfolding HandleNetworkConfigMap_def
  by (intro emits_intro ds_quiet emits_ensure_target quiet_call [OF look(9)])

lemma emits_HandleConfigSecrets:
  assumes "\<And>D. downstream = Some D \<Longrightarrow> ds_observes D lg"
  shows "emits lg (writes_for (pj_name p)) (HandleConfigSecrets E downstream cfg p ns network cluster lbType)"
  by (rule emits_safe [where G = "hand_step cfg p ns network cluster lbType"],
      rule hoare_weaken [OF hoare_HandleConfigSecrets [OF assms refl]]) (auto dest: hand_step_writes)

lemma emits_deletion: "emits lg secretless (handleQuotaDeletion E cfg q)"
  by (rule emits_safe [where G = "deletion_step cfg q"], rule hoare_weaken [OF hoare_handleQuotaDeletion])
    (auto elim: deletion_step.elims simp: secretless_def intro: looks_quiet [unfolded secretless_def])

lemma emits_ensure_attempt: "emits lg secretless (CmRetry E (ensure_attempt E n))"
  unfolding ensure_attempt_def
  by (intro emits_cm_retry emits_intro quiet_call [OF look(1)] emits_logs [OF call(2)]) (simp add: on_success_def secretless_def)

section \<open>The quota reconciler\<close>

lemma writes_call: "emits lg secretless m \<Longrightarrow> emits lg (writes_for p) m"
  by (erule emits_mono) (simp add: secretless_def writes_for_def)

lemma emits_provision_project:
  "pj_name project = p \<Longrightarrow> emits lg (writes_for p) (provision_project E cfg project cluster)"
  unfolding provision_project_def Let_def
  by (intro emits_if emits_return emits_client emits_try emits_check emits_let writes_call [OF quiet_call [OF look(9)]]
      writes_call [OF emits_network_map]) (auto intro: emits_HandleConfigSecrets looks_writes)

lemma hoare_read_quota:
  assumes "\<And>q. qm_name q = n \<Longrightarrow> emits lg (writes_for n) (f q)"
  shows "stable lg (safe quota_first) (try_with (CmGetQuota E n) g f)"
  unfolding stable_def
proof (rule hoare_try_results [where C = "\<lambda>q. qm_name q = n"])
  let ?R = "\<lambda>r h. safe quota_first h \<and> (\<forall>q. r = Inr q \<longrightarrow> QuotaRead n \<in> set h)"
  show "hoare lg (safe quota_first) (CmGetQuota E n) ?R"
    by (rule hoare_logs [OF call(1)]) (auto simp: on_value_def safe_snoc quota_first_def split: sum.splits)
  show "hoare lg (?R (Inr q)) (f q) (\<lambda>_. safe quota_first)" if "qm_name q = n" for q
    by (rule hoare_weaken [OF emitsD [OF assms [OF that] keeps_quota_read]]) auto
qed (auto dest: quota_name)

lemma stable_reconcileQuota: "stable lg (safe quota_first) (reconcileQuota E cfg n)"
  unfolding reconcileQuota_def
proof (rule hoare_read_quota)
  fix q :: QuotaMeta assume q: "qm_name q = n"
  have "emits lg (writes_for n) (case find (\<lambda>p. pj_name p = qm_name q) projects of
      None \<Rightarrow> State_Monad.return finished
    | Some project \<Rightarrow> if pj_ns project = [] then State_Monad.return finished
        else try_with (CmGetCluster E (pj_clusterName project)) failed (provision_project E cfg project))" for projects
    by (intro emits_option_eq emits_if emits_return emits_try writes_call [OF quiet_call [OF look(3)]] emits_provision_project)
      (auto simp: find_Some_iff q)
  then show "emits lg (writes_for n) (if qm_deletion q \<noteq> None then handleQuotaDeletion E cfg q
       else check_with (if containsFinalizer q then State_Monad.return None else CmRetry E (ensure_attempt E n)) failed
         (try_with (CmListProjects E) failed (\<lambda>projects.
            case find (\<lambda>p. pj_name p = qm_name q) projects of
              None \<Rightarrow> State_Monad.return finished
            | Some project \<Rightarrow>
                if pj_ns project = [] then State_Monad.return finished
                else try_with (CmGetCluster E (pj_clusterName project)) failed (provision_project E cfg project))))"
    by (intro emits_if emits_check emits_return writes_call [OF emits_ensure_attempt] writes_call [OF emits_deletion])
      (intro emits_try writes_call [OF quiet_call [OF look(8)]])
qed

section \<open>The cluster reconciler\<close>

lemma emits_releaseFips: "emits lg secretless (releaseFloatingIPs E n)"
proof -
  have "emits lg secretless (release_fips E n fips)" for fips
    by (induction fips) (auto intro!: emits_intro emits_logs [OF call(11)] simp: on_success_def secretless_def)
  then show ?thesis
    unfolding releaseFloatingIPs_def by (intro emits_try quiet_call [OF look(10)])
qed

lemma stable_hand_over:
  assumes D: "ds_observes D lg"
  shows "stable lg (safe quota_first) (hand_over E D cfg cluster harvester network lbType projectID)"
  unfolding hand_over_def
proof (rule stable_try [OF quiet_stable [OF quiet_call [OF look(8)]]], rule stable_option_eq, rule stable_return, rule hoare_read_quota)
  fix projects and project :: Project and q :: QuotaMeta
  assume "find (\<lambda>p. pj_name p = projectID) projects = Some project"
  then have p: "pj_name project = projectID" by (auto simp: find_Some_iff)
  show "emits lg (writes_for projectID) (check_with (LabelNamespaceWithProjectID E D (cg_lbNamespace cfg) projectID) later
        (check_with (HandleNetworkConfigMap E D (cu_displayName harvester) (cg_lbNamespace cfg)) later (do {
           r \<leftarrow> HandleConfigSecrets E (Some D) cfg project (pj_ns project) network (cu_name cluster) lbType;
           State_Monad.return (case r of (n, Some e) \<Rightarrow> (n, Some e) | (n, None) \<Rightarrow> requeue provisioningReconcileInterval) })))"
    unfolding p [symmetric]
    by (intro emits_check emits_bind emits_return writes_call [OF emits_label_namespace [OF D]] writes_call [OF emits_network_map [OF D]]
        emits_HandleConfigSecrets) (use D in simp)
qed

lemma emits_machine_project: "emits lg secretless (machine_project E c ns)"
  unfolding machine_project_def
  by (intro emits_try emits_sum emits_return emits_try_results [OF quiet_call [OF look(7)] new_client] quiet_call [OF look(5)])
    (auto intro!: emits_try emits_return ds_quiet split: prod.splits)

lemma emits_harvester_cluster: "emits lg secretless (harvester_cluster E pc)"
  unfolding harvester_cluster_def
  by (auto intro!: emits_try emits_option emits_return quiet_call look split: list.splits)

lemma stable_provision_credentials:
  assumes "ds_observes D lg"
  shows "stable lg (safe quota_first) (provision_credentials E D cfg cluster lbType)"
  unfolding provision_credentials_def
  by (intro stable_try stable_option stable_if stable_sum stable_prod stable_return stable_hand_over [OF assms]
      quiet_stable [OF emits_machine_project] quiet_stable [OF emits_harvester_cluster]
      quiet_stable [OF quiet_call [OF look(11)]] quiet_stable [OF quiet_call [OF look(12)]])

lemma connect_observed: "run_state (connect E cluster) s = (Inr x, s') \<Longrightarrow> ds_observes (snd x) lg"
  by (auto simp: connect_def try_with_def check_with_def split: prod.splits sum.splits option.splits if_splits dest: new_client)

lemma emits_connect: "emits lg secretless (connect E cluster)"
  unfolding connect_def
  by (intro emits_try emits_option emits_sum emits_return emits_check quiet_call [OF look(4)]
      emits_try_results [OF quiet_call [OF look(7)] new_client] ds_quiet)

lemma stable_provision:
  assumes H: "hi_observes H lg"
  shows "stable lg (safe quota_first) (provision E H cfg cluster)"
  unfolding provision_def
proof (rule stable_try_results [OF quiet_stable [OF emits_connect] connect_observed])
  fix x :: "string \<times> 'w dsclient" assume D: "ds_observes (snd x) lg"
  show "stable lg (safe quota_first) (case x of (config, D) \<Rightarrow> check_with (EnsureNamespace D (cg_lbNamespace cfg)) later
    (check_with (install_chart H config ((cg_lbChart cfg)\<lparr>ch_namespace := cg_lbNamespace cfg\<rparr>)) later
    (let lbType = load_balancer_type cluster in
     try_with (install_balancer H D cfg config lbType) (\<lambda>r. r) (\<lambda>u. provision_credentials E D cfg cluster lbType))))"
    by (rule stable_prod) (use D in \<open>auto intro!: stable_check stable_let stable_try quiet_stable [OF emits_EnsureNamespace]
      quiet_stable [OF emits_install_chart [OF H]] quiet_stable [OF emits_install_balancer [OF _ H]] stable_provision_credentials\<close>)
qed

lemma stable_reconcileCluster:
  assumes "hi_observes H lg"
  shows "stable lg (safe quota_first) (reconcileCluster E H cfg n)"
  unfolding reconcileCluster_def
  by (intro stable_bind stable_sum stable_if stable_check stable_return stable_provision [OF assms]
      quiet_stable [OF emits_releaseFips] quiet_stable [OF quiet_call [OF look(3)]])

end

text \<open>
  C10. Whatever a pass of the quota reconciler or of the cluster reconciler does, it writes a Secret (the credentials of a project or the
  CA bundle, in the local cluster or in a downstream one) only after it has read the quota of that project in the same
  pass. A project without a quota gets no credentials.
\<close>
theorem no_credentials_without_quota:
  assumes "cm_observes E lg" "hi_observes H lg" "m = reconcileQuota E cfg n \<or> m = reconcileCluster E H cfg n"
    and "run_state m s = (r, s')"
  shows "\<exists>tr. lg s' = lg s @ tr \<and> safe quota_first tr"
proof -
  note obs = cm_observed.intro [OF assms(1)]
  have "stable lg (safe quota_first) m"
    using assms(3) cm_observed.stable_reconcileQuota [OF obs] cm_observed.stable_reconcileCluster [OF obs assms(2)] by auto
  from hoareD [OF this [unfolded stable_def] assms(4), of "[]"] show ?thesis by simp
qed

definition live_world :: cmworld where
  "live_world = sweep_world\<lparr>cw_projects := [sample_project],
     cw_pools := [\<lparr>pt_name = ''pool'', pt_cluster = ''c-1'', pt_network = ''net'', pt_interface = ''eth0'',
                    pt_annotations = Some [(''rancher-fip-default-network'', ''true'')]\<rparr>],
     cw_secrets := [\<lparr>ks_ns = ''fleet-default'', ks_name = ''c-1-kubeconfig'', ks_data = [(''value'', ''cfg'')]\<rparr>], cw_remote := []\<rparr>"

lemma idle_helm_observed: "hi_observes idle_helm cw_log"
  by (simp add: hi_observes_def idle_helm_def no_answer_def)

lemma live_run:
  "map written (filter (\<lambda>ev. \<not> secretless ev) (cw_log (snd (run_state (reconcileQuota mem_cm sample_cfg ''p-live'') live_world)))) =
     [Some (NewLocalSecret ''rancher-fip-config-p-live'' ''c-1'' ''01020304'' ''p-live''),
      Some (credentials sample_cfg sample_project ''one--net'' ''c-1'' ''purelb'' ''01020304'')]"
  by code_simp

theorem no_credentials_without_quota_witness:
  "safe quota_first (cw_log (snd (run_state (reconcileQuota mem_cm sample_cfg ''p-live'') live_world))) \<and>
   filter (\<lambda>ev. \<not> secretless ev) (cw_log (snd (run_state (reconcileQuota mem_cm sample_cfg ''p-live'') live_world))) \<noteq> []"
proof
  let ?m = "reconcileQuota mem_cm sample_cfg ''p-live''"
  have "cw_log live_world = []" by (simp add: live_world_def sweep_world_def)
  with no_credentials_without_quota [OF mem_cm_observed idle_helm_observed disjI1 [OF refl], of sample_cfg "''p-live''" live_world,
      OF surjective_pairing]
  show "safe quota_first (cw_log (snd (run_state ?m live_world)))" by simp
qed (use live_run in auto)

end
