(* ===== verification/Cm_Release.thy ===== *)
theory Cm_Release
  imports Mem_Cm Api_Register
begin

text \<open>
  The end of a cluster: the reconciler gives back every FloatingIP the cluster had claimed. The labels it leaves are read as free by
  the manager and by the HTTP API, whatever requests had been made on them.
\<close>

section \<open>The labels\<close>

definition freed :: "FloatingIP \<Rightarrow> FloatingIP" where
  "freed fip = fip\<lparr>f_labels := map_option releaseClaimLabels (f_labels fip)\<rparr>"

lemma map_of_filter_key: "map_of (filter (\<lambda>(k, v). P k) m) k = (if P k then map_of m k else None)"
  by (induction m) auto

lemma lookup_releaseClaimLabels:
  "map_of (releaseClaimLabels m) k =
     (if claim_label k \<or> k = clusterNameLabel \<or> k = floatingipGroupLabel then None else map_of m k)"
  by (auto simp: releaseClaimLabels_def map_of_filter_key delete_conv')

lemma claim_label_svc_key: "claim_label (svc_key i f)"
  by (cases f) (auto simp: claim_label_def fipServiceLabelPrefix_def svc_key_def suffix_def)

lemma releaseClaimLabels_registers:
  assumes "registers m xs" shows "registers (releaseClaimLabels m) []"
proof -
  have d: "distinct (keys m)" and k: "\<forall>k \<in> set (keys m). service_key k \<longrightarrow> (\<exists>i f. k = svc_key i f)"
    using assms by (auto simp: registers_def)
  have sub: "k \<in> set (keys (releaseClaimLabels m)) \<Longrightarrow> k \<in> set (keys m) \<and> \<not> claim_label k" for k
    using lookup_releaseClaimLabels [of m k] map_of_None_keys [of "releaseClaimLabels m" k] map_of_None_keys [of m k] by (auto split: if_splits)
  have "distinct (keys (releaseClaimLabels m))"
    unfolding releaseClaimLabels_def using d
    by (simp add: distinct_keys_delete distinct_map_filter)
  moreover have "\<forall>k \<in> set (keys (releaseClaimLabels m)). service_key k \<longrightarrow> (\<exists>i f. k = svc_key i f)"
    using sub k by blast
  ultimately show ?thesis
    by (simp add: registers_def lookup_releaseClaimLabels claim_label_svc_key)
qed

lemma label_map: "label (map_option f l) k = (case l of None \<Rightarrow> [] | Some m \<Rightarrow> getz [] (f m) k)"
  by (cases l) (simp_all add: label_def getz_def)

lemma freed_labels:
  "label (f_labels (freed fip)) clusterNameLabel = []" "label (f_labels (freed fip)) floatingipGroupLabel = []"
  by (auto simp: freed_def label_map getz_def lookup_releaseClaimLabels split: option.splits)

lemma freed_registers: "registers (mof (f_labels fip)) xs \<Longrightarrow> registers (mof (f_labels (freed fip))) []"
  using releaseClaimLabels_registers [of "the (f_labels fip)" xs]
  by (cases "f_labels fip") (simp_all add: freed_def, simp add: registers_def)

text \<open>
  C15. However many requests of whatever clusters had claimed and released services on a FloatingIP that started without labels: once
  the cluster reconciler has given it back, the manager reads no service from it, it carries neither a cluster nor a
  group, every cluster and every request may claim it again, and the next claim finds it as if it were new.
\<close>
theorem cluster_gone_frees:
  assumes "mof (f_labels fip) = []" "length ops \<le> 2 ^ 63" "list_all request_valid ops" "request_valid (Claim c)"
  defines "given \<equiv> freed (fold perform_request ops fip)"
  shows "parseServicesFromLabels (f_labels given) = [] \<and> fipClaimableByCluster given cluster \<and> fipClaimableByRequest given cluster grp \<and>
    label (f_labels given) floatingipGroupLabel = [] \<and>
    parseServicesFromLabels (f_labels (perform_request (Claim c) given)) = [lc_service c]"
proof -
  have room: "label_room (length ops + 0) fip" using assms(1,2) by (intro empty_labels_room) simp_all
  have valid: "list_all labels.sound ops" using assms(3) by (simp add: list_all_iff request_valid_labels)
  have p: "perform_request = labels.perform" by (intro ext fun_cong [OF perform_request_labels])
  from labels.history [OF room valid] have "label_room 0 (fold perform_request ops fip)" unfolding p by blast
  then obtain xs where "registers (mof (f_labels (fold perform_request ops fip))) xs" by (rule label_roomE)
  then have r: "registers (mof (f_labels given)) []" unfolding given_def by (rule freed_registers)
  have none: "label_services given = []" using label_services_register [OF r] by simp
  have "label_room (Suc 0) given"
    by (rule label_roomI [OF r]) (simp_all add: next_index_def given_def freed_labels)
  then have "label_services (claim_labels c given) = [lc_service c]"
    using labels.services_claim [of 0 given c] assms(4) none by (simp add: claim_valid_def)
  then show ?thesis
    using none by (simp add: label_services_def claim_labels_def given_def fipClaimableByCluster_def fipClaimableByRequest_def freed_labels)
qed

theorem cluster_gone_frees_witness:
  "let web = \<lparr>ServiceNamespace = ''shop'', ServiceName = ''web''\<rparr>; db = \<lparr>ServiceNamespace = ''shop'', ServiceName = ''db''\<rparr>;
       c = (\<lambda>s. \<lparr>lc_project = ''p'', lc_cluster = ''c1'', lc_service = s, lc_group = ''g''\<rparr>);
       given = freed (fold perform_request [Claim (c web), Claim (c db)] (claimed_fip\<lparr>f_labels := None\<rparr>))
   in parseServicesFromLabels (f_labels given) = [] \<and> parseServicesFromLabels (f_labels (perform_request (Claim (c db)) given)) = [db]"
proof -
  let ?web = "\<lparr>ServiceNamespace = ''shop'', ServiceName = ''web''\<rparr>" and ?db = "\<lparr>ServiceNamespace = ''shop'', ServiceName = ''db''\<rparr>"
  let ?c = "\<lambda>s. \<lparr>lc_project = ''p'', lc_cluster = ''c1'', lc_service = s, lc_group = ''g''\<rparr>"
  let ?ops = "[Claim (?c ?web), Claim (?c ?db)]"
  have h: "mof (f_labels (claimed_fip\<lparr>f_labels := None\<rparr>)) = []" "length ?ops \<le> 2 ^ 63" "list_all request_valid ?ops"
      "request_valid (Claim (?c ?db))" by simp_all
  show ?thesis using cluster_gone_frees [OF h] by (simp add: Let_def)
qed

section \<open>The pass\<close>

context cm_observed begin

lemma hoare_release_fips:
  "hoare lg (\<lambda>h. h = h0) (release_fips E n fips)
     (\<lambda>r h. r = None \<longrightarrow> h = h0 @ map (FipUpdated \<circ> freed) (filter (\<lambda>f. label (f_labels f) clusterNameLabel = n) fips))"
proof (induction fips arbitrary: h0)
  case (Cons fip fips)
  have up: "hoare lg (\<lambda>h. h = h0) (CmUpdateFip E (freed fip)) (\<lambda>r h. r = None \<longrightarrow> h = h0 @ [FipUpdated (freed fip)])"
    by (rule hoare_logs [OF call(11)]) (simp add: on_success_def)
  have rest: "hoare lg (\<lambda>h. None = None \<longrightarrow> h = h0 @ [FipUpdated (freed fip)]) (release_fips E n fips)
     (\<lambda>r h. r = None \<longrightarrow> h = h0 @ map (FipUpdated \<circ> freed) (filter (\<lambda>f. label (f_labels f) clusterNameLabel = n) (fip # fips)))"
    if "label (f_labels fip) clusterNameLabel = n"
    by (rule hoare_weaken [OF Cons.IH [of "h0 @ [FipUpdated (freed fip)]"]]) (use that in simp_all)
  show ?case
    unfolding release_fips.simps freed_def [symmetric]
    by (rule hoare_if, rule hoare_post [OF Cons.IH], simp, rule hoare_check [OF up], simp, rule hoare_pre [OF rest], simp_all)
qed (auto intro: hoare_return)

lemma hoare_releaseFloatingIPs:
  "hoare lg (\<lambda>h. h = []) (releaseFloatingIPs E n)
     (\<lambda>r h. r = None \<longrightarrow> (\<exists>fips. h = FipsListed fips #
        map (FipUpdated \<circ> freed) (filter (\<lambda>f. label (f_labels f) clusterNameLabel = n) fips)))"
  unfolding releaseFloatingIPs_def
proof (rule hoare_try [where R = "\<lambda>r h. \<forall>fips. r = Inr fips \<longrightarrow> h = [FipsListed fips]"])
  show "hoare lg (\<lambda>h. h = []) (CmListFips E) (\<lambda>r h. \<forall>fips. r = Inr fips \<longrightarrow> h = [FipsListed fips])"
    by (rule hoare_logs [OF call(14)]) (simp add: on_value_def)
  show "hoare lg (\<lambda>h. \<forall>fs. Inr fips = Inr fs \<longrightarrow> h = [FipsListed fs]) (release_fips E n fips)
     (\<lambda>r h. r = None \<longrightarrow> (\<exists>fips. h = FipsListed fips #
        map (FipUpdated \<circ> freed) (filter (\<lambda>f. label (f_labels f) clusterNameLabel = n) fips)))" for fips
    by (rule hoare_weaken [OF hoare_release_fips [of "[FipsListed fips]"]]) auto
qed simp

end

text \<open>
  When the cluster reconciler finds that a cluster is gone and its pass succeeds, it has listed the FloatingIPs, rewritten every one
  that carried the cluster's name, in the order of the list and without its claim, and done nothing else.
\<close>
theorem gone_cluster_released:
  assumes "cm_observes E lg" "run_state (CmGetCluster E n) s = (Inl e, s1)" "IsNotFound e"
    and "run_state (reconcileCluster E H cfg n) s = (finished, s')"
  shows "\<exists>fips. lg s' = lg s @ ClusterMissing n # FipsListed fips #
     map (\<lambda>f. FipUpdated (freed f)) (filter (\<lambda>f. label (f_labels f) clusterNameLabel = n) fips)"
proof -
  note obs = cm_observed.intro [OF assms(1)]
  have 1: "lg s1 = lg s @ [ClusterMissing n]"
    using cm_observed.call(4) [OF obs, of n] assms(2,3) by (simp add: logs_def)
  have 2: "run_state (releaseFloatingIPs E n) s1 = (None, s')"
    using assms(2-4) by (auto simp: reconcileCluster_def check_with_def split: prod.splits option.splits)
  from hoareD [OF cm_observed.hoare_releaseFloatingIPs [OF obs] 2, of "[]"] 1 show ?thesis by (auto simp: comp_def)
qed

definition gone_world :: cmworld where
  "gone_world = empty_world\<lparr>cw_fips := [claimed_fip\<lparr>f_name := ''fip-0'', f_labels := None\<rparr>, claimed_fip]\<rparr>"

theorem gone_cluster_released_witness:
  "\<exists>fips. cw_log (snd (run_state (reconcileCluster mem_cm idle_helm sample_cfg ''c1'') gone_world)) =
     ClusterMissing ''c1'' # FipsListed fips # map (\<lambda>f. FipUpdated (freed f)) (filter (\<lambda>f. label (f_labels f) clusterNameLabel = ''c1'') fips)"
proof -
  have 1: "run_state (CmGetCluster mem_cm ''c1'') gone_world = (Inl NotFound, gone_world\<lparr>cw_log := [ClusterMissing ''c1'']\<rparr>)"
    by code_simp
  have 2: "run_state (reconcileCluster mem_cm idle_helm sample_cfg ''c1'') gone_world =
      (finished, snd (run_state (reconcileCluster mem_cm idle_helm sample_cfg ''c1'') gone_world))"
    by code_simp
  have 3: "cw_log gone_world = []" by (simp add: gone_world_def empty_world_def)
  from gone_cluster_released [OF mem_cm_observed 1 _ 2] show ?thesis unfolding 3 by simp
qed

end
