(* ===== verification/Cm_Helm_Props.thy ===== *)
theory Cm_Helm_Props
  imports Cm_Helm
begin

text \<open>
  Installing a chart: a run of \<open>InstallOrUpgrade\<close> that reports success leaves the release deployed at the chart's version, whatever failed on
  the way; and from whatever an earlier run left behind (nothing, records that cannot be decoded, a release that cannot
  be read, or one in any status) one run succeeds when the calls do.

  Helm and its storage driver are not in this repository. \<open>helm_sound\<close> states what a success of its calls means,
  \<open>helm_works\<close> a Helm on which only an upgrade may fail. The state is the list of
  storage records (name and data) of the release, and \<open>view\<close> is what Helm makes of them.
\<close>

section \<open>A Helm that works\<close>

datatype stored = Absent | Unreadable | Stored "Release option"

definition deployed :: "string \<Rightarrow> Release option" where
  "deployed v = Some \<lparr>rl_status = Some StatusDeployed, rl_version = Some v\<rparr>"

text \<open>A call that leaves the records alone and answers as \<open>f\<close> says of them.\<close>

definition replies :: "('w \<Rightarrow> 'r) \<Rightarrow> ('w, 'a) state \<Rightarrow> ('r \<Rightarrow> 'a \<Rightarrow> bool) \<Rightarrow> bool" where
  "replies recs m f \<longleftrightarrow> (\<forall>w r w'. run_state m w = (r, w') \<longrightarrow> recs w' = recs w \<and> f (recs w) r)"

text \<open>A call that turns the records into others.\<close>

definition changes :: "('w \<Rightarrow> 'r) \<Rightarrow> ('w, 'a) state \<Rightarrow> ('r \<Rightarrow> 'a \<Rightarrow> 'r \<Rightarrow> bool) \<Rightarrow> bool" where
  "changes recs m f \<longleftrightarrow> (\<forall>w r w'. run_state m w = (r, w') \<longrightarrow> f (recs w) r (recs w'))"

definition helm_works ::
  "'w helmenv \<Rightarrow> string \<Rightarrow> ChartSpec \<Rightarrow> string \<Rightarrow> ('w \<Rightarrow> (string \<times> string) list) \<Rightarrow> ((string \<times> string) list \<Rightarrow> stored) \<Rightarrow> bool" where
  "helm_works H config spec chrt recs view \<longleftrightarrow>
     (let cfg = (config, Spec_Namespace spec); rel = ReleaseName spec in
      view [] = Absent \<and> HmYaml H (Chart_Values spec) = None \<and> HmKube H config = None \<and>
      replies recs (HmInit H config (Spec_Namespace spec)) (\<lambda>_ r. r = None) \<and>
      replies recs (HmDownload H (ChartName spec) (Version spec)) (\<lambda>_ r. \<exists>p. r = Inr p) \<and>
      replies recs (HmRegistry H) (\<lambda>_ r. r = None) \<and>
      replies recs (HmLocate H cfg (ChartName spec) (Version spec) (RepoURL spec)) (\<lambda>_ r. \<exists>p. r = Inr p) \<and>
      (\<forall>p. replies recs (HmLoad H p) (\<lambda>_ r. r = Inr chrt)) \<and>
      replies recs (HmListRecords H cfg rel) (\<lambda>rs r. r = Inr rs) \<and>
      (\<forall>n. changes recs (HmDeleteRecord H cfg n) (\<lambda>rs r rs'. (\<forall>e. r = Some e \<longrightarrow> IsNotFound e) \<and> rs' = filter (\<lambda>x. fst x \<noteq> n) rs)) \<and>
      replies recs (HmHistory H cfg rel)
        (\<lambda>rs r. if view rs = Absent then \<exists>e. r = Some e \<and> is_release_not_found e else r = None) \<and>
      replies recs (HmGet H cfg rel)
        (\<lambda>rs r. (\<forall>x. view rs = Stored x \<longrightarrow> r = Inr x) \<and> (view rs = Unreadable \<longrightarrow> (\<exists>e. r = Inl e))) \<and>
      changes recs (HmInstall H cfg spec chrt) (\<lambda>rs r rs'. view rs = Absent \<longrightarrow> r = None \<and> view rs' = Stored (deployed chrt)) \<and>
      changes recs (HmUpgrade H cfg spec chrt)
        (\<lambda>rs r rs'. \<forall>x. view rs = Stored x \<longrightarrow> (if r = None then view rs' = Stored (deployed chrt) else \<exists>y. view rs' = Stored y) \<and>
           (releaseStatusOf x = StatusDeployed \<longrightarrow> r = None)) \<and>
      changes recs (HmUninstall H cfg rel) (\<lambda>rs r rs'. \<forall>x. view rs = Stored x \<longrightarrow> r = None \<and> view rs' = Absent))"

lemma repliesD: "replies recs m f \<Longrightarrow> run_state m w = (r, w') \<Longrightarrow> recs w' = recs w \<and> f (recs w) r"
  by (simp add: replies_def)

lemma changesD: "changes recs m f \<Longrightarrow> run_state m w = (r, w') \<Longrightarrow> f (recs w) r (recs w')"
  by (simp add: changes_def)

section \<open>Steps\<close>

lemma drop_records:
  assumes D: "\<forall>n. changes recs (HmDeleteRecord H cfg n) (\<lambda>rs r rs'. (\<forall>e. r = Some e \<longrightarrow> IsNotFound e) \<and> rs' = filter (\<lambda>x. fst x \<noteq> n) rs)"
    and run: "run_state (drop_release_records H cfg broken msg rs) w = (r, w')"
  shows "r = None \<and> recs w' = filter (\<lambda>x. fst x \<notin> fst ` set (filter (\<lambda>(n, d). broken d) rs)) (recs w)"
  using run
proof (induction rs arbitrary: w)
  case (Cons x rs)
  obtain n d where x: "x = (n, d)" by (cases x)
  show ?case
  proof (cases "broken d")
    case True
    obtain q w1 where del: "run_state (HmDeleteRecord H cfg n) w = (q, w1)" by (cases "run_state (HmDeleteRecord H cfg n) w")
    from changesD [OF spec [OF D] del] have q: "\<forall>e. q = Some e \<longrightarrow> IsNotFound e" and w1: "recs w1 = filter (\<lambda>x. fst x \<noteq> n) (recs w)" by auto
    from Cons.prems x True del q have "run_state (drop_release_records H cfg broken msg rs) w1 = (r, w')"
      by (auto simp: check_with_def but_not_found_def split: option.splits)
    from Cons.IH [OF this] w1 x True show ?thesis by (auto intro: filter_cong)
  next
    case False
    with Cons.prems x have "run_state (drop_release_records H cfg broken msg rs) w = (r, w')" by simp
    from Cons.IH [OF this] x False show ?thesis by simp
  qed
qed simp

definition healthy :: "string \<Rightarrow> stored \<Rightarrow> bool" where
  "healthy chrt st \<longleftrightarrow> (\<exists>x. st = Stored x \<and> releaseStatusOf x = StatusDeployed \<and> releaseChartVersion x = chrt)"

lemma deployed_healthy: "healthy chrt (Stored (deployed chrt))"
  by (simp add: healthy_def deployed_def releaseStatusOf_def releaseChartVersion_def)

lemma helm_laws:
  assumes "helm_works H config spec chrt recs view"
  shows "view [] = Absent" "HmYaml H (Chart_Values spec) = None" "HmKube H config = None"
    "replies recs (HmInit H config (Spec_Namespace spec)) (\<lambda>_ r. r = None)"
    "replies recs (HmDownload H (ChartName spec) (Version spec)) (\<lambda>_ r. \<exists>p. r = Inr p)"
    "replies recs (HmRegistry H) (\<lambda>_ r. r = None)"
    "replies recs (HmLocate H (config, Spec_Namespace spec) (ChartName spec) (Version spec) (RepoURL spec)) (\<lambda>_ r. \<exists>p. r = Inr p)"
    "replies recs (HmLoad H p) (\<lambda>_ r. r = Inr chrt)"
    "replies recs (HmListRecords H (config, Spec_Namespace spec) (ReleaseName spec)) (\<lambda>rs r. r = Inr rs)"
    "\<forall>n. changes recs (HmDeleteRecord H (config, Spec_Namespace spec) n)
        (\<lambda>rs r rs'. (\<forall>e. r = Some e \<longrightarrow> IsNotFound e) \<and> rs' = filter (\<lambda>x. fst x \<noteq> n) rs)"
    "replies recs (HmHistory H (config, Spec_Namespace spec) (ReleaseName spec))
        (\<lambda>rs r. if view rs = Absent then \<exists>e. r = Some e \<and> is_release_not_found e else r = None)"
    "replies recs (HmGet H (config, Spec_Namespace spec) (ReleaseName spec))
        (\<lambda>rs r. (\<forall>x. view rs = Stored x \<longrightarrow> r = Inr x) \<and> (view rs = Unreadable \<longrightarrow> (\<exists>e. r = Inl e)))"
    "changes recs (HmInstall H (config, Spec_Namespace spec) spec chrt)
        (\<lambda>rs r rs'. view rs = Absent \<longrightarrow> r = None \<and> view rs' = Stored (deployed chrt))"
    "changes recs (HmUpgrade H (config, Spec_Namespace spec) spec chrt)
        (\<lambda>rs r rs'. \<forall>x. view rs = Stored x \<longrightarrow> (if r = None then view rs' = Stored (deployed chrt) else \<exists>y. view rs' = Stored y) \<and>
           (releaseStatusOf x = StatusDeployed \<longrightarrow> r = None))"
    "changes recs (HmUninstall H (config, Spec_Namespace spec) (ReleaseName spec))
        (\<lambda>rs r rs'. \<forall>x. view rs = Stored x \<longrightarrow> r = None \<and> view rs' = Absent)"
  using assms unfolding helm_works_def Let_def by blast+

lemma install_absent:
  assumes W: "helm_works H config spec chrt recs view" and "view (recs w) = Absent"
    and "run_state (installRelease H (config, Spec_Namespace spec) spec chrt) w = (r, w')"
  shows "r = None \<and> healthy chrt (view (recs w'))"
  using assms(2,3) deployed_healthy
  by (auto simp: installRelease_def check_with_def split: prod.splits option.splits dest!: changesD [OF helm_laws(13) [OF W]])

lemma repair_stored:
  assumes W: "helm_works H config spec chrt recs view" and "view (recs w) = Stored x"
    and "run_state (repairRelease H (config, Spec_Namespace spec) spec chrt) w = (r, w')"
  shows "r = None \<and> healthy chrt (view (recs w'))"
  using assms(2,3) install_absent [OF W]
  by (auto simp: repairRelease_def check_with_def split: prod.splits option.splits dest!: changesD [OF helm_laws(15) [OF W]])

lemma upgrade_stored:
  assumes W: "helm_works H config spec chrt recs view" and "view (recs w) = Stored x"
    and "run_state (upgradeRelease H (config, Spec_Namespace spec) spec chrt) w = (r, w')"
  shows "(if r = None then healthy chrt (view (recs w')) else \<exists>y. view (recs w') = Stored y) \<and> (releaseStatusOf x = StatusDeployed \<longrightarrow> r = None)"
  using assms(2,3) deployed_healthy
  by (auto simp: upgradeRelease_def check_with_def split: prod.splits option.splits dest!: changesD [OF helm_laws(14) [OF W]])

lemma plan:
  "planReleaseAction st v chrt = actionSkip \<longleftrightarrow> st = StatusDeployed \<and> v = chrt"
  "planReleaseAction st v chrt = actionUpgrade \<Longrightarrow> st = StatusDeployed \<or> st = StatusFailed"
  by (cases st; simp split: if_splits)+

lemma converge_stored:
  assumes W: "helm_works H config spec chrt recs view" and x: "view (recs w) = Stored x"
    and run: "run_state (converge H (config, Spec_Namespace spec) spec chrt x) w = (r, w')"
  shows "r = None \<and> healthy chrt (view (recs w'))"
proof (cases "planReleaseAction (releaseStatusOf x) (releaseChartVersion x) chrt")
  case actionSkip
  with run x plan(1) show ?thesis by (auto simp: converge_def Let_def healthy_def)
next
  case actionUpgrade
  obtain q w1 where up: "run_state (upgradeRelease H (config, Spec_Namespace spec) spec chrt) w = (q, w1)"
    by (cases "run_state (upgradeRelease H (config, Spec_Namespace spec) spec chrt) w")
  note u = upgrade_stored [OF W x up]
  show ?thesis
  proof (cases q)
    case None
    with run up u actionUpgrade show ?thesis by (simp add: converge_def Let_def)
  next
    case (Some e)
    with u plan(2) [OF actionUpgrade] obtain y where y: "view (recs w1) = Stored y" and f: "releaseStatusOf x = StatusFailed" by auto
    with run up Some actionUpgrade have "run_state (repairRelease H (config, Spec_Namespace spec) spec chrt) w1 = (r, w')"
      by (simp add: converge_def Let_def)
    from repair_stored [OF W y this] show ?thesis .
  qed
next
  case actionRepair
  with run have "run_state (repairRelease H (config, Spec_Namespace spec) spec chrt) w = (r, w')" by (simp add: converge_def Let_def)
  from repair_stored [OF W x this] show ?thesis .
qed

lemma purge_all:
  assumes W: "helm_works H config spec chrt recs view"
    and "run_state (purgeReleaseRecords H (config, Spec_Namespace spec) (ReleaseName spec)) w = (r, w')"
  shows "r = None \<and> recs w' = []"
  using assms(2) helm_laws(3) [OF W]
  by (auto simp: purgeReleaseRecords_def try_with_def split: prod.splits
      dest!: repliesD [OF helm_laws(9) [OF W]] drop_records [OF helm_laws(10) [OF W]])

lemma sanitize:
  assumes W: "helm_works H config spec chrt recs view"
    and "run_state (purgeUndecodableRecords H (config, Spec_Namespace spec) (ReleaseName spec)) w = (r, w')"
  shows "r = None"
  using assms(2) helm_laws(3) [OF W]
  by (auto simp: purgeUndecodableRecords_def try_with_def split: prod.splits
      dest!: repliesD [OF helm_laws(9) [OF W]] drop_records [OF helm_laws(10) [OF W]])

lemma load_chart:
  assumes W: "helm_works H config spec chrt recs view"
    and "run_state (defaultLoadChart H (config, Spec_Namespace spec) spec) w = (r, w')"
  shows "r = Inr chrt"
  using assms(2)
  by (auto simp: defaultLoadChart_def locateChart_def try_with_def check_with_def split: prod.splits if_splits option.splits sum.splits
      dest!: repliesD [OF helm_laws(5) [OF W]] repliesD [OF helm_laws(6) [OF W]] repliesD [OF helm_laws(7) [OF W]] repliesD [OF helm_laws(8) [OF W]])

text \<open>With a Helm on which nothing but the upgrade of a failed release goes wrong, one run ends with success from any stored state.\<close>

lemma converges_unhindered:
  assumes W: "helm_works H config spec chrt recs view"
    and run: "run_state (InstallOrUpgrade H config spec) w = (r, w')"
  shows "r = None \<and> healthy chrt (view (recs w'))"
proof -
  let ?cfg = "(config, Spec_Namespace spec)" and ?rel = "ReleaseName spec"
  obtain q0 w0 where init: "run_state (HmInit H config (Spec_Namespace spec)) w = (q0, w0)" by (cases "run_state (HmInit H config (Spec_Namespace spec)) w")
  obtain q1 w1 where load: "run_state (defaultLoadChart H ?cfg spec) w0 = (q1, w1)" by (cases "run_state (defaultLoadChart H ?cfg spec) w0")
  obtain q2 w2 where clean: "run_state (purgeUndecodableRecords H ?cfg ?rel) w1 = (q2, w2)" by (cases "run_state (purgeUndecodableRecords H ?cfg ?rel) w1")
  obtain h w3 where hist: "run_state (HmHistory H ?cfg ?rel) w2 = (h, w3)" by (cases "run_state (HmHistory H ?cfg ?rel) w2")
  obtain g w4 where get: "run_state (HmGet H ?cfg ?rel) w3 = (g, w4)" by (cases "run_state (HmGet H ?cfg ?rel) w3")
  note h = repliesD [OF helm_laws(11) [OF W] hist] and g = repliesD [OF helm_laws(12) [OF W] get]
  have rest: "run_state (case h of
        Some e \<Rightarrow> if is_release_not_found e then installRelease H ?cfg spec chrt
                else State_Monad.return (Some (Wrap (''failed to check history of release '' @ ?rel) e))
      | None \<Rightarrow> do { g \<leftarrow> HmGet H ?cfg ?rel;
                case g of
                  Inl e \<Rightarrow> check_with (purgeReleaseRecords H ?cfg ?rel) (\<lambda>e. Some (Wrap (''failed to purge unreadable release '' @ ?rel) e))
                      (installRelease H ?cfg spec chrt)
                | Inr existing \<Rightarrow> converge H ?cfg spec chrt existing }) w3 = (r, w')"
    using run init load clean hist repliesD [OF helm_laws(4) [OF W] init] load_chart [OF W load] sanitize [OF W clean] helm_laws(2) [OF W]
    by (cases h) (simp_all add: InstallOrUpgrade_def Let_def check_with_def try_with_def)
  show ?thesis
  proof (cases "view (recs w3)")
    case Absent
    with h rest have "run_state (installRelease H ?cfg spec chrt) w3 = (r, w')" by auto
    from install_absent [OF W Absent this] show ?thesis .
  next
    case Unreadable
    with h g rest get have "run_state (check_with (purgeReleaseRecords H ?cfg ?rel) (\<lambda>e. Some (Wrap (''failed to purge unreadable release '' @ ?rel) e))
        (installRelease H ?cfg spec chrt)) w4 = (r, w')" by auto
    then obtain w5 where "run_state (purgeReleaseRecords H ?cfg ?rel) w4 = (None, w5)" "run_state (installRelease H ?cfg spec chrt) w5 = (r, w')"
      using purge_all [OF W, of w4] by (auto simp: check_with_def split: prod.splits option.splits)
    with purge_all [OF W this(1)] show ?thesis using install_absent [OF W, of w5] helm_laws(1) [OF W] by simp
  next
    case (Stored x)
    with h g rest get have "run_state (converge H ?cfg spec chrt x) w4 = (r, w')" by auto
    moreover have "view (recs w4) = Stored x" using Stored g by simp
    ultimately show ?thesis by (intro converge_stored [OF W]) auto
  qed
qed

section \<open>When calls fail\<close>

text \<open>
  What is relied on when any call may fail and anything may happen in between: only that a success is one. A chart that is
  loaded has the wanted version, a release that could be read is the stored one, and after an install or an upgrade that
  reported success the release is deployed at the version of the chart.
\<close>

definition helm_sound ::
  "'w helmenv \<Rightarrow> string \<Rightarrow> ChartSpec \<Rightarrow> string \<Rightarrow> ('w \<Rightarrow> (string \<times> string) list) \<Rightarrow> ((string \<times> string) list \<Rightarrow> stored) \<Rightarrow> bool" where
  "helm_sound H config spec chrt recs view \<longleftrightarrow>
     (let cfg = (config, Spec_Namespace spec); rel = ReleaseName spec in
      (\<forall>p w c w'. run_state (HmLoad H p) w = (Inr c, w') \<longrightarrow> c = chrt) \<and>
      (\<forall>w x w'. run_state (HmGet H cfg rel) w = (Inr x, w') \<longrightarrow> view (recs w') = Stored x) \<and>
      (\<forall>w w'. run_state (HmInstall H cfg spec chrt) w = (None, w') \<longrightarrow> view (recs w') = Stored (deployed chrt)) \<and>
      (\<forall>w w'. run_state (HmUpgrade H cfg spec chrt) w = (None, w') \<longrightarrow> view (recs w') = Stored (deployed chrt)))"

lemma helm_soundD:
  assumes "helm_sound H config spec chrt recs view"
  shows "run_state (HmLoad H p) w = (Inr c, w') \<Longrightarrow> c = chrt"
    "run_state (HmGet H (config, Spec_Namespace spec) (ReleaseName spec)) w = (Inr x, w') \<Longrightarrow> view (recs w') = Stored x"
    "run_state (HmInstall H (config, Spec_Namespace spec) spec chrt) w = (None, w') \<Longrightarrow> view (recs w') = Stored (deployed chrt)"
    "run_state (HmUpgrade H (config, Spec_Namespace spec) spec chrt) w = (None, w') \<Longrightarrow> view (recs w') = Stored (deployed chrt)"
  using assms unfolding helm_sound_def Let_def by blast+

lemma sound_install:
  "helm_sound H config spec chrt recs view \<Longrightarrow>
   run_state (installRelease H (config, Spec_Namespace spec) spec chrt) w = (None, w') \<Longrightarrow> healthy chrt (view (recs w'))"
  by (auto simp: installRelease_def check_with_def deployed_healthy split: prod.splits option.splits dest: helm_soundD(3))

lemma sound_repair:
  "helm_sound H config spec chrt recs view \<Longrightarrow>
   run_state (repairRelease H (config, Spec_Namespace spec) spec chrt) w = (None, w') \<Longrightarrow> healthy chrt (view (recs w'))"
  by (auto simp: repairRelease_def check_with_def split: prod.splits option.splits dest: sound_install)

lemma sound_converge:
  assumes S: "helm_sound H config spec chrt recs view" and x: "view (recs w) = Stored x"
    and run: "run_state (converge H (config, Spec_Namespace spec) spec chrt x) w = (None, w')"
  shows "healthy chrt (view (recs w'))"
proof (cases "planReleaseAction (releaseStatusOf x) (releaseChartVersion x) chrt")
  case actionSkip
  with run x plan(1) show ?thesis by (auto simp: converge_def Let_def healthy_def)
next
  case actionUpgrade
  with run show ?thesis
    by (auto simp: converge_def Let_def upgradeRelease_def check_with_def deployed_healthy
        split: prod.splits option.splits if_splits dest: sound_repair [OF S] helm_soundD(4) [OF S])
next
  case actionRepair
  with run sound_repair [OF S] show ?thesis by (simp add: converge_def Let_def)
qed

lemma sound_load:
  "helm_sound H config spec chrt recs view \<Longrightarrow> run_state (defaultLoadChart H cfg spec) w = (Inr c, w') \<Longrightarrow> c = chrt"
  by (auto simp: defaultLoadChart_def locateChart_def try_with_def check_with_def split: prod.splits if_splits option.splits sum.splits
      dest: helm_soundD(1))

lemma success_is_healthy:
  assumes S: "helm_sound H config spec chrt recs view" and run: "run_state (InstallOrUpgrade H config spec) w = (None, w')"
  shows "healthy chrt (view (recs w'))"
proof -
  let ?cfg = "(config, Spec_Namespace spec)" and ?rel = "ReleaseName spec"
  obtain q0 w0 where init: "run_state (HmInit H config (Spec_Namespace spec)) w = (q0, w0)" by (cases "run_state (HmInit H config (Spec_Namespace spec)) w")
  obtain q1 w1 where load: "run_state (defaultLoadChart H ?cfg spec) w0 = (q1, w1)" by (cases "run_state (defaultLoadChart H ?cfg spec) w0")
  obtain q2 w2 where clean: "run_state (purgeUndecodableRecords H ?cfg ?rel) w1 = (q2, w2)" by (cases "run_state (purgeUndecodableRecords H ?cfg ?rel) w1")
  have q0: "q0 = None" using run init by (cases q0) (simp_all add: InstallOrUpgrade_def Let_def check_with_def)
  obtain c where q1: "q1 = Inr c"
    using run init load q0 by (cases q1) (simp_all add: InstallOrUpgrade_def Let_def check_with_def try_with_def)
  then have c: "c = chrt" using load sound_load [OF S] by blast
  have yaml: "HmYaml H (Chart_Values spec) = None"
    using run init load q0 q1 by (cases "HmYaml H (Chart_Values spec)") (simp_all add: InstallOrUpgrade_def Let_def check_with_def try_with_def)
  have q2: "q2 = None"
    using run init load q0 q1 yaml clean by (cases q2) (simp_all add: InstallOrUpgrade_def Let_def check_with_def try_with_def)
  obtain h w3 where h: "run_state (HmHistory H ?cfg ?rel) w2 = (h, w3)" by (cases "run_state (HmHistory H ?cfg ?rel) w2")
  have rest: "run_state (case h of
        Some e \<Rightarrow> if is_release_not_found e then installRelease H ?cfg spec chrt
                else State_Monad.return (Some (Wrap (''failed to check history of release '' @ ?rel) e))
      | None \<Rightarrow> do { g \<leftarrow> HmGet H ?cfg ?rel;
                case g of
                  Inl e \<Rightarrow> check_with (purgeReleaseRecords H ?cfg ?rel) (\<lambda>e. Some (Wrap (''failed to purge unreadable release '' @ ?rel) e))
                      (installRelease H ?cfg spec chrt)
                | Inr existing \<Rightarrow> converge H ?cfg spec chrt existing }) w3 = (None, w')"
    using run init load q0 q1 c yaml clean q2 h by (cases h) (simp_all add: InstallOrUpgrade_def Let_def check_with_def try_with_def)
  obtain g w4 where g: "run_state (HmGet H ?cfg ?rel) w3 = (g, w4)" by (cases "run_state (HmGet H ?cfg ?rel) w3")
  show ?thesis
  proof (cases h)
    case (Some e)
    with rest show ?thesis by (auto split: if_splits dest: sound_install [OF S])
  next
    case None
    show ?thesis
    proof (cases g)
      case (Inl e)
      with rest g None show ?thesis
        by (auto simp: check_with_def split: prod.splits option.splits dest: sound_install [OF S])
    next
      case (Inr x)
      with g have "view (recs w4) = Stored x" by (auto dest: helm_soundD(2) [OF S])
      with rest g None Inr show ?thesis by (auto dest: sound_converge [OF S])
    qed
  qed
qed

section \<open>A deployed release is not uninstalled\<close>

lemma drop_release_records_uninstall:
  "drop_release_records (H\<lparr>HmUninstall := u\<rparr>) cfg broken msg = drop_release_records H cfg broken msg"
proof
  show "drop_release_records (H\<lparr>HmUninstall := u\<rparr>) cfg broken msg rs = drop_release_records H cfg broken msg rs" for rs
    by (induction rs) auto
qed

lemma decode_uninstall: "decodeReleaseRecord (H\<lparr>HmUninstall := u\<rparr>) = decodeReleaseRecord H"
  by (rule ext) (simp add: decodeReleaseRecord_def split: sum.split)

lemma uninstall_fields:
  "HmInit (H\<lparr>HmUninstall := u\<rparr>) = HmInit H" "HmYaml (H\<lparr>HmUninstall := u\<rparr>) = HmYaml H"
  "HmHistory (H\<lparr>HmUninstall := u\<rparr>) = HmHistory H" "HmGet (H\<lparr>HmUninstall := u\<rparr>) = HmGet H"
  by simp_all

lemma no_uninstall_parts:
  "defaultLoadChart (H\<lparr>HmUninstall := u\<rparr>) cfg spec = defaultLoadChart H cfg spec"
  "purgeUndecodableRecords (H\<lparr>HmUninstall := u\<rparr>) cfg rel = purgeUndecodableRecords H cfg rel"
  "purgeReleaseRecords (H\<lparr>HmUninstall := u\<rparr>) cfg rel = purgeReleaseRecords H cfg rel"
  "installRelease (H\<lparr>HmUninstall := u\<rparr>) cfg spec chrt = installRelease H cfg spec chrt"
  "upgradeRelease (H\<lparr>HmUninstall := u\<rparr>) cfg spec chrt = upgradeRelease H cfg spec chrt"
  by (simp_all add: defaultLoadChart_def locateChart_def purgeUndecodableRecords_def purgeReleaseRecords_def decode_uninstall
      installRelease_def upgradeRelease_def drop_release_records_uninstall cong: option.case_cong)

lemma converge_uninstall:
  "releaseStatusOf x = StatusDeployed \<Longrightarrow>
   converge (H\<lparr>HmUninstall := u\<rparr>) cfg spec chrt x = converge H cfg spec chrt x"
  by (simp add: converge_def Let_def no_uninstall_parts)

text \<open>
  A deployed release is never uninstalled, also when its upgrade fails: if every read of the release finds it deployed, the run does not
  depend on what an uninstall would do.
\<close>

lemma deployed_not_uninstalled:
  assumes "\<And>t x t'. run_state (HmGet H (config, Spec_Namespace spec) (ReleaseName spec)) t = (Inr x, t') \<Longrightarrow> releaseStatusOf x = StatusDeployed"
  shows "run_state (InstallOrUpgrade (H\<lparr>HmUninstall := u\<rparr>) config spec) w = run_state (InstallOrUpgrade H config spec) w"
proof -
  have get: "run_state (do { g \<leftarrow> HmGet H (config, Spec_Namespace spec) (ReleaseName spec);
        case g of Inl e \<Rightarrow> k e | Inr existing \<Rightarrow> converge (H\<lparr>HmUninstall := u\<rparr>) (config, Spec_Namespace spec) spec chrt existing }) t =
      run_state (do { g \<leftarrow> HmGet H (config, Spec_Namespace spec) (ReleaseName spec);
        case g of Inl e \<Rightarrow> k e | Inr existing \<Rightarrow> converge H (config, Spec_Namespace spec) spec chrt existing }) t" for chrt k t
    using assms by (auto split: prod.splits sum.splits simp: converge_uninstall)
  have get': "do { g \<leftarrow> HmGet H (config, Spec_Namespace spec) (ReleaseName spec);
        case g of Inl e \<Rightarrow> k e | Inr existing \<Rightarrow> converge (H\<lparr>HmUninstall := u\<rparr>) (config, Spec_Namespace spec) spec chrt existing } =
      do { g \<leftarrow> HmGet H (config, Spec_Namespace spec) (ReleaseName spec);
        case g of Inl e \<Rightarrow> k e | Inr existing \<Rightarrow> converge H (config, Spec_Namespace spec) spec chrt existing }" for chrt k
    by (rule state.expand, rule ext) (rule get)
  show ?thesis
    unfolding InstallOrUpgrade_def Let_def no_uninstall_parts uninstall_fields get' ..
qed

text \<open>
  C14. Whatever fails: when \<open>InstallOrUpgrade\<close> reports success, the release is deployed at the version of the chart, where of
  Helm only successes are trusted (a release that was read is the stored one, a successful install or upgrade has deployed
  the chart); and a release that every read finds deployed is never uninstalled, also when its upgrade fails. Success itself is proved
  under the assumption \<open>helm_works\<close> that nothing goes wrong but the upgrade of a release that is not deployed: initialization,
  chart, values, record storage, and reading, installing and uninstalling work. Then one run succeeds
  from any stored state, with undecodable records, an unreadable release, or a release in any status.
\<close>
theorem helm_converges:
  assumes S: "helm_sound H config spec chrt recs view"
    and run: "run_state (InstallOrUpgrade H config spec) w = (r, w')"
  shows "(r = None \<longrightarrow> healthy chrt (view (recs w'))) \<and>
    ((\<forall>t x t'. run_state (HmGet H (config, Spec_Namespace spec) (ReleaseName spec)) t = (Inr x, t') \<longrightarrow> releaseStatusOf x = StatusDeployed) \<longrightarrow>
       run_state (InstallOrUpgrade (H\<lparr>HmUninstall := u\<rparr>) config spec) w = (r, w')) \<and>
    (helm_works H config spec chrt recs view \<longrightarrow> r = None)"
proof (intro conjI impI)
  show "healthy chrt (view (recs w'))" if "r = None" using success_is_healthy [OF S] run that by blast
  show "run_state (InstallOrUpgrade (H\<lparr>HmUninstall := u\<rparr>) config spec) w = (r, w')"
    if "\<forall>t x t'. run_state (HmGet H (config, Spec_Namespace spec) (ReleaseName spec)) t = (Inr x, t') \<longrightarrow> releaseStatusOf x = StatusDeployed"
    by (rule trans [OF deployed_not_uninstalled run]) (use that in blast)
  show "r = None" if "helm_works H config spec chrt recs view" using converges_unhindered [OF that run] ..
qed

section \<open>A Helm in memory\<close>

text \<open>The state is the list of records. A record reads \<open>corrupt\<close>, or the first letter of a status and a version.\<close>

definition decode :: "string \<Rightarrow> Release option" where
  "decode d = Some \<lparr>rl_status = Some (if prefix ''D'' d then StatusDeployed else if prefix ''F'' d then StatusFailed else StatusPendingUpgrade),
     rl_version = Some (drop 1 d)\<rparr>"

definition mem_view :: "(string \<times> string) list \<Rightarrow> stored" where
  "mem_view rs = (if rs = [] then Absent else if snd (last rs) = ''corrupt'' then Unreadable else Stored (decode (snd (last rs))))"

type_synonym 'a helm_act = "((string \<times> string) list, 'a) state"

definition mem_install :: "string \<Rightarrow> kerr option helm_act" where
  "mem_install v = State (\<lambda>rs. if mem_view rs = Absent then (None, [(''v1'', CHR ''D'' # v)]) else (Some (Errorf ''name in use''), rs))"

definition mem_upgrade :: "string \<Rightarrow> kerr option helm_act" where
  "mem_upgrade v = State (\<lambda>rs. case mem_view rs of
     Stored x \<Rightarrow> if releaseStatusOf x = StatusDeployed then (None, rs @ [(''v2'', CHR ''D'' # v)]) else (Some (Errorf ''cannot upgrade''), rs)
   | _ \<Rightarrow> (Some ErrReleaseNotFound, rs))"

definition mem_uninstall :: "kerr option helm_act" where
  "mem_uninstall = State (\<lambda>rs. case mem_view rs of Stored x \<Rightarrow> (None, []) | _ \<Rightarrow> (Some ErrReleaseNotFound, rs))"

definition mem_helm :: "(string \<times> string) list helmenv" where
  "mem_helm =
     \<lparr>HmInit = \<lambda>c ns. State_Monad.return None, HmDownload = \<lambda>n v. State_Monad.return (Inr n), HmRegistry = State_Monad.return None,
      HmLocate = \<lambda>c n v u. State_Monad.return (Inr n), HmLoad = \<lambda>p. State_Monad.return (Inr ''1.0''), HmYaml = \<lambda>v. None,
      HmHistory = \<lambda>c n. State (\<lambda>rs. (if mem_view rs = Absent then Some ErrReleaseNotFound else None, rs)),
      HmGet = \<lambda>c n. State (\<lambda>rs. (case mem_view rs of Stored x \<Rightarrow> Inr x | _ \<Rightarrow> Inl (Errorf ''cannot decode''), rs)),
      HmInstall = \<lambda>c spec v. mem_install v, HmUpgrade = \<lambda>c spec v. mem_upgrade v, HmUninstall = \<lambda>c n. mem_uninstall,
      HmKube = \<lambda>c. None, HmListRecords = \<lambda>c n. State (\<lambda>rs. (Inr rs, rs)),
      HmDeleteRecord = \<lambda>c n. State (\<lambda>rs. (None, filter (\<lambda>x. fst x \<noteq> n) rs)),
      HmBase64 = \<lambda>d. Inr (map of_char d), HmGunzip = Inr,
      HmJson = \<lambda>b. if b = map of_char ''corrupt'' then Some (Errorf ''bad record'') else None\<rparr>"

definition sample_chart_spec :: ChartSpec where
  "sample_chart_spec = \<lparr>ChartName = ''lb/lb'', ReleaseName = ''lb'', Spec_Namespace = ''lb'', Version = ''1.0'', Chart_Values = [], RepoURL = []\<rparr>"

lemma decode_deployed: "decode (CHR ''D'' # v) = deployed v"
  by (simp add: decode_def deployed_def)

lemma mem_helm_works: "helm_works mem_helm ''cfg'' sample_chart_spec ''1.0'' (\<lambda>rs. rs) mem_view"
  unfolding helm_works_def Let_def replies_def changes_def
  by (intro conjI allI impI)
    (simp_all add: mem_helm_def mem_install_def mem_upgrade_def mem_uninstall_def mem_view_def decode_deployed ErrReleaseNotFound_def
      split: if_splits stored.splits, (auto simp: deployed_def split: if_splits)?)

lemma decode_sample: "decode ''D1.0'' = deployed ''1.0''"
  by (rule decode_deployed)

lemma mem_helm_sound: "helm_sound mem_helm ''cfg'' sample_chart_spec ''1.0'' (\<lambda>rs. rs) mem_view"
  unfolding helm_sound_def Let_def
  by (intro conjI allI impI)
    (auto simp: mem_helm_def mem_install_def mem_upgrade_def mem_view_def decode_sample split: if_splits stored.splits)

theorem helm_converges_witness:
  "healthy ''1.0'' (mem_view (snd (run_state (InstallOrUpgrade mem_helm ''cfg'' sample_chart_spec) [(''v1'', ''corrupt''), (''v2'', ''F0.9'')])))"
  using helm_converges [OF mem_helm_sound surjective_pairing] mem_helm_works by blast

end
