(* ===== verification/Spec2Isabelle.thy ===== *)
theory Spec2Isabelle
  imports Ipam_Props Fip_Props Pool_Props Quota_Props Webhook_Props Api_Auth_Props Api_Labels_Props Api_Watch
    Api_Handlers_Props Api_Cleanup Api_Register Lb_Loop Lb_Server_Props Cm_Guard Cm_Release Cm_Helm_Props
begin

text \<open>
  A verification library for the Rancher FIP manager.

  \<^bold>\<open>The program.\<close> The manager hands out floating IP addresses of pools to projects of a Rancher
  installation. Its state lives in three kinds of Kubernetes resources (FloatingIP, FloatingIPPool,
  FloatingIPProjectQuota) and in an in-memory address manager. Clients in the downstream clusters ask an
  HTTP API (\<open>src/apiserver\<close>) for an address; the API creates or relabels a FloatingIP; an
  admission webhook (\<open>src/pkg/webhook\<close>) decides whether the object may be created; the controllers of the
  manager (\<open>src/pkg/controller\<close>) see the object in their caches, claim an address from the address manager
  (\<open>src/pkg/ipam\<close>) and record it in the status of the FloatingIP, the pool and the quota of the
  project; the API waits for the status and answers.

  \<^bold>\<open>Foundations.\<close>
  \<^item> \<open>Prelude\<close>: Go maps as association lists with distinct keys (\<open>gomap\<close>), \<open>strings.Split\<close>, \<open>TrimPrefix\<close>,
    decimal text, and the lemmas the components share.
  \<^item> \<open>Netip\<close>: the parts of \<open>net/netip\<close> and \<open>net\<close> that the code uses: parsing and printing of IPv4 and IPv6
    addresses, \<open>Compare\<close>, \<open>Next\<close>, \<open>Prev\<close>, \<open>Unmap\<close>, prefixes and \<open>Contains\<close>. An address is its
    128-bit value, kept below \<open>2 ^ 128\<close>, with its zone.

  \<^bold>\<open>The address manager\<close>, \<open>pkg/ipam/ipam.go\<close>.
  \<^item> \<open>Ipam\<close>: the record \<open>IPSubnet\<close>, the allocator (a map from names to subnets) and all
    operations under the names of the source. The mutex is the atomicity of one operation.
    The loop of \<open>buildSubnet\<close> that fills the address map is a \<open>partial_function (option)\<close>: not returning is \<open>None\<close>.
  \<^item> \<open>Ipam_Correct\<close>: the invariant of a subnet and the effect of each operation on claims.
  \<^item> \<open>Claim_Store\<close>: the contract between the allocator and its clients as a locale, with the
    stability of claims proved from the laws; \<open>Ipam_Ops\<close> interprets it on the allocator and defines the calls, the reachable
    allocators and the abstract pools.
  \<^item> \<open>Ipam_Props\<close>: exclusivity, stability, refinement, invariant, exact effects and the exact
    condition under which building a subnet diverges.

  \<^bold>\<open>The controllers\<close>, \<open>pkg/controller\<close>.
  \<^item> \<open>Kube\<close>: the resources and the environment \<open>env\<close>: API client, informer caches, retry helper, clock and random
    source are parameters. A handler is a state transformer of the system state (the allocator and the rest
    of the world); every call to the environment may change both, which is how other goroutines
    interfere. What a property relies on is a hypothesis on the environment. \<open>Mem_Kube\<close> is one concrete
    environment, an API server in memory with optimistic locking, on which the hypotheses are shown to hold.
  \<^item> \<open>Services\<close>: \<open>service_labels.go\<close>. Go visits a map in any order: the parser is shown not to depend on it.
  \<^item> \<open>Fip_Controller\<close>, \<open>Pool_Controller\<close>, \<open>Quota_Controller\<close>: the sync handlers, whole, with every error path; each
    function literal passed to \<open>RetryOnConflict\<close> is a definition. The \<open>_Props\<close> theories hold what they guarantee.

  \<^bold>\<open>The admission webhook\<close>, \<open>pkg/webhook/service/service.go\<close>: \<open>Webhook\<close> models the decisions on FloatingIPs and pools,
  with the reservations of addresses and quota slots as the state; the instants the
  handler reads from the clock and the results of its API calls are arguments. Numbers in
  denial messages are left out. \<open>Webhook_Props\<close>: what an admission promises, no double
  admission of creations, no overrun of a quota in a burst of decisions, and how the checks relate to what the allocator can build.

  \<^bold>\<open>The HTTP API\<close>, \<open>apiserver\<close>.
  \<^item> \<open>Api_Env\<close>: requests, replies and the calls into the cluster as a record \<open>api\<close>; \<open>moves R m\<close> says that a program keeps to the
    relation \<open>R\<close>, with one rule per construct. \<open>Mem_Api\<close> is a concrete world.
  \<^item> \<open>Api_Auth\<close>: tokens, client secrets, the signing key, the rate limiter and the chain of middleware of
    \<open>main.go\<close>. The JWT library, RSA, PEM, JSON decoding and \<open>rate.Limiter\<close> are parameters.
  \<^item> \<open>Api_Labels\<close>: the service labels that requests write and releases remove, with Go's 64-bit \<open>int\<close> wrapped by \<open>wrap64\<close>.
  \<^item> \<open>Api_Watch\<close>: the wait for an address. The loop has fuel; with a context whose time
    is bounded, the fuel that is enough is part of the theorem.
  \<^item> \<open>Sha256\<close>: the hash in the name of a pinned FloatingIP, on 32-bit words.
  \<^item> \<open>Api_Handlers\<close>: the five handlers, whole. \<open>Api_Handlers_Props\<close>: claims outside the group path are guarded,
    and runs on which the handlers fall short. \<open>Api_Cleanup\<close>: the log of creations and removals of a request (locale \<open>api_observed\<close>), and
    that it removes nothing but the one object it created. \<open>Service_Register\<close>, \<open>Api_Register\<close>: the register of services as a locale,
    and that any sequence of requests and releases leaves what the manager reads.

  \<^bold>\<open>Work queues and start-up.\<close> \<open>Workers\<close>: the work loops of the three controllers (the queue is a record of operations), their
  events, \<open>Run\<close> and the order in which \<open>cmd/manager/main.go\<close> starts them. \<open>Workers_Props\<close>: no key
  is lost, and the start-up sequence (\<open>run_manager\<close>) recovers the recorded claims before the FloatingIP controller starts.

  \<^bold>\<open>The load balancer controller\<close>, \<open>lbcontroller/internal/controller/controller.go\<close> and
  \<open>lbcontroller/pkg/ipam/client.go\<close>.
  \<^item> \<open>Lb_Env\<close>: Services, pools and the environment \<open>lbenv\<close> (caches, writes, MetalLB and PureLB resources, HTTP exchanges, clock),
    with the client of the HTTP API. \<open>Mem_Lb\<close> is a concrete world.
  \<^item> \<open>Lb_Controller\<close>: names, annotations, updates, the tests whether an address is still used, and the cleanup of a
    Service. \<open>Lb_Allocate\<close>: the allocation, the publication, the record on the Service, \<open>reconcile\<close> as a
    whole, tombstones and events. Each block of the long method \<open>reconcile\<close> is a definition.
  \<^item> \<open>Trace_Logic\<close>: a Hoare logic over the histories of a program, one rule per construct, for any kind of events.
    \<open>Lb_Trace\<close>, \<open>Lb_Events\<close>, \<open>Lb_Traced\<close>: an environment that writes down the calls that matter (locale \<open>observed\<close>);
    every environment can be observed.
  \<^item> \<open>Lb_Props\<close>, \<open>Lb_Correct\<close>: in which order the calls come, on every path and whatever they answer:
    when an address is released (withdrawn, or another user was seen), which address a live Service gives back (one granted in
    the run, or held by a Service that is gone), when the finalizer goes.
    \<open>Lb_Contract\<close>: the controller against the HTTP API, the pools and deleted Services. \<open>Lb_Loop\<close>: its work loop.

  \<^item> \<open>Lb_Server\<close>: the management page, \<open>lbcontroller/pkg/http/server.go\<close>: sessions, CSRF tokens, the handlers and their routes.
    What other requests do meanwhile is a call of the environment at each point where a handler takes the mutex.
    \<open>Lb_Server_Props\<close>: the bound on sessions, who may change something, and what a release through the page does.

  \<^bold>\<open>The cluster manager\<close>, \<open>src/clustermanager\<close>, runs beside Rancher: it installs the load balancer controller in the downstream
  clusters and hands it the credentials of the projects that have a quota.
  \<^item> \<open>Cm_Env\<close>: the objects it uses, the clients of the local (\<open>cmenv\<close>) and the downstream clusters (\<open>dsclient\<close>), its configuration.
    \<open>Mem_Cm\<close> is a concrete world.
  \<^item> \<open>Cm_Secrets\<close>: the handlers both reconcilers share (\<open>secret_handler.go\<close>, \<open>namespace_handler.go\<close>, \<open>configmap_handler.go\<close>);
    \<open>Cm_Helm\<close>: the Helm client (\<open>internal/helm/helm.go\<close>); \<open>Cm_Quota\<close> and \<open>Cm_Provision\<close>: the reconcilers of quotas and clusters,
    whole, each block of the long methods a definition.
  \<^item> \<open>Cm_Trace\<close>: the events of its calls and the locale \<open>cm_observed\<close>. \<open>Cm_Cleanup\<close>: what the sweep and the deletion of a quota remove,
    when the finalizer goes, and that the grace window frees it. \<open>Cm_Credentials\<close>: which client secret goes where, in terms of the content of
    a Secret that was read or written last (\<open>stored_now\<close>, \<open>remote_now\<close>), and that the three programs agree on it. \<open>Cm_Guard\<close>: no credentials without a quota. \<open>Cm_Release\<close>: the FloatingIPs of a cluster that is gone.
    \<open>Cm_Helm_Props\<close>: a reported success means that the chart is deployed, where only successes of Helm are trusted (\<open>helm_sound\<close>), and
    an installation succeeds from any stored state when nothing fails but upgrades of releases that are not deployed (\<open>helm_works\<close>).

  \<^bold>\<open>Not modelled.\<close> Logging; metrics; start-up, flags, leader election and TLS of the programs; informer
  wiring; the registration and the certificates of the webhook (calls of libraries); generated
  clients and the REST clients of MetalLB and PureLB; HTTP transport and JSON decoding (a body \<open>null\<close> of the webhook is outside the
  type of reviews); the repository files of the Helm client. Deadlines show as errors of the calls.
\<close>

end
